(* ===== verification/Prelude.thy ===== *)
theory Prelude
  imports Main "HOL-Library.Word"
begin

text \<open>
  Shared vocabulary of the development.

  \<^item> Types that every component uses: bytes, unsigned 64 bit words, Go's \<open>error\<close> values
    (\<open>go_error\<close>) and the outcome of a call (\<open>outcome\<close>): a value, a returned error, a
    panic, or no return at all (a spin lock that is never released, a loop that never ends).
  \<^item> \<open>go_bind\<close>: sequencing of two calls that read and write the same state, with Go's
    ``\<open>if err != nil { return err }\<close>'': the state changes of the first call stay.
  \<^item> The conversions between signed and unsigned machine integers of the sources.
  \<^item> Generic lemmas on lists (\<open>overlay\<close>: a block write into a byte array).

  A Go \<open>int\<close> or \<open>int64\<close> is an \<open>int\<close> here. Arithmetic on it is written without the
  wrap-around at \<open>2 ^ 63\<close> where the theorems carry a bound that excludes it; 32 bit counters
  that are stepped without a bound are kept as words.
\<close>

named_theorems outcome_simps \<open>equations for sequencing fallible calls\<close>
named_theorems frame_simps \<open>what an operation leaves unchanged\<close>

type_synonym byte = "8 word"
type_synonym u64 = "64 word"
type_synonym i32 = "32 word"

section \<open>Errors and outcomes\<close>

datatype go_error = ErrEmpty | ErrFull | ErrClosed | EOF | Errorf string

datatype 'a outcome = Ok 'a | Err go_error | Panic | Hang

fun is_Ok :: "'a outcome \<Rightarrow> bool" where
  "is_Ok (Ok _) = True"
| "is_Ok _ = False"

lemma is_Ok_iff: "is_Ok r \<longleftrightarrow> (\<exists>x. r = Ok x)"
  by (cases r) auto

type_synonym ('s, 'a) go = "'s \<Rightarrow> 'a outcome \<times> 's"

definition go_return :: "'a \<Rightarrow> ('s, 'a) go" where
  "go_return x = (\<lambda>s. (Ok x, s))"

definition go_bind :: "('s, 'a) go \<Rightarrow> ('a \<Rightarrow> ('s, 'b) go) \<Rightarrow> ('s, 'b) go" where
  "go_bind m k = (\<lambda>s. case m s of
      (Ok x, s') \<Rightarrow> k x s'
    | (Err e, s') \<Rightarrow> (Err e, s')
    | (Panic, s') \<Rightarrow> (Panic, s')
    | (Hang, s') \<Rightarrow> (Hang, s'))"

lemma go_return_apply [simp]: "go_return x s = (Ok x, s)"
  by (simp add: go_return_def)

lemma go_bind_Ok [outcome_simps]: "m s = (Ok x, s') \<Longrightarrow> go_bind m k s = k x s'"
  by (simp add: go_bind_def)

lemma go_bind_Err [outcome_simps]: "m s = (Err e, s') \<Longrightarrow> go_bind m k s = (Err e, s')"
  by (simp add: go_bind_def)

lemma go_bind_Hang [outcome_simps]: "m s = (Hang, s') \<Longrightarrow> go_bind m k s = (Hang, s')"
  by (simp add: go_bind_def)

lemma go_bind_OkE:
  assumes "go_bind m k s = (Ok y, t)"
  obtains x u where "m s = (Ok x, u)" and "k x u = (Ok y, t)"
proof (cases "m s")
  case (Pair r u)
  with assms that show thesis by (cases r) (auto simp: go_bind_def)
qed

text \<open>An invariant that both calls keep is kept by their sequence, however the first ends.\<close>

lemma go_bind_inv:
  assumes m: "\<And>r u. m s = (r, u) \<Longrightarrow> I u"
    and k: "\<And>x u r v. m s = (Ok x, u) \<Longrightarrow> k x u = (r, v) \<Longrightarrow> I v"
    and run: "go_bind m k s = (r, t)"
  shows "I t"
proof (cases "m s")
  case (Pair q u)
  with assms show ?thesis by (cases q) (auto simp: go_bind_def)
qed

lemma go_bind_no_Err:
  "(\<And>s t. m s \<noteq> (Err e, t)) \<Longrightarrow> (\<And>x s t. k x s \<noteq> (Err e, t)) \<Longrightarrow> go_bind m k s \<noteq> (Err e, t)"
  by (auto simp: go_bind_def split: prod.splits outcome.splits)

text \<open>Sequencing without a state, and in order over a list.\<close>

definition out_bind :: "'a outcome \<Rightarrow> ('a \<Rightarrow> 'b outcome) \<Rightarrow> 'b outcome" where
  "out_bind r k = (case r of Ok x \<Rightarrow> k x | Err e \<Rightarrow> Err e | Panic \<Rightarrow> Panic | Hang \<Rightarrow> Hang)"

lemma out_bind_simps [simp]:
  "out_bind (Ok x) k = k x" "out_bind (Err e) k = Err e" "out_bind Panic k = Panic" "out_bind Hang k = Hang"
  by (simp_all add: out_bind_def)

lemma out_bind_eq_Ok: "out_bind r k = Ok y \<longleftrightarrow> (\<exists>x. r = Ok x \<and> k x = Ok y)"
  by (cases r) auto

fun traverse :: "('a \<Rightarrow> 'b outcome) \<Rightarrow> 'a list \<Rightarrow> 'b list outcome" where
  "traverse f [] = Ok []"
| "traverse f (x # xs) = out_bind (f x) (\<lambda>y. out_bind (traverse f xs) (\<lambda>ys. Ok (y # ys)))"

lemma traverse_Ok: "traverse (\<lambda>x. Ok (f x)) xs = Ok (map f xs)"
  by (induction xs) simp_all

lemma traverse_cong [fundef_cong]:
  "xs = ys \<Longrightarrow> (\<And>x. x \<in> set ys \<Longrightarrow> f x = g x) \<Longrightarrow> traverse f xs = traverse g ys"
  by (induction ys arbitrary: xs) auto

section \<open>Weakest preconditions\<close>

text \<open>
  \<open>wp h m Q E s\<close>: the call \<open>m\<close> from the state \<open>s\<close> does not panic, a value it returns
  satisfies \<open>Q\<close> and an error it returns satisfies \<open>E\<close>, each with the state it leaves. With
  \<open>h\<close> the call may also not return; without \<open>h\<close> it returns.
\<close>

definition wp :: "bool \<Rightarrow> ('s, 'a) go \<Rightarrow> ('a \<Rightarrow> 's \<Rightarrow> bool) \<Rightarrow> (go_error \<Rightarrow> 's \<Rightarrow> bool) \<Rightarrow> 's \<Rightarrow> bool" where
  "wp h m Q E s = (case m s of
      (Ok x, t) \<Rightarrow> Q x t
    | (Err e, t) \<Rightarrow> E e t
    | (Panic, t) \<Rightarrow> False
    | (Hang, t) \<Rightarrow> h)"

lemma wp_bind: "wp h (go_bind m k) Q E s = wp h m (\<lambda>x. wp h (k x) Q E) E s"
  by (auto simp: wp_def go_bind_def split: prod.splits outcome.splits)

lemma go_bind_assoc: "go_bind (go_bind m f) g = go_bind m (\<lambda>x. go_bind (f x) g)"
  by (auto simp: go_bind_def fun_eq_iff split: prod.splits outcome.splits)

lemma wp_conseq:
  "wp h m Q E s \<Longrightarrow> (\<And>x t. Q x t \<Longrightarrow> Q' x t) \<Longrightarrow> (\<And>e t. E e t \<Longrightarrow> E' e t) \<Longrightarrow> wp h m Q' E' s"
  by (auto simp: wp_def split: prod.splits outcome.splits)

lemma wp_cong: "m s = m' s \<Longrightarrow> wp h m' Q E s \<Longrightarrow> wp h m Q E s"
  by (simp add: wp_def)

lemma wp_Ok: "wp h m Q E s \<Longrightarrow> m s = (Ok x, t) \<Longrightarrow> Q x t"
  by (simp add: wp_def)

lemma wp_Err: "wp h m Q E s \<Longrightarrow> m s = (Err e, t) \<Longrightarrow> E e t"
  by (simp add: wp_def)

lemma wp_no_Panic: "wp h m Q E s \<Longrightarrow> m s \<noteq> (Panic, t)"
  by (auto simp: wp_def)

lemma wp_returns: "wp False m Q E s \<Longrightarrow> \<exists>r t. m s = (r, t) \<and> r \<noteq> Hang \<and> r \<noteq> Panic"
  by (auto simp: wp_def split: prod.splits outcome.splits)

section \<open>Machine integers\<close>

definition MaxInt64 :: int where
  "MaxInt64 = 2 ^ 63 - 1"

definition int64ToUint64 :: "int \<Rightarrow> u64" where
  "int64ToUint64 value = (if value < 0 then 0 else word_of_int value)"

definition uint64ToInt64 :: "u64 \<Rightarrow> int" where
  "uint64ToInt64 value = (if uint value > MaxInt64 then 0 else uint value)"

definition uint64ToInt :: "u64 \<Rightarrow> int" where
  "uint64ToInt value = (if uint value > MaxInt64 then 0 else uint value)"

definition intToUint64 :: "int \<Rightarrow> u64" where
  "intToUint64 value = (if value < 0 then 0 else word_of_int value)"

lemma uint64ToInt64_bounds: "0 \<le> uint64ToInt64 v" "uint64ToInt64 v \<le> MaxInt64"
  by (auto simp: uint64ToInt64_def MaxInt64_def)

lemma uint_word_of_int_64: "0 \<le> v \<Longrightarrow> v \<le> MaxInt64 \<Longrightarrow> uint (word_of_int v :: u64) = v"
  by (simp add: MaxInt64_def uint_word_of_int)

lemma int64_roundtrip [simp]:
  "0 \<le> v \<Longrightarrow> v \<le> MaxInt64 \<Longrightarrow> uint64ToInt64 (int64ToUint64 v) = v"
  by (simp add: uint64ToInt64_def int64ToUint64_def uint_word_of_int_64)

lemma int_roundtrip [simp]:
  "0 \<le> v \<Longrightarrow> v \<le> MaxInt64 \<Longrightarrow> uint64ToInt (intToUint64 v) = v"
  by (simp add: uint64ToInt_def intToUint64_def uint_word_of_int_64)

text \<open>Go's \<open>%\<close> takes the sign of the dividend.\<close>

definition go_rem :: "int \<Rightarrow> int \<Rightarrow> int" where
  "go_rem a b = sgn a * (\<bar>a\<bar> mod \<bar>b\<bar>)"

lemma go_rem_nonneg [simp]: "0 \<le> a \<Longrightarrow> 0 < b \<Longrightarrow> go_rem a b = a mod b"
  by (cases "a = 0") (auto simp: go_rem_def)

section \<open>Block writes into a byte array\<close>

definition overlay :: "'a list \<Rightarrow> nat \<Rightarrow> 'a list \<Rightarrow> 'a list" where
  "overlay xs n ys = take n xs @ take (length xs - n) ys @ drop (n + length ys) xs"

lemma length_overlay [simp]: "n \<le> length xs \<Longrightarrow> length (overlay xs n ys) = length xs"
  by (auto simp: overlay_def)

lemma nth_overlay:
  "n \<le> length xs \<Longrightarrow> i < length xs \<Longrightarrow>
   overlay xs n ys ! i = (if n \<le> i \<and> i < n + length ys then ys ! (i - n) else xs ! i)"
  by (auto simp: overlay_def nth_append min_def)

lemma take_drop_overlay_same:
  "n + length ys \<le> length xs \<Longrightarrow> take (length ys) (drop n (overlay xs n ys)) = ys"
  by (simp add: overlay_def)

lemma take_drop_overlay_disjoint:
  assumes "n \<le> length xs" and "m + k \<le> length xs" and "m + k \<le> n \<or> n + length ys \<le> m"
  shows "take k (drop m (overlay xs n ys)) = take k (drop m xs)"
  using assms by (intro nth_equalityI) (auto simp: nth_overlay)

text \<open>\<open>os.File.Truncate\<close>: cut the file, or extend it with zero bytes.\<close>

definition truncate_to :: "nat \<Rightarrow> byte list \<Rightarrow> byte list" where
  "truncate_to n c = take n c @ replicate (n - length c) 0"

lemma length_truncate_to [simp]: "length (truncate_to n c) = n"
  by (simp add: truncate_to_def)

lemma truncate_to_id [simp]: "length c = n \<Longrightarrow> truncate_to n c = c"
  by (simp add: truncate_to_def)

end
