(* ===== verification/Go_Strings.thy ===== *)
theory Go_Strings
  imports Prelude
begin

text \<open>
  What the sources use of the packages \<open>strings\<close> and \<open>strconv\<close>: splitting at a separator,
  trimming, prefix and suffix tests, printing and parsing of decimal integers. A Go string is
  a list of bytes, here \<open>char\<close>s. The lemmas are the round trips the clients need: parsing a
  printed integer, splitting a joined pair, injectivity of printing.
\<close>

section \<open>Decimal integers\<close>

definition digit_char :: "nat \<Rightarrow> char" where
  "digit_char d = char_of (48 + d)"

definition is_digit :: "char \<Rightarrow> bool" where
  "is_digit c \<longleftrightarrow> 48 \<le> (of_char c :: nat) \<and> (of_char c :: nat) \<le> 57"

definition digit_val :: "char \<Rightarrow> nat" where
  "digit_val c = of_char c - 48"

fun digits_of :: "nat \<Rightarrow> string" where
  "digits_of n = (if n < 10 then [digit_char n] else digits_of (n div 10) @ [digit_char (n mod 10)])"

declare digits_of.simps [simp del]

definition digits_val :: "string \<Rightarrow> nat" where
  "digits_val s = foldl (\<lambda>v c. 10 * v + digit_val c) 0 s"

definition FormatInt :: "int \<Rightarrow> string" where
  "FormatInt i = (if i < 0 then CHR ''-'' # digits_of (nat (- i)) else digits_of (nat i))"

definition ParseInt :: "string \<Rightarrow> int outcome" where
  "ParseInt s =
     (let neg = (s \<noteq> [] \<and> hd s = CHR ''-'');
          body = (if s \<noteq> [] \<and> (hd s = CHR ''-'' \<or> hd s = CHR ''+'') then tl s else s);
          v = int (digits_val body)
      in if body = [] \<or> \<not> list_all is_digit body then Err (Errorf ''invalid syntax'')
         else if neg then (if v > MaxInt64 + 1 then Err (Errorf ''value out of range'') else Ok (- v))
         else (if v > MaxInt64 then Err (Errorf ''value out of range'') else Ok v))"

lemma digit_char_facts:
  assumes "d < 10"
  shows "is_digit (digit_char d)" and "digit_val (digit_char d) = d"
    and "digit_char d \<noteq> CHR ''-''" and "digit_char d \<noteq> CHR ''+''"
proof -
  have v: "(of_char (digit_char d) :: nat) = 48 + d"
    using assms by (simp add: digit_char_def)
  then show "is_digit (digit_char d)" "digit_val (digit_char d) = d"
    using assms by (auto simp: is_digit_def digit_val_def)
  show "digit_char d \<noteq> CHR ''-''" "digit_char d \<noteq> CHR ''+''"
    using v by auto
qed

lemma digits_of_facts:
  "digits_of n \<noteq> [] \<and> list_all is_digit (digits_of n) \<and> digits_val (digits_of n) = n"
proof (induction n rule: digits_of.induct)
  case (1 n)
  show ?case
  proof (cases "n < 10")
    case True
    then show ?thesis
      by (subst (1 2 3) digits_of.simps) (simp add: digit_char_facts digits_val_def)
  next
    case False
    have "n mod 10 < 10" by simp
    from False "1.IH" digit_char_facts [OF this] show ?thesis
      by (subst (1 2 3) digits_of.simps) (simp add: digits_val_def)
  qed
qed

lemma is_digit_no_sign: "is_digit c \<Longrightarrow> c \<noteq> CHR ''-'' \<and> c \<noteq> CHR ''+'' \<and> c \<noteq> CHR ''/'' \<and> c \<noteq> CHR ''_''"
  by (auto simp: is_digit_def)

lemma digits_of_no_sign: "c \<in> set (digits_of n) \<Longrightarrow> c \<noteq> CHR ''-'' \<and> c \<noteq> CHR ''+'' \<and> c \<noteq> CHR ''/'' \<and> c \<noteq> CHR ''_''"
  using digits_of_facts [of n] is_digit_no_sign by (auto simp: list_all_iff)

lemma FormatInt_nonneg_chars: "0 \<le> i \<Longrightarrow> c \<in> set (FormatInt i) \<Longrightarrow> c \<noteq> CHR ''-''"
  by (auto simp: FormatInt_def dest: digits_of_no_sign)

lemma ParseInt_FormatInt:
  assumes "- MaxInt64 - 1 \<le> i" and "i \<le> MaxInt64"
  shows "ParseInt (FormatInt i) = Ok i"
proof (cases "i < 0")
  case True
  with assms digits_of_facts [of "nat (- i)"] show ?thesis
    by (simp add: ParseInt_def FormatInt_def Let_def)
next
  case False
  have "hd (digits_of (nat i)) \<in> set (digits_of (nat i))"
    using digits_of_facts by auto
  from digits_of_no_sign [OF this] False assms digits_of_facts [of "nat i"] show ?thesis
    by (simp add: ParseInt_def FormatInt_def Let_def)
qed

lemma digits_of_inject: "digits_of m = digits_of n \<Longrightarrow> m = n"
  by (metis digits_of_facts)

lemma FormatInt_inject: "0 \<le> i \<Longrightarrow> 0 \<le> j \<Longrightarrow> FormatInt i = FormatInt j \<Longrightarrow> i = j"
  by (auto simp: FormatInt_def dest!: digits_of_inject)

section \<open>Splitting, trimming, prefixes\<close>

fun Split :: "char \<Rightarrow> string \<Rightarrow> string list" where
  "Split c [] = [[]]"
| "Split c (x # xs) =
     (if x = c then [] # Split c xs
      else (case Split c xs of [] \<Rightarrow> [[x]] | w # ws \<Rightarrow> (x # w) # ws))"

fun TrimLeft :: "char \<Rightarrow> string \<Rightarrow> string" where
  "TrimLeft c [] = []"
| "TrimLeft c (x # xs) = (if x = c then TrimLeft c xs else x # xs)"

definition HasPrefix :: "string \<Rightarrow> string \<Rightarrow> bool" where
  "HasPrefix s p \<longleftrightarrow> take (length p) s = p"

definition HasSuffix :: "string \<Rightarrow> string \<Rightarrow> bool" where
  "HasSuffix s p \<longleftrightarrow> length p \<le> length s \<and> drop (length s - length p) s = p"

fun IndexByte :: "string \<Rightarrow> char \<Rightarrow> nat option" where
  "IndexByte [] c = None"
| "IndexByte (x # xs) c = (if x = c then Some 0 else map_option Suc (IndexByte xs c))"

lemma Split_nonempty [simp]: "Split c s \<noteq> []"
  by (induction s) (auto split: list.splits)

lemma Split_no_sep: "c \<notin> set s \<Longrightarrow> Split c s = [s]"
  by (induction s) auto

lemma Split_append_sep: "c \<notin> set a \<Longrightarrow> Split c (a @ c # b) = a # Split c b"
  by (induction a) auto

lemma Split_no_sep_elem: "w \<in> set (Split c s) \<Longrightarrow> c \<notin> set w"
  by (induction s arbitrary: w) (fastforce split: list.splits if_splits)+

fun Join :: "char \<Rightarrow> string list \<Rightarrow> string" where
  "Join c [] = []"
| "Join c [w] = w"
| "Join c (w # ws) = w @ c # Join c ws"

lemma Join_Cons: "ws \<noteq> [] \<Longrightarrow> Join c (w # ws) = w @ c # Join c ws"
  by (cases ws) auto

lemma Join_Split: "Join c (Split c s) = s"
proof (induction s)
  case (Cons x xs)
  then show ?case
    by (cases "Split c xs") (auto simp: Join_Cons, metis Join.simps(2) Join_Cons append_Cons list.exhaust)
qed simp

lemma IndexByte_Some:
  "IndexByte s c = Some i \<Longrightarrow> i < length s \<and> s ! i = c \<and> c \<notin> set (take i s)"
  by (induction s arbitrary: i) (auto split: if_splits)

lemma IndexByte_None: "IndexByte s c = None \<longleftrightarrow> c \<notin> set s"
  by (induction s) auto

end
