(* ===== verification/Event.thy ===== *)
theory Event
  imports Go_Strings "HOL-Library.AList"
begin

text \<open>
  The data that flows through the pipes: \<open>SniffData\<close> (a generated protobuf message of the
  protocol repository, modelled by the fields and the \<open>oneof\<close> cases the sources use) and the
  types of \<open>internal/satellite/event/event.go\<close>. Messages that the satellite only passes on
  are opaque (\<open>msg\<close>, their wire form); a message whose fields the code reads is a record.
  A Go map that the code iterates over is an association list with distinct keys: its list
  order stands for the iteration order, which Go leaves open, so theorems over all lists
  cover every order.
\<close>

type_synonym msg = "byte list"

datatype SniffType =
    Logging | TracingType | JVMMetricType | CLRMetricType | ManagementType | ProfileType
  | EventType | MeterType | ConfigurationDiscoveryServiceType
  | EnvoyALSV2Type | EnvoyALSV3Type | EnvoyMetricsV2Type | EnvoyMetricsV3Type
  | EBPFProcessType | EBPFProfilingType | EBPFAccessLogType
  | OpenTelementryMetricsV1Type | AsyncProfilerType

record meter_data =
  m_service :: string
  m_instance :: string
  m_value :: msg

record instance_ping =
  p_service :: string
  p_instance :: string

text \<open>An attribute is a key with a string value; a resource may be absent.\<close>

type_synonym otlp_attributes = "(string \<times> string) list"
type_synonym otlp_request = "otlp_attributes option list"

record metrics_message =
  msg_identifier :: "string option"
  metrics_body :: msg

datatype payload =
    LogList "msg list"
  | Segment msg
  | SpanAttachedEvent msg
  | Jvm msg
  | Clr msg
  | Instance msg
  | InstancePing instance_ping
  | Profile msg
  | ProfileTaskQuery msg
  | ProfileTaskFinish msg
  | Commands msg
  | NativeEvent msg
  | MeterCollection "meter_data list"
  | ConfigurationSyncRequest msg
  | EnvoyALSV2List "msg list"
  | EnvoyALSV3List "msg list"
  | EnvoyMetricsV2List "metrics_message list"
  | EnvoyMetricsV3List "metrics_message list"
  | EBPFProcessReportList msg
  | EBPFProcessPingPkgList msg
  | EBPFReportProcessDownstream msg
  | EBPFProfilingDataList "msg list"
  | EBPFProfilingTaskQuery msg
  | ContinuousProfilingPolicyQuery msg
  | ContinuousProfilingReport msg
  | EBPFAccessLogList "msg list"
  | OpenTelementryMetricsV1Request otlp_request
  | AsyncProfilerTaskCommandQuery msg
  | AsyncProfilerData msg
  | AsyncProfilerCollectionResponse msg

record sniff_data =
  Name :: string
  Timestamp :: int
  Type :: SniffType
  Remote :: bool
  Data :: "payload option"

section \<open>event.go\<close>

record Offset =
  Partition :: int
  Position :: string

type_synonym BatchEvents = "sniff_data list"

record OutputEventContext =
  Context :: "(string \<times> sniff_data) list"
  ctx_Offset :: "Offset option"

definition Put :: "OutputEventContext \<Rightarrow> sniff_data \<Rightarrow> OutputEventContext" where
  "Put c event = c\<lparr>Context := AList.update (Name event) event (Context c)\<rparr>"

definition Get :: "OutputEventContext \<Rightarrow> string \<Rightarrow> sniff_data outcome" where
  "Get c eventName =
     (case map_of (Context c) eventName of
        None \<Rightarrow> Err (Errorf (''cannot find the event name in OutputEventContext : '' @ eventName))
      | Some e \<Rightarrow> Ok e)"

definition Offset_String :: "Offset option \<Rightarrow> string" where
  "Offset_String off =
     (case off of None \<Rightarrow> [] | Some o1 \<Rightarrow> FormatInt (Partition o1) @ ''_'' @ Position o1)"

definition ctx_wf :: "OutputEventContext \<Rightarrow> bool" where
  "ctx_wf c \<longleftrightarrow> distinct (map fst (Context c)) \<and> list_all (\<lambda>p. Name (snd p) = fst p) (Context c)"

lemma update_named:
  "list_all (\<lambda>p. Name (snd p) = fst p) xs \<Longrightarrow>
   list_all (\<lambda>p. Name (snd p) = fst p) (AList.update (Name e) e xs)"
  by (induction xs) auto

lemma Put_ctx_wf: "ctx_wf c \<Longrightarrow> ctx_wf (Put c e)"
  by (simp add: ctx_wf_def Put_def distinct_update update_named)

lemma Get_Put: "Get (Put c e) n = (if n = Name e then Ok e else Get c n)"
  by (simp add: Get_def Put_def update_conv)

lemma Offset_String_inject:
  assumes "0 \<le> Partition a" and "0 \<le> Partition b"
    and "Offset_String (Some a) = Offset_String (Some b)"
  shows "Partition a = Partition b \<and> Position a = Position b"
proof -
  have sep: "Split (CHR ''_'') (FormatInt i @ CHR ''_'' # p) = FormatInt i # Split (CHR ''_'') p"
    if "0 \<le> i" for i p
    using that digits_of_no_sign by (intro Split_append_sep) (auto simp: FormatInt_def)
  from assms have eq: "FormatInt (Partition a) @ CHR ''_'' # Position a
      = FormatInt (Partition b) @ CHR ''_'' # Position b"
    by (simp add: Offset_String_def)
  then have "FormatInt (Partition a) = FormatInt (Partition b)"
    by (metis sep assms(1,2) list.inject)
  with eq assms(1,2) show ?thesis by (auto dest: FormatInt_inject)
qed

end
