(* ===== verification/Queue_Api.thy ===== *)
theory Queue_Api
  imports Event
begin

text \<open>
  \<open>plugins/queue/api\<close>: the interface of the queue plugins. The errors are values of
  \<open>go_error\<close>. \<open>queue_ops\<close> is the method table of a queue, the argument of the code that is
  written against the interface (the partitioned queue). The locale \<open>queue_api\<close> states what a
  queue promises its clients: \<open>pending n q es\<close> says that \<open>es\<close> are the events that are
  enqueued and not yet dequeued, and that the counters of the queue stay in their range for
  \<open>n\<close> more calls; every call that returns acts on that list as a FIFO queue.
  A call may also not return (outcome \<open>Hang\<close>), about which the interface says nothing.
\<close>

record SequenceEvent =
  se_Event :: sniff_data
  se_Offset :: Offset

record 'q queue_ops =
  q_Initialize :: "('q, unit) go"
  q_Enqueue :: "sniff_data \<Rightarrow> ('q, unit) go"
  q_Dequeue :: "('q, SequenceEvent) go"
  q_Close :: "('q, unit) go"
  q_Ack :: "Offset \<Rightarrow> ('q, unit) go"
  q_TotalSize :: "'q \<Rightarrow> int"
  q_UsedCount :: "'q \<Rightarrow> int"
  q_IsFull :: "'q \<Rightarrow> bool"

section \<open>Sequences of calls\<close>

datatype qop = QEnq sniff_data | QDeq

text \<open>
  The accepted events, the delivered events and the final queue of a sequence of calls;
  \<open>None\<close> when a call does not return.
\<close>

fun qrun :: "(sniff_data \<Rightarrow> ('q, unit) go) \<Rightarrow> ('q, SequenceEvent) go \<Rightarrow> qop list \<Rightarrow> 'q
    \<Rightarrow> (sniff_data list \<times> sniff_data list \<times> 'q) option" where
  "qrun enq deq [] q = Some ([], [], q)"
| "qrun enq deq (QEnq e # ops) q =
     (case enq e q of
        (Ok _, q') \<Rightarrow> map_option (\<lambda>(a, d, s). (e # a, d, s)) (qrun enq deq ops q')
      | (Err _, q') \<Rightarrow> qrun enq deq ops q'
      | _ \<Rightarrow> None)"
| "qrun enq deq (QDeq # ops) q =
     (case deq q of
        (Ok se, q') \<Rightarrow> map_option (\<lambda>(a, d, s). (a, se_Event se # d, s)) (qrun enq deq ops q')
      | (Err _, q') \<Rightarrow> qrun enq deq ops q'
      | _ \<Rightarrow> None)"

locale queue_api =
  fixes enq :: "sniff_data \<Rightarrow> ('q, unit) go"
    and deq :: "('q, SequenceEvent) go"
    and pending :: "nat \<Rightarrow> 'q \<Rightarrow> sniff_data list \<Rightarrow> bool"
  assumes enq_Ok: "pending (Suc n) q es \<Longrightarrow> enq e q = (Ok u, q') \<Longrightarrow> pending n q' (es @ [e])"
    and enq_Err: "pending (Suc n) q es \<Longrightarrow> enq e q = (Err x, q') \<Longrightarrow> pending n q' es"
    and deq_Ok: "pending (Suc n) q es \<Longrightarrow> deq q = (Ok se, q') \<Longrightarrow>
      \<exists>es'. es = se_Event se # es' \<and> pending n q' es'"
    and deq_Err: "pending (Suc n) q es \<Longrightarrow> deq q = (Err x, q') \<Longrightarrow> pending n q' es"
    and deq_Empty: "pending n q es \<Longrightarrow> deq q = (Err ErrEmpty, q') \<Longrightarrow> es = []"
    and pending_Suc: "pending (Suc n) q es \<Longrightarrow> pending n q es"
begin

text \<open>
  What comes out is what went in: in order, nothing lost, nothing twice. The delivered events
  followed by the pending ones are the events pending at the start followed by the accepted
  ones.
\<close>

lemma run_fifo:
  "pending (length ops + n) q es \<Longrightarrow> qrun enq deq ops q = Some (acc, del, s) \<Longrightarrow>
   \<exists>rest. pending n s rest \<and> del @ rest = es @ acc"
proof (induction ops arbitrary: q es acc del)
  case Nil
  then show ?case by auto
next
  case (Cons op ops)
  then have pend: "pending (Suc (length ops + n)) q es" by simp
  show ?case
  proof (cases op)
    case (QEnq e)
    obtain r q' where r: "enq e q = (r, q')" by fastforce
    show ?thesis
    proof (cases r)
      case (Ok u)
      with r QEnq Cons.prems obtain acc' where
        run: "qrun enq deq ops q' = Some (acc', del, s)" and acc: "acc = e # acc'" by auto
      from Cons.IH [OF enq_Ok [OF pend r [unfolded Ok]] run] acc show ?thesis by simp
    next
      case (Err x)
      with r QEnq Cons.prems have "qrun enq deq ops q' = Some (acc, del, s)" by simp
      with Cons.IH [OF enq_Err [OF pend r [unfolded Err]]] show ?thesis by blast
    qed (use r QEnq Cons.prems in auto)
  next
    case QDeq
    obtain r q' where r: "deq q = (r, q')" by fastforce
    show ?thesis
    proof (cases r)
      case (Ok se)
      with r QDeq Cons.prems obtain del' where
        run: "qrun enq deq ops q' = Some (acc, del', s)" and del: "del = se_Event se # del'" by auto
      obtain es' where "es = se_Event se # es'" "pending (length ops + n) q' es'"
        using deq_Ok [OF pend r [unfolded Ok]] by auto
      with Cons.IH [OF _ run, of es'] del show ?thesis by auto
    next
      case (Err x)
      with r QDeq Cons.prems have "qrun enq deq ops q' = Some (acc, del, s)" by simp
      with Cons.IH [OF deq_Err [OF pend r [unfolded Err]]] show ?thesis by blast
    qed (use r QDeq Cons.prems in auto)
  qed
qed

lemma empty_means_all_delivered:
  assumes "pending (length ops) q []" and "qrun enq deq ops q = Some (acc, del, s)"
    and "deq s = (Err ErrEmpty, s')"
  shows "del = acc"
  using run_fifo [of ops 0 q "[]"] assms deq_Empty by fastforce

end

end
