(* ===== verification/Memory_Queue.thy ===== *)
theory Memory_Queue
  imports Queue_Api
begin

text \<open>
  \<open>plugins/queue/memory/queue.go\<close> and \<open>plugins/queue/none/queue.go\<close>. The memory queue wraps
  \<open>goconcurrentqueue.FixedFIFO\<close>, a third party package: its operations are the record
  \<open>fifo_lib\<close>, their documented behaviour is \<open>fifo_laws\<close>. Both queues implement the interface
  of \<open>Queue_Api\<close>.
\<close>

section \<open>FixedFIFO\<close>

record 'b fifo_lib =
  NewFixedFIFO :: "int \<Rightarrow> 'b"
  FIFO_Enqueue :: "'b \<Rightarrow> sniff_data \<Rightarrow> go_error option \<times> 'b"
  FIFO_Dequeue :: "'b \<Rightarrow> sniff_data outcome \<times> 'b"
  FIFO_GetLen :: "'b \<Rightarrow> int"
  fifo_elems :: "'b \<Rightarrow> sniff_data list"
  fifo_cap :: "'b \<Rightarrow> int"

text \<open>
  A new buffer is empty and has the given capacity; \<open>Enqueue\<close> appends, or reports an error
  and changes nothing when the buffer is at its capacity; \<open>Dequeue\<close> removes the first element,
  or reports an error when there is none; \<open>GetLen\<close> is the number of elements.
\<close>

definition fifo_laws :: "'b fifo_lib \<Rightarrow> bool" where
  "fifo_laws lib \<longleftrightarrow>
     (\<forall>n \<ge> 0. fifo_elems lib (NewFixedFIFO lib n) = [] \<and> fifo_cap lib (NewFixedFIFO lib n) = n) \<and>
     (\<forall>b e. if int (length (fifo_elems lib b)) < fifo_cap lib b
        then \<exists>b'. FIFO_Enqueue lib b e = (None, b') \<and> fifo_elems lib b' = fifo_elems lib b @ [e] \<and>
               fifo_cap lib b' = fifo_cap lib b
        else \<exists>x. FIFO_Enqueue lib b e = (Some x, b)) \<and>
     (\<forall>b. case fifo_elems lib b of
          [] \<Rightarrow> \<exists>x. FIFO_Dequeue lib b = (Err x, b)
        | e # es \<Rightarrow> \<exists>b'. FIFO_Dequeue lib b = (Ok e, b') \<and> fifo_elems lib b' = es \<and> fifo_cap lib b' = fifo_cap lib b) \<and>
     (\<forall>b. FIFO_GetLen lib b = int (length (fifo_elems lib b)))"

lemma fifo_enqueue:
  assumes "fifo_laws lib"
  obtains b' where "int (length (fifo_elems lib b)) < fifo_cap lib b" and "FIFO_Enqueue lib b e = (None, b')"
      and "fifo_elems lib b' = fifo_elems lib b @ [e]" and "fifo_cap lib b' = fifo_cap lib b"
    | x where "\<not> int (length (fifo_elems lib b)) < fifo_cap lib b" and "FIFO_Enqueue lib b e = (Some x, b)"
  using assms unfolding fifo_laws_def by metis

lemma fifo_dequeue:
  assumes "fifo_laws lib"
  obtains x where "fifo_elems lib b = []" and "FIFO_Dequeue lib b = (Err x, b)"
    | e es b' where "fifo_elems lib b = e # es" and "FIFO_Dequeue lib b = (Ok e, b')"
      and "fifo_elems lib b' = es" and "fifo_cap lib b' = fifo_cap lib b"
proof -
  have "case fifo_elems lib b of
          [] \<Rightarrow> \<exists>x. FIFO_Dequeue lib b = (Err x, b)
        | e # es \<Rightarrow> \<exists>b'. FIFO_Dequeue lib b = (Ok e, b') \<and> fifo_elems lib b' = es \<and> fifo_cap lib b' = fifo_cap lib b"
    using assms unfolding fifo_laws_def by blast
  with that show thesis by (cases "fifo_elems lib b") auto
qed

section \<open>The memory queue\<close>

definition DefaultOffset :: Offset where
  "DefaultOffset = \<lparr>Partition = 0, Position = ''''\<rparr>"

text \<open>The plugin is used after \<open>Initialize\<close>, which creates the buffer.\<close>

record 'b memory_queue =
  EventBufferSize :: int
  buffer :: 'b

definition memory_Initialize :: "'b fifo_lib \<Rightarrow> ('b memory_queue, unit) go" where
  "memory_Initialize lib q =
     (if EventBufferSize q < 0 then (Panic, q)
      else (Ok (), q\<lparr>buffer := NewFixedFIFO lib (EventBufferSize q)\<rparr>))"

definition memory_Enqueue :: "'b fifo_lib \<Rightarrow> sniff_data \<Rightarrow> ('b memory_queue, unit) go" where
  "memory_Enqueue lib e q =
     (case FIFO_Enqueue lib (buffer q) e of
        (Some x, b') \<Rightarrow> (Err ErrFull, q\<lparr>buffer := b'\<rparr>)
      | (None, b') \<Rightarrow> (Ok (), q\<lparr>buffer := b'\<rparr>))"

definition memory_Dequeue :: "'b fifo_lib \<Rightarrow> ('b memory_queue, SequenceEvent) go" where
  "memory_Dequeue lib q =
     (case FIFO_Dequeue lib (buffer q) of
        (Ok element, b') \<Rightarrow>
          (Ok \<lparr>se_Event = element, se_Offset = DefaultOffset\<rparr>, q\<lparr>buffer := b'\<rparr>)
      | (Err x, b') \<Rightarrow> (Err ErrEmpty, q\<lparr>buffer := b'\<rparr>)
      | (Panic, b') \<Rightarrow> (Panic, q\<lparr>buffer := b'\<rparr>)
      | (Hang, b') \<Rightarrow> (Hang, q\<lparr>buffer := b'\<rparr>))"

definition memory_Close :: "('b memory_queue, unit) go" where
  "memory_Close q = (Ok (), q)"

definition memory_Ack :: "Offset \<Rightarrow> ('b memory_queue, unit) go" where
  "memory_Ack off q = (Ok (), q)"

definition memory_TotalSize :: "'b memory_queue \<Rightarrow> int" where
  "memory_TotalSize q = EventBufferSize q"

definition memory_UsedCount :: "'b fifo_lib \<Rightarrow> 'b memory_queue \<Rightarrow> int" where
  "memory_UsedCount lib q = FIFO_GetLen lib (buffer q)"

definition memory_IsFull :: "'b fifo_lib \<Rightarrow> 'b memory_queue \<Rightarrow> bool" where
  "memory_IsFull lib q \<longleftrightarrow> memory_UsedCount lib q \<ge> memory_TotalSize q"

definition memory_ops :: "'b fifo_lib \<Rightarrow> 'b memory_queue queue_ops" where
  "memory_ops lib = \<lparr>
     q_Initialize = memory_Initialize lib, q_Enqueue = memory_Enqueue lib, q_Dequeue = memory_Dequeue lib,
     q_Close = memory_Close, q_Ack = memory_Ack, q_TotalSize = memory_TotalSize,
     q_UsedCount = memory_UsedCount lib, q_IsFull = memory_IsFull lib\<rparr>"

definition memory_pending :: "'b fifo_lib \<Rightarrow> nat \<Rightarrow> 'b memory_queue \<Rightarrow> sniff_data list \<Rightarrow> bool" where
  "memory_pending lib n q es \<longleftrightarrow> fifo_laws lib \<and>
     fifo_elems lib (buffer q) = es \<and> fifo_cap lib (buffer q) = EventBufferSize q \<and>
     int (length es) \<le> EventBufferSize q"

lemma memory_Initialize_pending:
  assumes "fifo_laws lib" and "0 \<le> EventBufferSize q"
  shows "\<exists>q'. memory_Initialize lib q = (Ok (), q') \<and> memory_pending lib n q' []"
  using assms by (auto simp: memory_Initialize_def memory_pending_def fifo_laws_def)

text \<open>The outcome of each call, as an equation on the pending events.\<close>

lemma memory_Enqueue_outcome:
  assumes "memory_pending lib n q es"
  shows "if memory_IsFull lib q then memory_Enqueue lib e q = (Err ErrFull, q)
    else \<exists>q'. memory_Enqueue lib e q = (Ok (), q') \<and> memory_pending lib m q' (es @ [e])"
proof -
  from assms obtain b where laws: "fifo_laws lib" and b: "buffer q = b" "fifo_elems lib b = es"
    "fifo_cap lib b = EventBufferSize q" and le: "int (length es) \<le> EventBufferSize q"
    by (auto simp: memory_pending_def)
  have len: "FIFO_GetLen lib b = int (length es)" using laws b by (simp add: fifo_laws_def)
  have full: "memory_IsFull lib q \<longleftrightarrow> \<not> int (length es) < EventBufferSize q"
    by (auto simp: memory_IsFull_def memory_UsedCount_def memory_TotalSize_def b len)
  from laws show ?thesis
  proof (rule fifo_enqueue [of lib b e])
    fix b' assume "int (length (fifo_elems lib b)) < fifo_cap lib b" "FIFO_Enqueue lib b e = (None, b')"
      "fifo_elems lib b' = fifo_elems lib b @ [e]" "fifo_cap lib b' = fifo_cap lib b"
    with laws b full show ?thesis by (simp add: memory_Enqueue_def memory_pending_def)
  next
    fix x assume "\<not> int (length (fifo_elems lib b)) < fifo_cap lib b" "FIFO_Enqueue lib b e = (Some x, b)"
    with b full show ?thesis by (simp add: memory_Enqueue_def)
  qed
qed

lemma memory_Dequeue_outcome:
  assumes "memory_pending lib n q es"
  shows "case es of [] \<Rightarrow> memory_Dequeue lib q = (Err ErrEmpty, q)
    | e # es' \<Rightarrow> \<exists>q'. memory_Dequeue lib q = (Ok \<lparr>se_Event = e, se_Offset = DefaultOffset\<rparr>, q') \<and>
        memory_pending lib m q' es'"
proof -
  from assms obtain b where laws: "fifo_laws lib" and b: "buffer q = b" "fifo_elems lib b = es"
    "fifo_cap lib b = EventBufferSize q" and le: "int (length es) \<le> EventBufferSize q"
    by (auto simp: memory_pending_def)
  from laws show ?thesis
  proof (rule fifo_dequeue [of lib b])
    fix x assume "fifo_elems lib b = []" "FIFO_Dequeue lib b = (Err x, b)"
    with b show ?thesis by (auto simp: memory_Dequeue_def)
  next
    fix e es' b' assume "fifo_elems lib b = e # es'" "FIFO_Dequeue lib b = (Ok e, b')"
      "fifo_elems lib b' = es'" "fifo_cap lib b' = fifo_cap lib b"
    with laws b le show ?thesis by (auto simp: memory_Dequeue_def memory_pending_def)
  qed
qed

interpretation mem: queue_api "memory_Enqueue lib" "memory_Dequeue lib" "memory_pending lib" for lib
proof
  fix n q es e u q' x se
  show "memory_pending lib n q' (es @ [e])"
    if "memory_pending lib (Suc n) q es" "memory_Enqueue lib e q = (Ok u, q')"
    using memory_Enqueue_outcome [OF that(1), of e n] that(2) by (auto split: if_splits)
  show "memory_pending lib n q' es"
    if "memory_pending lib (Suc n) q es" "memory_Enqueue lib e q = (Err x, q')"
    using memory_Enqueue_outcome [OF that(1), of e n] that by (auto simp: memory_pending_def split: if_splits)
  show "\<exists>es'. es = se_Event se # es' \<and> memory_pending lib n q' es'"
    if "memory_pending lib (Suc n) q es" "memory_Dequeue lib q = (Ok se, q')"
    using memory_Dequeue_outcome [OF that(1), of n] that(2) by (auto split: list.splits)
  show "memory_pending lib n q' es"
    if "memory_pending lib (Suc n) q es" "memory_Dequeue lib q = (Err x, q')"
    using memory_Dequeue_outcome [OF that(1), of n] that by (auto simp: memory_pending_def split: list.splits)
  show "es = []"
    if "memory_pending lib n q es" "memory_Dequeue lib q = (Err ErrEmpty, q')"
    using memory_Dequeue_outcome [OF that(1), of n] that(2) by (auto split: list.splits)
qed (simp add: memory_pending_def)

section \<open>The none queue\<close>

definition none_Initialize :: "(unit, unit) go" where "none_Initialize q = (Ok (), q)"
definition none_Enqueue :: "sniff_data \<Rightarrow> (unit, unit) go" where "none_Enqueue e q = (Err ErrFull, q)"
definition none_Dequeue :: "(unit, SequenceEvent) go" where "none_Dequeue q = (Err ErrEmpty, q)"
definition none_Close :: "(unit, unit) go" where "none_Close q = (Ok (), q)"
definition none_Ack :: "Offset \<Rightarrow> (unit, unit) go" where "none_Ack off q = (Ok (), q)"
definition none_TotalSize :: "unit \<Rightarrow> int" where "none_TotalSize q = 0"
definition none_UsedCount :: "unit \<Rightarrow> int" where "none_UsedCount q = 0"
definition none_IsFull :: "unit \<Rightarrow> bool" where "none_IsFull q = False"

definition none_ops :: "unit queue_ops" where
  "none_ops = \<lparr>
     q_Initialize = none_Initialize, q_Enqueue = none_Enqueue, q_Dequeue = none_Dequeue,
     q_Close = none_Close, q_Ack = none_Ack, q_TotalSize = none_TotalSize,
     q_UsedCount = none_UsedCount, q_IsFull = none_IsFull\<rparr>"

interpretation none: queue_api none_Enqueue none_Dequeue "\<lambda>n q es. es = []"
  by unfold_locales (auto simp: none_Enqueue_def none_Dequeue_def)

end
