(* ===== verification/Mmap_File.thy ===== *)
theory Mmap_File
  imports Go_Strings
begin

text \<open>
  Memory mapped files: the operations of the third party package \<open>grandecola/mmap\<close> that the
  queue calls (the record \<open>mmap_lib\<close>, a parameter of every definition that uses them, with
  its documented behaviour as the predicate \<open>mmap_laws\<close>), the operating system below it
  (\<open>os_env\<close>: which calls fail, the working directory, the page size; and the disk), and
  \<open>plugins/queue/mmap/segment/segment.go\<close>.

  A mapping is shared: what is written through it is the content of the file. The model keeps
  the content of a mapped file in the mapping and gives it back to the disk when the mapping
  is flushed or ended.
\<close>

section \<open>The mapping library\<close>

record 'f mmap_lib =
  NewSharedFileMmap :: "byte list \<Rightarrow> 'f"
  mmap_bytes :: "'f \<Rightarrow> byte list"
  ReadAt :: "'f \<Rightarrow> nat \<Rightarrow> int \<Rightarrow> byte list outcome"
  WriteAt :: "'f \<Rightarrow> byte list \<Rightarrow> int \<Rightarrow> nat outcome \<times> 'f"
  ReadUint64At :: "'f \<Rightarrow> int \<Rightarrow> u64"
  WriteUint64At :: "'f \<Rightarrow> u64 \<Rightarrow> int \<Rightarrow> 'f"
  Flush :: "'f \<Rightarrow> go_error option"
  Unmap :: "'f \<Rightarrow> go_error option"
  u64_enc :: "u64 \<Rightarrow> byte list"
  u64_dec :: "byte list \<Rightarrow> u64"

text \<open>
  Documented behaviour: a mapping shows the bytes of its file; \<open>ReadAt\<close> copies what fits
  between the offset and the end of the mapping, and so does \<open>WriteAt\<close>; the 64 bit accessors
  read and write eight bytes in a fixed byte order, in which eight zero bytes are zero.
\<close>

definition mmap_laws :: "'f mmap_lib \<Rightarrow> bool" where
  "mmap_laws lib \<longleftrightarrow>
     (\<forall>c. mmap_bytes lib (NewSharedFileMmap lib c) = c) \<and>
     (\<forall>f n k. n < length (mmap_bytes lib f) \<longrightarrow>
        ReadAt lib f k (int n) = Ok (take k (drop n (mmap_bytes lib f)))) \<and>
     (\<forall>f n bs. n < length (mmap_bytes lib f) \<longrightarrow>
        (\<exists>f'. WriteAt lib f bs (int n) = (Ok (min (length bs) (length (mmap_bytes lib f) - n)), f') \<and>
              mmap_bytes lib f' = overlay (mmap_bytes lib f) n bs)) \<and>
     (\<forall>f n. n + 8 \<le> length (mmap_bytes lib f) \<longrightarrow>
        ReadUint64At lib f (int n) = u64_dec lib (take 8 (drop n (mmap_bytes lib f)))) \<and>
     (\<forall>f n v. n + 8 \<le> length (mmap_bytes lib f) \<longrightarrow>
        mmap_bytes lib (WriteUint64At lib f v (int n)) = overlay (mmap_bytes lib f) n (u64_enc lib v)) \<and>
     (\<forall>v. length (u64_enc lib v) = 8 \<and> u64_dec lib (u64_enc lib v) = v) \<and>
     u64_dec lib (replicate 8 0) = 0"

lemma mmap_lawsD:
  assumes "mmap_laws lib"
  shows mmap_new: "mmap_bytes lib (NewSharedFileMmap lib c) = c"
    and mmap_ReadAt: "n < length (mmap_bytes lib f) \<Longrightarrow>
      ReadAt lib f k (int n) = Ok (take k (drop n (mmap_bytes lib f)))"
    and mmap_WriteAt: "n < length (mmap_bytes lib f) \<Longrightarrow>
      \<exists>f'. WriteAt lib f bs (int n) = (Ok (min (length bs) (length (mmap_bytes lib f) - n)), f') \<and>
            mmap_bytes lib f' = overlay (mmap_bytes lib f) n bs"
    and mmap_ReadUint64At: "n + 8 \<le> length (mmap_bytes lib f) \<Longrightarrow>
      ReadUint64At lib f (int n) = u64_dec lib (take 8 (drop n (mmap_bytes lib f)))"
    and mmap_WriteUint64At: "n + 8 \<le> length (mmap_bytes lib f) \<Longrightarrow>
      mmap_bytes lib (WriteUint64At lib f v (int n)) = overlay (mmap_bytes lib f) n (u64_enc lib v)"
    and u64_enc_length: "length (u64_enc lib v) = 8"
    and u64_dec_enc: "u64_dec lib (u64_enc lib v) = v"
    and u64_dec_zero: "u64_dec lib (replicate 8 0) = 0"
  using assms unfolding mmap_laws_def by blast+

text \<open>Reading back a 64 bit slot after a write to it, or to another slot.\<close>

lemma ReadUint64At_WriteUint64At:
  assumes laws: "mmap_laws lib" and n: "n + 8 \<le> length (mmap_bytes lib f)"
    and m: "m + 8 \<le> length (mmap_bytes lib f)"
    and slots: "n = m \<or> n + 8 \<le> m \<or> m + 8 \<le> n"
  shows "ReadUint64At lib (WriteUint64At lib f v (int n)) (int m)
     = (if n = m then v else ReadUint64At lib f (int m))"
proof -
  let ?f' = "WriteUint64At lib f v (int n)"
  have b: "mmap_bytes lib ?f' = overlay (mmap_bytes lib f) n (u64_enc lib v)"
    by (rule mmap_WriteUint64At [OF laws n])
  have l: "length (u64_enc lib v) = 8" by (rule u64_enc_length [OF laws])
  have "ReadUint64At lib ?f' (int m) = u64_dec lib (take 8 (drop m (mmap_bytes lib ?f')))"
    using n m by (intro mmap_ReadUint64At [OF laws]) (simp add: b)
  moreover have "take 8 (drop m (mmap_bytes lib ?f')) =
     (if n = m then u64_enc lib v else take 8 (drop m (mmap_bytes lib f)))"
    using n m slots l take_drop_overlay_same [of n "u64_enc lib v" "mmap_bytes lib f"]
    by (auto simp: b take_drop_overlay_disjoint)
  ultimately show ?thesis
    using m by (simp add: mmap_ReadUint64At [OF laws] u64_dec_enc [OF laws])
qed

lemma length_WriteUint64At:
  "mmap_laws lib \<Longrightarrow> n + 8 \<le> length (mmap_bytes lib f) \<Longrightarrow>
   length (mmap_bytes lib (WriteUint64At lib f v (int n))) = length (mmap_bytes lib f)"
  by (simp add: mmap_WriteUint64At)

section \<open>The operating system\<close>

datatype os_call = OsGetwd | OsMkdirAll | OsOpenFile | OsStat | OsTruncate | OsMmap | OsClose

record os_env =
  os_fault :: "os_call \<Rightarrow> string \<Rightarrow> bool"
  os_cwd :: string
  os_dir_exists :: "string \<Rightarrow> bool"
  os_pagesize :: int

type_synonym disk = "string \<rightharpoonup> byte list"

definition filepath_Abs :: "os_env \<Rightarrow> string \<Rightarrow> string" where
  "filepath_Abs os name = (if HasPrefix name ''/'' then name else os_cwd os @ ''/'' @ name)"

definition filepath_dir :: "string \<Rightarrow> string" where
  "filepath_dir name = rev (dropWhile (\<lambda>c. c \<noteq> CHR ''/'') (rev name))"

definition path_Join :: "string \<Rightarrow> string \<Rightarrow> string" where
  "path_Join dir name = dir @ ''/'' @ name"

section \<open>segment.go\<close>

definition FileSuffix :: string where
  "FileSuffix = ''_segment.dat''"

definition file_content :: "disk \<Rightarrow> string \<Rightarrow> byte list" where
  "file_content d path = (case d path of None \<Rightarrow> [] | Some c \<Rightarrow> c)"

definition NewSegment :: "'f mmap_lib \<Rightarrow> os_env \<Rightarrow> string \<Rightarrow> int \<Rightarrow> (disk, 'f) go" where
  "NewSegment lib os name0 fsize d =
     (if os_fault os OsGetwd name0
      then (Err (Errorf ''error in getting the absolute path of the segment file''), d)
      else let name = filepath_Abs os name0; paths = filepath_dir name in
      if \<not> os_dir_exists os paths \<and> os_fault os OsMkdirAll paths
      then (Err (Errorf ''error in creating the parent dirs of the segment file''), d)
      else if os_fault os OsOpenFile name
      then (Err (Errorf ''error in opening segment file''), d)
      else let d1 = d(name \<mapsto> file_content d name) in
      if os_fault os OsStat name
      then (Err (Errorf ''error in reading info of the segment file''), d1)
      else if int (length (file_content d name)) \<noteq> fsize \<and> os_fault os OsTruncate name
      then (Err (Errorf ''error in truncating file''), d1)
      else let d2 = (if int (length (file_content d name)) \<noteq> fsize
                     then d1(name \<mapsto> truncate_to (nat fsize) (file_content d name)) else d1) in
      if os_fault os OsMmap name
      then (Err (Errorf ''error in creating the mmap segment file''), d2)
      else if os_fault os OsClose name
      then (Err (Errorf ''error in closing the segment file''), d2)
      else (Ok (NewSharedFileMmap lib (file_content d2 name)), d2))"

text \<open>No failing system call: the hypothesis of the theorems that promise a result.\<close>

definition os_ok :: "os_env \<Rightarrow> bool" where
  "os_ok os \<longleftrightarrow> (\<forall>c p. \<not> os_fault os c p)"

lemma NewSegment_Ok:
  assumes laws: "mmap_laws lib" and run: "NewSegment lib os name fsize d = (Ok f, d')"
    and fsize: "0 \<le> fsize"
  shows "mmap_bytes lib f = truncate_to (nat fsize) (file_content d (filepath_Abs os name))"
    and "d' = d(filepath_Abs os name \<mapsto> mmap_bytes lib f)"
  using run fsize
  by (auto simp: NewSegment_def Let_def file_content_def mmap_new [OF laws] split: if_splits option.splits)

lemma NewSegment_total:
  "os_ok os \<Longrightarrow> \<exists>f d'. NewSegment lib os name fsize d = (Ok f, d')"
  by (auto simp: NewSegment_def Let_def os_ok_def)

text \<open>Whatever happens, the content of every file stays, up to the size it is opened with.\<close>

lemma truncate_to_idem [simp]: "truncate_to n (truncate_to n c) = truncate_to n c"
  by (rule truncate_to_id) simp

lemma NewSegment_content:
  assumes "NewSegment lib os name fsize d = (r, d')" and "0 \<le> fsize"
  shows "truncate_to (nat fsize) (file_content d' p) = truncate_to (nat fsize) (file_content d p)"
    and "p \<noteq> filepath_Abs os name \<Longrightarrow> d' p = d p"
  using assms
  by (auto simp: NewSegment_def Let_def file_content_def split: if_splits option.splits)

lemma NewSegment_no_Panic:
  assumes "NewSegment lib os name fsize d = (r, d')"
  shows "r \<noteq> Panic" and "r \<noteq> Hang" and "r = Err e \<Longrightarrow> \<exists>m. e = Errorf m"
  using assms by (auto simp: NewSegment_def Let_def split: if_splits)

end
