(* ===== verification/Metadata.thy ===== *)
theory Metadata
  imports Mmap_File
begin

text \<open>
  \<open>plugins/queue/mmap/meta/meta.go\<close>: the metadata file of the memory mapped queue, ten 64 bit
  slots that hold the version, the writing, watermark, committed and reading offsets (segment
  identifier and offset in the segment) and the capacity. Every accessor holds the lock of the
  struct from start to end, so each is one atomic step here.
\<close>

definition metaSize :: int where "metaSize = 80"
definition metaName :: string where "metaName = ''meta.dat''"
definition metaVersion :: int where "metaVersion = 1"

definition versionPos :: nat where "versionPos = 0 * 8"
definition widPos :: nat where "widPos = 1 * 8"
definition woffsetPos :: nat where "woffsetPos = 2 * 8"
definition wmidPos :: nat where "wmidPos = 3 * 8"
definition wmoffsetPos :: nat where "wmoffsetPos = 4 * 8"
definition cidPos :: nat where "cidPos = 5 * 8"
definition coffsetPos :: nat where "coffsetPos = 6 * 8"
definition ridPos :: nat where "ridPos = 7 * 8"
definition roffsetPos :: nat where "roffsetPos = 8 * 8"
definition capacityPos :: nat where "capacityPos = 9 * 8"

lemmas pos_defs = versionPos_def widPos_def woffsetPos_def wmidPos_def wmoffsetPos_def
  cidPos_def coffsetPos_def ridPos_def roffsetPos_def capacityPos_def

record 'f Metadata =
  metaFile :: 'f
  md_name :: string
  md_size :: int
  md_capacity :: int

definition GetVersion :: "'f mmap_lib \<Rightarrow> 'f Metadata \<Rightarrow> int" where
  "GetVersion lib m = uint64ToInt (ReadUint64At lib (metaFile m) (int versionPos))"

definition PutVersion :: "'f mmap_lib \<Rightarrow> int \<Rightarrow> 'f Metadata \<Rightarrow> 'f Metadata" where
  "PutVersion lib version m =
     m\<lparr>metaFile := WriteUint64At lib (metaFile m) (int64ToUint64 version) (int versionPos)\<rparr>"

definition GetWritingOffset :: "'f mmap_lib \<Rightarrow> 'f Metadata \<Rightarrow> int \<times> int" where
  "GetWritingOffset lib m =
     (uint64ToInt64 (ReadUint64At lib (metaFile m) (int widPos)),
      uint64ToInt64 (ReadUint64At lib (metaFile m) (int woffsetPos)))"

definition PutWritingOffset :: "'f mmap_lib \<Rightarrow> int \<Rightarrow> int \<Rightarrow> 'f Metadata \<Rightarrow> 'f Metadata" where
  "PutWritingOffset lib segmentID offset m =
     m\<lparr>metaFile := WriteUint64At lib
          (WriteUint64At lib (metaFile m) (int64ToUint64 segmentID) (int widPos))
          (int64ToUint64 offset) (int woffsetPos)\<rparr>"

definition GetWatermarkOffset :: "'f mmap_lib \<Rightarrow> 'f Metadata \<Rightarrow> int \<times> int" where
  "GetWatermarkOffset lib m =
     (uint64ToInt64 (ReadUint64At lib (metaFile m) (int wmidPos)),
      uint64ToInt64 (ReadUint64At lib (metaFile m) (int wmoffsetPos)))"

definition PutWatermarkOffset :: "'f mmap_lib \<Rightarrow> int \<Rightarrow> int \<Rightarrow> 'f Metadata \<Rightarrow> 'f Metadata" where
  "PutWatermarkOffset lib segmentID offset m =
     m\<lparr>metaFile := WriteUint64At lib
          (WriteUint64At lib (metaFile m) (int64ToUint64 segmentID) (int wmidPos))
          (int64ToUint64 offset) (int wmoffsetPos)\<rparr>"

definition GetCommittedOffset :: "'f mmap_lib \<Rightarrow> 'f Metadata \<Rightarrow> int \<times> int" where
  "GetCommittedOffset lib m =
     (uint64ToInt64 (ReadUint64At lib (metaFile m) (int cidPos)),
      uint64ToInt64 (ReadUint64At lib (metaFile m) (int coffsetPos)))"

definition PutCommittedOffset :: "'f mmap_lib \<Rightarrow> int \<Rightarrow> int \<Rightarrow> 'f Metadata \<Rightarrow> 'f Metadata" where
  "PutCommittedOffset lib segmentID offset m =
     m\<lparr>metaFile := WriteUint64At lib
          (WriteUint64At lib (metaFile m) (int64ToUint64 segmentID) (int cidPos))
          (int64ToUint64 offset) (int coffsetPos)\<rparr>"

definition GetReadingOffset :: "'f mmap_lib \<Rightarrow> 'f Metadata \<Rightarrow> int \<times> int" where
  "GetReadingOffset lib m =
     (uint64ToInt64 (ReadUint64At lib (metaFile m) (int ridPos)),
      uint64ToInt64 (ReadUint64At lib (metaFile m) (int roffsetPos)))"

definition PutReadingOffset :: "'f mmap_lib \<Rightarrow> int \<Rightarrow> int \<Rightarrow> 'f Metadata \<Rightarrow> 'f Metadata" where
  "PutReadingOffset lib segmentID offset m =
     m\<lparr>metaFile := WriteUint64At lib
          (WriteUint64At lib (metaFile m) (int64ToUint64 segmentID) (int ridPos))
          (int64ToUint64 offset) (int roffsetPos)\<rparr>"

definition GetCapacity :: "'f mmap_lib \<Rightarrow> 'f Metadata \<Rightarrow> int" where
  "GetCapacity lib m = uint64ToInt (ReadUint64At lib (metaFile m) (int capacityPos))"

definition PutCapacity :: "'f mmap_lib \<Rightarrow> int \<Rightarrow> 'f Metadata \<Rightarrow> 'f Metadata" where
  "PutCapacity lib version m =
     m\<lparr>metaFile := WriteUint64At lib (metaFile m) (int64ToUint64 version) (int capacityPos)\<rparr>"

definition Metadata_Flush :: "'f mmap_lib \<Rightarrow> 'f Metadata \<Rightarrow> go_error option" where
  "Metadata_Flush lib m = Flush lib (metaFile m)"

definition Metadata_Close :: "'f mmap_lib \<Rightarrow> 'f Metadata \<Rightarrow> go_error option" where
  "Metadata_Close lib m =
     (case Flush lib (metaFile m) of Some e \<Rightarrow> Some e | None \<Rightarrow> Unmap lib (metaFile m))"

definition meta_path :: "string \<Rightarrow> string" where
  "meta_path metaDir = path_Join metaDir metaName"

definition NewMetaData :: "'f mmap_lib \<Rightarrow> os_env \<Rightarrow> string \<Rightarrow> int \<Rightarrow> (disk, 'f Metadata) go" where
  "NewMetaData lib os metaDir capacity d =
     (case NewSegment lib os (meta_path metaDir) metaSize d of
        (Ok f, d') \<Rightarrow>
          let m = \<lparr>metaFile = f, md_name = metaName, md_size = metaSize, md_capacity = capacity\<rparr>;
              v = GetVersion lib m; c = GetCapacity lib m
          in if v \<noteq> 0 \<and> v \<noteq> metaVersion then (Err (Errorf ''metadata metaVersion is not matching''), d')
             else if c \<noteq> 0 \<and> c \<noteq> capacity
             then (Err (Errorf ''metadata catapacity is not equal to the old capacity''), d')
             else (Ok (PutCapacity lib capacity (PutVersion lib metaVersion m)), d')
      | (Err e, d') \<Rightarrow> (Err (Errorf ''error in crating the Metadata memory mapped file''), d')
      | (Panic, d') \<Rightarrow> (Panic, d')
      | (Hang, d') \<Rightarrow> (Hang, d'))"

section \<open>The slots are independent registers\<close>

definition meta_wf :: "'f mmap_lib \<Rightarrow> 'f Metadata \<Rightarrow> bool" where
  "meta_wf lib m \<longleftrightarrow> length (mmap_bytes lib (metaFile m)) = nat metaSize"

lemmas put_defs = PutVersion_def PutWritingOffset_def PutWatermarkOffset_def
  PutCommittedOffset_def PutReadingOffset_def PutCapacity_def

lemmas get_defs = GetVersion_def GetWritingOffset_def GetWatermarkOffset_def
  GetCommittedOffset_def GetReadingOffset_def GetCapacity_def

definition slot :: "nat \<Rightarrow> bool" where
  "slot p \<longleftrightarrow> p mod 8 = 0 \<and> p + 8 \<le> 80"

lemma slot_pos:
  "slot versionPos" "slot widPos" "slot woffsetPos" "slot wmidPos" "slot wmoffsetPos"
  "slot cidPos" "slot coffsetPos" "slot ridPos" "slot roffsetPos" "slot capacityPos"
  by (simp_all add: slot_def pos_defs)

lemma pos_distinct:
  "distinct [versionPos, widPos, woffsetPos, wmidPos, wmoffsetPos, cidPos, coffsetPos,
    ridPos, roffsetPos, capacityPos]"
  by (simp add: pos_defs)

lemma pos_distinct_rev:
  "distinct [capacityPos, roffsetPos, ridPos, coffsetPos, cidPos, wmoffsetPos, wmidPos,
    woffsetPos, widPos, versionPos]"
  by (simp add: pos_defs)

lemma slot_write:
  assumes "mmap_laws lib" and "length (mmap_bytes lib f) = 80" and "slot p"
  shows "length (mmap_bytes lib (WriteUint64At lib f v (int p))) = 80"
  using assms length_WriteUint64At [of lib p f v] by (simp add: slot_def)

lemma slot_read:
  assumes "mmap_laws lib" and "length (mmap_bytes lib f) = 80" and "slot p" and "slot q"
  shows "ReadUint64At lib (WriteUint64At lib f v (int p)) (int q)
     = (if p = q then v else ReadUint64At lib f (int q))"
proof -
  from assms(3,4) have "p = q \<or> p + 8 \<le> q \<or> q + 8 \<le> p"
    unfolding slot_def by presburger
  with assms show ?thesis by (intro ReadUint64At_WriteUint64At) (auto simp: slot_def)
qed

lemmas slot_simps = slot_write slot_read slot_pos pos_distinct [simplified]
  pos_distinct_rev [simplified] put_defs get_defs meta_wf_def metaSize_def

lemma meta_wf_put:
  assumes "mmap_laws lib" and "meta_wf lib m"
  shows "meta_wf lib (PutWritingOffset lib i n m)" and "meta_wf lib (PutWatermarkOffset lib i n m)"
    and "meta_wf lib (PutCommittedOffset lib i n m)" and "meta_wf lib (PutReadingOffset lib i n m)"
    and "meta_wf lib (PutVersion lib i m)" and "meta_wf lib (PutCapacity lib i m)"
  using assms by (simp_all add: slot_simps)

text \<open>An offset, once put, is read back; every other slot keeps its value.\<close>

lemma get_put_writing:
  assumes "mmap_laws lib" and "meta_wf lib m"
    and "0 \<le> i" and "i \<le> MaxInt64" and "0 \<le> n" and "n \<le> MaxInt64"
  shows "GetWritingOffset lib (PutWritingOffset lib i n m) = (i, n)"
  using assms by (simp add: slot_simps)

lemma get_put_watermark:
  assumes "mmap_laws lib" and "meta_wf lib m"
    and "0 \<le> i" and "i \<le> MaxInt64" and "0 \<le> n" and "n \<le> MaxInt64"
  shows "GetWatermarkOffset lib (PutWatermarkOffset lib i n m) = (i, n)"
  using assms by (simp add: slot_simps)

lemma get_put_committed:
  assumes "mmap_laws lib" and "meta_wf lib m"
    and "0 \<le> i" and "i \<le> MaxInt64" and "0 \<le> n" and "n \<le> MaxInt64"
  shows "GetCommittedOffset lib (PutCommittedOffset lib i n m) = (i, n)"
  using assms by (simp add: slot_simps)

lemma get_put_reading:
  assumes "mmap_laws lib" and "meta_wf lib m"
    and "0 \<le> i" and "i \<le> MaxInt64" and "0 \<le> n" and "n \<le> MaxInt64"
  shows "GetReadingOffset lib (PutReadingOffset lib i n m) = (i, n)"
  using assms by (simp add: slot_simps)

lemma get_put_other:
  assumes "mmap_laws lib" and "meta_wf lib m"
  shows "GetReadingOffset lib (PutWritingOffset lib i n m) = GetReadingOffset lib m"
    and "GetCommittedOffset lib (PutWritingOffset lib i n m) = GetCommittedOffset lib m"
    and "GetWatermarkOffset lib (PutWritingOffset lib i n m) = GetWatermarkOffset lib m"
    and "GetWritingOffset lib (PutReadingOffset lib i n m) = GetWritingOffset lib m"
    and "GetCommittedOffset lib (PutReadingOffset lib i n m) = GetCommittedOffset lib m"
    and "GetWatermarkOffset lib (PutReadingOffset lib i n m) = GetWatermarkOffset lib m"
    and "GetWritingOffset lib (PutCommittedOffset lib i n m) = GetWritingOffset lib m"
    and "GetReadingOffset lib (PutCommittedOffset lib i n m) = GetReadingOffset lib m"
    and "GetWatermarkOffset lib (PutCommittedOffset lib i n m) = GetWatermarkOffset lib m"
    and "GetWritingOffset lib (PutWatermarkOffset lib i n m) = GetWritingOffset lib m"
    and "GetReadingOffset lib (PutWatermarkOffset lib i n m) = GetReadingOffset lib m"
    and "GetCommittedOffset lib (PutWatermarkOffset lib i n m) = GetCommittedOffset lib m"
  using assms by (simp_all add: slot_simps)

section \<open>The slots of a file\<close>

text \<open>What the getters return is determined by the bytes of the file.\<close>

lemma slot_bytes:
  assumes "mmap_laws lib" and "length (mmap_bytes lib f) = 80" and "mmap_bytes lib f' = mmap_bytes lib f" and "slot p"
  shows "ReadUint64At lib f' (int p) = ReadUint64At lib f (int p)"
  using assms by (simp add: mmap_ReadUint64At slot_def)

lemma get_bytes:
  assumes "mmap_laws lib" and "meta_wf lib m" and "mmap_bytes lib (metaFile m') = mmap_bytes lib (metaFile m)"
  shows "GetVersion lib m' = GetVersion lib m" and "GetCapacity lib m' = GetCapacity lib m"
    and "GetCommittedOffset lib m' = GetCommittedOffset lib m"
    and "GetWatermarkOffset lib m' = GetWatermarkOffset lib m"
  using assms slot_bytes [OF assms(1) _ assms(3)] by (simp_all add: get_defs slot_pos meta_wf_def metaSize_def)

lemma slot_zero:
  assumes "mmap_laws lib" and "mmap_bytes lib f = replicate 80 0" and "slot p"
  shows "ReadUint64At lib f (int p) = 0"
proof -
  have "take 8 (drop p (replicate 80 (0 :: byte))) = replicate 8 0" using assms(3) by (auto simp: slot_def min_def)
  with assms show ?thesis by (simp add: mmap_ReadUint64At slot_def u64_dec_zero)
qed

lemma get_put_init:
  assumes "mmap_laws lib" and "meta_wf lib m"
  shows "GetCommittedOffset lib (PutCapacity lib c (PutVersion lib v m)) = GetCommittedOffset lib m"
    and "GetWatermarkOffset lib (PutCapacity lib c (PutVersion lib v m)) = GetWatermarkOffset lib m"
    and "meta_wf lib (PutCapacity lib c (PutVersion lib v m))"
  using assms by (simp_all add: slot_simps)

text \<open>Opening the metadata file: the committed offset and the watermark are those of the file.\<close>

lemma NewMetaData_opens:
  assumes laws: "mmap_laws lib" and ok: "os_ok os"
    and m: "mmap_bytes lib (metaFile m) = truncate_to 80 (file_content d (filepath_Abs os (meta_path dir)))"
    and v: "GetVersion lib m = 0 \<or> GetVersion lib m = metaVersion"
    and c: "GetCapacity lib m = 0 \<or> GetCapacity lib m = capacity"
  shows "\<exists>md d'. NewMetaData lib os dir capacity d = (Ok md, d') \<and> meta_wf lib md \<and>
    GetCommittedOffset lib md = GetCommittedOffset lib m \<and> GetWatermarkOffset lib md = GetWatermarkOffset lib m \<and>
    (\<forall>p. p \<noteq> filepath_Abs os (meta_path dir) \<longrightarrow> d' p = d p)"
proof -
  obtain f d' where n: "NewSegment lib os (meta_path dir) metaSize d = (Ok f, d')"
    using NewSegment_total [OF ok] by fastforce
  let ?m = "\<lparr>metaFile = f, md_name = metaName, md_size = metaSize, md_capacity = capacity\<rparr>"
  have "mmap_bytes lib (metaFile ?m) = mmap_bytes lib (metaFile m)"
    using NewSegment_Ok(1) [OF laws n] m by (simp add: metaSize_def)
  moreover have wf: "meta_wf lib m" using m by (simp add: meta_wf_def metaSize_def)
  ultimately have g: "GetVersion lib ?m = GetVersion lib m" "GetCapacity lib ?m = GetCapacity lib m"
    "GetCommittedOffset lib ?m = GetCommittedOffset lib m" "GetWatermarkOffset lib ?m = GetWatermarkOffset lib m"
    "meta_wf lib ?m"
    using get_bytes [OF laws wf, of ?m] by (auto simp: meta_wf_def)
  have "NewMetaData lib os dir capacity d = (Ok (PutCapacity lib capacity (PutVersion lib metaVersion ?m)), d')"
    using n g(1,2) v c by (auto simp: NewMetaData_def Let_def)
  moreover have "\<forall>p. p \<noteq> filepath_Abs os (meta_path dir) \<longrightarrow> d' p = d p"
    using NewSegment_content(2) [OF n] by (simp add: metaSize_def)
  ultimately show ?thesis using get_put_init [OF laws g(5)] g(3,4) by auto
qed

end
