(* ===== verification/Mmap_Queue.thy ===== *)
theory Mmap_Queue
  imports Metadata Queue_Api
begin

text \<open>
  The memory mapped queue: \<open>plugins/queue/mmap/queue.go\<close>, \<open>queue_operation.go\<close>,
  \<open>segment_operation.go\<close> and \<open>queue_lock.go\<close>. This theory holds the definitions;
  \<open>Mmap_View\<close> and \<open>Mmap_Refine\<close> hold the proofs.

  The state is the struct \<open>Queue\<close>, with the files it works on. A segment is addressed by its
  index in \<open>segments\<close> (Go passes the pointer stored there). The goroutines \<open>flush\<close> and
  \<open>segmentSwapper\<close> act when they are signalled: a send on \<open>flushChannel\<close> or on
  \<open>insufficientMemChannel\<close> is a rendezvous, so the receiver's work is done at that point;
  \<open>markReadChannel\<close> has one place, so a send to the full channel waits until the swapper has
  handled the element in it. A spin lock that is held is never released by the caller that
  spins on it: the outcome is \<open>Hang\<close>. An index out of range is a panic.
\<close>

definition data4KB :: int where "data4KB = 131072"
definition minimumSegments :: int where "minimumSegments = 4"
definition uInt64Size :: int where "uInt64Size = 8"

record 'f mmap_queue =
  PipeName :: string
  SegmentSize :: int
  MaxInMemSegments :: int
  QueueCapacitySegments :: int
  FlushPeriod :: int
  FlushCeilingNum :: int
  MaxEventSize :: int
  queueName :: string
  meta :: "'f Metadata"
  segments :: "'f option list"
  mmapCount :: int
  unflushedNum :: int
  markReadChannel :: "int list"
  ready :: bool
  locker :: "bool list"
  usedSize :: int
  files :: disk

type_synonym ('f, 'a) mq = "('f mmap_queue, 'a) go"

section \<open>Locks (queue_lock.go)\<close>

definition GetIndex :: "'f mmap_queue \<Rightarrow> int \<Rightarrow> int" where
  "GetIndex q segmentID = go_rem segmentID (QueueCapacitySegments q)"

definition in_range :: "int \<Rightarrow> 'a list \<Rightarrow> bool" where
  "in_range i xs \<longleftrightarrow> 0 \<le> i \<and> i < int (length xs)"

definition lockByIndex :: "int \<Rightarrow> ('f, unit) mq" where
  "lockByIndex index q =
     (if \<not> in_range index (locker q) then (Panic, q)
      else if locker q ! nat index then (Hang, q)
      else (Ok (), q\<lparr>locker := (locker q)[nat index := True]\<rparr>))"

definition unlockByIndex :: "int \<Rightarrow> ('f, unit) mq" where
  "unlockByIndex index q =
     (if \<not> in_range index (locker q) then (Panic, q)
      else if \<not> locker q ! nat index then (Hang, q)
      else (Ok (), q\<lparr>locker := (locker q)[nat index := False]\<rparr>))"

definition lock :: "int \<Rightarrow> ('f, unit) mq" where
  "lock segmentID q = lockByIndex (GetIndex q segmentID) q"

definition unlock :: "int \<Rightarrow> ('f, unit) mq" where
  "unlock segmentID q = unlockByIndex (GetIndex q segmentID) q"

section \<open>Segments (segment\_operation.go)\<close>

definition seg_path :: "'f mmap_queue \<Rightarrow> int \<Rightarrow> string" where
  "seg_path q index = path_Join (queueName q) (FormatInt index @ FileSuffix)"

definition mapSegment :: "'f mmap_lib \<Rightarrow> os_env \<Rightarrow> int \<Rightarrow> ('f, unit) mq" where
  "mapSegment lib os segmentID q =
     (let index = GetIndex q segmentID in
      if \<not> in_range index (segments q) then (Panic, q)
      else case segments q ! nat index of
        Some _ \<Rightarrow> (Ok (), q)
      | None \<Rightarrow>
          (case NewSegment lib os (seg_path q index) (SegmentSize q) (files q) of
             (Ok file, d) \<Rightarrow> (Ok (), q\<lparr>files := d, mmapCount := mmapCount q + 1,
                                     segments := (segments q)[nat index := Some file]\<rparr>)
           | (Err e, d) \<Rightarrow> (Err e, q\<lparr>files := d\<rparr>)
           | (Panic, d) \<Rightarrow> (Panic, q\<lparr>files := d\<rparr>)
           | (Hang, d) \<Rightarrow> (Hang, q\<lparr>files := d\<rparr>)))"

text \<open>A successful flush makes the mapped bytes the content of the file on disk.\<close>

definition flush_to_disk :: "'f mmap_lib \<Rightarrow> os_env \<Rightarrow> int \<Rightarrow> 'f \<Rightarrow> 'f mmap_queue \<Rightarrow> 'f mmap_queue" where
  "flush_to_disk lib os index f q =
     q\<lparr>files := (files q)(filepath_Abs os (seg_path q index) \<mapsto> mmap_bytes lib f)\<rparr>"

definition unmapSegment :: "'f mmap_lib \<Rightarrow> os_env \<Rightarrow> int \<Rightarrow> ('f, unit) mq" where
  "unmapSegment lib os segmentID q =
     (let index = GetIndex q segmentID in
      if \<not> in_range index (segments q) then (Panic, q)
      else case segments q ! nat index of
        None \<Rightarrow> (Ok (), q)
      | Some f \<Rightarrow>
          (case Flush lib f of
             Some e \<Rightarrow> (Err (Errorf ''error in flush segemnt when unmapping''), q)
           | None \<Rightarrow>
               let q1 = flush_to_disk lib os index f q in
               (case Unmap lib f of
                  Some e \<Rightarrow> (Err (Errorf ''error in unmap segemnt''), q1)
                | None \<Rightarrow> (Ok (), q1\<lparr>mmapCount := mmapCount q1 - 1,
                                  segments := (segments q1)[nat index := None]\<rparr>))))"

text \<open>The inner loop of \<open>doSwap\<close>; \<open>Ok True\<close> is its early \<open>return nil\<close>.\<close>

fun swap_pass :: "'f mmap_lib \<Rightarrow> os_env \<Rightarrow> bool \<Rightarrow> int \<Rightarrow> int \<Rightarrow> int list \<Rightarrow> ('f, bool) mq" where
  "swap_pass lib os clearAll wIndex rIndex [] q = (Ok False, q)"
| "swap_pass lib os clearAll wIndex rIndex (i # is) q =
     (if GetIndex q i = wIndex \<or> GetIndex q i = rIndex
      then swap_pass lib os clearAll wIndex rIndex is q
      else case unmapSegment lib os i q of
        (Ok _, q') \<Rightarrow>
          if \<not> clearAll \<and> MaxInMemSegments q' - mmapCount q' \<ge> MaxInMemSegments q' div 2 - 1
          then (Ok True, q')
          else swap_pass lib os clearAll wIndex rIndex is q'
      | (Err e, q') \<Rightarrow> (Err e, q')
      | (Panic, q') \<Rightarrow> (Panic, q')
      | (Hang, q') \<Rightarrow> (Hang, q'))"

text \<open>The outer loop, with fuel: \<open>Hang\<close> when it is spent.\<close>

fun swap_loop :: "nat \<Rightarrow> 'f mmap_lib \<Rightarrow> os_env \<Rightarrow> bool \<Rightarrow> int \<Rightarrow> int \<Rightarrow> int list \<Rightarrow> ('f, unit) mq" where
  "swap_loop 0 lib os clearAll wIndex rIndex ids q = (Hang, q)"
| "swap_loop (Suc fuel) lib os clearAll wIndex rIndex ids q =
     (if mmapCount q \<ge> MaxInMemSegments q
      then case swap_pass lib os clearAll wIndex rIndex ids q of
        (Ok True, q') \<Rightarrow> (Ok (), q')
      | (Ok False, q') \<Rightarrow> swap_loop fuel lib os clearAll wIndex rIndex ids q'
      | (Err e, q') \<Rightarrow> (Err e, q')
      | (Panic, q') \<Rightarrow> (Panic, q')
      | (Hang, q') \<Rightarrow> (Hang, q')
      else (Ok (), q))"

text \<open>The identifiers of the inner loop: \<open>logicWID - 1\<close> downwards, \<open>MaxInMemSegments\<close> of them.\<close>

definition swap_ids :: "'f mmap_queue \<Rightarrow> int \<Rightarrow> int list" where
  "swap_ids q logicWID = rev [max 0 (logicWID - MaxInMemSegments q)..logicWID - 1]"

definition doSwap_fuel :: "nat \<Rightarrow> 'f mmap_lib \<Rightarrow> os_env \<Rightarrow> ('f, unit) mq" where
  "doSwap_fuel fuel lib os q =
     (let rID = fst (GetReadingOffset lib (meta q));
          wID = fst (GetWritingOffset lib (meta q));
          logicWID = wID + QueueCapacitySegments q;
          wIndex = GetIndex q wID;
          rIndex = GetIndex q rID;
          clearAll = (wID - rID + 1 > MaxInMemSegments q * 3 div 2)
      in swap_loop fuel lib os clearAll wIndex rIndex (swap_ids q logicWID) q)"

definition doSwap :: "'f mmap_lib \<Rightarrow> os_env \<Rightarrow> ('f, unit) mq" where
  "doSwap lib os q = doSwap_fuel (nat (mmapCount q) + 2) lib os q"

text \<open>The two cases of the goroutine \<open>segmentSwapper\<close>; it logs errors and goes on.\<close>

definition swapper_insufficient :: "'f mmap_lib \<Rightarrow> os_env \<Rightarrow> ('f, unit) mq" where
  "swapper_insufficient lib os q =
     (if mmapCount q \<ge> MaxInMemSegments q
      then case doSwap lib os q of (Err _, q') \<Rightarrow> (Ok (), q') | r \<Rightarrow> r
      else (Ok (), q))"

definition swapper_markRead :: "'f mmap_lib \<Rightarrow> os_env \<Rightarrow> int \<Rightarrow> ('f, unit) mq" where
  "swapper_markRead lib os sid =
     go_bind (lock sid) (\<lambda>_. go_bind
       (\<lambda>q. case unmapSegment lib os sid q of (Err _, q') \<Rightarrow> (Ok (), q') | r \<Rightarrow> r)
       (\<lambda>_. unlock sid))"

definition swapper_receive :: "'f mmap_lib \<Rightarrow> os_env \<Rightarrow> ('f, unit) mq" where
  "swapper_receive lib os q =
     (case markReadChannel q of
        [] \<Rightarrow> (Ok (), q)
      | sid # rest \<Rightarrow> swapper_markRead lib os sid (q\<lparr>markReadChannel := rest\<rparr>))"

definition send_markRead :: "'f mmap_lib \<Rightarrow> os_env \<Rightarrow> int \<Rightarrow> ('f, unit) mq" where
  "send_markRead lib os sid =
     go_bind (\<lambda>q. if length (markReadChannel q) \<ge> 1 then swapper_receive lib os q else (Ok (), q))
       (\<lambda>_ q. (Ok (), q\<lparr>markReadChannel := markReadChannel q @ [sid]\<rparr>))"

definition GetSegment :: "'f mmap_lib \<Rightarrow> os_env \<Rightarrow> int \<Rightarrow> ('f, int) mq" where
  "GetSegment lib os segmentID =
     go_bind (\<lambda>q. if mmapCount q \<ge> MaxInMemSegments q then swapper_insufficient lib os q else (Ok (), q))
       (\<lambda>_. go_bind (mapSegment lib os segmentID)
       (\<lambda>_ q. let index = GetIndex q segmentID in
          case segments q ! nat index of
            Some _ \<Rightarrow> (Ok index, q)
          | None \<Rightarrow> (Err (Errorf ''cannot get a memory mapped file''), q)))"

section \<open>Access through a segment pointer\<close>

definition seg_ReadUint64At :: "'f mmap_lib \<Rightarrow> int \<Rightarrow> int \<Rightarrow> ('f, u64) mq" where
  "seg_ReadUint64At lib index offset q =
     (case segments q ! nat index of
        None \<Rightarrow> (Panic, q) | Some f \<Rightarrow> (Ok (ReadUint64At lib f offset), q))"

definition seg_WriteUint64At :: "'f mmap_lib \<Rightarrow> int \<Rightarrow> u64 \<Rightarrow> int \<Rightarrow> ('f, unit) mq" where
  "seg_WriteUint64At lib index v offset q =
     (case segments q ! nat index of
        None \<Rightarrow> (Panic, q)
      | Some f \<Rightarrow> (Ok (), q\<lparr>segments := (segments q)[nat index := Some (WriteUint64At lib f v offset)]\<rparr>))"

definition seg_ReadAt :: "'f mmap_lib \<Rightarrow> int \<Rightarrow> nat \<Rightarrow> int \<Rightarrow> ('f, byte list) mq" where
  "seg_ReadAt lib index len offset q =
     (case segments q ! nat index of
        None \<Rightarrow> (Panic, q) | Some f \<Rightarrow> (ReadAt lib f len offset, q))"

definition seg_WriteAt :: "'f mmap_lib \<Rightarrow> int \<Rightarrow> byte list \<Rightarrow> int \<Rightarrow> ('f, nat) mq" where
  "seg_WriteAt lib index bytes offset q =
     (case segments q ! nat index of
        None \<Rightarrow> (Panic, q)
      | Some f \<Rightarrow> (case WriteAt lib f bytes offset of
          (r, f') \<Rightarrow> (r, q\<lparr>segments := (segments q)[nat index := Some f']\<rparr>)))"

text \<open>\<open>x, err := call(); q.unlock(id); if err != nil \<dots>\<close>: the unlock comes before the test.\<close>

definition then_unlock :: "int \<Rightarrow> ('f, 'a) mq \<Rightarrow> ('f, 'a) mq" where
  "then_unlock sid call q =
     (case call q of (r, q') \<Rightarrow>
        if r = Panic \<or> r = Hang then (r, q') else go_bind (unlock sid) (\<lambda>_ q''. (r, q'')) q')"

text \<open>\<open>if offset == SegmentSize { id, offset = id+1, 0 }\<close>\<close>

definition next_pos :: "'f mmap_queue \<Rightarrow> int \<Rightarrow> int \<Rightarrow> int \<times> int" where
  "next_pos q sid offset = (if offset = SegmentSize q then (sid + 1, 0) else (sid, offset))"

text \<open>\<open>if offset+uInt64Size > SegmentSize { id, offset = id+1, 0 }\<close>\<close>

definition length_pos :: "'f mmap_queue \<Rightarrow> int \<Rightarrow> int \<Rightarrow> int \<times> int" where
  "length_pos q sid offset =
     (if offset + uInt64Size > SegmentSize q then (sid + 1, 0) else (sid, offset))"

section \<open>Queue operations (queue\_operation.go)\<close>

definition writeLength :: "'f mmap_lib \<Rightarrow> os_env \<Rightarrow> int \<Rightarrow> int \<Rightarrow> int \<Rightarrow> ('f, int \<times> int) mq" where
  "writeLength lib os len sid0 offset0 q =
     (case length_pos q sid0 offset0 of (sid, offset) \<Rightarrow>
        go_bind (lock sid) (\<lambda>_. go_bind (GetSegment lib os sid) (\<lambda>index.
        go_bind (seg_WriteUint64At lib index (intToUint64 len) offset) (\<lambda>_.
        go_bind (unlock sid) (\<lambda>_ q. (Ok (next_pos q sid (offset + uInt64Size)), q))))) q)"

definition readLength :: "'f mmap_lib \<Rightarrow> os_env \<Rightarrow> int \<Rightarrow> int \<Rightarrow> ('f, int \<times> int \<times> int) mq" where
  "readLength lib os sid0 offset0 q =
     (case length_pos q sid0 offset0 of (sid, offset) \<Rightarrow>
        go_bind (lock sid) (\<lambda>_. go_bind (GetSegment lib os sid) (\<lambda>index.
        go_bind (seg_ReadUint64At lib index offset) (\<lambda>num.
        go_bind (unlock sid) (\<lambda>_ q.
          case next_pos q sid (offset + uInt64Size) of (sid', offset') \<Rightarrow>
            (Ok (sid', offset', uint64ToInt num), q))))) q)"

text \<open>
  The loops carry what is left to write, or to read; each pass moves at least one byte, so one
  more pass than bytes is enough fuel.
\<close>

fun writeBytes_loop :: "nat \<Rightarrow> 'f mmap_lib \<Rightarrow> os_env \<Rightarrow> byte list \<Rightarrow> int \<Rightarrow> int \<Rightarrow> ('f, int \<times> int) mq" where
  "writeBytes_loop 0 lib os bytes sid offset q = (Hang, q)"
| "writeBytes_loop (Suc fuel) lib os bytes sid offset q =
     go_bind (lock sid) (\<lambda>_. go_bind (GetSegment lib os sid) (\<lambda>index.
     go_bind (then_unlock sid (seg_WriteAt lib index bytes offset)) (\<lambda>written q.
       case next_pos q sid (offset + int written) of (sid', offset') \<Rightarrow>
         if length bytes = written then (Ok (sid', offset'), q)
         else writeBytes_loop fuel lib os (drop written bytes) sid' offset' q))) q"

definition writeBytes :: "'f mmap_lib \<Rightarrow> os_env \<Rightarrow> byte list \<Rightarrow> int \<Rightarrow> int \<Rightarrow> ('f, int \<times> int) mq" where
  "writeBytes lib os bytes = writeBytes_loop (Suc (length bytes)) lib os bytes"

fun readBytes_loop :: "nat \<Rightarrow> 'f mmap_lib \<Rightarrow> os_env \<Rightarrow> byte list \<Rightarrow> int \<Rightarrow> int \<Rightarrow> nat
    \<Rightarrow> ('f, byte list \<times> int \<times> int) mq" where
  "readBytes_loop 0 lib os res sid offset len q = (Hang, q)"
| "readBytes_loop (Suc fuel) lib os res sid offset len q =
     go_bind (lock sid) (\<lambda>_. go_bind (GetSegment lib os sid) (\<lambda>index.
     go_bind (then_unlock sid (seg_ReadAt lib index len offset)) (\<lambda>bs q.
       case next_pos q sid (offset + int (length bs)) of (sid', offset') \<Rightarrow>
         if length bs = len then (Ok (res @ bs, sid', offset'), q)
         else readBytes_loop fuel lib os (res @ bs) sid' offset' (len - length bs) q))) q"

definition readBytes :: "'f mmap_lib \<Rightarrow> os_env \<Rightarrow> int \<Rightarrow> int \<Rightarrow> int \<Rightarrow> ('f, byte list \<times> int \<times> int) mq" where
  "readBytes lib os sid offset len = readBytes_loop (Suc (nat len)) lib os [] sid offset (nat len)"

definition isEmpty :: "'f mmap_lib \<Rightarrow> 'f mmap_queue \<Rightarrow> bool" where
  "isEmpty lib q \<longleftrightarrow> GetReadingOffset lib (meta q) = GetWritingOffset lib (meta q)"

definition IsFull :: "'f mmap_lib \<Rightarrow> 'f mmap_queue \<Rightarrow> bool" where
  "IsFull lib q \<longleftrightarrow>
     (let rid = fst (GetReadingOffset lib (meta q));
          wid = fst (GetWritingOffset lib (meta q));
          maxWid = rid + QueueCapacitySegments q - 1 - MaxEventSize q div SegmentSize q
      in wid \<ge> maxWid)"

definition flush_one :: "'f mmap_lib \<Rightarrow> os_env \<Rightarrow> int \<Rightarrow> ('f, unit) mq" where
  "flush_one lib os i q =
     (case segments q ! nat i of
        None \<Rightarrow> (Ok (), q)
      | Some f \<Rightarrow> (Ok (), if Flush lib f = None then flush_to_disk lib os i f q else q))"

fun flush_segments :: "'f mmap_lib \<Rightarrow> os_env \<Rightarrow> int list \<Rightarrow> ('f, unit) mq" where
  "flush_segments lib os [] q = (Ok (), q)"
| "flush_segments lib os (i # is) q =
     go_bind (lockByIndex i) (\<lambda>_. go_bind (flush_one lib os i)
       (\<lambda>_. go_bind (unlockByIndex i) (\<lambda>_. flush_segments lib os is))) q"

definition flush_meta :: "'f mmap_lib \<Rightarrow> os_env \<Rightarrow> 'f mmap_queue \<Rightarrow> 'f mmap_queue" where
  "flush_meta lib os q =
     (if Metadata_Flush lib (meta q) = None
      then q\<lparr>files := (files q)(filepath_Abs os (meta_path (queueName q)) \<mapsto> mmap_bytes lib (metaFile (meta q)))\<rparr>
      else q)"

definition doFlush :: "'f mmap_lib \<Rightarrow> os_env \<Rightarrow> ('f, unit) mq" where
  "doFlush lib os q =
     go_bind (flush_segments lib os [0..int (length (segments q)) - 1]) (\<lambda>_ q.
       case GetWritingOffset lib (meta q) of (wid, woffset) \<Rightarrow>
         (Ok (), flush_meta lib os (q\<lparr>meta := PutWatermarkOffset lib wid woffset (meta q)\<rparr>))) q"

text \<open>The end of \<open>enqueue\<close>: count, signal the flush goroutine at the ceiling, account the size.\<close>

definition enqueue_account :: "'f mmap_lib \<Rightarrow> os_env \<Rightarrow> int \<Rightarrow> ('f, unit) mq" where
  "enqueue_account lib os byteSize =
     go_bind (\<lambda>q. let q1 = q\<lparr>unflushedNum := unflushedNum q + 1\<rparr> in
         if unflushedNum q1 = FlushCeilingNum q1
         then go_bind (doFlush lib os) (\<lambda>_ q. (Ok (), q\<lparr>unflushedNum := 0\<rparr>)) q1
         else (Ok (), q1))
       (\<lambda>_ q. (Ok (), q\<lparr>usedSize := usedSize q + byteSize\<rparr>))"

definition enqueue :: "'f mmap_lib \<Rightarrow> os_env \<Rightarrow> byte list \<Rightarrow> ('f, unit) mq" where
  "enqueue lib os bytes q =
     (if IsFull lib q then (Err ErrFull, q)
      else case GetWritingOffset lib (meta q) of (sid, offset) \<Rightarrow>
        go_bind (writeLength lib os (int (length bytes)) sid offset) (\<lambda>(sid, offset).
        go_bind (writeBytes lib os bytes sid offset) (\<lambda>(sid, offset).
        go_bind (\<lambda>q. (Ok (), q\<lparr>meta := PutWritingOffset lib sid offset (meta q)\<rparr>)) (\<lambda>_.
        enqueue_account lib os (int (length bytes))))) q)"

definition dequeue :: "'f mmap_lib \<Rightarrow> os_env \<Rightarrow> ('f, byte list \<times> int \<times> int) mq" where
  "dequeue lib os q =
     (if isEmpty lib q then (Err ErrEmpty, q)
      else case GetReadingOffset lib (meta q) of (preID, preOffset) \<Rightarrow>
        go_bind (readLength lib os preID preOffset) (\<lambda>(sid, offset, len).
        go_bind (readBytes lib os sid offset len) (\<lambda>(bytes, sid, offset).
        go_bind (\<lambda>q. (Ok (), q\<lparr>meta := PutReadingOffset lib sid offset (meta q)\<rparr>)) (\<lambda>_.
        go_bind (if sid \<noteq> preID then send_markRead lib os preID else go_return ()) (\<lambda>_ q.
          (Ok (bytes, sid, offset), q\<lparr>usedSize := usedSize q - int (length bytes)\<rparr>))))) q)"

section \<open>The plugin interface (queue.go)\<close>

record proto_lib =
  Marshal :: "sniff_data \<Rightarrow> byte list outcome"
  Unmarshal :: "byte list \<Rightarrow> sniff_data outcome"

text \<open>
  The protobuf library: marshalling returns bytes or an error, and unmarshalling what was
  marshalled gives the message back.
\<close>

definition proto_laws :: "proto_lib \<Rightarrow> bool" where
  "proto_laws pb \<longleftrightarrow>
     (\<forall>e. Marshal pb e \<noteq> Panic \<and> Marshal pb e \<noteq> Hang) \<and>
     (\<forall>e b. Marshal pb e = Ok b \<longrightarrow> Unmarshal pb b = Ok e \<and> int (length b) \<le> MaxInt64)"

definition encodeOffset :: "int \<Rightarrow> int \<Rightarrow> Offset" where
  "encodeOffset sid offset = \<lparr>Partition = 0, Position = FormatInt sid @ ''-'' @ FormatInt offset\<rparr>"

definition decodeOffset :: "Offset \<Rightarrow> (int \<times> int) outcome" where
  "decodeOffset val =
     (case Split (CHR ''-'') (Position val) of
        [a, b] \<Rightarrow> (case ParseInt a of
            Ok sid \<Rightarrow> (case ParseInt b of Ok offset \<Rightarrow> Ok (sid, offset) | Err e \<Rightarrow> Err e | _ \<Rightarrow> Panic)
          | Err e \<Rightarrow> Err e
          | _ \<Rightarrow> Panic)
      | _ \<Rightarrow> Err (Errorf ''the input offset string is illegal''))"

definition Initialize :: "'f mmap_lib \<Rightarrow> os_env \<Rightarrow> ('f, unit) mq" where
  "Initialize lib os q =
     (let pageSize = os_pagesize os;
          q1 = (if go_rem (SegmentSize q) pageSize \<noteq> 0
                then q\<lparr>SegmentSize := SegmentSize q - go_rem (SegmentSize q) pageSize\<rparr> else q);
          q2 = (if SegmentSize q1 div pageSize = 0 then q1\<lparr>SegmentSize := data4KB\<rparr> else q1);
          q3 = (if MaxInMemSegments q2 < minimumSegments
                then q2\<lparr>MaxInMemSegments := minimumSegments\<rparr> else q2);
          q4 = q3\<lparr>queueName := ''mmap-queue_'' @ PipeName q3\<rparr>
      in case NewMetaData lib os (queueName q4) (QueueCapacitySegments q4) (files q4) of
           (Ok md, d) \<Rightarrow>
             (case (GetCommittedOffset lib md, GetWatermarkOffset lib md) of
                ((cmID, cmOffset), (wmID, wmOffset)) \<Rightarrow>
                let md' = PutReadingOffset lib cmID cmOffset (PutWritingOffset lib wmID wmOffset md);
                    q5 = q4\<lparr>files := d, meta := md'\<rparr> in
                if QueueCapacitySegments q5 < 0 then (Panic, q5)
                else go_bind (GetSegment lib os cmID) (\<lambda>_. go_bind (GetSegment lib os wmID) (\<lambda>_ q.
                  (Ok (), q\<lparr>markReadChannel := [],
                            locker := replicate (nat (QueueCapacitySegments q)) False,
                            ready := True\<rparr>)))
                  (q5\<lparr>segments := replicate (nat (QueueCapacitySegments q5)) None\<rparr>))
         | (Err e, d) \<Rightarrow> (Err (Errorf ''error in creating the metadata''), q4\<lparr>files := d\<rparr>)
         | (Panic, d) \<Rightarrow> (Panic, q4\<lparr>files := d\<rparr>)
         | (Hang, d) \<Rightarrow> (Hang, q4\<lparr>files := d\<rparr>))"

definition Enqueue :: "'f mmap_lib \<Rightarrow> os_env \<Rightarrow> proto_lib \<Rightarrow> sniff_data \<Rightarrow> ('f, unit) mq" where
  "Enqueue lib os pb e q =
     (if \<not> ready q then (Err ErrClosed, q)
      else case Marshal pb e of
        Ok data \<Rightarrow>
          if int (length data) > MaxEventSize q
          then (Err (Errorf ''cannot enqueue the event to the queue because the size is over ceiling''), q)
          else enqueue lib os data q
      | Err x \<Rightarrow> (Err x, q)
      | Panic \<Rightarrow> (Panic, q)
      | Hang \<Rightarrow> (Hang, q))"

definition Dequeue :: "'f mmap_lib \<Rightarrow> os_env \<Rightarrow> proto_lib \<Rightarrow> ('f, SequenceEvent) mq" where
  "Dequeue lib os pb q =
     (if \<not> ready q then (Err ErrClosed, q)
      else go_bind (dequeue lib os) (\<lambda>(data, sid, offset) q.
        case Unmarshal pb data of
          Ok e \<Rightarrow> (Ok \<lparr>se_Event = e, se_Offset = encodeOffset sid offset\<rparr>, q)
        | Err x \<Rightarrow> (Err x, q)
        | Panic \<Rightarrow> (Panic, q)
        | Hang \<Rightarrow> (Hang, q)) q)"

definition Ack :: "'f mmap_lib \<Rightarrow> Offset \<Rightarrow> ('f, unit) mq" where
  "Ack lib lastOffset q =
     (if \<not> ready q then (Ok (), q)
      else let (sid, offset) = (case decodeOffset lastOffset of Ok p \<Rightarrow> p | _ \<Rightarrow> (0, 0))
           in (Ok (), q\<lparr>meta := PutCommittedOffset lib sid offset (meta q)\<rparr>))"

text \<open>\<open>Close\<close>: the flush goroutine ends with a last \<open>doFlush\<close>, then every mapping is ended.\<close>

fun close_segments :: "'f mmap_lib \<Rightarrow> os_env \<Rightarrow> int list \<Rightarrow> 'f mmap_queue \<Rightarrow> 'f mmap_queue" where
  "close_segments lib os [] q = q"
| "close_segments lib os (i # is) q =
     close_segments lib os is
       (case segments q ! nat i of
          None \<Rightarrow> q
        | Some f \<Rightarrow> if Flush lib f = None then flush_to_disk lib os i f q else q)"

definition Close :: "'f mmap_lib \<Rightarrow> os_env \<Rightarrow> ('f, unit) mq" where
  "Close lib os q =
     go_bind (doFlush lib os) (\<lambda>_ q.
       (Ok (), flush_meta lib os (close_segments lib os [0..int (length (segments q)) - 1] q)))
     (q\<lparr>ready := False\<rparr>)"

definition TotalSize :: "'f mmap_queue \<Rightarrow> int" where
  "TotalSize q = QueueCapacitySegments q * SegmentSize q"

definition UsedCount :: "'f mmap_queue \<Rightarrow> int" where
  "UsedCount q = usedSize q"

end
