(* ===== verification/Mmap_View.thy ===== *)
theory Mmap_View
  imports Mmap_Queue
begin

text \<open>
  What the memory mapped queue stores, seen as one byte sequence. Segment identifiers grow
  without bound and segment \<open>n\<close> lives in file \<open>n mod capacity\<close>; \<open>vbyte q a\<close> is the byte at
  the linear address \<open>a = id * SegmentSize + offset\<close>, whether its segment is mapped or only on
  disk. Mapping, unmapping, swapping and locking do not change what is stored (\<open>same_view\<close>);
  a write changes exactly the addresses it is meant for (\<open>wrote\<close>).
\<close>

section \<open>Stored bytes\<close>

abbreviation nS :: "'f mmap_queue \<Rightarrow> nat" where "nS q \<equiv> nat (SegmentSize q)"
abbreviation nC :: "'f mmap_queue \<Rightarrow> nat" where "nC q \<equiv> nat (QueueCapacitySegments q)"

definition seg_content :: "'f mmap_lib \<Rightarrow> os_env \<Rightarrow> 'f mmap_queue \<Rightarrow> nat \<Rightarrow> byte list" where
  "seg_content lib os q i =
     (case segments q ! i of
        Some f \<Rightarrow> mmap_bytes lib f
      | None \<Rightarrow> truncate_to (nS q) (file_content (files q) (filepath_Abs os (seg_path q (int i)))))"

definition vbyte :: "'f mmap_lib \<Rightarrow> os_env \<Rightarrow> 'f mmap_queue \<Rightarrow> nat \<Rightarrow> byte" where
  "vbyte lib os q a = seg_content lib os q (a div nS q mod nC q) ! (a mod nS q)"

definition vread :: "'f mmap_lib \<Rightarrow> os_env \<Rightarrow> 'f mmap_queue \<Rightarrow> nat \<Rightarrow> nat \<Rightarrow> byte list" where
  "vread lib os q A n = map (\<lambda>k. vbyte lib os q (A + k)) [0..<n]"

definition addr :: "'f mmap_queue \<Rightarrow> int \<Rightarrow> int \<Rightarrow> nat" where
  "addr q sid offset = nat sid * nS q + nat offset"

definition mq_wf :: "'f mmap_lib \<Rightarrow> os_env \<Rightarrow> 'f mmap_queue \<Rightarrow> bool" where
  "mq_wf lib os q \<longleftrightarrow>
     mmap_laws lib \<and> 8 \<le> SegmentSize q \<and> 0 < QueueCapacitySegments q \<and>
     length (segments q) = nC q \<and> length (locker q) = nC q \<and>
     (\<forall>i < nC q. \<forall>f. segments q ! i = Some f \<longrightarrow> length (mmap_bytes lib f) = nS q) \<and>
     meta_wf lib (meta q) \<and> list_all (\<lambda>i. 0 \<le> i) (markReadChannel q)"

lemma mq_wfD:
  assumes "mq_wf lib os q"
  shows wf_laws: "mmap_laws lib" and wf_size: "8 \<le> SegmentSize q" "8 \<le> nS q" "0 < nS q"
    and wf_cap: "0 < QueueCapacitySegments q" "0 < nC q"
    and wf_segs: "length (segments q) = nC q" and wf_lock: "length (locker q) = nC q"
    and wf_bytes: "\<And>i f. i < nC q \<Longrightarrow> segments q ! i = Some f \<Longrightarrow> length (mmap_bytes lib f) = nS q"
    and wf_meta: "meta_wf lib (meta q)" and wf_chan: "list_all (\<lambda>i. 0 \<le> i) (markReadChannel q)"
  using assms by (auto simp: mq_wf_def)

text \<open>The fields that no operation on segments writes.\<close>

definition fixed :: "'f mmap_queue \<Rightarrow> (int \<times> int \<times> int \<times> int \<times> int) \<times> (string \<times> string) \<times> bool \<times> int \<times> int" where
  "fixed q = ((SegmentSize q, MaxInMemSegments q, QueueCapacitySegments q, FlushCeilingNum q,
     MaxEventSize q), (queueName q, PipeName q), ready q, usedSize q, unflushedNum q)"

definition same_view :: "'f mmap_lib \<Rightarrow> os_env \<Rightarrow> 'f mmap_queue \<Rightarrow> 'f mmap_queue \<Rightarrow> bool" where
  "same_view lib os q q' \<longleftrightarrow> mq_wf lib os q' \<and> fixed q' = fixed q \<and> meta q' = meta q \<and>
     (\<forall>i < nC q. seg_content lib os q' i = seg_content lib os q i)"

lemma same_view_refl: "mq_wf lib os q \<Longrightarrow> same_view lib os q q"
  by (simp add: same_view_def)

lemma same_view_trans:
  "same_view lib os q q1 \<Longrightarrow> same_view lib os q1 q2 \<Longrightarrow> same_view lib os q q2"
  by (auto simp: same_view_def fixed_def)

lemma same_view_wf: "same_view lib os q q' \<Longrightarrow> mq_wf lib os q'"
  by (simp add: same_view_def)

lemma same_view_fields:
  assumes "same_view lib os q q'"
  shows "SegmentSize q' = SegmentSize q" and "QueueCapacitySegments q' = QueueCapacitySegments q"
    and "MaxInMemSegments q' = MaxInMemSegments q" and "MaxEventSize q' = MaxEventSize q"
    and "queueName q' = queueName q" and "meta q' = meta q" and "ready q' = ready q"
    and "GetIndex q' i = GetIndex q i" and "usedSize q' = usedSize q"
  using assms by (auto simp: same_view_def fixed_def GetIndex_def)

lemma same_view_bind:
  assumes "go_bind m k q = (r, q2)"
    and "\<And>r q1. m q = (r, q1) \<Longrightarrow> same_view lib os q q1"
    and "\<And>x q1 r q2. m q = (Ok x, q1) \<Longrightarrow> same_view lib os q q1 \<Longrightarrow> k x q1 = (r, q2) \<Longrightarrow> same_view lib os q1 q2"
  shows "same_view lib os q q2"
proof (cases "m q")
  case (Pair r1 q1)
  with assms show ?thesis
    by (cases r1) (auto simp: go_bind_def intro: same_view_trans)
qed

section \<open>Addresses\<close>

lemma in_range_nat: "in_range i xs \<Longrightarrow> nat i < length xs \<and> int (nat i) = i"
  by (simp add: in_range_def nat_less_iff)

lemma GetIndex_nat:
  "0 < QueueCapacitySegments q \<Longrightarrow> 0 \<le> sid \<Longrightarrow>
   GetIndex q sid = int (nat sid mod nC q) \<and> nat sid mod nC q < nC q"
  by (simp add: GetIndex_def zmod_int)

lemma addr_div_mod:
  assumes "0 < nS q" and "0 \<le> offset" and "nat offset + k < nS q"
  shows "(addr q sid offset + k) div nS q = nat sid" and "(addr q sid offset + k) mod nS q = nat offset + k"
  using assms by (simp_all add: addr_def add.assoc)

lemma seg_path_inject:
  assumes "filepath_Abs os (seg_path q (int i)) = filepath_Abs os (seg_path q (int j))"
  shows "i = j"
proof -
  have "HasPrefix (seg_path q (int i)) ''/'' = HasPrefix (seg_path q (int j)) ''/''"
    by (cases "queueName q") (simp_all add: HasPrefix_def seg_path_def path_Join_def)
  with assms have "FormatInt (int i) = FormatInt (int j)"
    by (auto simp: filepath_Abs_def seg_path_def path_Join_def split: if_splits)
  with FormatInt_inject [of "int i" "int j"] show ?thesis by simp
qed

section \<open>Operations that keep what is stored\<close>

lemma lockByIndex_view:
  "mq_wf lib os q \<Longrightarrow> lockByIndex i q = (r, q') \<Longrightarrow> same_view lib os q q'"
  by (auto simp: lockByIndex_def same_view_def mq_wf_def fixed_def seg_content_def seg_path_def split: if_splits option.splits)

lemma unlockByIndex_view:
  "mq_wf lib os q \<Longrightarrow> unlockByIndex i q = (r, q') \<Longrightarrow> same_view lib os q q'"
  by (auto simp: unlockByIndex_def same_view_def mq_wf_def fixed_def seg_content_def seg_path_def split: if_splits option.splits)

lemma lock_view: "mq_wf lib os q \<Longrightarrow> lock sid q = (r, q') \<Longrightarrow> same_view lib os q q'"
  by (simp add: lock_def lockByIndex_view)

lemma unlock_view: "mq_wf lib os q \<Longrightarrow> unlock sid q = (r, q') \<Longrightarrow> same_view lib os q q'"
  by (simp add: unlock_def unlockByIndex_view)

text \<open>Replacing the files by files with the same content up to the segment size.\<close>

lemma files_view:
  assumes "mq_wf lib os q"
    and "\<And>p. truncate_to (nS q) (file_content d p) = truncate_to (nS q) (file_content (files q) p)"
  shows "same_view lib os q (q\<lparr>files := d\<rparr>)"
  using assms by (auto simp: same_view_def mq_wf_def fixed_def seg_content_def seg_path_def split: option.splits)

lemma mapSegment_view:
  assumes wf: "mq_wf lib os q" and run: "mapSegment lib os sid q = (r, q')"
  shows "same_view lib os q q'"
proof -
  let ?i = "GetIndex q sid"
  show ?thesis
  proof (cases "in_range ?i (segments q) \<and> segments q ! nat ?i = None")
    case False
    with run wf show ?thesis
      by (auto simp: mapSegment_def Let_def same_view_refl split: option.splits if_splits)
  next
    case True
    then have i: "nat ?i < nC q" "int (nat ?i) = ?i"
      using in_range_nat [of ?i "segments q"] wf_segs [OF wf] by simp_all
    obtain s d where new: "NewSegment lib os (seg_path q ?i) (SegmentSize q) (files q) = (s, d)"
      by fastforce
    have size: "0 \<le> SegmentSize q" using wf_size [OF wf] by simp
    have fv: "same_view lib os q (q\<lparr>files := d\<rparr>)"
      using NewSegment_content(1) [OF new size] by (intro files_view [OF wf]) auto
    show ?thesis
    proof (cases s)
      case (Ok f)
      have f: "mmap_bytes lib f
          = truncate_to (nS q) (file_content (files q) (filepath_Abs os (seg_path q (int (nat ?i)))))"
        using NewSegment_Ok(1) [OF wf_laws [OF wf] new [unfolded Ok] size] i by simp
      from fv True i f Ok new run show ?thesis
        using wf
        by (auto simp: mapSegment_def Let_def same_view_def mq_wf_def fixed_def seg_content_def
            seg_path_def nth_list_update split: if_splits option.splits)
    qed (use fv True new run in \<open>auto simp: mapSegment_def Let_def\<close>)
  qed
qed

lemma flush_to_disk_content:
  assumes wf: "mq_wf lib os q" and f: "segments q ! i = Some f" and i: "i < nC q" and j: "j < nC q"
  shows "file_content (files (flush_to_disk lib os (int i) f q)) (filepath_Abs os (seg_path q (int j)))
    = (if i = j then mmap_bytes lib f else file_content (files q) (filepath_Abs os (seg_path q (int j))))"
  using seg_path_inject [of os q i j] by (auto simp: flush_to_disk_def file_content_def)

lemma flush_to_disk_view:
  assumes wf: "mq_wf lib os q" and f: "segments q ! i = Some f" and i: "i < nC q"
  shows "same_view lib os q (flush_to_disk lib os (int i) f q)"
proof -
  let ?q = "flush_to_disk lib os (int i) f q"
  have keep: "segments ?q = segments q" "SegmentSize ?q = SegmentSize q" "seg_path ?q = seg_path q"
    "fixed ?q = fixed q" "meta ?q = meta q" "mq_wf lib os ?q"
    using wf by (auto simp: flush_to_disk_def fixed_def seg_path_def fun_eq_iff mq_wf_def)
  have "seg_content lib os ?q j = seg_content lib os q j" if "j < nC q" for j
    using f flush_to_disk_content [OF wf f i that]
    by (auto simp: seg_content_def keep split: option.splits)
  with keep show ?thesis by (simp add: same_view_def)
qed

lemma unmapSegment_view:
  assumes wf: "mq_wf lib os q" and run: "unmapSegment lib os sid q = (r, q')"
  shows "same_view lib os q q'"
proof -
  let ?i = "GetIndex q sid"
  show ?thesis
  proof (cases "in_range ?i (segments q) \<and> segments q ! nat ?i \<noteq> None")
    case False
    with run wf show ?thesis
      by (auto simp: unmapSegment_def Let_def same_view_refl split: option.splits if_splits)
  next
    case True
    then obtain f where f: "segments q ! nat ?i = Some f" by auto
    from True have i: "nat ?i < nC q" "int (nat ?i) = ?i"
      using in_range_nat [of ?i "segments q"] wf_segs [OF wf] by simp_all
    let ?q1 = "flush_to_disk lib os ?i f q"
    have v: "same_view lib os q ?q1"
      using flush_to_disk_view(1) [OF wf f i(1)] i(2) by simp
    have gone: "same_view lib os q (?q1\<lparr>mmapCount := n, segments := (segments ?q1)[nat ?i := None]\<rparr>)"
      (is "same_view lib os q ?q2") for n
    proof -
      have keep: "SegmentSize ?q1 = SegmentSize q" "seg_path ?q2 = seg_path q" "files ?q2 = files ?q1"
        "segments ?q2 = (segments q)[nat ?i := None]"
        "fixed ?q2 = fixed q" "meta ?q2 = meta q" "mq_wf lib os ?q2"
        using wf i(1) by (auto simp: flush_to_disk_def fixed_def seg_path_def fun_eq_iff mq_wf_def
            nth_list_update split: if_splits)
      have "seg_content lib os ?q2 j = seg_content lib os q j" if "j < nC q" for j
        using f i wf_bytes [OF wf i(1) f] flush_to_disk_content [OF wf f i(1) that] wf_segs [OF wf]
        by (auto simp: seg_content_def keep nth_list_update split: option.splits)
      with keep show ?thesis by (simp add: same_view_def)
    qed
    from run True f v gone wf show ?thesis
      by (auto simp: unmapSegment_def Let_def same_view_refl split: option.splits)
  qed
qed

lemma swap_pass_view:
  "mq_wf lib os q \<Longrightarrow> swap_pass lib os c w r ids q = (x, q') \<Longrightarrow> same_view lib os q q'"
proof (induction ids arbitrary: q)
  case Nil
  then show ?case by (simp add: same_view_refl)
next
  case (Cons i ids)
  obtain y q1 where un: "unmapSegment lib os i q = (y, q1)" by fastforce
  have v: "same_view lib os q q1" by (rule unmapSegment_view [OF Cons.prems(1) un])
  note step = same_view_trans [OF v Cons.IH [OF same_view_wf [OF v]]]
  show ?case
    using Cons.prems un v step Cons.IH [OF Cons.prems(1)]
    by (cases y) (auto split: if_splits)
qed

lemma swap_loop_view:
  "mq_wf lib os q \<Longrightarrow> swap_loop n lib os c w r ids q = (x, q') \<Longrightarrow> same_view lib os q q'"
proof (induction n arbitrary: q)
  case 0
  then show ?case by (simp add: same_view_refl)
next
  case (Suc n)
  obtain y q1 where p: "swap_pass lib os c w r ids q = (y, q1)" by fastforce
  have v: "same_view lib os q q1" by (rule swap_pass_view [OF Suc.prems(1) p])
  note step = same_view_trans [OF v Suc.IH [OF same_view_wf [OF v]]]
  show ?case
    using Suc.prems p v step
    by (cases y) (auto simp: same_view_refl split: if_splits bool.splits)
qed

lemma doSwap_view: "mq_wf lib os q \<Longrightarrow> doSwap lib os q = (x, q') \<Longrightarrow> same_view lib os q q'"
  unfolding doSwap_def doSwap_fuel_def Let_def by (rule swap_loop_view)

lemma swapper_insufficient_view:
  "mq_wf lib os q \<Longrightarrow> swapper_insufficient lib os q = (x, q') \<Longrightarrow> same_view lib os q q'"
  by (auto simp: swapper_insufficient_def same_view_refl dest: doSwap_view
      split: if_splits prod.splits outcome.splits)

lemma GetSegment_view:
  assumes wf: "mq_wf lib os q" and run: "GetSegment lib os sid q = (r, q')"
  shows "same_view lib os q q'"
  using run unfolding GetSegment_def
proof (rule same_view_bind)
  fix r q1 assume "(if mmapCount q \<ge> MaxInMemSegments q then swapper_insufficient lib os q else (Ok (), q)) = (r, q1)"
  then show "same_view lib os q q1"
    using wf by (auto simp: same_view_refl dest: swapper_insufficient_view split: if_splits)
next
  fix q1 r2 q2
  assume "same_view lib os q q1"
  then have wf1: "mq_wf lib os q1" by (rule same_view_wf)
  assume "go_bind (mapSegment lib os sid) (\<lambda>_ q. let index = GetIndex q sid in
          case segments q ! nat index of Some _ \<Rightarrow> (Ok index, q)
          | None \<Rightarrow> (Err (Errorf ''cannot get a memory mapped file''), q)) q1 = (r2, q2)"
  then show "same_view lib os q1 q2"
    by (rule same_view_bind)
      (auto simp: Let_def intro: mapSegment_view [OF wf1] same_view_refl dest: same_view_wf split: option.splits)
qed

end
