(* ===== verification/Mmap_Access.thy ===== *)
theory Mmap_Access
  imports Mmap_View
begin

text \<open>
  Access to one segment of the memory mapped queue, as weakest preconditions: taking the
  segment's lock, mapping the segment, reading and writing it. The statements serve partial
  correctness (\<open>h\<close> holds: a call may spin forever) and total correctness (\<open>h\<close> does not
  hold) at once: \<open>calm h\<close> is the condition under which calls return, and it is trivial when
  \<open>h\<close> holds.
\<close>

section \<open>When calls return\<close>

text \<open>
  No system call fails, exactly the locks in \<open>L\<close> are held, and \<open>n\<close> more segments can be
  mapped before the limit is reached.
\<close>

definition calm :: "bool \<Rightarrow> 'f mmap_lib \<Rightarrow> os_env \<Rightarrow> nat set \<Rightarrow> nat \<Rightarrow> 'f mmap_queue \<Rightarrow> bool" where
  "calm h lib os L n q \<longleftrightarrow> h \<or>
     (os_ok os \<and> (\<forall>f. Flush lib f = None \<and> Unmap lib f = None) \<and>
      (\<forall>i < nC q. locker q ! i \<longleftrightarrow> i \<in> L) \<and> mmapCount q + int n \<le> MaxInMemSegments q)"

lemma calm_True [simp]: "calm True lib os L n q"
  by (simp add: calm_def)

lemma calm_less: "calm h lib os L n q \<Longrightarrow> m \<le> n \<Longrightarrow> calm h lib os L m q"
  by (auto simp: calm_def)

section \<open>No panic\<close>

lemma index_in_range:
  assumes "mq_wf lib os q" and "0 \<le> sid"
  shows "in_range (GetIndex q sid) (segments q)" and "in_range (GetIndex q sid) (locker q)"
    and "nat (GetIndex q sid) = nat sid mod nC q" and "nat sid mod nC q < nC q"
proof -
  have c: "0 < QueueCapacitySegments q" by (rule wf_cap(1) [OF assms(1)])
  note i = GetIndex_nat [OF c assms(2)]
  then show "nat (GetIndex q sid) = nat sid mod nC q" "nat sid mod nC q < nC q" by auto
  from i c show "in_range (GetIndex q sid) (segments q)" "in_range (GetIndex q sid) (locker q)"
    by (metis in_range_def of_nat_0_le_iff of_nat_less_iff wf_segs [OF assms(1)],
        metis in_range_def of_nat_0_le_iff of_nat_less_iff wf_lock [OF assms(1)])
qed

lemma unmapSegment_no_Panic:
  "mq_wf lib os q \<Longrightarrow> 0 \<le> sid \<Longrightarrow> unmapSegment lib os sid q = (r, q') \<Longrightarrow> r \<noteq> Panic \<and> r \<noteq> Hang"
  by (auto simp: unmapSegment_def Let_def index_in_range split: option.splits)

lemma swap_pass_no_Panic:
  "mq_wf lib os q \<Longrightarrow> list_all (\<lambda>i. 0 \<le> i) ids \<Longrightarrow> swap_pass lib os c w r ids q = (x, q') \<Longrightarrow> x \<noteq> Panic"
proof (induction ids arbitrary: q)
  case (Cons i ids)
  obtain y q1 where un: "unmapSegment lib os i q = (y, q1)" by fastforce
  have v: "mq_wf lib os q1" by (rule same_view_wf [OF unmapSegment_view [OF Cons.prems(1) un]])
  show ?case
    using Cons.prems un Cons.IH [OF v] Cons.IH [OF Cons.prems(1)] unmapSegment_no_Panic [OF Cons.prems(1) _ un]
    by (cases y) (auto split: if_splits)
qed auto

lemma swap_loop_no_Panic:
  "mq_wf lib os q \<Longrightarrow> list_all (\<lambda>i. 0 \<le> i) ids \<Longrightarrow> swap_loop n lib os c w r ids q = (x, q') \<Longrightarrow> x \<noteq> Panic"
proof (induction n arbitrary: q)
  case (Suc n)
  obtain y q1 where p: "swap_pass lib os c w r ids q = (y, q1)" by fastforce
  have v: "mq_wf lib os q1" by (rule same_view_wf [OF swap_pass_view [OF Suc.prems(1) p]])
  show ?case
    using Suc.prems p Suc.IH [OF v] swap_pass_no_Panic [OF Suc.prems(1,2) p]
    by (cases y) (auto split: if_splits bool.splits)
qed simp

lemma doSwap_no_Panic: "mq_wf lib os q \<Longrightarrow> doSwap lib os q = (x, q') \<Longrightarrow> x \<noteq> Panic"
  unfolding doSwap_def doSwap_fuel_def Let_def
  by (erule swap_loop_no_Panic [rotated 2]) (auto simp: swap_ids_def list_all_iff)

lemma wp_swapper_insufficient:
  assumes "mq_wf lib os q"
  shows "wp True (swapper_insufficient lib os) (\<lambda>_ q'. same_view lib os q q') E q"
proof -
  obtain x q' where d: "doSwap lib os q = (x, q')" by fastforce
  show ?thesis
    using doSwap_view [OF assms d] doSwap_no_Panic [OF assms d] d assms
    by (cases x) (auto simp: wp_def swapper_insufficient_def same_view_refl)
qed

section \<open>Locks\<close>

lemma wp_lock:
  assumes wf: "mq_wf lib os q" and sid: "0 \<le> sid" and calm: "calm h lib os L n q"
    and free: "nat sid mod nC q \<notin> L"
  shows "wp h (lock sid) (\<lambda>_ q'. same_view lib os q q' \<and> calm h lib os (insert (nat sid mod nC q) L) n q') E q"
proof -
  have "same_view lib os q q'" if "lock sid q = (r, q')" for r q'
    by (rule lock_view [OF wf that])
  with index_in_range [OF wf sid] calm free wf_lock [OF wf] show ?thesis
    by (auto simp: wp_def lock_def lockByIndex_def calm_def nth_list_update)
qed

lemma wp_unlock:
  assumes wf: "mq_wf lib os q" and sid: "0 \<le> sid" and calm: "calm h lib os L n q"
    and held: "nat sid mod nC q \<in> L"
  shows "wp h (unlock sid) (\<lambda>_ q'. same_view lib os q q' \<and> calm h lib os (L - {nat sid mod nC q}) n q') E q"
proof -
  have "same_view lib os q q'" if "unlock sid q = (r, q')" for r q'
    by (rule unlock_view [OF wf that])
  with index_in_range [OF wf sid] calm held wf_lock [OF wf] show ?thesis
    by (auto simp: wp_def unlock_def unlockByIndex_def calm_def nth_list_update)
qed

section \<open>Mapping a segment\<close>

lemma wp_mapSegment:
  assumes wf: "mq_wf lib os q" and sid: "0 \<le> sid" and calm: "calm h lib os L (Suc n) q"
  shows "wp h (mapSegment lib os sid)
    (\<lambda>_ q'. same_view lib os q q' \<and> calm h lib os L n q' \<and> (\<exists>f. segments q' ! (nat sid mod nC q) = Some f))
    (\<lambda>e q'. h \<and> (\<exists>m. e = Errorf m) \<and> same_view lib os q q') q"
proof -
  let ?i = "nat sid mod nC q"
  note i = index_in_range [OF wf sid]
  have view: "same_view lib os q q'" if "mapSegment lib os sid q = (r, q')" for r q'
    by (rule mapSegment_view [OF wf that])
  obtain s d where new: "NewSegment lib os (seg_path q (GetIndex q sid)) (SegmentSize q) (files q) = (s, d)"
    by fastforce
  note np = NewSegment_no_Panic [OF new]
  have err: "h" if "s = Err e" for e
    using calm new that NewSegment_total [of os lib "seg_path q (GetIndex q sid)" "SegmentSize q" "files q"]
    by (auto simp: calm_def)
  show ?thesis
  proof (cases "segments q ! ?i")
    case (Some f)
    then have "mapSegment lib os sid q = (Ok (), q)"
      using i by (simp add: mapSegment_def Let_def)
    with Some view calm_less [OF calm] show ?thesis by (auto simp: wp_def)
  next
    case None
    show ?thesis
    proof (cases s)
      case (Ok f)
      then have "mapSegment lib os sid q = (Ok (), q\<lparr>files := d, mmapCount := mmapCount q + 1,
           segments := (segments q)[?i := Some f]\<rparr>)"
        using i None new by (simp add: mapSegment_def Let_def)
      with view calm i wf_segs [OF wf] show ?thesis by (auto simp: wp_def calm_def)
    next
      case (Err e)
      then have "mapSegment lib os sid q = (Err e, q\<lparr>files := d\<rparr>)"
        using i None new by (simp add: mapSegment_def Let_def)
      with view err [OF Err] np(3) [OF Err] show ?thesis by (auto simp: wp_def)
    qed (use np in auto)
  qed
qed

lemma wp_GetSegment:
  assumes wf: "mq_wf lib os q" and sid: "0 \<le> sid" and calm: "calm h lib os L (Suc n) q"
  shows "wp h (GetSegment lib os sid)
    (\<lambda>ix q'. same_view lib os q q' \<and> calm h lib os L n q' \<and> ix = GetIndex q sid \<and>
       (\<exists>f. segments q' ! (nat sid mod nC q) = Some f))
    (\<lambda>e q'. h \<and> (\<exists>m. e = Errorf m) \<and> same_view lib os q q') q"
proof -
  have swap: "wp h (\<lambda>q. if mmapCount q \<ge> MaxInMemSegments q then swapper_insufficient lib os q else (Ok (), q))
     (\<lambda>_ q'. same_view lib os q q' \<and> calm h lib os L (Suc n) q') (\<lambda>_ _. False) q"
  proof (cases h)
    case True
    show ?thesis
      using wp_swapper_insufficient [OF wf] wf True
      by (cases "mmapCount q \<ge> MaxInMemSegments q") (auto simp: wp_def same_view_refl)
  qed (use calm wf in \<open>auto simp: calm_def wp_def same_view_refl\<close>)
  have map: "wp h (mapSegment lib os sid)
      (\<lambda>_ q'. same_view lib os q q' \<and> calm h lib os L n q' \<and> (\<exists>f. segments q' ! (nat sid mod nC q) = Some f))
      (\<lambda>e q'. h \<and> (\<exists>m. e = Errorf m) \<and> same_view lib os q q') q1"
    if v: "same_view lib os q q1" and c: "calm h lib os L (Suc n) q1" for q1
    using wp_mapSegment [OF same_view_wf [OF v] sid c] same_view_fields [OF v] same_view_trans [OF v]
    by (auto elim!: wp_conseq)
  show ?thesis
    unfolding GetSegment_def wp_bind
  proof (rule wp_conseq [OF swap])
    fix u q1 assume "same_view lib os q q1 \<and> calm h lib os L (Suc n) q1"
    then show "wp h (mapSegment lib os sid) (\<lambda>_. wp h (\<lambda>q. let index = GetIndex q sid in
        case segments q ! nat index of Some _ \<Rightarrow> (Ok index, q)
        | None \<Rightarrow> (Err (Errorf ''cannot get a memory mapped file''), q))
      (\<lambda>ix q'. same_view lib os q q' \<and> calm h lib os L n q' \<and> ix = GetIndex q sid \<and>
         (\<exists>f. segments q' ! (nat sid mod nC q) = Some f))
      (\<lambda>e q'. h \<and> (\<exists>m. e = Errorf m) \<and> same_view lib os q q'))
      (\<lambda>e q'. h \<and> (\<exists>m. e = Errorf m) \<and> same_view lib os q q') q1"
      by (elim conjE, intro wp_conseq [OF map])
        (auto simp: wp_def Let_def index_in_range [OF wf sid] same_view_fields(8) split: option.splits)
  qed auto
qed

text \<open>The common prefix of all accesses: lock the segment, map it, go on with its index.\<close>

lemma wp_locked_segment:
  assumes wf: "mq_wf lib os q" and sid: "0 \<le> sid" and calm: "calm h lib os {} (Suc n) q"
    and err: "\<And>m q'. h \<Longrightarrow> same_view lib os q q' \<Longrightarrow> E (Errorf m) q'"
    and ok: "\<And>q1 f. same_view lib os q q1 \<Longrightarrow> calm h lib os {nat sid mod nC q} n q1 \<Longrightarrow>
      segments q1 ! (nat sid mod nC q) = Some f \<Longrightarrow> wp h (k (GetIndex q sid)) Q E q1"
  shows "wp h (go_bind (lock sid) (\<lambda>_. go_bind (GetSegment lib os sid) k)) Q E q"
  unfolding wp_bind
proof (rule wp_conseq [OF wp_lock [OF wf sid calm]])
  fix u q1 assume "same_view lib os q q1 \<and> calm h lib os (insert (nat sid mod nC q) {}) (Suc n) q1"
  then have v: "same_view lib os q q1" and c: "calm h lib os {nat sid mod nC q} (Suc n) q1" by auto
  show "wp h (GetSegment lib os sid) (\<lambda>ix. wp h (k ix) Q E) E q1"
    by (rule wp_conseq [OF wp_GetSegment [OF same_view_wf [OF v] sid c]])
      (auto simp: same_view_fields [OF v] intro: ok err same_view_trans [OF v])
qed auto

end
