(* ===== verification/Mmap_Rw.thy ===== *)
theory Mmap_Rw
  imports Mmap_Access
begin

text \<open>
  Reading and writing lengths and byte blocks across segments, on linear addresses:
  \<open>writeLength\<close>, \<open>writeBytes\<close>, \<open>readLength\<close> and \<open>readBytes\<close> of \<open>queue_operation.go\<close>.
\<close>

section \<open>Positions\<close>

definition pos_ok :: "'f mmap_queue \<Rightarrow> int \<Rightarrow> int \<Rightarrow> bool" where
  "pos_ok q sid offset \<longleftrightarrow> 0 \<le> sid \<and> 0 \<le> offset \<and> offset < SegmentSize q"

text \<open>Where the length of the event that starts at \<open>A\<close> is stored.\<close>

definition hdr :: "nat \<Rightarrow> nat \<Rightarrow> nat" where
  "hdr S A = (if A mod S + 8 > S then (A div S + 1) * S else A)"

lemma le_next_segment: "0 < S \<Longrightarrow> A < (A div S + 1) * (S::nat)"
  by (simp add: add_mult_distrib) (metis add.commute dividend_less_div_times)

lemma hdr_bounds: "0 < S \<Longrightarrow> A \<le> hdr S A \<and> hdr S A \<le> (A div S + 1) * S"
  using le_next_segment [of S A] by (auto simp: hdr_def)

lemma pos_ok_nat: "pos_ok q sid offset \<Longrightarrow> nat offset < nS q"
  by (auto simp: pos_ok_def)

lemma addr_div: "pos_ok q sid offset \<Longrightarrow> addr q sid offset div nS q = nat sid"
  and addr_mod: "pos_ok q sid offset \<Longrightarrow> addr q sid offset mod nS q = nat offset"
  using addr_div_mod [of q offset 0 sid] by (auto simp: pos_ok_def)

lemma addr_inject:
  assumes "pos_ok q a b" and "pos_ok q c d" and "addr q a b = addr q c d"
  shows "(a, b) = (c, d)"
proof -
  have "nat a = nat c" "nat b = nat d" using assms by (metis addr_div, metis addr_mod)
  with assms(1,2) show ?thesis by (auto simp: pos_ok_def eq_nat_nat_iff)
qed

lemma addr_cong: "fixed q' = fixed q \<Longrightarrow> addr q' = addr q \<and> pos_ok q' = pos_ok q"
  by (auto simp: addr_def fixed_def pos_ok_def fun_eq_iff)

lemma next_pos_addr:
  assumes "next_pos q sid offset = (sid', offset')"
    and "0 \<le> sid" and "0 \<le> offset" and "offset \<le> SegmentSize q" and "0 < SegmentSize q"
  shows "pos_ok q sid' offset'" and "addr q sid' offset' = addr q sid offset"
  using assms by (auto simp: next_pos_def pos_ok_def addr_def nat_add_distrib split: if_splits)

lemma length_pos_addr:
  assumes "length_pos q sid0 offset0 = (sid, offset)" and "pos_ok q sid0 offset0" and "8 \<le> SegmentSize q"
  shows "pos_ok q sid offset" and "offset + 8 \<le> SegmentSize q"
    and "addr q sid offset = hdr (nS q) (addr q sid0 offset0)"
proof -
  show "pos_ok q sid offset" "offset + 8 \<le> SegmentSize q"
    using assms by (auto simp: length_pos_def pos_ok_def uInt64Size_def split: if_splits)
  have "nat offset0 + 8 > nS q \<longleftrightarrow> offset0 + 8 > SegmentSize q"
    using assms(2,3) by (auto simp: pos_ok_def)
  then show "addr q sid offset = hdr (nS q) (addr q sid0 offset0)"
    using assms(1,2)
    by (auto simp: length_pos_def hdr_def addr_div addr_mod uInt64Size_def split: if_splits)
      (auto simp: addr_def pos_ok_def nat_add_distrib)
qed

section \<open>Block writes on linear addresses\<close>

definition wrote :: "'f mmap_lib \<Rightarrow> os_env \<Rightarrow> nat \<Rightarrow> byte list \<Rightarrow> 'f mmap_queue \<Rightarrow> 'f mmap_queue \<Rightarrow> bool" where
  "wrote lib os A bs q q' \<longleftrightarrow>
     mq_wf lib os q' \<and> fixed q' = fixed q \<and> meta q' = meta q \<and>
     (\<forall>k < length bs. vbyte lib os q' (A + k) = bs ! k) \<and>
     (\<forall>b. b < A \<and> A + length bs \<le> b + nC q * nS q \<longrightarrow> vbyte lib os q' b = vbyte lib os q b)"

lemma vbyte_same_view:
  assumes "same_view lib os q q'" and "mq_wf lib os q"
  shows "vbyte lib os q' a = vbyte lib os q a"
  using assms wf_cap(2) [OF assms(2)]
  by (auto simp: vbyte_def same_view_def fixed_def)

lemma vread_same_view:
  "same_view lib os q q' \<Longrightarrow> mq_wf lib os q \<Longrightarrow> vread lib os q' A n = vread lib os q A n"
  by (simp add: vread_def vbyte_same_view)

lemma same_view_wrote: "same_view lib os q q' \<Longrightarrow> mq_wf lib os q \<Longrightarrow> wrote lib os A [] q q'"
  by (auto simp: wrote_def vbyte_same_view) (auto simp: same_view_def)

lemma wrote_wf: "wrote lib os A bs q q' \<Longrightarrow> mq_wf lib os q'"
  by (simp add: wrote_def)

lemma wrote_trans:
  assumes "wrote lib os A xs q q1" and "wrote lib os (A + length xs) ys q1 q2"
    and len: "length xs + length ys \<le> nC q * nS q"
  shows "wrote lib os A (xs @ ys) q q2"
proof -
  have eq: "nC q1 = nC q" "nS q1 = nS q" using assms(1) by (auto simp: wrote_def fixed_def)
  have new: "vbyte lib os q2 (A + k) = (xs @ ys) ! k" if "k < length (xs @ ys)" for k
  proof (cases "k < length xs")
    case True
    then have "vbyte lib os q2 (A + k) = vbyte lib os q1 (A + k)"
      using assms(2) len by (auto simp: wrote_def eq)
    with True assms(1) show ?thesis by (simp add: wrote_def nth_append)
  next
    case False
    then have k: "A + k = A + length xs + (k - length xs)" by simp
    from False that have "k - length xs < length ys" by auto
    with assms(2) have "vbyte lib os q2 (A + length xs + (k - length xs)) = ys ! (k - length xs)"
      unfolding wrote_def by blast
    with False k show ?thesis by (simp add: nth_append)
  qed
  show ?thesis
    using assms(1,2) new by (auto simp: wrote_def eq)
qed

lemma wrote_view_left:
  "same_view lib os q q1 \<Longrightarrow> mq_wf lib os q \<Longrightarrow> wrote lib os A bs q1 q2 \<Longrightarrow> wrote lib os A bs q q2"
  by (auto simp: wrote_def vbyte_same_view) (auto simp: same_view_def fixed_def vbyte_same_view)

lemma wrote_view_right:
  "wrote lib os A bs q q1 \<Longrightarrow> same_view lib os q1 q2 \<Longrightarrow> wrote lib os A bs q q2"
  by (auto simp: wrote_def vbyte_same_view) (auto simp: same_view_def)

text \<open>Two addresses in the same place of the ring are a multiple of the ring size apart.\<close>

lemma ring_apart:
  fixes S C b c d k l :: nat
  assumes S: "0 < S" and same: "c mod C = d mod C" and k: "k < l" and b: "b = c * S + n + k"
    and less: "b < d * S + n" and fits: "d * S + n + l \<le> b + C * S"
  shows False
proof -
  from b less have "c * S < d * S" by linarith
  then have "c < d" by simp
  with same have "C dvd d - c" using mod_eq_dvd_iff_nat [of c d C] by simp
  then obtain m where "d - c = C * m" ..
  with \<open>c < d\<close> have m: "d = c + C * m" by simp
  with \<open>c < d\<close> have "m \<noteq> 0" by auto
  with m have "c + C \<le> d" by (cases m) auto
  then have "(c + C) * S \<le> d * S" by simp
  with b k fits show False by (simp add: algebra_simps)
qed

lemma seg_content_Some: "segments q ! i = Some f \<Longrightarrow> seg_content lib os q i = mmap_bytes lib f"
  by (simp add: seg_content_def)

lemma write_segment:
  assumes wf: "mq_wf lib os q" and sid: "0 \<le> sid" and off: "0 \<le> offset"
    and f: "segments q ! (nat sid mod nC q) = Some f"
    and f': "mmap_bytes lib f' = overlay (mmap_bytes lib f) (nat offset) bs"
    and fits: "nat offset + length bs \<le> nS q"
  shows "wrote lib os (addr q sid offset) bs q
    (q\<lparr>segments := (segments q)[nat sid mod nC q := Some f']\<rparr>)"
proof -
  let ?i = "nat sid mod nC q" and ?q = "q\<lparr>segments := (segments q)[nat sid mod nC q := Some f']\<rparr>"
  note i = index_in_range(4) [OF wf sid] and S = wf_size(3) [OF wf]
  have len: "length (mmap_bytes lib f) = nS q" by (rule wf_bytes [OF wf i f])
  have wf': "mq_wf lib os ?q"
    using wf len f' fits i by (auto simp: mq_wf_def nth_list_update split: if_splits)
  have content: "seg_content lib os ?q j =
      (if j = ?i then overlay (seg_content lib os q j) (nat offset) bs else seg_content lib os q j)" for j
    using f f' wf_segs [OF wf] i
    by (auto simp: seg_content_def nth_list_update seg_path_def split: option.splits)
  have vb: "vbyte lib os ?q b = (if b div nS q mod nC q = ?i \<and> nat offset \<le> b mod nS q
      \<and> b mod nS q < nat offset + length bs then bs ! (b mod nS q - nat offset) else vbyte lib os q b)" for b
    using S fits len seg_content_Some [OF f] by (auto simp: vbyte_def content nth_overlay)
  have new: "vbyte lib os ?q (addr q sid offset + k) = bs ! k" if "k < length bs" for k
    using that fits addr_div_mod [OF S off, of k sid] by (simp add: vb)
  have frame: "vbyte lib os ?q b = vbyte lib os q b"
    if "b < addr q sid offset" "addr q sid offset + length bs \<le> b + nC q * nS q" for b
  proof -
    have "\<not> (b div nS q mod nC q = ?i \<and> nat offset \<le> b mod nS q \<and> b mod nS q < nat offset + length bs)"
    proof
      assume h: "b div nS q mod nC q = ?i \<and> nat offset \<le> b mod nS q \<and> b mod nS q < nat offset + length bs"
      then have "b = b div nS q * nS q + nat offset + (b mod nS q - nat offset)"
        by (metis add.assoc div_mult_mod_eq le_add_diff_inverse)
      moreover from h have "b mod nS q - nat offset < length bs" by linarith
      ultimately show False
        using ring_apart [OF S, of "b div nS q" "nC q" "nat sid" "b mod nS q - nat offset" "length bs" b "nat offset"] h that
        by (simp add: addr_def)
    qed
    then show ?thesis using vb by auto
  qed
  from wf' new frame show ?thesis by (simp add: wrote_def fixed_def)
qed

section \<open>Access to a mapped segment\<close>

lemma overlay_take: "n \<le> length xs \<Longrightarrow> overlay xs n (take (length xs - n) ys) = overlay xs n ys"
  by (auto simp: overlay_def min_def)

lemma calm_segments [simp]: "calm h lib os L n (q\<lparr>segments := ss\<rparr>) = calm h lib os L n q"
  by (simp add: calm_def)

lemma wp_seg_WriteAt:
  assumes wf: "mq_wf lib os q" and pos: "pos_ok q sid offset" and calm: "calm h lib os L n q"
    and f: "segments q ! (nat sid mod nC q) = Some f"
  shows "wp h (seg_WriteAt lib (GetIndex q sid) bs offset)
    (\<lambda>w q'. w = min (length bs) (nS q - nat offset) \<and> wrote lib os (addr q sid offset) (take w bs) q q'
       \<and> calm h lib os L n q') E q"
proof -
  have sid: "0 \<le> sid" and off: "0 \<le> offset" using pos by (simp_all add: pos_ok_def)
  note i = index_in_range [OF wf sid]
  have len: "length (mmap_bytes lib f) = nS q" by (rule wf_bytes [OF wf i(4) f])
  have lt: "nat offset < nS q" by (rule pos_ok_nat [OF pos])
  let ?w = "min (length bs) (nS q - nat offset)"
  obtain f' where w: "WriteAt lib f bs offset = (Ok ?w, f')"
    and f': "mmap_bytes lib f' = overlay (mmap_bytes lib f) (nat offset) bs"
    using mmap_WriteAt [OF wf_laws [OF wf], of "nat offset" f bs] len lt off by auto
  have "mmap_bytes lib f' = overlay (mmap_bytes lib f) (nat offset) (take ?w bs)"
    using overlay_take [of "nat offset" "mmap_bytes lib f" bs] lt len f' by (auto simp: min_def)
  then have "wrote lib os (addr q sid offset) (take ?w bs) q
      (q\<lparr>segments := (segments q)[nat sid mod nC q := Some f']\<rparr>)"
    using lt by (intro write_segment [OF wf sid off f]) auto
  with w f i(3) calm show ?thesis by (simp add: wp_def seg_WriteAt_def)
qed

lemma wp_seg_WriteUint64At:
  assumes wf: "mq_wf lib os q" and pos: "pos_ok q sid offset" and calm: "calm h lib os L n q"
    and f: "segments q ! (nat sid mod nC q) = Some f" and fits: "offset + 8 \<le> SegmentSize q"
  shows "wp h (seg_WriteUint64At lib (GetIndex q sid) v offset)
    (\<lambda>_ q'. wrote lib os (addr q sid offset) (u64_enc lib v) q q' \<and> calm h lib os L n q') E q"
proof -
  have sid: "0 \<le> sid" and off: "0 \<le> offset" using pos by (simp_all add: pos_ok_def)
  note i = index_in_range [OF wf sid] and laws = wf_laws [OF wf]
  have fits': "nat offset + 8 \<le> nS q" using fits off by linarith
  have len: "length (mmap_bytes lib f) = nS q" by (rule wf_bytes [OF wf i(4) f])
  have "mmap_bytes lib (WriteUint64At lib f v offset) = overlay (mmap_bytes lib f) (nat offset) (u64_enc lib v)"
    using mmap_WriteUint64At [OF laws, of "nat offset" f v] len fits' off by simp
  then have "wrote lib os (addr q sid offset) (u64_enc lib v) q
      (q\<lparr>segments := (segments q)[nat sid mod nC q := Some (WriteUint64At lib f v offset)]\<rparr>)"
    using fits' by (intro write_segment [OF wf sid off f]) (simp_all add: u64_enc_length [OF laws])
  with f i(3) calm show ?thesis by (simp add: wp_def seg_WriteUint64At_def)
qed

text \<open>Reading inside one segment is reading at the linear address.\<close>

lemma read_segment:
  assumes wf: "mq_wf lib os q" and pos: "pos_ok q sid offset"
    and f: "segments q ! (nat sid mod nC q) = Some f" and fits: "nat offset + k \<le> nS q"
  shows "take k (drop (nat offset) (mmap_bytes lib f)) = vread lib os q (addr q sid offset) k"
proof (rule nth_equalityI)
  have sid: "0 \<le> sid" and off: "0 \<le> offset" using pos by (simp_all add: pos_ok_def)
  have len: "length (mmap_bytes lib f) = nS q"
    by (rule wf_bytes [OF wf index_in_range(4) [OF wf sid] f])
  show l: "length (take k (drop (nat offset) (mmap_bytes lib f))) = length (vread lib os q (addr q sid offset) k)"
    using len fits by (simp add: vread_def)
  fix j assume "j < length (take k (drop (nat offset) (mmap_bytes lib f)))"
  then show "take k (drop (nat offset) (mmap_bytes lib f)) ! j = vread lib os q (addr q sid offset) k ! j"
    using addr_div_mod [OF wf_size(3) [OF wf] off, of j sid] fits f len
    by (simp add: vread_def vbyte_def seg_content_Some)
qed

lemma wp_then_unlock:
  assumes "wp h call (\<lambda>x. wp h (unlock sid) (\<lambda>_. Q x) E) (\<lambda>_ _. False) q"
  shows "wp h (then_unlock sid call) Q E q"
  using assms by (auto simp: wp_def then_unlock_def go_bind_def split: prod.splits outcome.splits)

text \<open>
  Lock, map, access, unlock, go on. \<open>R x q2\<close> is what the access gives for its result \<open>x\<close> and
  the queue \<open>q2\<close> it leaves.
\<close>

lemma wp_access:
  assumes wf: "mq_wf lib os q" and pos: "pos_ok q sid offset" and calm: "calm h lib os {} (Suc n) q"
    and err: "\<And>m q'. h \<Longrightarrow> same_view lib os q q' \<Longrightarrow> E (Errorf m) q'"
    and acc: "\<And>q1 f L. same_view lib os q q1 \<Longrightarrow> pos_ok q1 sid offset \<Longrightarrow>
      segments q1 ! (nat sid mod nC q1) = Some f \<Longrightarrow> calm h lib os L n q1 \<Longrightarrow>
      wp h (op (GetIndex q1 sid))
        (\<lambda>x q2. R x q2 \<and> mq_wf lib os q2 \<and> nC q2 = nC q1 \<and> calm h lib os L n q2) (\<lambda>_ _. False) q1"
    and k: "\<And>x q2 q3. R x q2 \<Longrightarrow> same_view lib os q2 q3 \<Longrightarrow> calm h lib os {} n q3 \<Longrightarrow> wp h (k x) Q E q3"
  shows "wp h (go_bind (lock sid) (\<lambda>_. go_bind (GetSegment lib os sid)
      (\<lambda>ix. go_bind (op ix) (\<lambda>x. go_bind (unlock sid) (\<lambda>_. k x))))) Q E q" (is ?access)
    and "wp h (go_bind (lock sid) (\<lambda>_. go_bind (GetSegment lib os sid)
      (\<lambda>ix. go_bind (then_unlock sid (op ix)) k))) Q E q" (is ?then)
proof -
  have sid: "0 \<le> sid" using pos by (simp add: pos_ok_def)
  have step: "wp h (op (GetIndex q sid)) (\<lambda>x. wp h (unlock sid) (\<lambda>_. wp h (k x) Q E) E) (\<lambda>_ _. False) q1"
    if v: "same_view lib os q q1" and c: "calm h lib os {nat sid mod nC q} n q1"
      and f: "segments q1 ! (nat sid mod nC q) = Some f" for q1 f
  proof -
    note sv = same_view_fields [OF v]
    have "pos_ok q1 sid offset" using pos sv by (simp add: pos_ok_def)
    from acc [OF v this _ c] f sv have
      "wp h (op (GetIndex q sid)) (\<lambda>x q2. R x q2 \<and> mq_wf lib os q2 \<and> nC q2 = nC q \<and>
         calm h lib os {nat sid mod nC q} n q2) (\<lambda>_ _. False) q1" by simp
    then show ?thesis
    proof (rule wp_conseq, elim conjE)
      fix x q2
      assume r: "R x q2" and wf2: "mq_wf lib os q2" and c2: "calm h lib os {nat sid mod nC q} n q2"
        and eq: "nC q2 = nC q"
      show "wp h (unlock sid) (\<lambda>_. wp h (k x) Q E) E q2"
        by (rule wp_conseq [OF wp_unlock [OF wf2 sid c2, where E = E]]) (auto simp: eq intro: k [OF r])
    qed
  qed
  note seg = wp_locked_segment [OF wf sid calm, where E = E and Q = Q]
  show ?access by (rule seg) (auto simp: wp_bind intro: err elim!: wp_conseq [OF step])
  show ?then by (rule seg) (auto simp: wp_bind intro: err wp_then_unlock step)
qed

section \<open>Lengths\<close>

lemma vread_wrote: "wrote lib os A bs q q' \<Longrightarrow> vread lib os q' A (length bs) = bs"
  by (intro nth_equalityI) (auto simp: vread_def wrote_def)

lemma wrote_fields:
  assumes "wrote lib os A bs q q'"
  shows "SegmentSize q' = SegmentSize q" and "QueueCapacitySegments q' = QueueCapacitySegments q"
    and "GetIndex q' i = GetIndex q i" and "addr q' = addr q" and "pos_ok q' = pos_ok q"
    and "next_pos q' = next_pos q"
  using assms addr_cong [of q' q] by (auto simp: wrote_def fixed_def GetIndex_def next_pos_def fun_eq_iff)

lemma same_view_addr:
  assumes "same_view lib os q q'"
  shows "addr q' = addr q" and "pos_ok q' = pos_ok q" and "next_pos q' = next_pos q"
  using assms addr_cong [of q' q] by (auto simp: same_view_def fixed_def next_pos_def fun_eq_iff)

lemma wp_writeLength:
  assumes wf: "mq_wf lib os q" and pos: "pos_ok q sid0 offset0" and calm: "calm h lib os {} (Suc n) q"
  shows "wp h (writeLength lib os len sid0 offset0)
    (\<lambda>(sid', offset') q'. wrote lib os (hdr (nS q) (addr q sid0 offset0)) (u64_enc lib (intToUint64 len)) q q' \<and>
       pos_ok q sid' offset' \<and> addr q sid' offset' = hdr (nS q) (addr q sid0 offset0) + 8 \<and> calm h lib os {} n q')
    (\<lambda>e q'. h \<and> (\<exists>m. e = Errorf m) \<and> same_view lib os q q') q" (is "wp h _ ?Q ?E q")
proof -
  obtain sid offset where lp: "length_pos q sid0 offset0 = (sid, offset)" by fastforce
  note lpa = length_pos_addr [OF lp pos wf_size(1) [OF wf]]
  have sid: "0 \<le> sid" and off: "0 \<le> offset" using lpa(1) by (simp_all add: pos_ok_def)
  let ?R = "wrote lib os (addr q sid offset) (u64_enc lib (intToUint64 len)) q"
  obtain s' o' where np: "next_pos q sid (offset + 8) = (s', o')" by fastforce
  have k: "wp h (\<lambda>q. (Ok (next_pos q sid (offset + uInt64Size)), q)) ?Q ?E q3"
    if w: "?R q2" and v: "same_view lib os q2 q3" and c: "calm h lib os {} n q3" for q2 q3
  proof -
    have "next_pos q3 = next_pos q" using same_view_addr [OF v] wrote_fields [OF w] by simp
    moreover have "addr q sid (offset + 8) = addr q sid offset + 8"
      using off by (simp add: addr_def nat_add_distrib)
    ultimately show ?thesis
      using next_pos_addr [OF np sid] lpa off wf_size [OF wf] c np wrote_view_right [OF w v]
      by (simp add: wp_def uInt64Size_def)
  qed
  have acc: "wp h (seg_WriteUint64At lib (GetIndex q1 sid) (intToUint64 len) offset)
      (\<lambda>_ q2. ?R q2 \<and> mq_wf lib os q2 \<and> nC q2 = nC q1 \<and> calm h lib os L n q2) (\<lambda>_ _. False) q1"
    if v: "same_view lib os q q1" and p: "pos_ok q1 sid offset"
      and f: "segments q1 ! (nat sid mod nC q1) = Some f" and c: "calm h lib os L n q1" for q1 f L
    using lpa(2) same_view_fields [OF v]
    by (intro wp_conseq [OF wp_seg_WriteUint64At [OF same_view_wf [OF v] p c f]])
      (auto simp: same_view_addr [OF v] wrote_fields intro: wrote_view_left [OF v wf] wrote_wf)
  show ?thesis
    by (rule wp_cong [OF _ wp_access(1) [OF wf lpa(1) calm, where R = "\<lambda>_. ?R"]])
      (auto simp: writeLength_def lp intro: k acc)
qed

lemma wp_readLength:
  assumes wf: "mq_wf lib os q" and pos: "pos_ok q sid0 offset0" and calm: "calm h lib os {} (Suc n) q"
  shows "wp h (readLength lib os sid0 offset0)
    (\<lambda>(sid', offset', len) q'. same_view lib os q q' \<and> pos_ok q sid' offset' \<and>
       addr q sid' offset' = hdr (nS q) (addr q sid0 offset0) + 8 \<and> calm h lib os {} n q' \<and>
       len = uint64ToInt (u64_dec lib (vread lib os q (hdr (nS q) (addr q sid0 offset0)) 8)))
    (\<lambda>e q'. h \<and> (\<exists>m. e = Errorf m) \<and> same_view lib os q q') q" (is "wp h _ ?Q ?E q")
proof -
  obtain sid offset where lp: "length_pos q sid0 offset0 = (sid, offset)" by fastforce
  note lpa = length_pos_addr [OF lp pos wf_size(1) [OF wf]]
  have sid: "0 \<le> sid" and off: "0 \<le> offset" using lpa(1) by (simp_all add: pos_ok_def)
  let ?R = "\<lambda>num q2. same_view lib os q q2 \<and> num = u64_dec lib (vread lib os q (addr q sid offset) 8)"
  obtain s' o' where np: "next_pos q sid (offset + 8) = (s', o')" by fastforce
  have k: "wp h (\<lambda>q. case next_pos q sid (offset + uInt64Size) of (sid', offset') \<Rightarrow>
      (Ok (sid', offset', uint64ToInt num), q)) ?Q ?E q3"
    if w: "?R num q2" and v: "same_view lib os q2 q3" and c: "calm h lib os {} n q3" for num q2 q3
  proof -
    have v3: "same_view lib os q q3" using w v same_view_trans by blast
    moreover have "addr q sid (offset + 8) = addr q sid offset + 8"
      using off by (simp add: addr_def nat_add_distrib)
    ultimately show ?thesis
      using next_pos_addr [OF np sid] lpa off wf_size [OF wf] c np w same_view_addr [OF v3]
      by (simp add: wp_def uInt64Size_def)
  qed
  have acc: "wp h (seg_ReadUint64At lib (GetIndex q1 sid) offset)
      (\<lambda>num q2. ?R num q2 \<and> mq_wf lib os q2 \<and> nC q2 = nC q1 \<and> calm h lib os L n q2) (\<lambda>_ _. False) q1"
    if v: "same_view lib os q q1" and p: "pos_ok q1 sid offset"
      and f: "segments q1 ! (nat sid mod nC q1) = Some f" and c: "calm h lib os L n q1" for q1 f L
  proof -
    note wf1 = same_view_wf [OF v] and i = index_in_range [OF same_view_wf [OF v] sid]
    have len: "length (mmap_bytes lib f) = nS q1" by (rule wf_bytes [OF wf1 i(4) f])
    have fits: "nat offset + 8 \<le> nS q1" using lpa(2) off same_view_fields [OF v] by simp
    have "ReadUint64At lib f offset = u64_dec lib (vread lib os q (addr q sid offset) 8)"
      using mmap_ReadUint64At [OF wf_laws [OF wf], of "nat offset" f] off len fits
        read_segment [OF wf1 p f fits] vread_same_view [OF v wf] same_view_addr [OF v] by simp
    with f i(3) v wf1 c show ?thesis by (simp add: wp_def seg_ReadUint64At_def)
  qed
  show ?thesis
    by (rule wp_cong [OF _ wp_access(1) [OF wf lpa(1) calm, where R = ?R]])
      (simp add: readLength_def lp, simp, rule acc, assumption+, rule k, assumption+)
qed

section \<open>Blocks\<close>

text \<open>How many segments a block of \<open>len\<close> bytes at \<open>offset\<close> takes, at most.\<close>

definition passes :: "'f mmap_queue \<Rightarrow> int \<Rightarrow> nat \<Rightarrow> nat" where
  "passes q offset len = Suc ((nat offset + len) div nS q)"

lemma passes_le:
  assumes "pos_ok q sid offset"
  shows "passes q offset len \<le> 2 + len div nS q"
proof -
  have "0 < nS q" and "nat offset \<le> nS q" using assms by (auto simp: pos_ok_def)
  then have "(nat offset + len) div nS q \<le> (nS q + len) div nS q" by (intro div_le_mono) simp
  also have "\<dots> = 1 + len div nS q" using \<open>0 < nS q\<close> by (simp only: div_add_self1)
  finally show ?thesis by (simp add: passes_def)
qed

lemma passes_step:
  assumes "pos_ok q sid offset" and "nS q - nat offset < len"
  shows "passes q offset len = Suc (passes q 0 (len - (nS q - nat offset)))"
proof -
  have S: "0 < nS q" and o: "nat offset < nS q" using assms(1) by (auto simp: pos_ok_def)
  then have "nat offset + len = nS q + (len - (nS q - nat offset))" using assms(2) by simp
  then have "(nat offset + len) div nS q = Suc ((len - (nS q - nat offset)) div nS q)"
    using S by (simp only: div_add_self1 add_Suc)
  then show ?thesis by (simp add: passes_def)
qed

lemma wp_writeBytes_loop:
  "mq_wf lib os q \<Longrightarrow> pos_ok q sid offset \<Longrightarrow> length bytes < fuel \<Longrightarrow> length bytes \<le> nC q * nS q \<Longrightarrow>
   calm h lib os {} (n + passes q offset (length bytes)) q \<Longrightarrow>
   wp h (writeBytes_loop fuel lib os bytes sid offset)
    (\<lambda>(sid', offset') q'. wrote lib os (addr q sid offset) bytes q q' \<and> pos_ok q sid' offset' \<and>
       addr q sid' offset' = addr q sid offset + length bytes \<and> calm h lib os {} n q')
    (\<lambda>e q'. h \<and> (\<exists>m. e = Errorf m) \<and>
       (\<exists>xs. length xs \<le> length bytes \<and> wrote lib os (addr q sid offset) xs q q')) q"
  (is "_ \<Longrightarrow> _ \<Longrightarrow> _ \<Longrightarrow> _ \<Longrightarrow> _ \<Longrightarrow> wp h _ (?Q sid offset bytes q) (?E sid offset bytes q) q")
proof (induction fuel arbitrary: q sid offset bytes)
  case (Suc fuel)
  note wf = Suc.prems(1) and pos = Suc.prems(2)
  have sid: "0 \<le> sid" and off: "0 \<le> offset" and lt: "nat offset < nS q"
    using pos pos_ok_nat [OF pos] by (simp_all add: pos_ok_def)
  define w where "w = min (length bytes) (nS q - nat offset)"
  let ?R = "\<lambda>x q2. x = w \<and> wrote lib os (addr q sid offset) (take w bytes) q q2"
  define m where "m = n + passes q offset (length bytes) - 1"
  have calm: "calm h lib os {} (Suc m) q" using Suc.prems(5) by (simp add: m_def passes_def)
  obtain s' o' where np: "next_pos q sid (offset + int w) = (s', o')" by fastforce
  have po: "pos_ok q s' o'" "addr q s' o' = addr q sid offset + w"
    using next_pos_addr [OF np sid] off lt wf_size [OF wf] by (auto simp: w_def addr_def nat_add_distrib)
  have k: "wp h (\<lambda>q. case next_pos q sid (offset + int x) of (sid', offset') \<Rightarrow>
         if length bytes = x then (Ok (sid', offset'), q)
         else writeBytes_loop fuel lib os (drop x bytes) sid' offset' q)
       (?Q sid offset bytes q) (?E sid offset bytes q) q3"
    if r: "?R x q2" and v: "same_view lib os q2 q3" and c: "calm h lib os {} m q3" for x q2 q3
  proof -
    have w3: "wrote lib os (addr q sid offset) (take w bytes) q q3" using r v wrote_view_right by blast
    note wf3 = wrote_wf [OF w3] and eq = wrote_fields [OF w3]
    have x: "x = w" using r by simp
    show ?thesis
    proof (cases "length bytes = w")
      case True
      then show ?thesis
        using w3 po np x calm_less [OF c, of n] by (simp add: wp_def eq m_def passes_def)
    next
      case False
      then have cut: "nS q - nat offset < length bytes" and ws: "w = nS q - nat offset"
        by (auto simp: w_def min_def split: if_splits)
      have o': "o' = 0" using np off lt ws by (auto simp: next_pos_def split: if_splits)
      have c3: "calm h lib os {} (n + passes q3 o' (length (drop w bytes))) q3"
        using calm_less [OF c, of "n + passes q 0 (length bytes - w)"] passes_step [OF pos cut] o' ws
        by (simp add: m_def passes_def eq)
      have pos3: "pos_ok q3 s' o'" using po eq by simp
      have short: "length (drop w bytes) < fuel" using Suc.prems(3) ws lt cut by (subst length_drop) linarith
      have ring: "length (drop w bytes) \<le> nC q3 * nS q3" using Suc.prems(4) eq by simp
      have glue: "wrote lib os (addr q sid offset) (take w bytes @ ys) q q4"
        if "wrote lib os (addr q3 s' o') ys q3 q4" "length ys \<le> length (drop w bytes)" for ys q4
      proof (rule wrote_trans [OF w3])
        have l: "length (take w bytes) = w" using ws cut by simp
        show "wrote lib os (addr q sid offset + length (take w bytes)) ys q3 q4"
          using that(1) po(2) eq(4) l by simp
        show "length (take w bytes) + length ys \<le> nC q * nS q"
          using that(2) Suc.prems(4) l ws cut unfolding length_drop by linarith
      qed
      have "wp h (writeBytes_loop fuel lib os (drop w bytes) s' o')
          (?Q sid offset bytes q) (?E sid offset bytes q) q3"
      proof (rule wp_conseq [OF Suc.IH [OF wf3 pos3 short ring c3]])
        fix p q4 assume "?Q s' o' (drop w bytes) q3 p q4"
        then show "?Q sid offset bytes q p q4"
          using glue [of "drop w bytes" q4] po(2) eq ws cut by (auto split: prod.splits)
      next
        fix e q4 assume "?E s' o' (drop w bytes) q3 e q4"
        then obtain ys where h: "h" "\<exists>m. e = Errorf m" and ys: "length ys \<le> length (drop w bytes)"
          "wrote lib os (addr q3 s' o') ys q3 q4" by auto
        have "length (take w bytes @ ys) \<le> length bytes"
          using ys(1) ws cut unfolding length_append length_take length_drop by linarith
        with glue [OF ys(2,1)] h show "?E sid offset bytes q e q4" by blast
      qed
      with False np x show ?thesis by (simp add: wp_def eq)
    qed
  qed
  have acc: "wp h (seg_WriteAt lib (GetIndex q1 sid) bytes offset)
      (\<lambda>x q2. ?R x q2 \<and> mq_wf lib os q2 \<and> nC q2 = nC q1 \<and> calm h lib os L m q2) (\<lambda>_ _. False) q1"
    if v: "same_view lib os q q1" and p: "pos_ok q1 sid offset"
      and f: "segments q1 ! (nat sid mod nC q1) = Some f" and c: "calm h lib os L m q1" for q1 f L
    using same_view_fields [OF v]
    by (intro wp_conseq [OF wp_seg_WriteAt [OF same_view_wf [OF v] p c f]])
      (auto simp: same_view_addr [OF v] wrote_fields w_def intro: wrote_view_left [OF v wf] wrote_wf)
  have err: "?E sid offset bytes q (Errorf msg) q'" if "h" "same_view lib os q q'" for msg q'
    using that same_view_wrote [OF that(2) wf, of "addr q sid offset"]
    by (auto intro!: exI [of _ "[]"])
  show ?case
    by (rule wp_cong [OF _ wp_access(2) [OF wf pos calm, where R = ?R]])
      (simp, rule err, assumption+, rule acc, assumption+, rule k, assumption+)
qed simp

text \<open>A write of any block within the ring.\<close>

lemmas wp_writeBytes = wp_writeBytes_loop [where fuel = "Suc (length bytes)" and bytes = bytes for bytes,
    folded writeBytes_def, OF _ _ lessI]

lemma vread_append: "vread lib os q A m @ vread lib os q (A + m) n = vread lib os q A (m + n)"
  by (rule nth_equalityI) (auto simp: vread_def nth_append)

lemma length_vread [simp]: "length (vread lib os q A n) = n"
  by (simp add: vread_def)

lemma wp_readBytes_loop:
  "mq_wf lib os q \<Longrightarrow> pos_ok q sid offset \<Longrightarrow> len < fuel \<Longrightarrow>
   calm h lib os {} (n + passes q offset len) q \<Longrightarrow>
   wp h (readBytes_loop fuel lib os res sid offset len)
    (\<lambda>(bs, sid', offset') q'. same_view lib os q q' \<and> pos_ok q sid' offset' \<and>
       bs = res @ vread lib os q (addr q sid offset) len \<and>
       addr q sid' offset' = addr q sid offset + len \<and> calm h lib os {} n q')
    (\<lambda>e q'. h \<and> (\<exists>m. e = Errorf m) \<and> same_view lib os q q') q"
  (is "_ \<Longrightarrow> _ \<Longrightarrow> _ \<Longrightarrow> _ \<Longrightarrow> wp h _ (?Q sid offset res len q) (?E q) q")
proof (induction fuel arbitrary: q sid offset res len)
  case (Suc fuel)
  note wf = Suc.prems(1) and pos = Suc.prems(2)
  have sid: "0 \<le> sid" and off: "0 \<le> offset" and lt: "nat offset < nS q"
    using pos pos_ok_nat [OF pos] by (simp_all add: pos_ok_def)
  define w where "w = min len (nS q - nat offset)"
  let ?R = "\<lambda>bs q2. bs = vread lib os q (addr q sid offset) w \<and> same_view lib os q q2"
  define m where "m = n + passes q offset len - 1"
  have calm: "calm h lib os {} (Suc m) q" using Suc.prems(4) by (simp add: m_def passes_def)
  obtain s' o' where np: "next_pos q sid (offset + int w) = (s', o')" by fastforce
  have po: "pos_ok q s' o'" "addr q s' o' = addr q sid offset + w"
    using next_pos_addr [OF np sid] off lt wf_size [OF wf] by (auto simp: w_def addr_def nat_add_distrib)
  have k: "wp h (\<lambda>q. case next_pos q sid (offset + int (length bs)) of (sid', offset') \<Rightarrow>
         if length bs = len then (Ok (res @ bs, sid', offset'), q)
         else readBytes_loop fuel lib os (res @ bs) sid' offset' (len - length bs) q)
       (?Q sid offset res len q) (?E q) q3"
    if r: "?R bs q2" and v: "same_view lib os q2 q3" and c: "calm h lib os {} m q3" for bs q2 q3
  proof -
    have v3: "same_view lib os q q3" using r v same_view_trans by blast
    note wf3 = same_view_wf [OF v3] and eq = same_view_fields [OF v3] same_view_addr [OF v3]
    have bs: "bs = vread lib os q (addr q sid offset) w" using r by simp
    show ?thesis
    proof (cases "w = len")
      case True
      then show ?thesis
        using v3 po np bs calm_less [OF c, of n] by (simp add: wp_def eq m_def passes_def)
    next
      case False
      then have cut: "nS q - nat offset < len" and ws: "w = nS q - nat offset"
        by (auto simp: w_def min_def split: if_splits)
      have o': "o' = 0" using np off lt ws by (auto simp: next_pos_def split: if_splits)
      have c3: "calm h lib os {} (n + passes q3 o' (len - w)) q3"
        using calm_less [OF c, of "n + passes q 0 (len - w)"] passes_step [OF pos cut] o' ws
        by (simp add: m_def passes_def eq)
      have pos3: "pos_ok q3 s' o'" using po eq by simp
      have short: "len - w < fuel" using Suc.prems(3) ws lt cut by linarith
      have "vread lib os q (addr q sid offset) w @ vread lib os q3 (addr q3 s' o') (len - w)
          = vread lib os q (addr q sid offset) len"
        using vread_append [of lib os q "addr q sid offset" w "len - w"] ws cut
        by (simp add: eq po vread_same_view [OF v3 wf])
      then have "wp h (readBytes_loop fuel lib os (res @ bs) s' o' (len - w)) (?Q sid offset res len q) (?E q) q3"
        using po(2) ws cut eq bs
        by (intro wp_conseq [OF Suc.IH [OF wf3 pos3 short c3]]) (auto intro: same_view_trans [OF v3])
      with False np bs show ?thesis by (simp add: wp_def eq)
    qed
  qed
  have acc: "wp h (seg_ReadAt lib (GetIndex q1 sid) len offset)
      (\<lambda>bs q2. ?R bs q2 \<and> mq_wf lib os q2 \<and> nC q2 = nC q1 \<and> calm h lib os L m q2) (\<lambda>_ _. False) q1"
    if v: "same_view lib os q q1" and p: "pos_ok q1 sid offset"
      and f: "segments q1 ! (nat sid mod nC q1) = Some f" and c: "calm h lib os L m q1" for q1 f L
  proof -
    note wf1 = same_view_wf [OF v] and eq = same_view_fields [OF v] same_view_addr [OF v]
    note i = index_in_range [OF wf1 sid]
    have l: "length (mmap_bytes lib f) = nS q" using wf_bytes [OF wf1 i(4) f] eq by simp
    have "take len (drop (nat offset) (mmap_bytes lib f)) = take w (drop (nat offset) (mmap_bytes lib f))"
      using l by (auto simp: w_def min_def)
    moreover have "nat offset + w \<le> nS q1" using lt eq(1) by (auto simp: w_def)
    ultimately have "take len (drop (nat offset) (mmap_bytes lib f)) = vread lib os q (addr q sid offset) w"
      using read_segment [OF wf1 p f, of w] vread_same_view [OF v wf] eq by simp
    then have "ReadAt lib f len offset = Ok (vread lib os q (addr q sid offset) w)"
      using mmap_ReadAt [OF wf_laws [OF wf], of "nat offset" f len] off l lt by simp
    with f i(3) v wf1 c show ?thesis by (simp add: wp_def seg_ReadAt_def)
  qed
  show ?case
    by (rule wp_cong [OF _ wp_access(2) [OF wf pos calm, where R = ?R]])
      (simp, simp, rule acc, assumption+, rule k, assumption+)
qed simp

lemma wp_readBytes:
  assumes "mq_wf lib os q" and "pos_ok q sid offset" and "calm h lib os {} (n + passes q offset (nat len)) q"
  shows "wp h (readBytes lib os sid offset len)
    (\<lambda>(bs, sid', offset') q'. same_view lib os q q' \<and> pos_ok q sid' offset' \<and>
       bs = vread lib os q (addr q sid offset) (nat len) \<and>
       addr q sid' offset' = addr q sid offset + nat len \<and> calm h lib os {} n q')
    (\<lambda>e q'. h \<and> (\<exists>m. e = Errorf m) \<and> same_view lib os q q') q"
  using wp_readBytes_loop [OF assms(1,2) lessI assms(3), of "[]"] by (simp add: readBytes_def)

text \<open>A length followed by a block: one write at the place of the length.\<close>

lemma wp_write_event:
  assumes wf: "mq_wf lib os q" and pos: "pos_ok q sid offset"
    and ring: "8 + length bytes \<le> nC q * nS q"
    and calm: "calm h lib os {} (n + 3 + length bytes div nS q) q"
  defines "A \<equiv> hdr (nS q) (addr q sid offset)"
  defines "enc \<equiv> u64_enc lib (intToUint64 (int (length bytes)))"
  shows "wp h (go_bind (writeLength lib os (int (length bytes)) sid offset) (\<lambda>(i, k). writeBytes lib os bytes i k))
    (\<lambda>(i, k) q'. wrote lib os A (enc @ bytes) q q' \<and> pos_ok q i k \<and>
       addr q i k = A + 8 + length bytes \<and> calm h lib os {} n q')
    (\<lambda>e q'. h \<and> (\<exists>m. e = Errorf m) \<and> (\<exists>xs. length xs \<le> 8 + length bytes \<and> wrote lib os A xs q q')) q"
  (is "wp h _ ?Q ?E q")
proof -
  have le: "length enc = 8" using u64_enc_length [OF wf_laws [OF wf]] by (simp add: enc_def)
  have c: "calm h lib os {} (Suc (n + 2 + length bytes div nS q)) q"
    using calm by (simp add: numeral_3_eq_3)
  have block: "wp h (writeBytes lib os bytes i k) ?Q ?E q1"
    if w: "wrote lib os A enc q q1" and p: "pos_ok q i k" and a: "addr q i k = A + 8"
      and c: "calm h lib os {} (n + 2 + length bytes div nS q) q1" for i k q1
  proof -
    note eq = wrote_fields [OF w]
    have "passes q k (length bytes) \<le> 2 + length bytes div nS q" by (rule passes_le [OF p])
    then have c1: "calm h lib os {} (n + passes q1 k (length bytes)) q1"
      by (intro calm_less [OF c]) (simp add: passes_def eq)
    have p1: "pos_ok q1 i k" and l1: "length bytes \<le> nC q1 * nS q1" using p ring by (simp_all add: eq)
    have glue: "wrote lib os A (enc @ xs) q q2" if "wrote lib os (addr q1 i k) xs q1 q2" "length xs \<le> length bytes" for xs q2
      using that ring le by (intro wrote_trans [OF w]) (simp_all add: eq a)
    show ?thesis
      using glue a eq le
      by (intro wp_conseq [OF wp_writeBytes [OF wrote_wf [OF w] p1 l1 c1]])
        (force split: prod.splits)+
  qed
  show ?thesis
    unfolding wp_bind
    by (rule wp_conseq [OF wp_writeLength [OF wf pos c]])
      (auto simp: A_def [symmetric] enc_def [symmetric] intro: block intro!: exI [of _ "[]"] same_view_wrote [OF _ wf])
qed

end
