(* ===== verification/Mmap_Refine.thy ===== *)
theory Mmap_Refine
  imports Mmap_Rw
begin

text \<open>
  The memory mapped queue implements the FIFO queue of \<open>Queue_Api\<close>. \<open>stored q A bss E\<close> says
  that the ring holds the byte blocks \<open>bss\<close> one after the other from the linear address \<open>A\<close>
  to \<open>E\<close>; \<open>mq_pending\<close> relates a queue to the list of events between its reading and its
  writing offset. The interpretation at the end discharges the laws of the interface.
\<close>

section \<open>What the ring holds\<close>

fun stored :: "'f mmap_lib \<Rightarrow> os_env \<Rightarrow> 'f mmap_queue \<Rightarrow> nat \<Rightarrow> byte list list \<Rightarrow> nat \<Rightarrow> bool" where
  "stored lib os q A [] E \<longleftrightarrow> A = E"
| "stored lib os q A (b # bs) E \<longleftrightarrow>
     (let H = hdr (nS q) A in
      vread lib os q H 8 = u64_enc lib (intToUint64 (int (length b))) \<and>
      vread lib os q (H + 8) (length b) = b \<and>
      int (length b) \<le> MaxInt64 \<and>
      stored lib os q (H + 8 + length b) bs E)"

lemma stored_le: "0 < nS q \<Longrightarrow> stored lib os q A bs E \<Longrightarrow> A + 8 * length bs \<le> E"
proof (induction bs arbitrary: A)
  case (Cons b bs)
  from Cons.IH [of "hdr (nS q) A + 8 + length b"] Cons.prems hdr_bounds [of "nS q" A]
  show ?case by (simp add: Let_def)
qed simp

lemma vread_cong:
  "(\<And>b. A \<le> b \<Longrightarrow> b < A + n \<Longrightarrow> vbyte lib os q' b = vbyte lib os q b) \<Longrightarrow>
   vread lib os q' A n = vread lib os q A n"
  by (simp add: vread_def)

lemma stored_cong:
  "0 < nS q \<Longrightarrow> SegmentSize q' = SegmentSize q \<Longrightarrow>
   (\<And>b. A \<le> b \<Longrightarrow> b < E \<Longrightarrow> vbyte lib os q' b = vbyte lib os q b) \<Longrightarrow>
   stored lib os q A bs E \<Longrightarrow> stored lib os q' A bs E"
proof (induction bs arbitrary: A)
  case (Cons b bs)
  let ?H = "hdr (nS q) A"
  have tail: "stored lib os q (?H + 8 + length b) bs E" using Cons.prems(4) by (simp add: Let_def)
  have E: "?H + 8 + length b \<le> E" and A: "A \<le> ?H"
    using stored_le [OF Cons.prems(1) tail] hdr_bounds [OF Cons.prems(1), of A] by auto
  have "vread lib os q' ?H 8 = vread lib os q ?H 8"
    "vread lib os q' (?H + 8) (length b) = vread lib os q (?H + 8) (length b)"
    using E A by (auto intro!: vread_cong Cons.prems(3))
  moreover have "stored lib os q' (?H + 8 + length b) bs E"
    by (rule Cons.IH [OF Cons.prems(1,2) Cons.prems(3) tail]) (use A in auto)
  ultimately show ?case using Cons.prems(2,4) by (simp add: Let_def)
qed simp

lemma stored_append:
  "stored lib os q A (bs @ cs) E \<longleftrightarrow> (\<exists>F. stored lib os q A bs F \<and> stored lib os q F cs E)"
  by (induction bs arbitrary: A) (simp_all add: Let_def)

section \<open>The events between the two offsets\<close>

definition raddr :: "'f mmap_lib \<Rightarrow> 'f mmap_queue \<Rightarrow> nat" where
  "raddr lib q = (case GetReadingOffset lib (meta q) of (i, n) \<Rightarrow> addr q i n)"

definition waddr :: "'f mmap_lib \<Rightarrow> 'f mmap_queue \<Rightarrow> nat" where
  "waddr lib q = (case GetWritingOffset lib (meta q) of (i, n) \<Rightarrow> addr q i n)"

text \<open>
  The configuration under which the check for a full queue protects unread events: the length
  field and the last, partial segment of the largest event fit in one segment.
\<close>

definition conf_ok :: "'f mmap_queue \<Rightarrow> bool" where
  "conf_ok q \<longleftrightarrow> 0 \<le> MaxEventSize q \<and> MaxEventSize q mod SegmentSize q + 8 \<le> SegmentSize q \<and>
     MaxEventSize q \<le> MaxInt64 \<and> SegmentSize q \<le> MaxInt64"

definition holds :: "'f mmap_lib \<Rightarrow> os_env \<Rightarrow> nat \<Rightarrow> 'f mmap_queue \<Rightarrow> byte list list \<Rightarrow> bool" where
  "holds lib os n q bss \<longleftrightarrow>
     mq_wf lib os q \<and> conf_ok q \<and>
     (case GetReadingOffset lib (meta q) of (i, k) \<Rightarrow> pos_ok q i k) \<and>
     (case GetWritingOffset lib (meta q) of (i, k) \<Rightarrow> pos_ok q i k \<and>
        i + int n * QueueCapacitySegments q \<le> MaxInt64) \<and>
     stored lib os q (raddr lib q) bss (waddr lib q)"

definition mq_pending :: "'f mmap_lib \<Rightarrow> os_env \<Rightarrow> proto_lib \<Rightarrow> nat \<Rightarrow> 'f mmap_queue \<Rightarrow> sniff_data list \<Rightarrow> bool" where
  "mq_pending lib os pb n q es \<longleftrightarrow> proto_laws pb \<and>
     (\<exists>bss. holds lib os n q bss \<and> list_all2 (\<lambda>e b. Marshal pb e = Ok b) es bss)"

text \<open>Steps that leave the configuration, the offsets and the unread bytes alone.\<close>

definition keeps :: "'f mmap_lib \<Rightarrow> os_env \<Rightarrow> 'f mmap_queue \<Rightarrow> 'f mmap_queue \<Rightarrow> bool" where
  "keeps lib os q q' \<longleftrightarrow> mq_wf lib os q' \<and>
     SegmentSize q' = SegmentSize q \<and> QueueCapacitySegments q' = QueueCapacitySegments q \<and>
     MaxEventSize q' = MaxEventSize q \<and> MaxInMemSegments q' = MaxInMemSegments q \<and>
     usedSize q' = usedSize q \<and> ready q' = ready q \<and>
     GetReadingOffset lib (meta q') = GetReadingOffset lib (meta q) \<and>
     GetWritingOffset lib (meta q') = GetWritingOffset lib (meta q) \<and>
     (\<forall>b. raddr lib q \<le> b \<and> b < waddr lib q \<longrightarrow> vbyte lib os q' b = vbyte lib os q b)"

lemma keeps_addr: "keeps lib os q q' \<Longrightarrow> raddr lib q' = raddr lib q \<and> waddr lib q' = waddr lib q"
  by (auto simp: keeps_def raddr_def waddr_def addr_def split: prod.splits)

lemma keeps_trans: "keeps lib os q q1 \<Longrightarrow> keeps lib os q1 q2 \<Longrightarrow> keeps lib os q q2"
  using keeps_addr [of lib os q q1] by (auto simp: keeps_def)

lemma same_view_keeps: "same_view lib os q q' \<Longrightarrow> mq_wf lib os q \<Longrightarrow> keeps lib os q q'"
  using same_view_fields [of lib os q q'] vbyte_same_view [of lib os q q']
  by (auto simp: keeps_def same_view_wf)

lemma wrote_keeps:
  assumes "wrote lib os A bs q q'" and "waddr lib q \<le> A" and "A + length bs \<le> raddr lib q + nC q * nS q"
  shows "keeps lib os q q'"
  using assms by (auto simp: keeps_def wrote_def fixed_def)

lemma keeps_holds: "keeps lib os q q' \<Longrightarrow> holds lib os n q bss \<Longrightarrow> holds lib os n q' bss"
  using keeps_addr [of lib os q q'] stored_cong [of q q' "raddr lib q" "waddr lib q" lib os bss] wf_size(3) [of lib os q]
  by (auto simp: keeps_def holds_def conf_ok_def pos_ok_def split: prod.splits)

lemma holds_less: "holds lib os n q bss \<Longrightarrow> m \<le> n \<Longrightarrow> holds lib os m q bss"
proof -
  assume h: "holds lib os n q bss" and "m \<le> n"
  then have "int m * QueueCapacitySegments q \<le> int n * QueueCapacitySegments q"
    using wf_cap(1) [of lib os q] by (intro mult_right_mono) (auto simp: holds_def)
  with h show ?thesis by (auto simp: holds_def)
qed

section \<open>Flushing\<close>

lemma calm_simps [simp]:
  "calm h lib os L n (q\<lparr>files := d\<rparr>) = calm h lib os L n q"
  "calm h lib os L n (q\<lparr>meta := m\<rparr>) = calm h lib os L n q"
  "calm h lib os L n (q\<lparr>unflushedNum := k\<rparr>) = calm h lib os L n q"
  "calm h lib os L n (q\<lparr>usedSize := k\<rparr>) = calm h lib os L n q"
  "calm h lib os L n (q\<lparr>markReadChannel := c\<rparr>) = calm h lib os L n q"
  by (simp_all add: calm_def)

lemma lockByIndex_lock:
  "0 \<le> i \<Longrightarrow> i < QueueCapacitySegments q \<Longrightarrow> lockByIndex i q = lock i q \<and> unlockByIndex i q = unlock i q"
  by (simp add: lock_def unlock_def GetIndex_def)

lemma flush_one_view:
  assumes "mq_wf lib os q" and "0 \<le> i" and "i < QueueCapacitySegments q" and "calm h lib os L n q"
  shows "\<exists>q'. flush_one lib os i q = (Ok (), q') \<and> same_view lib os q q' \<and> calm h lib os L n q'"
  using flush_to_disk_view [OF assms(1), of "nat i"] same_view_refl [OF assms(1)] assms(2-4)
  by (auto simp: flush_one_def flush_to_disk_def split: option.splits)

lemma wp_flush_segments:
  "mq_wf lib os q \<Longrightarrow> list_all (\<lambda>i. 0 \<le> i \<and> i < QueueCapacitySegments q) is \<Longrightarrow> calm h lib os {} n q \<Longrightarrow>
   wp h (flush_segments lib os is) (\<lambda>_ q'. same_view lib os q q' \<and> calm h lib os {} n q') E q"
proof (induction "is" arbitrary: q)
  case Nil
  then show ?case by (simp add: wp_def same_view_refl)
next
  case (Cons i "is")
  from Cons.prems(2) have i: "0 \<le> i" "i < QueueCapacitySegments q"
    and rest: "list_all (\<lambda>i. 0 \<le> i \<and> i < QueueCapacitySegments q) is" by auto
  let ?post = "\<lambda>_ q'. same_view lib os q q' \<and> calm h lib os {} n q'"
  have tail: "wp h (go_bind (unlockByIndex i) (\<lambda>_. flush_segments lib os is)) ?post E q2"
    if v: "same_view lib os q q2" and c: "calm h lib os {nat i mod nC q} n q2" for q2
  proof -
    note wf2 = same_view_wf [OF v] and eq = same_view_fields [OF v]
    have c2: "calm h lib os {nat i mod nC q2} n q2" using c eq by simp
    have un: "unlockByIndex i q2 = unlock i q2" using i eq by (simp add: lockByIndex_lock)
    have "wp h (unlock i) (\<lambda>_ q3. same_view lib os q2 q3 \<and> calm h lib os {} n q3) E q2"
      using wp_unlock [OF wf2 i(1) c2] by simp
    then have u: "wp h (unlockByIndex i) (\<lambda>_ q3. same_view lib os q q3 \<and> calm h lib os {} n q3) E q2"
      by (intro wp_cong [where m = "unlockByIndex i" and m' = "unlock i"] un)
        (auto elim!: wp_conseq intro: same_view_trans [OF v])
    show ?thesis
      unfolding wp_bind
      by (rule wp_conseq [OF u], elim conjE,
          rule wp_conseq [OF Cons.IH])
        (use rest in \<open>auto simp: same_view_fields intro: same_view_wf same_view_trans\<close>)
  qed
  have "wp h (lock i) (\<lambda>_ q1. same_view lib os q q1 \<and> calm h lib os {nat i mod nC q} n q1) E q"
    using wp_lock [OF Cons.prems(1) i(1) Cons.prems(3)] by simp
  then have l: "wp h (lockByIndex i) (\<lambda>_ q1. same_view lib os q q1 \<and> calm h lib os {nat i mod nC q} n q1) E q"
    by (rule wp_cong [rotated]) (simp add: lockByIndex_lock i)
  have mid: "wp h (go_bind (flush_one lib os i) (\<lambda>_. go_bind (unlockByIndex i) (\<lambda>_. flush_segments lib os is))) ?post E q1"
    if v: "same_view lib os q q1" and c: "calm h lib os {nat i mod nC q} n q1" for q1
  proof -
    obtain q2 where f: "flush_one lib os i q1 = (Ok (), q2)" and v2: "same_view lib os q1 q2"
      and c2: "calm h lib os {nat i mod nC q} n q2"
      using flush_one_view [OF same_view_wf [OF v] i(1) _ c] i(2) same_view_fields [OF v] by auto
    from tail [OF same_view_trans [OF v v2] c2] f show ?thesis by (simp add: wp_def go_bind_Ok)
  qed
  show ?case
    by (rule wp_cong [OF flush_segments.simps(2)]) (subst wp_bind, rule wp_conseq [OF l], auto intro: mid)
qed

lemma meta_path_not_segment: "filepath_Abs os (meta_path (queueName q)) \<noteq> filepath_Abs os (seg_path q i)"
proof
  assume eq: "filepath_Abs os (meta_path (queueName q)) = filepath_Abs os (seg_path q i)"
  have "HasPrefix (meta_path (queueName q)) ''/'' = HasPrefix (seg_path q i) ''/''"
    by (cases "queueName q") (simp_all add: HasPrefix_def seg_path_def path_Join_def meta_path_def)
  with eq have "metaName = FormatInt i @ FileSuffix"
    by (auto simp: filepath_Abs_def seg_path_def path_Join_def meta_path_def split: if_splits)
  then have "length metaName = length (FormatInt i) + length FileSuffix" by (metis length_append)
  then show False by (simp add: metaName_def FileSuffix_def)
qed

lemma flush_meta_view: "mq_wf lib os q \<Longrightarrow> same_view lib os q (flush_meta lib os q)"
  using meta_path_not_segment [of os q, THEN not_sym]
  by (auto simp: flush_meta_def same_view_def mq_wf_def fixed_def seg_content_def file_content_def
      seg_path_def split: option.splits)

lemma calm_flush_meta [simp]: "calm h lib os L n (flush_meta lib os q) = calm h lib os L n q"
  by (simp add: flush_meta_def)

lemma meta_update_keeps:
  assumes "mq_wf lib os q" and "meta_wf lib m"
    and "GetReadingOffset lib m = GetReadingOffset lib (meta q)"
    and "GetWritingOffset lib m = GetWritingOffset lib (meta q)"
  shows "keeps lib os q (q\<lparr>meta := m\<rparr>)"
  using assms by (auto simp: keeps_def mq_wf_def vbyte_def seg_content_def seg_path_def split: option.splits)

lemma wp_doFlush:
  assumes wf: "mq_wf lib os q" and calm: "calm h lib os {} n q"
  shows "wp h (doFlush lib os) (\<lambda>_ q'. keeps lib os q q' \<and> calm h lib os {} n q') E q"
proof -
  have ids: "list_all (\<lambda>i. 0 \<le> i \<and> i < QueueCapacitySegments q) [0..int (length (segments q)) - 1]"
    using wf_segs [OF wf] wf_cap [OF wf] by (auto simp: list_all_iff)
  have "wp h (\<lambda>q. case GetWritingOffset lib (meta q) of (wid, woffset) \<Rightarrow>
        (Ok (), flush_meta lib os (q\<lparr>meta := PutWatermarkOffset lib wid woffset (meta q)\<rparr>)))
      (\<lambda>_ q'. keeps lib os q q' \<and> calm h lib os {} n q') E q1"
    if v: "same_view lib os q q1" and c: "calm h lib os {} n q1" for q1
  proof -
    note wf1 = same_view_wf [OF v] and laws = wf_laws [OF wf]
    obtain i k where w: "GetWritingOffset lib (meta q1) = (i, k)" by fastforce
    let ?q2 = "q1\<lparr>meta := PutWatermarkOffset lib i k (meta q1)\<rparr>"
    have "keeps lib os q1 ?q2"
      using meta_wf_put(2) [OF laws wf_meta [OF wf1]] get_put_other [OF laws wf_meta [OF wf1]]
      by (intro meta_update_keeps [OF wf1]) auto
    then have "keeps lib os q (flush_meta lib os ?q2)"
      using same_view_keeps [OF v wf] flush_meta_view [of lib os ?q2] same_view_keeps keeps_trans
      by (metis keeps_def)
    with c w show ?thesis by (simp add: wp_def)
  qed
  then show ?thesis
    by (intro wp_cong [OF doFlush_def]) (subst wp_bind, rule wp_conseq [OF wp_flush_segments [OF wf ids calm]], auto)
qed

section \<open>Enqueue\<close>

lemma enqueue_room:
  assumes h: "holds lib os n q bss" and room: "\<not> IsFull lib q" and len: "int len \<le> MaxEventSize q"
    and r: "GetReadingOffset lib (meta q) = (rid, roff)"
  shows "hdr (nS q) (waddr lib q) + 8 + len \<le> (nat rid + nC q) * nS q"
    and "(nat rid + nC q) * nS q \<le> raddr lib q + nC q * nS q"
proof -
  obtain wid woff where w: "GetWritingOffset lib (meta q) = (wid, woff)" by fastforce
  from h r w have wf: "mq_wf lib os q" and conf: "conf_ok q" and rp: "pos_ok q rid roff" and wp: "pos_ok q wid woff"
    by (simp_all add: holds_def)
  let ?S = "SegmentSize q" and ?C = "QueueCapacitySegments q" and ?M = "MaxEventSize q"
  have S: "0 < ?S" "0 < nS q" using wf_size [OF wf] by auto
  have "hdr (nS q) (waddr lib q) \<le> (nat wid + 1) * nS q"
    using hdr_bounds [OF S(2), of "waddr lib q"] addr_div [OF wp] w by (simp add: waddr_def)
  then have "int (hdr (nS q) (waddr lib q)) \<le> int ((nat wid + 1) * nS q)" by (rule zle_int [THEN iffD2])
  then have a: "int (hdr (nS q) (waddr lib q)) \<le> (wid + 1) * ?S" using wp S by (simp add: pos_ok_def algebra_simps)
  have "wid + 1 \<le> rid + ?C - 1 - ?M div ?S" using room r w by (simp add: IsFull_def Let_def)
  then have "(wid + 1) * ?S \<le> (rid + ?C - 1 - ?M div ?S) * ?S" using S by (intro mult_right_mono) auto
  then have b: "(wid + 1) * ?S + ?M div ?S * ?S + ?S \<le> (rid + ?C) * ?S" by (simp add: algebra_simps)
  have c: "8 + int len \<le> ?M div ?S * ?S + ?S"
    using len conf div_mult_mod_eq [of ?M ?S] unfolding conf_ok_def by linarith
  have "int ((nat rid + nC q) * nS q) = (rid + ?C) * ?S"
    using rp S wf_cap [OF wf] by (simp add: pos_ok_def)
  with a b c have "int (hdr (nS q) (waddr lib q) + 8 + len) \<le> int ((nat rid + nC q) * nS q)" by simp
  then show "hdr (nS q) (waddr lib q) + 8 + len \<le> (nat rid + nC q) * nS q" by (rule zle_int [THEN iffD1])
  show "(nat rid + nC q) * nS q \<le> raddr lib q + nC q * nS q"
    using r by (simp add: raddr_def addr_def add_mult_distrib)
qed

text \<open>Writing a length and a block behind the stored blocks, and moving the writing offset.\<close>

lemma stored_snoc:
  assumes laws: "mmap_laws lib" and st: "stored lib os q A bss E" and S: "0 < nS q"
    and len: "int (length b) \<le> MaxInt64"
    and w: "wrote lib os (hdr (nS q) E) (u64_enc lib (intToUint64 (int (length b))) @ b) q q'"
    and room: "hdr (nS q) E + 8 + length b \<le> A + nC q * nS q"
  shows "stored lib os q' A (bss @ [b]) (hdr (nS q) E + 8 + length b)"
proof -
  have "E \<le> hdr (nS q) E" using hdr_bounds [OF S, of E] by simp
  then have keep: "vbyte lib os q' a = vbyte lib os q a" if "A \<le> a" "a < E" for a
    using w that room unfolding wrote_def by (auto simp: u64_enc_length [OF laws])
  have "vread lib os q' (hdr (nS q) E) 8 @ vread lib os q' (hdr (nS q) E + 8) (length b)
      = u64_enc lib (intToUint64 (int (length b))) @ b"
    using vread_wrote [OF w] by (simp add: vread_append u64_enc_length [OF laws])
  then have "vread lib os q' (hdr (nS q) E) 8 = u64_enc lib (intToUint64 (int (length b)))"
    and "vread lib os q' (hdr (nS q) E + 8) (length b) = b"
    by (simp_all add: u64_enc_length [OF laws])
  then show ?thesis
    using stored_cong [OF S wrote_fields(1) [OF w] keep st] wrote_fields(1) [OF w] len
    by (auto simp: stored_append Let_def)
qed

lemma vbyte_meta [simp]: "vbyte lib os (q\<lparr>meta := m\<rparr>) = vbyte lib os q"
  by (auto simp: vbyte_def seg_content_def seg_path_def fun_eq_iff split: option.splits)

lemma mq_wf_meta: "mq_wf lib os q \<Longrightarrow> meta_wf lib m \<Longrightarrow> mq_wf lib os (q\<lparr>meta := m\<rparr>)"
  by (simp add: mq_wf_def)

lemma stored_meta [simp]: "stored lib os (q\<lparr>meta := m\<rparr>) A bs E = stored lib os q A bs E"
  by (induction bs arbitrary: A) (simp_all add: Let_def vread_def)

lemma addr_meta [simp]: "addr (q\<lparr>meta := m\<rparr>) = addr q" "pos_ok (q\<lparr>meta := m\<rparr>) = pos_ok q"
  by (simp_all add: addr_def pos_ok_def fun_eq_iff)

lemma holds_put_writing:
  assumes h: "holds lib os (Suc n) q bss" and room: "\<not> IsFull lib q" and len: "int (length b) \<le> MaxEventSize q"
    and w: "wrote lib os (hdr (nS q) (waddr lib q)) (u64_enc lib (intToUint64 (int (length b))) @ b) q q'"
    and pos: "pos_ok q i k" and lim: "addr q i k = hdr (nS q) (waddr lib q) + 8 + length b"
  shows "holds lib os n (q'\<lparr>meta := PutWritingOffset lib i k (meta q')\<rparr>) (bss @ [b])"
proof -
  obtain rid roff where r: "GetReadingOffset lib (meta q) = (rid, roff)" by fastforce
  obtain wid woff where wo: "GetWritingOffset lib (meta q) = (wid, woff)" by fastforce
  from h r wo have wf: "mq_wf lib os q" and conf: "conf_ok q" and rp: "pos_ok q rid roff"
    and wp: "pos_ok q wid woff" and max: "wid + int (Suc n) * QueueCapacitySegments q \<le> MaxInt64"
    and st: "stored lib os q (raddr lib q) bss (waddr lib q)" by (simp_all add: holds_def)
  note laws = wf_laws [OF wf] and S = wf_size(3) [OF wf] and eq = wrote_fields [OF w]
  note rm = enqueue_room [OF h room len r]
  have meta: "meta q' = meta q" using w by (simp add: wrote_def)
  have M: "MaxEventSize q' = MaxEventSize q" using w by (simp add: wrote_def fixed_def)
  have "nat i = addr q i k div nS q" by (simp add: addr_div [OF pos])
  also have "\<dots> \<le> (nat rid + nC q) * nS q div nS q" using rm(1) lim by (intro div_le_mono) simp
  finally have "nat i \<le> nat rid + nC q" using S by simp
  moreover have "nat rid \<le> nat wid"
    using div_le_mono [of "raddr lib q" "waddr lib q" "nS q"] stored_le [OF S st] addr_div [OF rp] addr_div [OF wp]
    by (simp add: raddr_def waddr_def r wo)
  ultimately have i: "i + int n * QueueCapacitySegments q \<le> MaxInt64"
    using max pos rp wp wf_cap [OF wf] unfolding pos_ok_def by (simp add: algebra_simps) linarith
  moreover have "0 \<le> int n * QueueCapacitySegments q" using wf_cap [OF wf] by simp
  ultimately have get: "GetWritingOffset lib (PutWritingOffset lib i k (meta q')) = (i, k)"
    using pos conf get_put_writing [OF laws wf_meta [OF wf]] by (simp add: meta pos_ok_def conf_ok_def)
  have getr: "GetReadingOffset lib (PutWritingOffset lib i k (meta q')) = (rid, roff)"
    using get_put_other(1) [OF laws wf_meta [OF wf]] r by (simp add: meta)
  have b: "int (length b) \<le> MaxInt64" using len conf by (simp add: conf_ok_def)
  have "stored lib os q' (raddr lib q) (bss @ [b]) (addr q i k)"
    unfolding lim using rm by (intro stored_snoc [OF laws st S b w]) linarith
  moreover have "mq_wf lib os (q'\<lparr>meta := PutWritingOffset lib i k (meta q')\<rparr>)"
    using meta_wf_put(1) [OF laws wf_meta [OF wf]] by (intro mq_wf_meta wrote_wf [OF w]) (simp add: meta)
  ultimately show ?thesis
    using conf rp pos i eq M r by (simp add: holds_def get getr conf_ok_def raddr_def waddr_def)
qed

lemma keeps_unflushed: "mq_wf lib os q \<Longrightarrow> keeps lib os q (q\<lparr>unflushedNum := k\<rparr>)"
  by (auto simp: keeps_def mq_wf_def vbyte_def seg_content_def seg_path_def split: option.splits)

lemma vbyte_usedSize: "vbyte lib os (q\<lparr>usedSize := k\<rparr>) = vbyte lib os q"
  by (auto simp: vbyte_def seg_content_def seg_path_def fun_eq_iff split: option.splits)

lemma holds_usedSize [simp]: "holds lib os n (q\<lparr>usedSize := k\<rparr>) bss = holds lib os n q bss"
proof -
  have "stored lib os (q\<lparr>usedSize := k\<rparr>) A bs E = stored lib os q A bs E" for A bs E
    by (induction bs arbitrary: A) (simp_all add: Let_def vread_def vbyte_usedSize)
  then show ?thesis
    by (simp add: holds_def mq_wf_def conf_ok_def pos_ok_def raddr_def waddr_def addr_def)
qed

lemma wp_enqueue_account:
  assumes h: "holds lib os n q bss" and calm: "calm h lib os {} m q"
  shows "wp h (enqueue_account lib os k)
    (\<lambda>_ q'. holds lib os n q' bss \<and> usedSize q' = usedSize q + k \<and> ready q' = ready q \<and>
       MaxEventSize q' = MaxEventSize q \<and> calm h lib os {} m q') E q"
proof -
  have wf: "mq_wf lib os q" using h by (simp add: holds_def)
  let ?q1 = "q\<lparr>unflushedNum := unflushedNum q + 1\<rparr>"
  have k1: "keeps lib os q ?q1" by (rule keeps_unflushed [OF wf])
  then have wf1: "mq_wf lib os ?q1" by (simp add: keeps_def)
  have fl: "wp h (go_bind (doFlush lib os) (\<lambda>_ q. (Ok (), q\<lparr>unflushedNum := 0\<rparr>)))
      (\<lambda>_ q'. keeps lib os q q' \<and> calm h lib os {} m q') E ?q1"
  proof -
    have "keeps lib os q (q2\<lparr>unflushedNum := 0\<rparr>)" if "keeps lib os ?q1 q2" for q2
      by (rule keeps_trans [OF keeps_trans [OF k1 that] keeps_unflushed]) (use that in \<open>simp add: keeps_def\<close>)
    then show ?thesis
      using calm unfolding wp_bind
      by (intro wp_conseq [OF wp_doFlush [OF wf1]]) (auto simp: wp_def)
  qed
  have "wp h (\<lambda>q. let q1 = q\<lparr>unflushedNum := unflushedNum q + 1\<rparr> in
         if unflushedNum q1 = FlushCeilingNum q1
         then go_bind (doFlush lib os) (\<lambda>_ q. (Ok (), q\<lparr>unflushedNum := 0\<rparr>)) q1
         else (Ok (), q1)) (\<lambda>_ q'. keeps lib os q q' \<and> calm h lib os {} m q') E q"
    using fl k1 calm unfolding wp_def Let_def
    by (cases "unflushedNum ?q1 = FlushCeilingNum ?q1") (simp_all only: if_True if_False prod.case outcome.case calm_simps refl)
  then show ?thesis
    unfolding enqueue_account_def wp_bind
    by (rule wp_conseq) (auto simp: wp_def keeps_def [of lib os q] intro: keeps_holds [OF _ h])
qed

text \<open>
  The outcomes of \<open>enqueue\<close>: the block is stored behind the others; or the queue is full and
  nothing changed; or a segment could not be mapped, and what was stored is still stored.
\<close>

lemma wp_enqueue:
  assumes h: "holds lib os (Suc n) q bss" and len: "int (length bytes) \<le> MaxEventSize q"
    and calm: "calm h lib os {} (m + 3 + length bytes div nS q) q"
  shows "wp h (enqueue lib os bytes)
    (\<lambda>_ q'. \<not> IsFull lib q \<and> holds lib os n q' (bss @ [bytes]) \<and> usedSize q' = usedSize q + int (length bytes) \<and>
       ready q' = ready q \<and> MaxEventSize q' = MaxEventSize q \<and> calm h lib os {} m q')
    (\<lambda>e q'. holds lib os n q' bss \<and> (e = ErrFull \<and> IsFull lib q \<and> q' = q \<or> h \<and> (\<exists>m. e = Errorf m))) q"
  (is "wp h _ ?Q ?E q")
proof (cases "IsFull lib q")
  case True
  then show ?thesis using holds_less [OF h, of n] by (simp add: wp_def enqueue_def)
next
  case False
  obtain wid woff where w: "GetWritingOffset lib (meta q) = (wid, woff)" by fastforce
  obtain rid roff where r: "GetReadingOffset lib (meta q) = (rid, roff)" by fastforce
  from h w have wf: "mq_wf lib os q" and pos: "pos_ok q wid woff" by (simp_all add: holds_def)
  note rm = enqueue_room [OF h False len r] and laws = wf_laws [OF wf] and S = wf_size(3) [OF wf]
  let ?A = "hdr (nS q) (waddr lib q)" and ?enc = "u64_enc lib (intToUint64 (int (length bytes)))"
  have A: "waddr lib q \<le> ?A" using hdr_bounds [OF S, of "waddr lib q"] by simp
  have ring: "8 + length bytes \<le> nC q * nS q"
    using rm stored_le [OF S, of lib os "raddr lib q" bss "waddr lib q"] h A by (simp add: holds_def)
  have part: "?E (Errorf msg) q'" if hh: "h" and wr: "wrote lib os ?A xs q q'" and l: "length xs \<le> 8 + length bytes" for msg xs q'
  proof -
    have "keeps lib os q q'" using rm l A by (intro wrote_keeps [OF wr]) linarith+
    then show ?thesis using hh keeps_holds [OF _ holds_less [OF h, of n]] by auto
  qed
  have finish: "wp h (go_bind (\<lambda>q. (Ok (), q\<lparr>meta := PutWritingOffset lib i k (meta q)\<rparr>))
      (\<lambda>_. enqueue_account lib os (int (length bytes)))) ?Q ?E q2"
    if wr: "wrote lib os ?A (?enc @ bytes) q q2" and p: "pos_ok q i k" and a: "addr q i k = ?A + 8 + length bytes"
      and c: "calm h lib os {} m q2" for i k q2
  proof -
    let ?q3 = "q2\<lparr>meta := PutWritingOffset lib i k (meta q2)\<rparr>"
    have "holds lib os n ?q3 (bss @ [bytes])" by (rule holds_put_writing [OF h False len wr p a])
    from wp_enqueue_account [OF this, of h m "int (length bytes)"] c have
      "wp h (enqueue_account lib os (int (length bytes))) ?Q ?E ?q3"
      using wr False by (auto elim!: wp_conseq simp: wrote_def fixed_def)
    then show ?thesis by (simp add: wp_def go_bind_def)
  qed
  have waddr: "addr q wid woff = waddr lib q" by (simp add: waddr_def w)
  have run: "wp h (go_bind (go_bind (writeLength lib os (int (length bytes)) wid woff) (\<lambda>(i, k). writeBytes lib os bytes i k))
      (\<lambda>(i, k). go_bind (\<lambda>q. (Ok (), q\<lparr>meta := PutWritingOffset lib i k (meta q)\<rparr>))
         (\<lambda>_. enqueue_account lib os (int (length bytes))))) ?Q ?E q"
    using part finish
    by (subst wp_bind) (rule wp_conseq [OF wp_write_event [OF wf pos ring calm]], auto simp: waddr)
  show ?thesis
    by (rule wp_cong [OF _ run [unfolded go_bind_assoc]])
      (simp add: enqueue_def False w go_bind_assoc split_def)
qed

section \<open>Dequeue\<close>

lemma unmapSegment_calm:
  "unmapSegment lib os sid q = (r, q') \<Longrightarrow> calm h lib os L n q \<Longrightarrow> calm h lib os L n q'"
  by (auto simp: unmapSegment_def Let_def flush_to_disk_def calm_def split: if_splits option.splits)

lemma wp_unmap_logged:
  assumes "mq_wf lib os q" and "0 \<le> sid" and "calm h lib os L n q"
  shows "wp h (\<lambda>q. case unmapSegment lib os sid q of (Err _, q') \<Rightarrow> (Ok (), q') | r \<Rightarrow> r)
    (\<lambda>_ q'. same_view lib os q q' \<and> calm h lib os L n q') E q"
proof -
  obtain r q' where u: "unmapSegment lib os sid q = (r, q')" by fastforce
  show ?thesis
    using unmapSegment_view [OF assms(1) u] unmapSegment_no_Panic [OF assms(1,2) u] unmapSegment_calm [OF u assms(3)] u
    by (cases r) (auto simp: wp_def)
qed

lemma wp_swapper_markRead:
  assumes wf: "mq_wf lib os q" and sid: "0 \<le> sid" and calm: "calm h lib os {} n q"
  shows "wp h (swapper_markRead lib os sid) (\<lambda>_ q'. same_view lib os q q' \<and> calm h lib os {} n q') E q"
proof -
  let ?i = "nat sid mod nC q"
  have un: "wp h (unlock sid) (\<lambda>_ q3. same_view lib os q q3 \<and> calm h lib os {} n q3) E q2"
    if v: "same_view lib os q q2" and c: "calm h lib os {?i} n q2" for q2
  proof -
    have "calm h lib os {nat sid mod nC q2} n q2" using c same_view_fields [OF v] by simp
    from wp_unlock [OF same_view_wf [OF v] sid this, of E] show ?thesis
      by (auto elim!: wp_conseq intro: same_view_trans [OF v])
  qed
  have mid: "wp h (\<lambda>q. case unmapSegment lib os sid q of (Err _, q') \<Rightarrow> (Ok (), q') | r \<Rightarrow> r)
      (\<lambda>_ q2. same_view lib os q q2 \<and> calm h lib os {?i} n q2) E q1"
    if v: "same_view lib os q q1" and c: "calm h lib os {?i} n q1" for q1
    by (rule wp_conseq [OF wp_unmap_logged [OF same_view_wf [OF v] sid c]]) (auto intro: same_view_trans [OF v])
  have "wp h (lock sid) (\<lambda>_ q1. same_view lib os q q1 \<and> calm h lib os {?i} n q1) E q"
    using wp_lock [OF wf sid calm] by simp
  then show ?thesis
    unfolding swapper_markRead_def wp_bind
    by (rule wp_conseq) (auto intro!: wp_conseq [OF mid] un)
qed

lemma same_view_channel:
  "mq_wf lib os q \<Longrightarrow> list_all (\<lambda>i. 0 \<le> i) c \<Longrightarrow> same_view lib os q (q\<lparr>markReadChannel := c\<rparr>)"
  by (auto simp: same_view_def mq_wf_def fixed_def seg_content_def seg_path_def split: option.splits)

lemma wp_swapper_receive:
  assumes wf: "mq_wf lib os q" and calm: "calm h lib os {} n q"
  shows "wp h (swapper_receive lib os) (\<lambda>_ q'. same_view lib os q q' \<and> calm h lib os {} n q') E q"
proof (cases "markReadChannel q")
  case Nil
  with assms show ?thesis by (simp add: wp_def swapper_receive_def same_view_refl)
next
  case (Cons sid rest)
  let ?q1 = "q\<lparr>markReadChannel := rest\<rparr>"
  have sid: "0 \<le> sid" and v: "same_view lib os q ?q1"
    using wf_chan [OF wf] Cons same_view_channel [OF wf] by auto
  have "wp h (swapper_markRead lib os sid) (\<lambda>_ q'. same_view lib os q q' \<and> calm h lib os {} n q') E ?q1"
    by (rule wp_conseq [OF wp_swapper_markRead [OF same_view_wf [OF v] sid, of h n]])
      (use calm in \<open>auto intro: same_view_trans [OF v]\<close>)
  with Cons show ?thesis by (simp add: wp_def swapper_receive_def)
qed

lemma wp_send_markRead:
  assumes wf: "mq_wf lib os q" and sid: "0 \<le> sid" and calm: "calm h lib os {} n q"
  shows "wp h (send_markRead lib os sid) (\<lambda>_ q'. same_view lib os q q' \<and> calm h lib os {} n q') E q"
proof -
  have "wp h (\<lambda>q. if length (markReadChannel q) \<ge> 1 then swapper_receive lib os q else (Ok (), q))
      (\<lambda>_ q'. same_view lib os q q' \<and> calm h lib os {} n q') E q"
    using wp_swapper_receive [OF wf calm, of E] wf calm by (simp add: wp_def same_view_refl)
  moreover have "same_view lib os q (q1\<lparr>markReadChannel := markReadChannel q1 @ [sid]\<rparr>)"
    if "same_view lib os q q1" for q1
    using same_view_trans [OF that same_view_channel [OF same_view_wf [OF that]]] sid
      wf_chan [OF same_view_wf [OF that]] by simp
  ultimately show ?thesis
    unfolding send_markRead_def wp_bind by (elim wp_conseq) (auto simp: wp_def)
qed

lemma holds_put_reading:
  assumes h: "holds lib os n q (b # bs)" and v: "same_view lib os q q'"
    and pos: "pos_ok q i k" and lim: "addr q i k = hdr (nS q) (raddr lib q) + 8 + length b"
  shows "holds lib os n (q'\<lparr>meta := PutReadingOffset lib i k (meta q')\<rparr>) bs"
    and "GetReadingOffset lib (PutReadingOffset lib i k (meta q')) = (i, k)"
proof -
  obtain wid woff where w: "GetWritingOffset lib (meta q) = (wid, woff)" by fastforce
  from h w have wf: "mq_wf lib os q" and conf: "conf_ok q" and wp: "pos_ok q wid woff"
    and max: "wid + int n * QueueCapacitySegments q \<le> MaxInt64"
    and st: "stored lib os q (addr q i k) bs (waddr lib q)" by (simp_all add: holds_def Let_def lim)
  note laws = wf_laws [OF wf] and S = wf_size(3) [OF wf] and wf' = same_view_wf [OF v]
  have eq: "meta q' = meta q" "SegmentSize q' = SegmentSize q" "QueueCapacitySegments q' = QueueCapacitySegments q"
    "MaxEventSize q' = MaxEventSize q" "pos_ok q' = pos_ok q" "addr q' = addr q"
    using same_view_fields [OF v] same_view_addr [OF v] by auto
  have "nat i \<le> nat wid"
    using div_le_mono [of "addr q i k" "waddr lib q" "nS q"] stored_le [OF S st] addr_div [OF pos] addr_div [OF wp]
    by (simp add: waddr_def w)
  then have "i \<le> MaxInt64"
    using max wp mult_nonneg_nonneg [of "int n" "QueueCapacitySegments q"] wf_cap [OF wf]
    unfolding pos_ok_def by linarith
  then show get: "GetReadingOffset lib (PutReadingOffset lib i k (meta q')) = (i, k)"
    using pos conf get_put_reading [OF laws wf_meta [OF wf]] by (simp add: eq pos_ok_def conf_ok_def)
  have getw: "GetWritingOffset lib (PutReadingOffset lib i k (meta q')) = (wid, woff)"
    using get_put_other(4) [OF laws wf_meta [OF wf]] w by (simp add: eq)
  have "stored lib os q' (addr q i k) bs (waddr lib q)"
    by (rule stored_cong [OF S eq(2) vbyte_same_view [OF v wf] st])
  moreover have "mq_wf lib os (q'\<lparr>meta := PutReadingOffset lib i k (meta q')\<rparr>)"
    using meta_wf_put(4) [OF laws wf_meta [OF wf]] by (intro mq_wf_meta wf') (simp add: eq)
  ultimately show "holds lib os n (q'\<lparr>meta := PutReadingOffset lib i k (meta q')\<rparr>) bs"
    using conf pos wp max w get getw by (simp add: holds_def conf_ok_def raddr_def waddr_def eq)
qed

lemma isEmpty_iff:
  assumes "holds lib os n q bss"
  shows "isEmpty lib q \<longleftrightarrow> bss = []"
proof -
  obtain rid roff wid woff where o: "GetReadingOffset lib (meta q) = (rid, roff)"
    "GetWritingOffset lib (meta q) = (wid, woff)" by fastforce
  from assms o have p: "pos_ok q rid roff" "pos_ok q wid woff" and wf: "mq_wf lib os q"
    and st: "stored lib os q (addr q rid roff) bss (addr q wid woff)"
    by (auto simp: holds_def raddr_def waddr_def)
  have "isEmpty lib q \<longleftrightarrow> addr q rid roff = addr q wid woff"
    using addr_inject [OF p] by (auto simp: isEmpty_def o)
  also have "\<dots> \<longleftrightarrow> bss = []"
    using stored_le [OF wf_size(3) [OF wf] st] st by (cases bss) auto
  finally show ?thesis .
qed

text \<open>The length and the block of the first stored event, read back.\<close>

lemma wp_read_event:
  assumes h: "holds lib os n q (b # bs)" and r: "GetReadingOffset lib (meta q) = (rid, roff)"
    and calm: "calm h lib os {} (m + 3 + length b div nS q) q"
  shows "wp h (go_bind (readLength lib os rid roff) (\<lambda>(i, k, len). readBytes lib os i k len))
    (\<lambda>(bytes, i, k) q'. bytes = b \<and> same_view lib os q q' \<and> pos_ok q i k \<and>
       addr q i k = hdr (nS q) (raddr lib q) + 8 + length b \<and> calm h lib os {} m q')
    (\<lambda>e q'. h \<and> (\<exists>m. e = Errorf m) \<and> same_view lib os q q') q" (is "wp h _ ?Q ?E q")
proof -
  let ?H = "hdr (nS q) (raddr lib q)"
  from h r have wf: "mq_wf lib os q" and pos: "pos_ok q rid roff" and ra: "addr q rid roff = raddr lib q"
    and hd: "vread lib os q ?H 8 = u64_enc lib (intToUint64 (int (length b)))"
    and blk: "vread lib os q (?H + 8) (length b) = b" and len: "int (length b) \<le> MaxInt64"
    by (simp_all add: holds_def raddr_def Let_def)
  have c: "calm h lib os {} (Suc (m + 2 + length b div nS q)) q" using calm by (simp add: numeral_3_eq_3)
  have l: "uint64ToInt (u64_dec lib (vread lib os q ?H 8)) = int (length b)"
    using len by (simp add: hd u64_dec_enc [OF wf_laws [OF wf]])
  have block: "wp h (readBytes lib os i k (int (length b))) ?Q ?E q1"
    if v: "same_view lib os q q1" and p: "pos_ok q i k" and a: "addr q i k = ?H + 8"
      and c1: "calm h lib os {} (m + 2 + length b div nS q) q1" for i k q1
  proof -
    note eq = same_view_fields [OF v] same_view_addr [OF v] and wf1 = same_view_wf [OF v]
    have p1: "pos_ok q1 i k" using p by (simp add: eq)
    have "passes q1 k (length b) \<le> 2 + length b div nS q" using passes_le [OF p1] by (simp add: eq)
    then have c2: "calm h lib os {} (m + passes q1 k (nat (int (length b)))) q1"
      by (intro calm_less [OF c1]) simp
    show ?thesis
      by (rule wp_conseq [OF wp_readBytes [OF wf1 p1 c2]])
        (auto simp: eq a vread_same_view [OF v wf] blk intro: same_view_trans [OF v])
  qed
  show ?thesis
    unfolding wp_bind
    by (rule wp_conseq [OF wp_readLength [OF wf pos c]]) (auto simp: ra l intro: block)
qed

text \<open>
  The outcomes of \<open>dequeue\<close>: the oldest block, with the new reading offset; or the queue is
  empty and nothing changed; or a segment could not be mapped and the block stays.
\<close>

lemma wp_dequeue:
  assumes h: "holds lib os n q bss"
    and calm: "bss \<noteq> [] \<Longrightarrow> calm h lib os {} (m + 3 + length (hd bss) div nS q) q"
  shows "wp h (dequeue lib os)
    (\<lambda>(bytes, i, k) q'. \<exists>bs. bss = bytes # bs \<and> holds lib os n q' bs \<and>
       GetReadingOffset lib (meta q') = (i, k) \<and> usedSize q' = usedSize q - int (length bytes) \<and>
       ready q' = ready q \<and> MaxEventSize q' = MaxEventSize q \<and> calm h lib os {} m q')
    (\<lambda>e q'. holds lib os n q' bss \<and> (e = ErrEmpty \<and> bss = [] \<and> q' = q \<or> h \<and> (\<exists>m. e = Errorf m))) q"
  (is "wp h _ ?Q ?E q")
proof (cases bss)
  case Nil
  with h isEmpty_iff [OF h] show ?thesis by (simp add: wp_def dequeue_def)
next
  case (Cons b bs)
  obtain rid roff where r: "GetReadingOffset lib (meta q) = (rid, roff)" by fastforce
  from h r have wf: "mq_wf lib os q" and rid: "0 \<le> rid" by (simp_all add: holds_def pos_ok_def)
  let ?fin = "\<lambda>bytes i k. go_bind (\<lambda>q. (Ok (), q\<lparr>meta := PutReadingOffset lib i k (meta q)\<rparr>)) (\<lambda>_.
        go_bind (if i \<noteq> rid then send_markRead lib os rid else go_return ()) (\<lambda>_ q.
          (Ok (bytes, i, k), q\<lparr>usedSize := usedSize q - int (length bytes)\<rparr>)))"
  have fin: "wp h (?fin b i k) ?Q ?E q1"
    if v: "same_view lib os q q1" and p: "pos_ok q i k" and a: "addr q i k = hdr (nS q) (raddr lib q) + 8 + length b"
      and c: "calm h lib os {} m q1" for i k q1
  proof -
    let ?q2 = "q1\<lparr>meta := PutReadingOffset lib i k (meta q1)\<rparr>"
    note hp = holds_put_reading [OF h [unfolded Cons] v p a]
    then have wf2: "mq_wf lib os ?q2" by (simp add: holds_def)
    have "wp h (if i \<noteq> rid then send_markRead lib os rid else go_return ())
        (\<lambda>_ q'. same_view lib os ?q2 q' \<and> calm h lib os {} m q') ?E ?q2"
      using wp_send_markRead [OF wf2 rid, of h m ?E] c same_view_refl [OF wf2] by (auto simp: wp_def)
    then have "wp h (go_bind (if i \<noteq> rid then send_markRead lib os rid else go_return ()) (\<lambda>_ q.
          (Ok (b, i, k), q\<lparr>usedSize := usedSize q - int (length b)\<rparr>))) ?Q ?E ?q2"
      unfolding wp_bind
      by (rule wp_conseq)
        (use Cons hp same_view_fields [OF v] in
          \<open>auto simp: wp_def same_view_fields intro: keeps_holds [OF same_view_keeps [OF _ wf2]]\<close>)
    then show ?thesis by (simp add: wp_def go_bind_def [of "\<lambda>q. (Ok (), _ q)"])
  qed
  have run: "wp h (go_bind (go_bind (readLength lib os rid roff) (\<lambda>(i, k, len). readBytes lib os i k len))
      (\<lambda>(bytes, i, k). ?fin bytes i k)) ?Q ?E q"
    unfolding wp_bind [of h "go_bind (readLength _ _ _ _) _"]
    using keeps_holds [OF same_view_keeps [OF _ wf] h]
    by (intro wp_conseq [OF wp_read_event [OF h [unfolded Cons] r calm [unfolded Cons, simplified]]]) (auto intro: fin)
  have "\<not> isEmpty lib q" using isEmpty_iff [OF h] Cons by simp
  then show ?thesis
    by (intro wp_cong [OF _ run [unfolded go_bind_assoc]]) (simp add: dequeue_def r go_bind_assoc split_def cong: if_cong)
qed

section \<open>The plugin interface\<close>

lemma wp_Enqueue:
  assumes p: "mq_pending lib os pb (Suc n) q es"
  shows "wp True (Enqueue lib os pb e) (\<lambda>_ q'. mq_pending lib os pb n q' (es @ [e]))
    (\<lambda>x q'. mq_pending lib os pb n q' es) q"
proof -
  from p obtain bss where pb: "proto_laws pb" and h: "holds lib os (Suc n) q bss"
    and ms: "list_all2 (\<lambda>e b. Marshal pb e = Ok b) es bss" by (auto simp: mq_pending_def)
  have same: "mq_pending lib os pb n q es"
    using pb ms holds_less [OF h, of n] by (auto simp: mq_pending_def)
  have enq: "wp True (enqueue lib os b) (\<lambda>_ q'. mq_pending lib os pb n q' (es @ [e]))
      (\<lambda>x q'. mq_pending lib os pb n q' es) q"
    if b: "Marshal pb e = Ok b" "int (length b) \<le> MaxEventSize q" for b
  proof (rule wp_conseq [OF wp_enqueue [OF h b(2), where m = 0]])
    have "list_all2 (\<lambda>e b. Marshal pb e = Ok b) (es @ [e]) (bss @ [b])"
      using ms b(1) by (simp add: list_all2_appendI)
    then show "mq_pending lib os pb n q' (es @ [e])"
      if "\<not> IsFull lib q \<and> holds lib os n q' (bss @ [b]) \<and> usedSize q' = usedSize q + int (length b) \<and>
        ready q' = ready q \<and> MaxEventSize q' = MaxEventSize q \<and> calm True lib os {} 0 q'" for q'
      using pb that by (auto simp: mq_pending_def)
  qed (use pb ms in \<open>auto simp: mq_pending_def\<close>)
  show ?thesis
    using enq same pb by (auto simp: wp_def Enqueue_def proto_laws_def split: outcome.splits)
qed

lemma wp_Dequeue:
  assumes p: "mq_pending lib os pb n q es"
  shows "wp True (Dequeue lib os pb)
    (\<lambda>se q'. \<exists>es'. es = se_Event se # es' \<and> mq_pending lib os pb n q' es' \<and>
       (case GetReadingOffset lib (meta q') of (i, k) \<Rightarrow> se_Offset se = encodeOffset i k))
    (\<lambda>x q'. mq_pending lib os pb n q' es \<and> (x = ErrEmpty \<longrightarrow> es = [])) q"
proof -
  from p obtain bss where pb: "proto_laws pb" and h: "holds lib os n q bss"
    and ms: "list_all2 (\<lambda>e b. Marshal pb e = Ok b) es bss" by (auto simp: mq_pending_def)
  have "wp True (go_bind (dequeue lib os) (\<lambda>(data, sid, offset) q.
        case Unmarshal pb data of
          Ok e \<Rightarrow> (Ok \<lparr>se_Event = e, se_Offset = encodeOffset sid offset\<rparr>, q)
        | Err x \<Rightarrow> (Err x, q)
        | Panic \<Rightarrow> (Panic, q)
        | Hang \<Rightarrow> (Hang, q)))
    (\<lambda>se q'. \<exists>es'. es = se_Event se # es' \<and> mq_pending lib os pb n q' es' \<and>
       (case GetReadingOffset lib (meta q') of (i, k) \<Rightarrow> se_Offset se = encodeOffset i k))
    (\<lambda>x q'. mq_pending lib os pb n q' es \<and> (x = ErrEmpty \<longrightarrow> es = [])) q"
    unfolding wp_bind
  proof (rule wp_conseq [OF wp_dequeue [OF h, where m = 0 and h = True]])
    fix e q' assume "holds lib os n q' bss \<and> (e = ErrEmpty \<and> bss = [] \<and> q' = q \<or> True \<and> (\<exists>m. e = Errorf m))"
    with pb ms show "mq_pending lib os pb n q' es \<and> (e = ErrEmpty \<longrightarrow> es = [])"
      by (auto simp: mq_pending_def)
  qed (use pb ms in \<open>auto simp: wp_def mq_pending_def proto_laws_def list_all2_Cons2\<close>, blast+)
  then show ?thesis using p by (auto simp: wp_def Dequeue_def)
qed

lemma mq_pending_less: "mq_pending lib os pb (Suc n) q es \<Longrightarrow> mq_pending lib os pb n q es"
  using holds_less [of lib os "Suc n" q _ n] by (auto simp: mq_pending_def)

interpretation mq: queue_api "Enqueue lib os pb" "Dequeue lib os pb" "mq_pending lib os pb" for lib os pb
proof
  fix n q es e u q' x se
  show "mq_pending lib os pb n q' (es @ [e])"
    if "mq_pending lib os pb (Suc n) q es" and "Enqueue lib os pb e q = (Ok u, q')"
    using wp_Ok [OF wp_Enqueue [OF that(1)] that(2)] .
  show "mq_pending lib os pb n q' es"
    if "mq_pending lib os pb (Suc n) q es" and "Enqueue lib os pb e q = (Err x, q')"
    using wp_Err [OF wp_Enqueue [OF that(1)] that(2)] .
  show "\<exists>es'. es = se_Event se # es' \<and> mq_pending lib os pb n q' es'"
    if "mq_pending lib os pb (Suc n) q es" and "Dequeue lib os pb q = (Ok se, q')"
    using wp_Ok [OF wp_Dequeue [OF mq_pending_less [OF that(1)]] that(2)] by auto
  show "mq_pending lib os pb n q' es"
    if "mq_pending lib os pb (Suc n) q es" and "Dequeue lib os pb q = (Err x, q')"
    using wp_Err [OF wp_Dequeue [OF mq_pending_less [OF that(1)]] that(2)] by auto
  show "es = []" if "mq_pending lib os pb n q es" and "Dequeue lib os pb q = (Err ErrEmpty, q')"
    using wp_Err [OF wp_Dequeue [OF that(1)] that(2)] by auto
qed (rule mq_pending_less)

end
