(* ===== verification/Partitioned_Queue.thy ===== *)
theory Partitioned_Queue
  imports Memory_Queue Mmap_Refine "HOL-Library.Multiset"
begin

text \<open>
  \<open>plugins/queue/partition/partitioned_queue.go\<close>: a queue made of several queues of one kind.
  The code is written against the interface of \<open>plugins/queue/api\<close>; here it takes the method
  table \<open>queue_ops\<close> of the sub queues. The atomic operations on \<open>loadBalancerIndex\<close> are one
  step each; a \<open>CompareAndSwap\<close> right after the \<open>Add\<close> succeeds. The creation of a sub queue by
  \<open>plugin.Get\<close> is the argument \<open>create\<close>, a function of the configuration it gets.
\<close>

type_synonym plugin_config = "string \<rightharpoonup> string"

record 'q PartitionedQueue =
  pq_PipeName :: string
  pq_Partition :: int
  pq_config :: plugin_config
  subQueues :: "'q list"
  loadBalancerIndex :: i32
  totalQueueSize :: int

type_synonym ('q, 'a) pq = "('q PartitionedQueue, 'a) go"

text \<open>\<open>fmt.Sprintf("%s", v)\<close> for a map entry that may be absent.\<close>

definition sprint_entry :: "string option \<Rightarrow> string" where
  "sprint_entry v = (case v of None \<Rightarrow> ''%!s(<nil>)'' | Some s \<Rightarrow> s)"

text \<open>The loop of \<open>Initialize\<close> over the partitions; \<open>done\<close> are the queues created so far.\<close>

fun init_partitions :: "(plugin_config \<Rightarrow> 'q) \<Rightarrow> 'q queue_ops \<Rightarrow> nat list \<Rightarrow> 'q list \<Rightarrow> ('q, 'q list) pq" where
  "init_partitions create ops [] queues p = (Ok queues, p)"
| "init_partitions create ops (i # is) queues p =
     (let name = sprint_entry (pq_config p ''pipe_name'') @ ''-'' @ FormatInt (int i);
          p1 = p\<lparr>pq_config := (pq_config p)(''pipe_name'' \<mapsto> name)\<rparr>
      in case q_Initialize ops (create (pq_config p1)) of
           (Ok _, q) \<Rightarrow> init_partitions create ops is (queues @ [q])
                        (p1\<lparr>totalQueueSize := totalQueueSize p1 + q_TotalSize ops q\<rparr>)
         | (Err e, q) \<Rightarrow> (Err e, p1)
         | (Panic, q) \<Rightarrow> (Panic, p1)
         | (Hang, q) \<Rightarrow> (Hang, p1))"

definition pq_Initialize :: "(plugin_config \<Rightarrow> 'q) \<Rightarrow> 'q queue_ops \<Rightarrow> ('q, unit) pq" where
  "pq_Initialize create ops p =
     (if pq_Partition p < 0 then (Panic, p)
      else go_bind (init_partitions create ops [0..<nat (pq_Partition p)] [])
             (\<lambda>queues p. (Ok (), p\<lparr>subQueues := queues\<rparr>)) p)"

text \<open>\<open>p.subQueues[i]\<close>: an index out of range is a panic.\<close>

definition at_partition :: "int \<Rightarrow> ('q, 'a) go \<Rightarrow> ('q, 'a) pq" where
  "at_partition i call p =
     (if 0 \<le> i \<and> i < int (length (subQueues p))
      then case call (subQueues p ! nat i) of (r, q) \<Rightarrow> (r, p\<lparr>subQueues := (subQueues p)[nat i := q]\<rparr>)
      else (Panic, p))"

definition partition_IsFull :: "'q queue_ops \<Rightarrow> int \<Rightarrow> ('q, bool) pq" where
  "partition_IsFull ops i = at_partition i (\<lambda>q. (Ok (q_IsFull ops q), q))"

definition next_index :: "('q, int) pq" where
  "next_index p =
     (let result = loadBalancerIndex p + 1 in
      if sint result < pq_Partition p
      then (Ok (sint result), p\<lparr>loadBalancerIndex := result\<rparr>)
      else (Ok 0, p\<lparr>loadBalancerIndex := 0\<rparr>))"

fun scan_partitions :: "'q queue_ops \<Rightarrow> int \<Rightarrow> int list \<Rightarrow> ('q, int) pq" where
  "scan_partitions ops part [] p = (Err ErrFull, p)"
| "scan_partitions ops part (addition # rest) p =
     (let c = part + addition;
          checkPartition = (if c \<ge> pq_Partition p then c - pq_Partition p else c)
      in go_bind (partition_IsFull ops checkPartition) (\<lambda>full.
           if \<not> full then go_return checkPartition else scan_partitions ops part rest) p)"

definition findPartition :: "'q queue_ops \<Rightarrow> ('q, int) pq" where
  "findPartition ops p =
     (if pq_Partition p = 1 then (Ok 0, p)
      else go_bind next_index (\<lambda>part. go_bind (partition_IsFull ops part) (\<lambda>full p.
             if \<not> full then (Ok part, p)
             else scan_partitions ops part [1..pq_Partition p - 1] p)) p)"

definition pq_Enqueue :: "'q queue_ops \<Rightarrow> sniff_data \<Rightarrow> ('q, unit) pq" where
  "pq_Enqueue ops e = go_bind (findPartition ops) (\<lambda>part. at_partition part (q_Enqueue ops e))"

definition pq_Dequeue :: "'q queue_ops \<Rightarrow> int \<Rightarrow> ('q, SequenceEvent) pq" where
  "pq_Dequeue ops part = go_bind (at_partition part (q_Dequeue ops))
     (\<lambda>se. go_return (se\<lparr>se_Offset := (se_Offset se)\<lparr>Partition := part\<rparr>\<rparr>))"

definition TotalPartitionCount :: "'q PartitionedQueue \<Rightarrow> int" where
  "TotalPartitionCount p = int (length (subQueues p))"

fun close_partitions :: "'q queue_ops \<Rightarrow> int list \<Rightarrow> ('q, unit) pq" where
  "close_partitions ops [] p = (Ok (), p)"
| "close_partitions ops (i # is) p = go_bind (at_partition i (q_Close ops)) (\<lambda>_. close_partitions ops is) p"

definition pq_Close :: "'q queue_ops \<Rightarrow> ('q, unit) pq" where
  "pq_Close ops p = close_partitions ops [0..int (length (subQueues p)) - 1] p"

definition pq_Ack :: "'q queue_ops \<Rightarrow> Offset \<Rightarrow> ('q, unit) pq" where
  "pq_Ack ops lastOffset = at_partition (Partition lastOffset) (q_Ack ops lastOffset)"

section \<open>The choice of a partition\<close>

definition pq_wf :: "'q PartitionedQueue \<Rightarrow> bool" where
  "pq_wf p \<longleftrightarrow> 0 < pq_Partition p \<and> pq_Partition p < 2 ^ 31 \<and> int (length (subQueues p)) = pq_Partition p \<and>
     0 \<le> sint (loadBalancerIndex p) \<and> sint (loadBalancerIndex p) < pq_Partition p"

text \<open>The index of the last choice.\<close>

definition lb :: "'q PartitionedQueue \<Rightarrow> int" where
  "lb p = sint (loadBalancerIndex p)"

lemma sint_succ: "0 \<le> sint (w :: i32) \<Longrightarrow> sint w + 1 < 2 ^ 31 \<Longrightarrow> sint (w + 1) = sint w + 1"
  by (simp add: signed_take_bit_int_eq_self sint_word_ariths(1) )

lemma next_index_step:
  assumes wf: "pq_wf p"
  shows "next_index p = (Ok ((lb p + 1) mod pq_Partition p), snd (next_index p))"
    and "pq_wf (snd (next_index p))" and "subQueues (snd (next_index p)) = subQueues p"
    and "pq_Partition (snd (next_index p)) = pq_Partition p" and "lb (snd (next_index p)) = (lb p + 1) mod pq_Partition p"
proof -
  let ?r = "loadBalancerIndex p + 1"
  have b: "0 \<le> lb p" "lb p < pq_Partition p" "pq_Partition p < 2 ^ 31" "0 < pq_Partition p"
    using wf by (simp_all add: pq_wf_def lb_def)
  show "subQueues (snd (next_index p)) = subQueues p" "pq_Partition (snd (next_index p)) = pq_Partition p"
    by (simp_all add: next_index_def Let_def)
  have "next_index p = (Ok ((lb p + 1) mod pq_Partition p), snd (next_index p)) \<and>
    pq_wf (snd (next_index p)) \<and> lb (snd (next_index p)) = (lb p + 1) mod pq_Partition p"
  proof (cases "lb p + 1 < pq_Partition p")
    case True
    then have "sint ?r = lb p + 1" using b sint_succ [of "loadBalancerIndex p"] by (simp add: lb_def)
    with True b wf show ?thesis by (simp add: next_index_def pq_wf_def lb_def)
  next
    case False
    then have eq: "lb p + 1 = pq_Partition p" using b by simp
    then have "sint ?r = pq_Partition p \<or> sint ?r \<ge> pq_Partition p"
      using b sint_succ [of "loadBalancerIndex p"] by (simp add: lb_def)
    with eq b wf show ?thesis by (auto simp: next_index_def pq_wf_def lb_def)
  qed
  then show "next_index p = (Ok ((lb p + 1) mod pq_Partition p), snd (next_index p))"
    "pq_wf (snd (next_index p))" "lb (snd (next_index p)) = (lb p + 1) mod pq_Partition p" by blast+
qed

abbreviation full_at :: "'q queue_ops \<Rightarrow> 'q PartitionedQueue \<Rightarrow> int \<Rightarrow> bool" where
  "full_at ops p i \<equiv> q_IsFull ops (subQueues p ! nat i)"

lemma partition_IsFull_run:
  "pq_wf p \<Longrightarrow> 0 \<le> i \<Longrightarrow> i < pq_Partition p \<Longrightarrow> partition_IsFull ops i p = (Ok (full_at ops p i), p)"
  by (simp add: partition_IsFull_def at_partition_def pq_wf_def)

lemma wrap_index:
  "0 \<le> part \<Longrightarrow> part < P \<Longrightarrow> 1 \<le> a \<Longrightarrow> a < (P::int) \<Longrightarrow> (if part + a \<ge> P then part + a - P else part + a) = (part + a) mod P"
  using minus_mod_self2 [of "part + a" P] by (auto simp del: minus_mod_self2)

lemma scan_partitions_run:
  assumes wf: "pq_wf p" and part: "0 \<le> part" "part < pq_Partition p"
    and adds: "list_all (\<lambda>a. 1 \<le> a \<and> a < pq_Partition p) adds"
  shows "scan_partitions ops part adds p =
    (case find (\<lambda>i. \<not> full_at ops p i) (map (\<lambda>a. (part + a) mod pq_Partition p) adds) of
       None \<Rightarrow> (Err ErrFull, p) | Some i \<Rightarrow> (Ok i, p))"
  using adds
proof (induction adds)
  case (Cons a adds)
  let ?i = "(part + a) mod pq_Partition p"
  have i: "(if part + a \<ge> pq_Partition p then part + a - pq_Partition p else part + a) = ?i"
    using Cons.prems part by (intro wrap_index) auto
  have r: "0 \<le> ?i" "?i < pq_Partition p" using wf by (simp_all add: pq_wf_def)
  show ?case
    using Cons partition_IsFull_run [OF wf r, of ops] by (auto simp: Let_def i go_bind_Ok)
qed simp

text \<open>The partitions in the order in which the next call looks at them.\<close>

definition probe_order :: "'q PartitionedQueue \<Rightarrow> int list" where
  "probe_order p = map (\<lambda>a. (lb p + 1 + a) mod pq_Partition p) [0..pq_Partition p - 1]"

lemma findPartition_run:
  assumes wf: "pq_wf p" and P: "1 < pq_Partition p"
  shows "findPartition ops p =
    (case find (\<lambda>i. \<not> full_at ops p i) (probe_order p) of
       None \<Rightarrow> (Err ErrFull, snd (next_index p)) | Some i \<Rightarrow> (Ok i, snd (next_index p)))"
proof -
  let ?p = "snd (next_index p)" and ?part = "(lb p + 1) mod pq_Partition p"
  note n = next_index_step [OF wf]
  have part: "0 \<le> ?part" "?part < pq_Partition ?p" using P n(4) by simp_all
  have adds: "list_all (\<lambda>a. 1 \<le> a \<and> a < pq_Partition ?p) [1..pq_Partition ?p - 1]" by (simp add: list_all_iff)
  have order: "probe_order p = ?part # map (\<lambda>a. (?part + a) mod pq_Partition p) [1..pq_Partition p - 1]"
    using P by (simp add: probe_order_def upto.simps [of 0] mod_add_left_eq)
  show ?thesis
    using n(1) P partition_IsFull_run [OF n(2) part, of ops] scan_partitions_run [OF n(2) part adds, of ops]
    by (simp add: findPartition_def go_bind_Ok order n(3,4))
qed

lemma probe_order_set:
  assumes "pq_wf p" shows "set (probe_order p) = {0..<pq_Partition p}"
proof -
  have P: "0 < pq_Partition p" using assms by (simp add: pq_wf_def)
  have "i \<in> set (probe_order p)" if "0 \<le> i" "i < pq_Partition p" for i
  proof -
    let ?a = "(i - lb p - 1) mod pq_Partition p"
    have "(lb p + 1 + ?a) mod pq_Partition p = (lb p + 1 + (i - lb p - 1)) mod pq_Partition p"
      by (rule mod_add_right_eq)
    then have "(lb p + 1 + ?a) mod pq_Partition p = i" using that by simp
    moreover have "?a \<in> set [0..pq_Partition p - 1]" using P by simp
    ultimately show ?thesis unfolding probe_order_def set_map by (intro image_eqI) auto
  qed
  moreover have "set (probe_order p) \<subseteq> {0..<pq_Partition p}" using P by (auto simp: probe_order_def)
  ultimately show ?thesis by auto
qed

section \<open>Partitions of queues that keep their promise\<close>

lemma mset_concat_update: "i < length xs \<Longrightarrow> mset (concat (xs[i := x # xs ! i])) = add_mset x (mset (concat xs))"
  by (induction xs arbitrary: i) (auto split: nat.splits)

definition pq_pending :: "(nat \<Rightarrow> 'q \<Rightarrow> sniff_data list \<Rightarrow> bool) \<Rightarrow> nat \<Rightarrow> 'q PartitionedQueue \<Rightarrow> sniff_data list list \<Rightarrow> bool" where
  "pq_pending pending n p ess \<longleftrightarrow> pq_wf p \<and> length ess = length (subQueues p) \<and>
     (\<forall>i < length ess. pending n (subQueues p ! i) (ess ! i))"

datatype pqop = PEnq sniff_data | PDeq int

text \<open>The accepted and the delivered events of a sequence of calls, as in \<open>qrun\<close>.\<close>

fun pqrun :: "'q queue_ops \<Rightarrow> pqop list \<Rightarrow> 'q PartitionedQueue
    \<Rightarrow> (sniff_data list \<times> (int \<times> sniff_data) list \<times> 'q PartitionedQueue) option" where
  "pqrun ops [] p = Some ([], [], p)"
| "pqrun ops (PEnq e # calls) p =
     (case pq_Enqueue ops e p of
        (Ok _, p') \<Rightarrow> map_option (\<lambda>(a, d, s). (e # a, d, s)) (pqrun ops calls p')
      | (Err _, p') \<Rightarrow> pqrun ops calls p'
      | _ \<Rightarrow> None)"
| "pqrun ops (PDeq i # calls) p =
     (case pq_Dequeue ops i p of
        (Ok se, p') \<Rightarrow> map_option (\<lambda>(a, d, s). (a, (Partition (se_Offset se), se_Event se) # d, s)) (pqrun ops calls p')
      | (Err _, p') \<Rightarrow> pqrun ops calls p'
      | _ \<Rightarrow> None)"

locale partitions = queue_api enq deq pending
  for enq :: "sniff_data \<Rightarrow> ('q, unit) go" and deq :: "('q, SequenceEvent) go"
    and pending :: "nat \<Rightarrow> 'q \<Rightarrow> sniff_data list \<Rightarrow> bool" +
  fixes ops :: "'q queue_ops"
  assumes ops_enq: "q_Enqueue ops = enq" and ops_deq: "q_Dequeue ops = deq"
begin

lemma pq_pending_Suc: "pq_pending pending (Suc n) p ess \<Longrightarrow> pq_pending pending n p ess"
  by (auto simp: pq_pending_def intro: pending_Suc)

text \<open>A change of one sub queue.\<close>

lemma pq_pending_update:
  assumes "pq_pending pending (Suc n) p ess" and "i < length ess" and "pending n q es"
  shows "pq_pending pending n (p\<lparr>subQueues := (subQueues p)[i := q]\<rparr>) (ess[i := es])"
  using assms by (auto simp: pq_pending_def pq_wf_def nth_list_update intro: pending_Suc)

lemma pq_pending_next: "pq_pending pending n p ess \<Longrightarrow> pq_pending pending n (snd (next_index p)) ess"
  using next_index_step [of p] by (auto simp: pq_pending_def)

lemma findPartition_pending:
  assumes p: "pq_pending pending n p ess" and run: "findPartition ops p = (r, p')"
  shows "pq_pending pending n p' ess" and "r = Ok i \<Longrightarrow> 0 \<le> i \<and> nat i < length ess"
    and "r \<noteq> Panic" and "r \<noteq> Hang"
proof -
  have wf: "pq_wf p" and len: "int (length ess) = pq_Partition p" using p by (auto simp: pq_pending_def pq_wf_def)
  have "pq_pending pending n p' ess \<and> (\<forall>i. r = Ok i \<longrightarrow> 0 \<le> i \<and> nat i < length ess) \<and> r \<noteq> Panic \<and> r \<noteq> Hang"
  proof (cases "pq_Partition p = 1")
    case True
    with run p len show ?thesis by (auto simp: findPartition_def)
  next
    case False
    then have P: "1 < pq_Partition p" using wf by (simp add: pq_wf_def)
    have "0 \<le> i \<and> nat i < length ess" if "find (\<lambda>i. \<not> full_at ops p i) (probe_order p) = Some i" for i
      using that probe_order_set [OF wf] len by (auto simp: find_Some_iff nat_less_iff dest: nth_mem)
    with run findPartition_run [OF wf P, of ops] pq_pending_next [OF p] show ?thesis
      by (auto split: option.splits)
  qed
  then show "pq_pending pending n p' ess" "r = Ok i \<Longrightarrow> 0 \<le> i \<and> nat i < length ess" "r \<noteq> Panic" "r \<noteq> Hang"
    by blast+
qed

lemma at_partition_run:
  "pq_pending pending n p ess \<Longrightarrow> 0 \<le> i \<Longrightarrow> nat i < length ess \<Longrightarrow> call (subQueues p ! nat i) = (r, q) \<Longrightarrow>
   at_partition i call p = (r, p\<lparr>subQueues := (subQueues p)[nat i := q]\<rparr>)"
  by (simp add: at_partition_def pq_pending_def nat_less_iff)

text \<open>An accepted event is the last one of one partition; a refused one is nowhere.\<close>

lemma pq_Enqueue_pending:
  assumes p: "pq_pending pending (Suc n) p ess" and run: "pq_Enqueue ops e p = (r, p')"
  shows "r = Ok u \<Longrightarrow> \<exists>i < length ess. pq_pending pending n p' (ess[i := ess ! i @ [e]])"
    and "r = Err x \<Longrightarrow> pq_pending pending n p' ess"
proof -
  obtain r1 p1 where f: "findPartition ops p = (r1, p1)" by fastforce
  note fp = findPartition_pending [OF p f]
  have "(r = Ok u \<longrightarrow> (\<exists>i < length ess. pq_pending pending n p' (ess[i := ess ! i @ [e]]))) \<and>
    (r = Err x \<longrightarrow> pq_pending pending n p' ess)"
  proof (cases r1)
    case (Ok i)
    obtain r2 q where q: "enq e (subQueues p1 ! nat i) = (r2, q)" by fastforce
    have i: "0 \<le> i" "nat i < length ess" using fp(2) [OF Ok] by auto
    have "r = r2" and p': "p' = p1\<lparr>subQueues := (subQueues p1)[nat i := q]\<rparr>"
      using run f Ok at_partition_run [OF fp(1) i, of "q_Enqueue ops e"] q
      by (simp_all add: pq_Enqueue_def go_bind_Ok ops_enq)
    have pe: "pending (Suc n) (subQueues p1 ! nat i) (ess ! nat i)" using fp(1) i by (simp add: pq_pending_def)
    have "r = Ok u \<Longrightarrow> pending n q (ess ! nat i @ [e])" "r = Err x \<Longrightarrow> pending n q (ess ! nat i)"
      using enq_Ok [OF pe] enq_Err [OF pe] q \<open>r = r2\<close> by auto
    with pq_pending_update [OF fp(1) i(2)] i(2) show ?thesis unfolding p' by (metis list_update_id)
  qed (use run f fp pq_pending_Suc in \<open>auto simp: pq_Enqueue_def go_bind_def\<close>)
  then show "r = Ok u \<Longrightarrow> \<exists>i < length ess. pq_pending pending n p' (ess[i := ess ! i @ [e]])"
    and "r = Err x \<Longrightarrow> pq_pending pending n p' ess" by blast+
qed

lemma pq_Dequeue_pending:
  assumes p: "pq_pending pending (Suc n) p ess" and run: "pq_Dequeue ops i p = (r, p')"
  shows "r = Ok se \<Longrightarrow> Partition (se_Offset se) = i \<and> 0 \<le> i \<and> nat i < length ess \<and>
      (\<exists>es. ess ! nat i = se_Event se # es \<and> pq_pending pending n p' (ess[nat i := es]))"
    and "r = Err x \<Longrightarrow> pq_pending pending n p' ess"
proof -
  have "(r = Ok se \<longrightarrow> Partition (se_Offset se) = i \<and> 0 \<le> i \<and> nat i < length ess \<and>
      (\<exists>es. ess ! nat i = se_Event se # es \<and> pq_pending pending n p' (ess[nat i := es]))) \<and>
    (r = Err x \<longrightarrow> pq_pending pending n p' ess)"
  proof (cases "0 \<le> i \<and> nat i < length ess")
    case True
    obtain r2 q where q: "deq (subQueues p ! nat i) = (r2, q)" by fastforce
    have pe: "pending (Suc n) (subQueues p ! nat i) (ess ! nat i)" using p True by (simp add: pq_pending_def)
    have "at_partition i (q_Dequeue ops) p = (r2, p\<lparr>subQueues := (subQueues p)[nat i := q]\<rparr>)"
      using at_partition_run [OF p, of i "q_Dequeue ops"] True q by (simp add: ops_deq)
    then show ?thesis
      using run True deq_Ok [OF pe] deq_Err [OF pe] q pq_pending_update [OF p]
      by (cases r2) (fastforce simp: pq_Dequeue_def go_bind_def)+
  next
    case False
    then have "\<not> (0 \<le> i \<and> i < int (length (subQueues p)))" using p by (auto simp: pq_pending_def nat_less_iff)
    with run show ?thesis by (auto simp: pq_Dequeue_def go_bind_def at_partition_def)
  qed
  then show "r = Ok se \<Longrightarrow> Partition (se_Offset se) = i \<and> 0 \<le> i \<and> nat i < length ess \<and>
      (\<exists>es. ess ! nat i = se_Event se # es \<and> pq_pending pending n p' (ess[nat i := es]))"
    and "r = Err x \<Longrightarrow> pq_pending pending n p' ess" by blast+
qed

text \<open>
  Routing: every accepted event goes to one partition; each partition delivers in order what
  it held and what it was given.
\<close>

lemma run_partitions:
  "pq_pending pending (length calls + n) p ess \<Longrightarrow> pqrun ops calls p = Some (acc, del, s) \<Longrightarrow>
   \<exists>routed ess'. length routed = length ess \<and> mset (concat routed) = mset acc \<and> pq_pending pending n s ess' \<and>
     (\<forall>i < length ess. map snd (filter (\<lambda>d. fst d = int i) del) @ ess' ! i = ess ! i @ routed ! i)"
proof (induction calls arbitrary: p ess acc del)
  case Nil
  then show ?case by (intro exI [of _ "replicate (length ess) []"] exI [of _ ess]) (auto simp: concat_replicate_trivial)
next
  case (Cons c calls)
  then have p: "pq_pending pending (Suc (length calls + n)) p ess" by simp
  show ?case
  proof (cases c)
    case (PEnq e)
    obtain r p' where r: "pq_Enqueue ops e p = (r, p')" by fastforce
    note pe = pq_Enqueue_pending [OF p r]
    show ?thesis
    proof (cases r)
      case (Ok u)
      with r PEnq Cons.prems obtain acc' where run: "pqrun ops calls p' = Some (acc', del, s)" and acc: "acc = e # acc'"
        by auto
      obtain i where i: "i < length ess" and p': "pq_pending pending (length calls + n) p' (ess[i := ess ! i @ [e]])"
        using pe(1) [OF Ok] by blast
      from Cons.IH [OF p' run] obtain routed ess' where ih: "length routed = length ess"
        "mset (concat routed) = mset acc'" "pq_pending pending n s ess'"
        "\<forall>j < length ess. map snd (filter (\<lambda>d. fst d = int j) del) @ ess' ! j = ess[i := ess ! i @ [e]] ! j @ routed ! j"
        by auto
      then show ?thesis
        using i acc mset_concat_update [of i routed e]
        by (intro exI [of _ "routed[i := e # routed ! i]"] exI [of _ ess']) (auto simp: nth_list_update)
    next
      case (Err x)
      with r PEnq Cons.prems have "pqrun ops calls p' = Some (acc, del, s)" by simp
      with Cons.IH [OF pe(2) [OF Err]] show ?thesis by blast
    qed (use r PEnq Cons.prems in auto)
  next
    case (PDeq i)
    obtain r p' where r: "pq_Dequeue ops i p = (r, p')" by fastforce
    note pd = pq_Dequeue_pending [OF p r]
    show ?thesis
    proof (cases r)
      case (Ok se)
      from pd(1) [OF Ok] obtain es where i: "Partition (se_Offset se) = i" "0 \<le> i" "nat i < length ess"
        and es: "ess ! nat i = se_Event se # es" and p': "pq_pending pending (length calls + n) p' (ess[nat i := es])" by blast
      with Ok r PDeq Cons.prems obtain del' where run: "pqrun ops calls p' = Some (acc, del', s)"
        and del: "del = (i, se_Event se) # del'" by auto
      from Cons.IH [OF p' run] obtain routed ess' where ih: "length routed = length ess"
        "mset (concat routed) = mset acc" "pq_pending pending n s ess'"
        "\<forall>j < length ess. map snd (filter (\<lambda>d. fst d = int j) del') @ ess' ! j = ess[nat i := es] ! j @ routed ! j"
        by auto
      then show ?thesis
        using i es del by (intro exI [of _ routed] exI [of _ ess']) (auto simp: nth_list_update)
    next
      case (Err x)
      with r PDeq Cons.prems have "pqrun ops calls p' = Some (acc, del, s)" by simp
      with Cons.IH [OF pd(2) [OF Err]] show ?thesis by blast
    qed (use r PDeq Cons.prems in auto)
  qed
qed

end

section \<open>Partitions of the three kinds of queues\<close>

definition mmap_ops :: "'f mmap_lib \<Rightarrow> os_env \<Rightarrow> proto_lib \<Rightarrow> 'f mmap_queue queue_ops" where
  "mmap_ops lib os pb = \<lparr>
     q_Initialize = Initialize lib os, q_Enqueue = Enqueue lib os pb, q_Dequeue = Dequeue lib os pb,
     q_Close = Close lib os, q_Ack = Ack lib, q_TotalSize = TotalSize, q_UsedCount = UsedCount,
     q_IsFull = IsFull lib\<rparr>"

interpretation mmap_partitions: partitions "Enqueue lib os pb" "Dequeue lib os pb" "mq_pending lib os pb" "mmap_ops lib os pb"
  for lib os pb
  by unfold_locales (simp_all add: mmap_ops_def)

interpretation memory_partitions: partitions "memory_Enqueue lib" "memory_Dequeue lib" "memory_pending lib" "memory_ops lib"
  for lib
  by unfold_locales (simp_all add: memory_ops_def)

end
