(* ===== verification/Gatherer.thy ===== *)
theory Gatherer
  imports Partitioned_Queue
begin

text \<open>
  The receiver gatherer of \<open>internal/satellite/module/gatherer\<close>, and \<open>internal/satellite/module/processor\<close>. The goroutines of
  \<open>Boot\<close> are given by the body of their loops: one event from the receiver, one poll
  of a partition of the queue. The output channels are unbuffered; what a poll sends is its
  result. The clock is an argument.
\<close>

section \<open>Errors as text\<close>

definition error_text :: "go_error \<Rightarrow> string" where
  "error_text e =
     (case e of
        ErrEmpty \<Rightarrow> ''cannot read data when the queue is empty''
      | ErrFull \<Rightarrow> ''cannot write data when the queue is full''
      | ErrClosed \<Rightarrow> ''cannot enqueue or dequeue when the queue is closed''
      | EOF \<Rightarrow> ''EOF''
      | Errorf s \<Rightarrow> s)"

section \<open>ReceiverGatherer\<close>

type_synonym status_counter = "string \<Rightarrow> int"

definition Inc :: "string \<Rightarrow> status_counter \<Rightarrow> status_counter" where
  "Inc status c = c(status := c status + 1)"

record 'q gatherer =
  runningQueue :: "'q PartitionedQueue"
  receiveCounter :: status_counter
  queueOutputCounter :: status_counter
  lastEnqueueErrorPrintTime :: int
  enqueueErrorCounter :: "(string \<times> int) list"
  errorLog :: "(string \<times> int) list"

text \<open>Twenty seconds, in nanoseconds.\<close>

definition enqueueErrorPrintInterval :: int where
  "enqueueErrorPrintInterval = 20 * 1000000000"

definition count_error :: "string \<Rightarrow> (string \<times> int) list \<Rightarrow> (string \<times> int) list" where
  "count_error msg m = AList.update msg ((case map_of m msg of None \<Rightarrow> 0 | Some n \<Rightarrow> n) + 1) m"

definition recordEnqueueError :: "int \<Rightarrow> go_error \<Rightarrow> 'q gatherer \<Rightarrow> 'q gatherer" where
  "recordEnqueueError now err r =
     (let r1 = r\<lparr>receiveCounter := Inc ''abandoned'' (receiveCounter r),
                 enqueueErrorCounter := count_error (error_text err) (enqueueErrorCounter r)\<rparr>
      in if now > lastEnqueueErrorPrintTime r1 + enqueueErrorPrintInterval
         then r1\<lparr>errorLog := errorLog r1 @ enqueueErrorCounter r1,
                 lastEnqueueErrorPrintTime := now, enqueueErrorCounter := []\<rparr>
         else r1)"

definition gatherer_Prepare :: "(plugin_config \<Rightarrow> 'q) \<Rightarrow> 'q queue_ops \<Rightarrow> int \<Rightarrow> ('q gatherer, unit) go" where
  "gatherer_Prepare create ops now r =
     (case pq_Initialize create ops (runningQueue r) of
        (Ok _, p) \<Rightarrow> (Ok (), r\<lparr>runningQueue := p, receiveCounter := (\<lambda>_. 0), queueOutputCounter := (\<lambda>_. 0),
                              lastEnqueueErrorPrintTime := now, enqueueErrorCounter := []\<rparr>)
      | (Err e, p) \<Rightarrow> (Err e, r\<lparr>runningQueue := p\<rparr>)
      | (Panic, p) \<Rightarrow> (Panic, r\<lparr>runningQueue := p\<rparr>)
      | (Hang, p) \<Rightarrow> (Hang, r\<lparr>runningQueue := p\<rparr>))"

text \<open>One event from the receiver's channel.\<close>

definition receive_event :: "'q queue_ops \<Rightarrow> int \<Rightarrow> sniff_data \<Rightarrow> ('q gatherer, unit) go" where
  "receive_event ops now e r =
     (case pq_Enqueue ops e (runningQueue r) of
        (Ok _, p) \<Rightarrow> (Ok (), r\<lparr>receiveCounter := Inc ''all'' (receiveCounter r), runningQueue := p\<rparr>)
      | (Err x, p) \<Rightarrow>
          (Ok (), recordEnqueueError now x (r\<lparr>receiveCounter := Inc ''all'' (receiveCounter r), runningQueue := p\<rparr>))
      | (Panic, p) \<Rightarrow> (Panic, r\<lparr>receiveCounter := Inc ''all'' (receiveCounter r), runningQueue := p\<rparr>)
      | (Hang, p) \<Rightarrow> (Hang, r\<lparr>receiveCounter := Inc ''all'' (receiveCounter r), runningQueue := p\<rparr>))"

text \<open>One poll of a partition: what is sent to the output channel, if anything.\<close>

definition consumeQueue :: "'q queue_ops \<Rightarrow> int \<Rightarrow> ('q gatherer, SequenceEvent option) go" where
  "consumeQueue ops p r =
     (case pq_Dequeue ops p (runningQueue r) of
        (Ok se, q) \<Rightarrow> (Ok (Some se), r\<lparr>runningQueue := q, queueOutputCounter := Inc ''success'' (queueOutputCounter r)\<rparr>)
      | (Err x, q) \<Rightarrow>
          if x = ErrEmpty then (Ok None, r\<lparr>runningQueue := q\<rparr>)
          else (Ok None, r\<lparr>runningQueue := q, queueOutputCounter := Inc ''error'' (queueOutputCounter r)\<rparr>)
      | (Panic, q) \<Rightarrow> (Panic, r\<lparr>runningQueue := q\<rparr>)
      | (Hang, q) \<Rightarrow> (Hang, r\<lparr>runningQueue := q\<rparr>))"

definition gatherer_Shutdown :: "'q queue_ops \<Rightarrow> ('q gatherer, unit) go" where
  "gatherer_Shutdown ops r =
     (case pq_Close ops (runningQueue r) of
        (Panic, p) \<Rightarrow> (Panic, r\<lparr>runningQueue := p\<rparr>)
      | (Hang, p) \<Rightarrow> (Hang, r\<lparr>runningQueue := p\<rparr>)
      | (_, p) \<Rightarrow> (Ok (), r\<lparr>runningQueue := p\<rparr>))"

definition ReceiverGatherer_Ack :: "'q queue_ops \<Rightarrow> Offset \<Rightarrow> ('q gatherer, unit) go" where
  "ReceiverGatherer_Ack ops lastOffset r =
     (case pq_Ack ops lastOffset (runningQueue r) of (x, p) \<Rightarrow> (x, r\<lparr>runningQueue := p\<rparr>))"

section \<open>The processor\<close>

type_synonym filter_fn = "OutputEventContext \<Rightarrow> OutputEventContext"

definition processEvent :: "filter_fn list \<Rightarrow> SequenceEvent \<Rightarrow> OutputEventContext" where
  "processEvent runningFilters e =
     fold (\<lambda>f c. f c) runningFilters (Put \<lparr>Context = [], ctx_Offset = Some (se_Offset e)\<rparr> (se_Event e))"

lemma processEvent_none:
  "processEvent [] e = \<lparr>Context = [(Name (se_Event e), se_Event e)], ctx_Offset = Some (se_Offset e)\<rparr>"
  by (simp add: processEvent_def Put_def)

section \<open>Accounting\<close>

text \<open>Every event from the receiver is counted, and every refused one is counted as abandoned.\<close>

lemma receive_event_counts:
  assumes "receive_event ops now e r = (Ok u, r')"
  shows "receiveCounter r' ''all'' = receiveCounter r ''all'' + 1"
    and "receiveCounter r' ''abandoned'' = receiveCounter r ''abandoned'' +
      (if is_Ok (fst (pq_Enqueue ops e (runningQueue r))) then 0 else 1)"
    and "runningQueue r' = snd (pq_Enqueue ops e (runningQueue r))"
  using assms
  by (auto simp: receive_event_def recordEnqueueError_def Let_def Inc_def split: prod.splits outcome.splits if_splits)

text \<open>No refused event is missing from the errors that are logged or waiting to be logged.\<close>

definition error_sum :: "'q gatherer \<Rightarrow> int" where
  "error_sum r = sum_list (map snd (errorLog r)) + sum_list (map snd (enqueueErrorCounter r))"

lemma sum_count_error:
  "distinct (map fst m) \<Longrightarrow> sum_list (map snd (count_error msg m)) = sum_list (map snd m) + 1"
proof -
  have "sum_list (map snd (AList.update msg v m)) = sum_list (map snd m) + v - (case map_of m msg of None \<Rightarrow> 0 | Some n \<Rightarrow> n)"
    if "distinct (map fst m)" for v :: int
    using that by (induction m) (auto split: option.splits)
  then show "distinct (map fst m) \<Longrightarrow> ?thesis" by (simp add: count_error_def)
qed

lemma recordEnqueueError_sum:
  assumes "distinct (map fst (enqueueErrorCounter r))"
  shows "error_sum (recordEnqueueError now err r) = error_sum r + 1"
    and "distinct (map fst (enqueueErrorCounter (recordEnqueueError now err r)))"
  using assms sum_count_error [OF assms]
  by (simp_all add: recordEnqueueError_def Let_def error_sum_def count_error_def distinct_update)

text \<open>A sequence of events from the receiver, each with the time of its arrival.\<close>

fun receive_all :: "'q queue_ops \<Rightarrow> (int \<times> sniff_data) list \<Rightarrow> ('q gatherer, unit) go" where
  "receive_all ops [] r = (Ok (), r)"
| "receive_all ops ((now, e) # evs) r = go_bind (receive_event ops now e) (\<lambda>_. receive_all ops evs) r"

lemma receive_event_sum:
  assumes "receive_event ops now e r = (Ok u, r')" and d: "distinct (map fst (enqueueErrorCounter r))"
  shows "error_sum r' - error_sum r = receiveCounter r' ''abandoned'' - receiveCounter r ''abandoned''"
    and "distinct (map fst (enqueueErrorCounter r'))"
proof -
  let ?r = "\<lambda>p. r\<lparr>receiveCounter := Inc ''all'' (receiveCounter r), runningQueue := p\<rparr>"
  obtain x p where enq: "pq_Enqueue ops e (runningQueue r) = (x, p)" by fastforce
  have same: "error_sum (?r p) = error_sum r" by (simp add: error_sum_def)
  note rec = recordEnqueueError_sum [of "?r p", simplified same]
  have "error_sum r' - error_sum r = receiveCounter r' ''abandoned'' - receiveCounter r ''abandoned'' \<and>
    distinct (map fst (enqueueErrorCounter r'))"
  proof (cases x)
    case (Ok y)
    then have "r' = ?r p" using assms enq by (simp add: receive_event_def)
    with same d show ?thesis by (simp add: Inc_def)
  next
    case (Err y)
    then have r': "r' = recordEnqueueError now y (?r p)" using assms enq by (simp add: receive_event_def)
    have "receiveCounter r' ''abandoned'' = receiveCounter r ''abandoned'' + 1"
      using receive_event_counts(2) [OF assms(1)] enq Err by simp
    with rec [of now y] d r' show ?thesis by simp
  qed (use assms enq in \<open>simp_all add: receive_event_def\<close>)
  then show "error_sum r' - error_sum r = receiveCounter r' ''abandoned'' - receiveCounter r ''abandoned''"
    and "distinct (map fst (enqueueErrorCounter r'))" by blast+
qed

lemma receive_all_counts:
  assumes "receive_all ops evs r = (Ok u, r')" and "distinct (map fst (enqueueErrorCounter r))"
  shows "receiveCounter r' ''all'' = receiveCounter r ''all'' + int (length evs) \<and>
    error_sum r' - error_sum r = receiveCounter r' ''abandoned'' - receiveCounter r ''abandoned'' \<and>
    receiveCounter r ''abandoned'' \<le> receiveCounter r' ''abandoned'' \<and>
    receiveCounter r' ''abandoned'' - receiveCounter r ''abandoned'' \<le> int (length evs)"
  using assms
proof (induction evs arbitrary: r)
  case (Cons a evs)
  obtain now e where a: "a = (now, e)" by fastforce
  from Cons.prems(1) a obtain r1 where r1: "receive_event ops now e r = (Ok (), r1)" and rest: "receive_all ops evs r1 = (Ok u, r')"
    by (auto elim: go_bind_OkE)
  note s = receive_event_sum [OF r1 Cons.prems(2)] and c = receive_event_counts(1,2) [OF r1]
  from Cons.IH [OF rest s(2)] s(1) c show ?case by (auto split: if_splits)
qed simp

end
