(* ===== verification/Batch_Buffer.thy ===== *)
theory Batch_Buffer
  imports Event
begin

text \<open>
  \<open>internal/satellite/module/buffer\<close>: the batch buffer of the sender (\<open>buffer.go\<close>) and the
  limiter of the streaming receivers (\<open>limitor.go\<close>).
\<close>

section \<open>BatchBuffer\<close>

record BatchBuffer =
  buf :: "OutputEventContext option list"
  first :: "Offset option"
  last_offset :: "Offset option"
  bsize :: int
  bcap :: int

definition NewBatchBuffer :: "int \<Rightarrow> BatchBuffer outcome" where
  "NewBatchBuffer capacity =
     (if capacity < 0 then Panic
      else Ok \<lparr>buf = replicate (nat capacity) None, first = None, last_offset = None, bsize = 0, bcap = capacity\<rparr>)"

definition Buf :: "BatchBuffer \<Rightarrow> OutputEventContext option list" where "Buf b = buf b"
definition First :: "BatchBuffer \<Rightarrow> Offset option" where "First b = first b"
definition Last :: "BatchBuffer \<Rightarrow> Offset option" where "Last b = last_offset b"
definition Len :: "BatchBuffer \<Rightarrow> int" where "Len b = bsize b"

definition Add :: "BatchBuffer \<Rightarrow> OutputEventContext \<Rightarrow> BatchBuffer outcome" where
  "Add b data =
     (if bsize b = bcap b then Ok b
      else if ctx_Offset data = None then Ok b
      else if \<not> (0 \<le> bsize b \<and> bsize b < int (length (buf b))) then Panic
      else let b1 = (if bsize b = 0 then b\<lparr>first := ctx_Offset data\<rparr> else b)
           in Ok (b1\<lparr>last_offset := ctx_Offset data, buf := (buf b1)[nat (bsize b1) := Some data],
                     bsize := bsize b1 + 1\<rparr>))"

text \<open>The buffer stands for the list of its contexts.\<close>

definition buf_holds :: "BatchBuffer \<Rightarrow> OutputEventContext list \<Rightarrow> bool" where
  "buf_holds b cs \<longleftrightarrow>
     bsize b = int (length cs) \<and> 0 \<le> bcap b \<and> length (buf b) = nat (bcap b) \<and> int (length cs) \<le> bcap b \<and>
     take (length cs) (buf b) = map Some cs \<and> list_all (\<lambda>c. ctx_Offset c \<noteq> None) cs \<and>
     (cs \<noteq> [] \<longrightarrow> first b = ctx_Offset (hd cs) \<and> last_offset b = ctx_Offset (last cs))"

lemma NewBatchBuffer_holds:
  "0 \<le> n \<Longrightarrow> \<exists>b. NewBatchBuffer n = Ok b \<and> buf_holds b [] \<and> bcap b = n"
  by (simp add: NewBatchBuffer_def buf_holds_def)

lemma take_Suc_update: "n < length xs \<Longrightarrow> take (Suc n) (xs[n := y]) = take n xs @ [y]"
  by (simp add: take_Suc_conv_app_nth)

lemma Add_holds:
  assumes h: "buf_holds b cs" and room: "int (length cs) < bcap b" and off: "ctx_Offset c \<noteq> None"
  shows "\<exists>b'. Add b c = Ok b' \<and> buf_holds b' (cs @ [c]) \<and> bcap b' = bcap b"
proof -
  have n: "bsize b = int (length cs)" "length cs < length (buf b)" using h room by (auto simp: buf_holds_def)
  have t: "take (Suc (length cs)) ((buf b)[length cs := Some c]) = map Some (cs @ [c])"
    using h n(2) by (simp add: take_Suc_update buf_holds_def)
  show ?thesis
    using h n room off t by (cases cs) (auto simp: Add_def Let_def buf_holds_def nat_add_distrib)
qed

text \<open>A full buffer and a context without offset leave the buffer as it is.\<close>

lemma Add_ignored:
  "buf_holds b cs \<Longrightarrow> int (length cs) = bcap b \<or> ctx_Offset c = None \<Longrightarrow> Add b c = Ok b"
  by (auto simp: Add_def buf_holds_def)

section \<open>Limiter\<close>

record LimiterConfig =
  FlushTime :: int
  LimitCount :: int

text \<open>What wakes up the goroutine of \<open>Start\<close>.\<close>

datatype limiter_event = LTimer | LFlush | LStop | LDone

text \<open>
  The loop of \<open>Start\<close> over the events it selects; the result says whether the goroutine is still
  running, and the state after the calls of \<open>flush\<close>.
\<close>

fun limiter_loop :: "('s \<Rightarrow> 's) \<Rightarrow> limiter_event list \<Rightarrow> 's \<Rightarrow> bool \<times> 's" where
  "limiter_loop flush [] s = (True, s)"
| "limiter_loop flush (LTimer # es) s = limiter_loop flush es (flush s)"
| "limiter_loop flush (LFlush # es) s = limiter_loop flush es (flush s)"
| "limiter_loop flush (LStop # es) s = (False, flush s)"
| "limiter_loop flush (LDone # es) s = (False, flush s)"

text \<open>
  \<open>Check\<close> and \<open>Stop\<close> send on unbuffered channels: the running goroutine receives at once; when
  it has returned, nobody receives.
\<close>

definition limiter_Check :: "LimiterConfig \<Rightarrow> ('s \<Rightarrow> int) \<Rightarrow> ('s \<Rightarrow> 's) \<Rightarrow> bool \<Rightarrow> 's \<Rightarrow> unit outcome \<times> 's" where
  "limiter_Check cfg checker flush running s =
     (if checker s \<ge> LimitCount cfg
      then if running then (Ok (), snd (limiter_loop flush [LFlush] s)) else (Hang, s)
      else (Ok (), s))"

definition limiter_Stop :: "('s \<Rightarrow> 's) \<Rightarrow> bool \<Rightarrow> 's \<Rightarrow> unit outcome \<times> 's" where
  "limiter_Stop flush running s = (if running then (Ok (), snd (limiter_loop flush [LStop] s)) else (Hang, s))"

text \<open>Every event is one flush, up to and including the one that ends the goroutine.\<close>

lemma limiter_loop_flushes:
  "limiter_loop flush es s =
     (let k = length (takeWhile (\<lambda>e. e = LTimer \<or> e = LFlush) es)
      in if k = length es then (True, (flush ^^ k) s) else (False, (flush ^^ Suc k) s))"
  by (induction flush es s rule: limiter_loop.induct) (simp_all add: Let_def funpow_swap1)

end
