(* ===== verification/Fallbacker.thy ===== *)
theory Fallbacker
  imports Event
begin

text \<open>
  \<open>plugins/fallbacker\<close>: what happens to a batch that could not be forwarded. A forward function
  acts on the outside world, the state \<open>'w\<close>. The timer fallbacker sleeps between the attempts;
  its model also returns the list of the sleeping times.
\<close>

type_synonym 'w ForwardFunc = "BatchEvents \<Rightarrow> ('w, unit) go"

record timer_Fallbacker =
  MaxAttempts :: int
  ExponentialBackoff :: int
  MaxBackoff :: int

text \<open>The result of a fallback: whether it succeeded, and the sleeping times.\<close>

fun fallback_loop :: "nat \<Rightarrow> timer_Fallbacker \<Rightarrow> int \<Rightarrow> BatchEvents \<Rightarrow> 'w ForwardFunc \<Rightarrow> ('w, bool \<times> int list) go" where
  "fallback_loop 0 t currentLatency batch forward w = (Ok (False, []), w)"
| "fallback_loop (Suc n) t currentLatency batch forward w =
     (case forward batch w of
        (Ok _, w') \<Rightarrow> (Ok (True, [currentLatency]), w')
      | (Err _, w') \<Rightarrow>
          go_bind (fallback_loop n t
              (if currentLatency * 2 > MaxBackoff t then MaxBackoff t else currentLatency * 2) batch forward)
            (\<lambda>(ok, sleeps). go_return (ok, currentLatency # sleeps)) w'
      | (Panic, w') \<Rightarrow> (Panic, w')
      | (Hang, w') \<Rightarrow> (Hang, w'))"

definition timer_FallBack :: "timer_Fallbacker \<Rightarrow> BatchEvents \<Rightarrow> 'w ForwardFunc \<Rightarrow> ('w, bool \<times> int list) go" where
  "timer_FallBack t = fallback_loop (nat (MaxAttempts t - 1)) t (ExponentialBackoff t)"

definition none_FallBack :: "BatchEvents \<Rightarrow> 'w ForwardFunc \<Rightarrow> ('w, bool \<times> int list) go" where
  "none_FallBack batch forward w = (Ok (True, []), w)"

section \<open>Attempts and sleeping times\<close>

text \<open>A forward function that returns: every outcome is a value or an error.\<close>

definition returns :: "'w ForwardFunc \<Rightarrow> bool" where
  "returns forward \<longleftrightarrow> (\<forall>b w. fst (forward b w) \<noteq> Panic \<and> fst (forward b w) \<noteq> Hang)"

text \<open>The outcomes of \<open>n\<close> attempts in a row, up to the first success.\<close>

fun attempts :: "nat \<Rightarrow> 'w ForwardFunc \<Rightarrow> BatchEvents \<Rightarrow> 'w \<Rightarrow> bool list \<times> 'w" where
  "attempts 0 forward batch w = ([], w)"
| "attempts (Suc n) forward batch w =
     (case forward batch w of
        (Ok _, w') \<Rightarrow> ([True], w')
      | (_, w') \<Rightarrow> apfst (Cons False) (attempts n forward batch w'))"

text \<open>The sleeping times of a given number of attempts.\<close>

fun backoffs :: "timer_Fallbacker \<Rightarrow> int \<Rightarrow> nat \<Rightarrow> int list" where
  "backoffs t latency 0 = []"
| "backoffs t latency (Suc n) = latency # backoffs t (min (latency * 2) (MaxBackoff t)) n"

lemma fallback_loop_attempts:
  "returns forward \<Longrightarrow>
   fallback_loop n t latency batch forward w =
     (case attempts n forward batch w of (rs, w') \<Rightarrow> (Ok (True \<in> set rs, backoffs t latency (length rs)), w'))"
proof (induction n arbitrary: latency w)
  case (Suc n)
  obtain r w1 where f: "forward batch w = (r, w1)" by fastforce
  have "r \<noteq> Panic" "r \<noteq> Hang" using Suc.prems f unfolding returns_def by (metis fst_conv)+
  then show ?case
    using Suc f by (cases r) (auto simp: go_bind_def min_def split: prod.splits)
qed simp

lemma attempts_length: "length (fst (attempts n forward batch w)) \<le> n"
  by (induction n arbitrary: w) (auto split: prod.splits outcome.splits)

lemma attempts_last:
  "list_all (\<lambda>r. \<not> r) (butlast (fst (attempts n forward batch w))) \<and>
   (True \<notin> set (fst (attempts n forward batch w)) \<longrightarrow> length (fst (attempts n forward batch w)) = n)"
  by (induction n arbitrary: w) (auto split: prod.splits outcome.splits)

lemma backoffs_nth:
  assumes "0 < b" and "b \<le> MaxBackoff t" and "k < n"
  shows "backoffs t b n ! k = min (b * 2 ^ k) (MaxBackoff t)"
  using assms
proof (induction n arbitrary: b k)
  case (Suc n)
  note IH = Suc.IH and prems = Suc.prems
  show ?case
  proof (cases k)
    case 0
    with prems show ?thesis by simp
  next
    case (Suc j)
    have "min (min (b * 2) (MaxBackoff t) * 2 ^ j) (MaxBackoff t) = min (b * 2 ^ Suc j) (MaxBackoff t)"
    proof (cases "b * 2 \<le> MaxBackoff t")
      case False
      have "b * 2 \<le> b * 2 * 2 ^ j" "MaxBackoff t \<le> MaxBackoff t * 2 ^ j"
        using prems by (auto simp: mult_le_cancel_left1)
      with False show ?thesis by (simp add: min_def)
    qed (simp add: mult.assoc)
    with IH [of "min (b * 2) (MaxBackoff t)" j] prems \<open>k = Suc j\<close> show ?thesis by simp
  qed
qed simp

end
