(* ===== verification/Sender.thy ===== *)
theory Sender
  imports Batch_Buffer Fallbacker
begin

text \<open>
  \<open>internal/satellite/module/sender/sender.go\<close>. A sender has one batch buffer per partition, a
  list of forwarders, a fallbacker, and the flag \<open>blocking\<close> that follows the state of the client.
  The goroutines \<open>store\<close>, \<open>listen\<close> and \<open>flush\<close> are given by their reactions: to a tick of the flush
  timer, to an input, to a change of the client's status. \<open>flushChannel\<close> is unbuffered, so that
  \<open>flush\<close> consumes the batch that \<open>store\<close> sends. Forwarders, the fallbacker and the gatherer's
  \<open>Ack\<close> act on the world \<open>'w\<close>. The counter is keyed by pipe, status and event type;
  \<open>flushLog\<close> is the history of the sends on the flush channels.
\<close>

record 'w forwarder =
  fw_Prepare :: "('w, unit) go"
  ForwardType :: SniffType
  Forward :: "'w ForwardFunc"
  SupportedSyncInvoke :: bool
  SyncForward :: "sniff_data \<Rightarrow> ('w, sniff_data \<times> nat option) go"

datatype ClientStatus = Connected | Disconnect

type_synonym send_counter = "string \<times> string \<times> SniffType \<Rightarrow> int"

record 'w sender =
  s_PipeName :: string
  MaxBufferSize :: int
  MinFlushEvents :: int
  runningForwarders :: "'w forwarder list"
  runningFallbacker :: "BatchEvents \<Rightarrow> 'w ForwardFunc \<Rightarrow> ('w, bool \<times> int list) go"
  gatherer_Ack :: "Offset option \<Rightarrow> ('w, unit) go"
  buffers :: "BatchBuffer list"
  blocking :: bool
  inputsClosed :: bool
  shutdownDone :: bool
  sendCounter :: send_counter
  flushLog :: "(nat \<times> BatchBuffer) list"
  world :: 'w

type_synonym ('w, 'a) snd = "('w sender, 'a) go"

definition on_world :: "('w, 'a) go \<Rightarrow> ('w, 'a) snd" where
  "on_world call s = (case call (world s) of (r, w) \<Rightarrow> (r, s\<lparr>world := w\<rparr>))"

section \<open>Preparing\<close>

text \<open>One buffer per partition of the gatherer.\<close>

fun make_buffers :: "nat \<Rightarrow> int \<Rightarrow> BatchBuffer list outcome" where
  "make_buffers 0 n = Ok []"
| "make_buffers (Suc k) n =
     (case NewBatchBuffer n of
        Ok b \<Rightarrow> (case make_buffers k n of Ok bs \<Rightarrow> Ok (b # bs) | r \<Rightarrow> r)
      | Err e \<Rightarrow> Err e | Panic \<Rightarrow> Panic | Hang \<Rightarrow> Hang)"

fun prepare_forwarders :: "'w forwarder list \<Rightarrow> ('w, unit) snd" where
  "prepare_forwarders [] s = (Ok (), s)"
| "prepare_forwarders (f # fs) s = go_bind (on_world (fw_Prepare f)) (\<lambda>_. prepare_forwarders fs) s"

text \<open>\<open>register\<close> is the registration of the status listener at the client.\<close>

definition sender_Prepare :: "('w, unit) go \<Rightarrow> nat \<Rightarrow> ('w, unit) snd" where
  "sender_Prepare register partitionCount s =
     go_bind (on_world register) (\<lambda>_. go_bind (prepare_forwarders (runningForwarders s)) (\<lambda>_ s.
       case make_buffers partitionCount (MaxBufferSize s) of
         Ok bs \<Rightarrow> (Ok (), s\<lparr>buffers := bs, sendCounter := (\<lambda>_. 0)\<rparr>)
       | Err e \<Rightarrow> (Err e, s) | Panic \<Rightarrow> (Panic, s) | Hang \<Rightarrow> (Hang, s))) s"

section \<open>Consuming a batch\<close>

text \<open>\<open>events[e.Type] = append(events[e.Type], e)\<close> for the remote events of all contexts.\<close>

definition add_event :: "sniff_data \<Rightarrow> (SniffType \<times> BatchEvents) list \<Rightarrow> (SniffType \<times> BatchEvents) list" where
  "add_event e events =
     (if Remote e
      then AList.update (Type e) ((case map_of events (Type e) of None \<Rightarrow> [] | Some b \<Rightarrow> b) @ [e]) events
      else events)"

definition collect_events :: "OutputEventContext list \<Rightarrow> (SniffType \<times> BatchEvents) list" where
  "collect_events cs = fold (\<lambda>c. fold (\<lambda>p. add_event (snd p)) (Context c)) cs []"

text \<open>The body of the inner loop, for a matching type.\<close>

definition count :: "int \<Rightarrow> string \<Rightarrow> SniffType \<Rightarrow> ('w, unit) snd" where
  "count n status t s =
     (Ok (), s\<lparr>sendCounter := (sendCounter s)((s_PipeName s, status, t) := sendCounter s (s_PipeName s, status, t) + n)\<rparr>)"

definition forward_batch :: "'w forwarder \<Rightarrow> BatchEvents \<Rightarrow> ('w, unit) snd" where
  "forward_batch f batchEvents s =
     (case Forward f batchEvents (world s) of
        (Ok _, w) \<Rightarrow> count (int (length batchEvents)) ''success'' (ForwardType f) (s\<lparr>world := w\<rparr>)
      | (Err _, w) \<Rightarrow>
          go_bind (on_world (runningFallbacker s batchEvents (Forward f)))
            (\<lambda>(ok, sleeps). if ok then go_return () else count (int (length batchEvents)) ''failure'' (ForwardType f))
            (s\<lparr>world := w\<rparr>)
      | (Panic, w) \<Rightarrow> (Panic, s\<lparr>world := w\<rparr>)
      | (Hang, w) \<Rightarrow> (Hang, s\<lparr>world := w\<rparr>))"

fun forward_events :: "'w forwarder \<Rightarrow> (SniffType \<times> BatchEvents) list \<Rightarrow> ('w, unit) snd" where
  "forward_events f [] s = (Ok (), s)"
| "forward_events f ((t, batchEvents) # events) s =
     (if ForwardType f \<noteq> t then forward_events f events s
      else go_bind (forward_batch f batchEvents) (\<lambda>_. forward_events f events) s)"

fun forward_all :: "'w forwarder list \<Rightarrow> (SniffType \<times> BatchEvents) list \<Rightarrow> ('w, unit) snd" where
  "forward_all [] events s = (Ok (), s)"
| "forward_all (f # fs) events s = go_bind (forward_events f events) (\<lambda>_. forward_all fs events) s"

definition consume :: "BatchBuffer \<Rightarrow> ('w, unit) snd" where
  "consume batch s =
     (if Len batch = 0 then (Ok (), s)
      else case those (take (nat (Len batch)) (Buf batch)) of
        None \<Rightarrow> (Panic, s)
      | Some cs \<Rightarrow>
          go_bind (forward_all (runningForwarders s) (collect_events cs))
            (\<lambda>_ s. on_world (gatherer_Ack s (Last batch)) s) s)"

section \<open>Store, listen, shut down\<close>

text \<open>The batch goes to the flush channel and a new buffer takes its place.\<close>

definition flush_buffer :: "nat \<Rightarrow> ('w, unit) snd" where
  "flush_buffer p s =
     go_bind (consume (buffers s ! p)) (\<lambda>_ s.
       case NewBatchBuffer (MaxBufferSize s) of
         Ok b \<Rightarrow> (Ok (), s\<lparr>buffers := (buffers s)[p := b]\<rparr>)
       | Err e \<Rightarrow> (Err e, s) | Panic \<Rightarrow> (Panic, s) | Hang \<Rightarrow> (Hang, s))
     (s\<lparr>flushLog := flushLog s @ [(p, buffers s ! p)]\<rparr>)"

definition store_tick :: "nat \<Rightarrow> ('w, unit) snd" where
  "store_tick p s =
     (if blocking s then (Ok (), s)
      else if p \<ge> length (buffers s) then (Panic, s)
      else if Len (buffers s ! p) \<ge> MinFlushEvents s then flush_buffer p s else (Ok (), s))"

definition store_input :: "nat \<Rightarrow> OutputEventContext option \<Rightarrow> ('w, unit) snd" where
  "store_input p e s =
     (case e of None \<Rightarrow> (Ok (), s)
      | Some data \<Rightarrow>
          if p \<ge> length (buffers s) then (Panic, s)
          else case Add (buffers s ! p) data of
            Ok b \<Rightarrow>
              let s1 = s\<lparr>buffers := (buffers s)[p := b]\<rparr> in
              if Len b = MaxBufferSize s then flush_buffer p s1 else (Ok (), s1)
          | Err x \<Rightarrow> (Err x, s) | Panic \<Rightarrow> (Panic, s) | Hang \<Rightarrow> (Hang, s))"

text \<open>A send to the input channel of a partition: it is received by \<open>store\<close>; a closed channel panics.\<close>

definition send_input :: "nat \<Rightarrow> OutputEventContext \<Rightarrow> ('w, unit) snd" where
  "send_input p c s = (if inputsClosed s then (Panic, s) else store_input p (Some c) s)"

definition listen_status :: "ClientStatus \<Rightarrow> ('w, unit) snd" where
  "listen_status status s =
     (case status of Connected \<Rightarrow> (Ok (), s\<lparr>blocking := False\<rparr>) | Disconnect \<Rightarrow> (Ok (), s\<lparr>blocking := True\<rparr>))"

fun consume_all :: "BatchBuffer list \<Rightarrow> ('w, unit) snd" where
  "consume_all [] s = (Ok (), s)"
| "consume_all (b # bs) s = go_bind (consume b) (\<lambda>_. consume_all bs) s"

text \<open>
  The goroutines that \<open>shutdown0\<close> starts, one for each buffer. One that does not return does not keep
  the others from running; the result tells whether all of them have returned.
\<close>

fun consume_each :: "BatchBuffer list \<Rightarrow> ('w, bool) snd" where
  "consume_each [] s = (Ok True, s)"
| "consume_each (b # bs) s =
     (case consume b s of
        (Ok _, s) \<Rightarrow> consume_each bs s
      | (Err e, s) \<Rightarrow> (Err e, s)
      | (Panic, s) \<Rightarrow> (Panic, s)
      | (Hang, s) \<Rightarrow> go_bind (consume_each bs) (\<lambda>_. go_return False) s)"

text \<open>
  \<open>shutdown0\<close>: the input channels are closed and every buffer is consumed by a goroutine of its own;
  when they have not all returned within the shutdown time (they take longer, \<open>late\<close>, or one never
  returns), every buffer is consumed once more, one after the other. \<open>Shutdown\<close> does this once.
\<close>

definition sender_Shutdown :: "bool \<Rightarrow> ('w, unit) snd" where
  "sender_Shutdown late s =
     (if shutdownDone s then (Ok (), s)
      else go_bind (consume_each (buffers s))
             (\<lambda>finished s. if late \<or> \<not> finished then consume_all (buffers s) s else (Ok (), s))
             (s\<lparr>shutdownDone := True, inputsClosed := True\<rparr>))"

text \<open>A synchronous call returns the answer and, for a two way call, the stream to the server.\<close>

definition sender_SyncInvoke :: "sniff_data \<Rightarrow> ('w, sniff_data \<times> nat option) snd" where
  "sender_SyncInvoke d s =
     (case filter SupportedSyncInvoke (runningForwarders s) of
        [] \<Rightarrow> (Err (Errorf ''could not found forwarder''), s)
      | [f] \<Rightarrow> on_world (SyncForward f d) s
      | _ \<Rightarrow> (Err (Errorf ''only support single forwarder''), s))"

section \<open>What is forwarded\<close>

text \<open>The remote events of one type, in the order of the contexts.\<close>

definition events_of :: "OutputEventContext list \<Rightarrow> SniffType \<Rightarrow> BatchEvents" where
  "events_of cs t = filter (\<lambda>e. Remote e \<and> Type e = t) (concat (map (\<lambda>c. map snd (Context c)) cs))"

lemma collect_flat: "collect_events cs = fold add_event (concat (map (\<lambda>c. map snd (Context c)) cs)) []"
proof -
  have "fold (\<lambda>c. fold (\<lambda>p. add_event (snd p)) (Context c)) cs acc
      = fold add_event (concat (map (\<lambda>c. map snd (Context c)) cs)) acc" for acc
    by (induction cs arbitrary: acc) (simp_all add: fold_map comp_def)
  then show ?thesis by (simp add: collect_events_def)
qed

definition batch_of :: "(SniffType \<times> BatchEvents) list \<Rightarrow> SniffType \<Rightarrow> BatchEvents" where
  "batch_of events t = (case map_of events t of None \<Rightarrow> [] | Some b \<Rightarrow> b)"

definition batches_wf :: "(SniffType \<times> BatchEvents) list \<Rightarrow> bool" where
  "batches_wf events \<longleftrightarrow> distinct (map fst events) \<and> list_all (\<lambda>p. snd p \<noteq> []) events"

lemma add_event_batch:
  "batch_of (add_event e events) t = (if Remote e \<and> Type e = t then batch_of events t @ [e] else batch_of events t)"
  by (simp add: batch_of_def add_event_def update_conv)

lemma update_values: "list_all (\<lambda>p. snd p \<noteq> []) xs \<Longrightarrow> v \<noteq> [] \<Longrightarrow> list_all (\<lambda>p. snd p \<noteq> []) (AList.update k v xs)"
  by (induction xs) auto

lemma add_event_wf: "batches_wf events \<Longrightarrow> batches_wf (add_event e events)"
  by (simp add: batches_wf_def add_event_def distinct_update update_values)

lemma fold_add_event:
  "batches_wf events \<Longrightarrow>
   batches_wf (fold add_event es events) \<and>
   batch_of (fold add_event es events) t = batch_of events t @ filter (\<lambda>e. Remote e \<and> Type e = t) es"
  by (induction es arbitrary: events) (auto simp: add_event_wf add_event_batch)

lemma collect_events_of:
  shows "batches_wf (collect_events cs)" and "batch_of (collect_events cs) t = events_of cs t"
  using fold_add_event [of "[]"] by (simp_all add: collect_flat events_of_def batches_wf_def batch_of_def)

text \<open>A forwarder gets all events of its type in one call, or is not called.\<close>

definition forward_own :: "'w forwarder \<Rightarrow> OutputEventContext list \<Rightarrow> ('w, unit) snd" where
  "forward_own f cs =
     (if events_of cs (ForwardType f) = [] then go_return () else forward_batch f (events_of cs (ForwardType f)))"

lemma go_bind_return: "go_bind m (\<lambda>_. go_return ()) s = (m s :: unit outcome \<times> 's)"
  by (auto simp: go_bind_def split: prod.splits outcome.splits)

lemma forward_events_other: "ForwardType f \<notin> set (map fst events) \<Longrightarrow> forward_events f events s = (Ok (), s)"
  by (induction events) auto

lemma forward_events_batch:
  "batches_wf events \<Longrightarrow> forward_events f events s =
     (if batch_of events (ForwardType f) = [] then (Ok (), s) else forward_batch f (batch_of events (ForwardType f)) s)"
proof (induction events)
  case (Cons p events)
  obtain t b where p: "p = (t, b)" by fastforce
  show ?case
  proof (cases "ForwardType f = t")
    case True
    with Cons.prems p have none: "forward_events f events u = (Ok (), u)" for u
      by (intro forward_events_other) (auto simp: batches_wf_def)
    have eq: "(\<lambda>_ :: unit. forward_events f events) = (\<lambda>_. go_return ())" using none by (auto simp: fun_eq_iff)
    have "go_bind (forward_batch f b) (\<lambda>_. forward_events f events) s = forward_batch f b s"
      unfolding eq by (rule go_bind_return)
    with True p Cons.prems show ?thesis by (simp add: batch_of_def batches_wf_def)
  qed (use Cons p in \<open>auto simp: batches_wf_def batch_of_def\<close>)
qed (simp add: batch_of_def)

lemma forward_events_own: "forward_events f (collect_events cs) s = forward_own f cs s"
  unfolding forward_events_batch [OF collect_events_of(1)] collect_events_of(2) forward_own_def by simp

fun forward_each :: "'w forwarder list \<Rightarrow> OutputEventContext list \<Rightarrow> ('w, unit) snd" where
  "forward_each [] cs s = (Ok (), s)"
| "forward_each (f # fs) cs s = go_bind (forward_own f cs) (\<lambda>_. forward_each fs cs) s"

lemma forward_all_each: "forward_all fs (collect_events cs) s = forward_each fs cs s"
proof (induction fs arbitrary: s)
  case (Cons f fs)
  have "forward_events f (collect_events cs) = forward_own f cs" by (rule ext) (rule forward_events_own)
  moreover have "forward_all fs (collect_events cs) = forward_each fs cs" by (rule ext) (rule Cons.IH)
  ultimately show ?case by simp
qed simp

lemma those_map_Some: "those (map Some xs) = Some xs"
  by (induction xs) simp_all

lemma consume_run:
  assumes "buf_holds b cs"
  shows "consume b s = (if cs = [] then (Ok (), s)
    else go_bind (forward_each (runningForwarders s) cs) (\<lambda>_ s. on_world (gatherer_Ack s (ctx_Offset (last cs))) s) s)"
proof (cases "cs = []")
  case False
  have "forward_all (runningForwarders s) (collect_events cs) = forward_each (runningForwarders s) cs"
    by (rule ext) (rule forward_all_each)
  with False assms show ?thesis
    by (simp add: consume_def Len_def Buf_def Last_def buf_holds_def those_map_Some)
qed (use assms in \<open>simp add: consume_def Len_def buf_holds_def\<close>)

section \<open>What is stored\<close>

text \<open>Everything but the world and the counter.\<close>

definition core :: "'w sender \<Rightarrow> 'w sender" where
  "core s = s\<lparr>world := undefined, sendCounter := (\<lambda>_. 0)\<rparr>"

lemma core_fields:
  assumes "core s' = core s"
  shows "buffers s' = buffers s" and "MaxBufferSize s' = MaxBufferSize s" and "MinFlushEvents s' = MinFlushEvents s"
    and "blocking s' = blocking s" and "flushLog s' = flushLog s" and "runningForwarders s' = runningForwarders s"
  using arg_cong [OF assms, of buffers] arg_cong [OF assms, of MaxBufferSize] arg_cong [OF assms, of MinFlushEvents]
    arg_cong [OF assms, of blocking] arg_cong [OF assms, of flushLog] arg_cong [OF assms, of runningForwarders]
  by (simp_all add: core_def)

lemma core_world [simp]: "core (s\<lparr>world := w\<rparr>) = core s"
  by (simp add: core_def)

lemma on_world_core: "on_world call s = (r, s') \<Longrightarrow> core s' = core s"
  by (auto simp: on_world_def split: prod.splits)

lemma count_core: "count n st t s = (r, s') \<Longrightarrow> core s' = core s"
  by (auto simp: count_def core_def)

lemma forward_batch_core:
  assumes "forward_batch f b s = (r, s')" shows "core s' = core s"
proof -
  obtain x w where f: "Forward f b (world s) = (x, w)" by fastforce
  have tail: "core s'' = core (s\<lparr>world := w\<rparr>)"
    if "go_bind (on_world (runningFallbacker s b (Forward f)))
            (\<lambda>(ok, sleeps). if ok then go_return () else count (int (length b)) ''failure'' (ForwardType f))
            (s\<lparr>world := w\<rparr>) = (r, s'')" for s''
    by (rule go_bind_inv [where I = "\<lambda>u. core u = core (s\<lparr>world := w\<rparr>)", OF _ _ that])
      (auto dest!: on_world_core count_core split: prod.splits if_splits)
  show ?thesis
    using assms f tail count_core [of _ _ _ "s\<lparr>world := w\<rparr>"] by (cases x) (auto simp: forward_batch_def)
qed

lemma forward_events_core: "forward_events f es s = (r, s') \<Longrightarrow> core s' = core s"
proof (induction es arbitrary: s r s')
  case (Cons p es)
  obtain t b where p: "p = (t, b)" by fastforce
  show ?case
  proof (cases "ForwardType f = t")
    case True
    with Cons.prems p have run: "go_bind (forward_batch f b) (\<lambda>_. forward_events f es) s = (r, s')" by simp
    show ?thesis
      by (rule go_bind_inv [where I = "\<lambda>u. core u = core s", OF _ _ run])
        (auto dest!: forward_batch_core Cons.IH)
  qed (use Cons p in auto)
qed simp

lemma forward_all_core: "forward_all fs es s = (r, s') \<Longrightarrow> core s' = core s"
proof (induction fs arbitrary: s r s')
  case (Cons f fs)
  then have run: "go_bind (forward_events f es) (\<lambda>_. forward_all fs es) s = (r, s')" by simp
  show ?case
    by (rule go_bind_inv [where I = "\<lambda>u. core u = core s", OF _ _ run])
      (auto dest!: forward_events_core Cons.IH)
qed simp

lemma consume_core:
  assumes "consume b s = (r, s')" shows "core s' = core s"
proof (cases "Len b = 0 \<or> those (take (nat (Len b)) (Buf b)) = None")
  case True
  with assms show ?thesis by (auto simp: consume_def split: if_splits)
next
  case False
  then obtain cs where "go_bind (forward_all (runningForwarders s) (collect_events cs))
      (\<lambda>_ s. on_world (gatherer_Ack s (Last b)) s) s = (r, s')"
    using assms by (auto simp: consume_def)
  then show ?thesis
    by (rule go_bind_inv [where I = "\<lambda>u. core u = core s", rotated 2])
      (auto dest!: forward_all_core on_world_core)
qed

text \<open>The contexts in a buffer, and the contexts of the batches of one partition in the history.\<close>

definition contents :: "BatchBuffer \<Rightarrow> OutputEventContext list" where
  "contents b = map the (take (nat (bsize b)) (buf b))"

definition flushed :: "'w sender \<Rightarrow> nat \<Rightarrow> OutputEventContext list" where
  "flushed s p = concat (map (\<lambda>l. contents (snd l)) (filter (\<lambda>l. fst l = p) (flushLog s)))"

lemma contents_holds: "buf_holds b cs \<Longrightarrow> contents b = cs"
  by (simp add: contents_def buf_holds_def comp_def)

text \<open>No buffer is full, and nothing that came in is missing.\<close>

definition store_inv :: "'w sender \<Rightarrow> (nat \<Rightarrow> OutputEventContext list) \<Rightarrow> bool" where
  "store_inv s ins \<longleftrightarrow> 0 < MaxBufferSize s \<and>
     (\<forall>p < length (buffers s). \<exists>cs. buf_holds (buffers s ! p) cs \<and> bcap (buffers s ! p) = MaxBufferSize s \<and>
        int (length cs) < MaxBufferSize s \<and> flushed s p @ cs = ins p)"

lemma flush_buffer_inv:
  assumes max: "0 < MaxBufferSize s" and p: "p < length (buffers s)" and h: "buf_holds (buffers s ! p) cs"
    and cs: "flushed s p @ cs = ins p"
    and others: "\<And>q. q < length (buffers s) \<Longrightarrow> q \<noteq> p \<Longrightarrow> \<exists>cs. buf_holds (buffers s ! q) cs \<and>
        bcap (buffers s ! q) = MaxBufferSize s \<and> int (length cs) < MaxBufferSize s \<and> flushed s q @ cs = ins q"
    and run: "flush_buffer p s = (Ok u, s')"
  shows "store_inv s' ins"
proof -
  let ?s0 = "s\<lparr>flushLog := flushLog s @ [(p, buffers s ! p)]\<rparr>"
  from run obtain s1 b where c: "consume (buffers s ! p) ?s0 = (Ok (), s1)" and b: "NewBatchBuffer (MaxBufferSize s1) = Ok b"
    and s': "s' = s1\<lparr>buffers := (buffers s1)[p := b]\<rparr>"
    unfolding flush_buffer_def by (auto elim!: go_bind_OkE split: outcome.splits)
  note f = core_fields [OF consume_core [OF c]]
  have eq: "buffers s' = (buffers s)[p := b]" "MaxBufferSize s' = MaxBufferSize s"
    "flushLog s' = flushLog s @ [(p, buffers s ! p)]" using f by (simp_all add: s')
  have nb: "buf_holds b []" "bcap b = MaxBufferSize s" using b f(2) NewBatchBuffer_holds [of "MaxBufferSize s"] max by auto
  have fl: "flushed s' q = (if q = p then flushed s p @ cs else flushed s q)" for q
    by (simp add: flushed_def eq contents_holds [OF h])
  have "\<exists>cs'. buf_holds (buffers s' ! q) cs' \<and> bcap (buffers s' ! q) = MaxBufferSize s' \<and>
      int (length cs') < MaxBufferSize s' \<and> flushed s' q @ cs' = ins q" if "q < length (buffers s')" for q
  proof (cases "q = p")
    case True
    with p nb cs max fl eq show ?thesis by (intro exI [of _ "[]"]) simp
  next
    case False
    with that others [of q] fl eq show ?thesis by simp
  qed
  with max eq show ?thesis by (simp add: store_inv_def)
qed

lemma store_tick_inv:
  assumes inv: "store_inv s ins" and run: "store_tick p s = (Ok u, s')"
  shows "store_inv s' ins"
proof (cases "\<not> blocking s \<and> p < length (buffers s) \<and> Len (buffers s ! p) \<ge> MinFlushEvents s")
  case True
  then have f: "flush_buffer p s = (Ok u, s')" and p: "p < length (buffers s)"
    using run by (simp_all add: store_tick_def)
  from inv p obtain cs where "buf_holds (buffers s ! p) cs" "flushed s p @ cs = ins p" by (auto simp: store_inv_def)
  with inv p f show ?thesis by (intro flush_buffer_inv [of s p cs ins u]) (auto simp: store_inv_def)
qed (use inv run in \<open>auto simp: store_tick_def split: if_splits\<close>)

lemma store_input_inv:
  assumes inv: "store_inv s ins" and run: "store_input p (Some c) s = (Ok u, s')" and off: "ctx_Offset c \<noteq> None"
  shows "store_inv s' (ins(p := ins p @ [c]))"
proof -
  have p: "p < length (buffers s)" using run by (auto simp: store_input_def split: if_splits)
  from inv p obtain cs where h: "buf_holds (buffers s ! p) cs" "bcap (buffers s ! p) = MaxBufferSize s"
    "int (length cs) < MaxBufferSize s" and cs: "flushed s p @ cs = ins p" by (auto simp: store_inv_def)
  obtain b where b: "Add (buffers s ! p) c = Ok b" and hb: "buf_holds b (cs @ [c])" "bcap b = MaxBufferSize s"
    using Add_holds [OF h(1) _ off] h by auto
  let ?s1 = "s\<lparr>buffers := (buffers s)[p := b]\<rparr>" and ?ins = "ins(p := ins p @ [c])"
  have len: "Len b = int (length cs) + 1" using hb(1) by (simp add: Len_def buf_holds_def)
  have fl: "flushed ?s1 = flushed s" by (simp add: flushed_def fun_eq_iff)
  have others: "\<exists>cs. buf_holds (buffers ?s1 ! q) cs \<and> bcap (buffers ?s1 ! q) = MaxBufferSize s \<and>
      int (length cs) < MaxBufferSize s \<and> flushed s q @ cs = ?ins q" if "q < length (buffers s)" "q \<noteq> p" for q
    using inv that by (auto simp: store_inv_def)
  show ?thesis
  proof (cases "Len b = MaxBufferSize s")
    case True
    with run b p have f: "flush_buffer p ?s1 = (Ok u, s')" by (simp add: store_input_def Let_def)
    show ?thesis
      by (rule flush_buffer_inv [OF _ _ _ _ _ f]) (use inv p hb cs fl others in \<open>auto simp: store_inv_def\<close>)
  next
    case False
    with run b p have s': "s' = ?s1" by (simp add: store_input_def Let_def)
    have "\<exists>cs. buf_holds (buffers s' ! q) cs \<and> bcap (buffers s' ! q) = MaxBufferSize s' \<and>
      int (length cs) < MaxBufferSize s' \<and> flushed s' q @ cs = ?ins q" if "q < length (buffers s')" for q
    proof (cases "q = p")
      case True
      with p hb cs fl len False h(3) show ?thesis by (intro exI [of _ "cs @ [c]"]) (auto simp: s')
    qed (use others [of q] that fl in \<open>simp add: s'\<close>)
    with inv show ?thesis by (simp add: store_inv_def s')
  qed
qed

end
