(* ===== verification/Pipeline.thy ===== *)
theory Pipeline
  imports Gatherer Sender
begin

text \<open>
  The modules of one pipe put together: the gatherer fills the partitioned queue, polls it and
  hands each event to the processor, which hands a context to the sender's store routine. The
  channels between the modules are unbuffered, so a poll that finds an event is one step through
  all three. No plugin of the repository is a filter; the processor runs without filters here.
\<close>

record ('q, 'w) pipe =
  gath :: "'q gatherer"
  send :: "'w sender"

datatype pipe_event = PReceive sniff_data int | PMove nat | PTick nat | PStatus ClientStatus

definition pipe_move :: "'q queue_ops \<Rightarrow> nat \<Rightarrow> (('q, 'w) pipe, unit) go" where
  "pipe_move ops p x =
     (if blocking (send x) then (Ok (), x)
      else case consumeQueue ops (int p) (gath x) of
        (Ok None, g) \<Rightarrow> (Ok (), x\<lparr>gath := g\<rparr>)
      | (Ok (Some se), g) \<Rightarrow>
          (case send_input p (processEvent [] se) (send x) of (r, s) \<Rightarrow> (r, x\<lparr>gath := g, send := s\<rparr>))
      | (Err e, g) \<Rightarrow> (Err e, x\<lparr>gath := g\<rparr>)
      | (Panic, g) \<Rightarrow> (Panic, x\<lparr>gath := g\<rparr>)
      | (Hang, g) \<Rightarrow> (Hang, x\<lparr>gath := g\<rparr>))"

fun pipe_step :: "'q queue_ops \<Rightarrow> pipe_event \<Rightarrow> (('q, 'w) pipe, unit) go" where
  "pipe_step ops (PReceive e now) x =
     (case receive_event ops now e (gath x) of (r, g) \<Rightarrow> (r, x\<lparr>gath := g\<rparr>))"
| "pipe_step ops (PMove p) x = pipe_move ops p x"
| "pipe_step ops (PTick p) x = (case store_tick p (send x) of (r, s) \<Rightarrow> (r, x\<lparr>send := s\<rparr>))"
| "pipe_step ops (PStatus st) x = (case listen_status st (send x) of (r, s) \<Rightarrow> (r, x\<lparr>send := s\<rparr>))"

text \<open>Runs, with the events that the queue accepted.\<close>

definition accepted :: "'q queue_ops \<Rightarrow> pipe_event \<Rightarrow> ('q, 'w) pipe \<Rightarrow> sniff_data list" where
  "accepted ops ev x =
     (case ev of
        PReceive e now \<Rightarrow> if is_Ok (fst (pq_Enqueue ops e (runningQueue (gath x)))) then [e] else []
      | _ \<Rightarrow> [])"

inductive pipe_run :: "'q queue_ops \<Rightarrow> ('q, 'w) pipe \<Rightarrow> pipe_event list \<Rightarrow> sniff_data list \<Rightarrow> ('q, 'w) pipe \<Rightarrow> bool"
  for ops x0 where
  pipe_start: "pipe_run ops x0 [] [] x0"
| pipe_next: "pipe_run ops x0 evs acc x \<Longrightarrow> pipe_step ops ev x = (Ok (), x') \<Longrightarrow>
    pipe_run ops x0 (evs @ [ev]) (acc @ accepted ops ev x) x'"

inductive_cases pipe_runE: "pipe_run ops x0 evs acc x"

text \<open>The event in the context that the processor makes of it.\<close>

definition ctx_events :: "OutputEventContext \<Rightarrow> sniff_data list" where
  "ctx_events c = map snd (Context c)"

lemma ctx_events_process [simp]: "ctx_events (processEvent [] se) = [se_Event se]"
  by (simp add: ctx_events_def processEvent_none)

text \<open>
  The invariant: of every partition, the events that went on to the sender (flushed or in its
  buffer), followed by the events in the queue, are the events routed to it; and all routed
  events are the accepted ones.
\<close>

definition pipe_inv :: "(nat \<Rightarrow> 'q \<Rightarrow> sniff_data list \<Rightarrow> bool) \<Rightarrow> nat \<Rightarrow> ('q, 'w) pipe \<Rightarrow> sniff_data list \<Rightarrow> bool" where
  "pipe_inv pending n x acc \<longleftrightarrow>
     (\<exists>ess ins routed. pq_pending pending n (runningQueue (gath x)) ess \<and> store_inv (send x) ins \<and>
        length (buffers (send x)) = length ess \<and> length routed = length ess \<and> mset (concat routed) = mset acc \<and>
        (\<forall>p < length ess. concat (map ctx_events (ins p)) @ ess ! p = routed ! p))"

lemma mset_concat_snoc: "i < length xs \<Longrightarrow> mset (concat (xs[i := xs ! i @ [x]])) = add_mset x (mset (concat xs))"
  by (induction xs arbitrary: i) (auto split: nat.splits)

lemma flush_buffer_length:
  assumes "flush_buffer p s = (Ok u, s')" shows "length (buffers s') = length (buffers s)"
proof -
  from assms obtain s1 b where c: "consume (buffers s ! p) (s\<lparr>flushLog := flushLog s @ [(p, buffers s ! p)]\<rparr>) = (Ok (), s1)"
    and s': "s' = s1\<lparr>buffers := (buffers s1)[p := b]\<rparr>"
    unfolding flush_buffer_def by (auto elim!: go_bind_OkE split: outcome.splits)
  show ?thesis using core_fields(1) [OF consume_core [OF c]] by (simp add: s')
qed

lemma store_tick_length: "store_tick p s = (Ok u, s') \<Longrightarrow> length (buffers s') = length (buffers s)"
  by (auto simp: store_tick_def split: if_splits dest: flush_buffer_length)

lemma store_input_length: "store_input p e s = (Ok u, s') \<Longrightarrow> length (buffers s') = length (buffers s)"
  by (auto simp: store_input_def Let_def split: if_splits option.splits outcome.splits dest!: flush_buffer_length)

section \<open>A prepared pipe\<close>

lemma prepare_forwarders_core: "prepare_forwarders fs s = (r, s') \<Longrightarrow> core s' = core s"
proof (induction fs arbitrary: s r s')
  case (Cons f fs)
  then have run: "go_bind (on_world (fw_Prepare f)) (\<lambda>_. prepare_forwarders fs) s = (r, s')" by simp
  show ?case
    by (rule go_bind_inv [where I = "\<lambda>u. core u = core s", OF _ _ run]) (auto dest!: on_world_core Cons.IH)
qed simp

lemma make_buffers_holds:
  "0 < m \<Longrightarrow> make_buffers k m = Ok bs \<Longrightarrow> length bs = k \<and> (\<forall>b \<in> set bs. buf_holds b [] \<and> bcap b = m)"
  using NewBatchBuffer_holds [of m] by (induction k arbitrary: bs) (auto split: outcome.splits)

lemma sender_Prepare_inv:
  assumes run: "sender_Prepare register k s = (Ok u, s')" and max: "0 < MaxBufferSize s" and log: "flushLog s = []"
  shows "store_inv s' (\<lambda>_. [])" and "length (buffers s') = k"
proof -
  from run obtain s1 s2 bs where s1: "on_world register s = (Ok (), s1)"
    and s2: "prepare_forwarders (runningForwarders s) s1 = (Ok (), s2)"
    and bs: "make_buffers k (MaxBufferSize s2) = Ok bs" and s': "s' = s2\<lparr>buffers := bs, sendCounter := (\<lambda>_. 0)\<rparr>"
    unfolding sender_Prepare_def by (auto elim!: go_bind_OkE split: outcome.splits)
  have "core s2 = core s" using on_world_core [OF s1] prepare_forwarders_core [OF s2] by simp
  note f = core_fields [OF this]
  have b: "length bs = k" "\<forall>b \<in> set bs. buf_holds b [] \<and> bcap b = MaxBufferSize s"
    using make_buffers_holds [OF _ bs] max f(2) by auto
  then show "length (buffers s') = k" by (simp add: s')
  have "flushed s' p = []" for p using f(5) log by (simp add: s' flushed_def)
  with b max f(2) show "store_inv s' (\<lambda>_. [])" by (auto simp: store_inv_def s' intro!: exI [of _ "[]"])
qed

text \<open>What the sender got of one partition: the batches it flushed, then its buffer.\<close>

definition passed_on :: "'w sender \<Rightarrow> nat \<Rightarrow> sniff_data list" where
  "passed_on s p = concat (map ctx_events (flushed s p @ contents (buffers s ! p)))"

lemma store_inv_passed: "store_inv s ins \<Longrightarrow> p < length (buffers s) \<Longrightarrow> passed_on s p = concat (map ctx_events (ins p))"
  unfolding store_inv_def passed_on_def using contents_holds by metis

lemma pipe_inv_passed:
  assumes "pipe_inv pending n x acc"
  shows "\<exists>ess routed. pq_pending pending n (runningQueue (gath x)) ess \<and> length ess = length (buffers (send x)) \<and>
    length routed = length ess \<and> mset (concat routed) = mset acc \<and>
    (\<forall>p < length ess. passed_on (send x) p @ ess ! p = routed ! p)"
  using assms unfolding pipe_inv_def by (metis store_inv_passed)

text \<open>Runs as a function.\<close>

fun pipe_exec :: "'q queue_ops \<Rightarrow> pipe_event list \<Rightarrow> ('q, 'w) pipe \<Rightarrow> (sniff_data list \<times> ('q, 'w) pipe) option" where
  "pipe_exec ops [] x = Some ([], x)"
| "pipe_exec ops (ev # evs) x =
     (case pipe_step ops ev x of
        (Ok _, x') \<Rightarrow> map_option (apfst (append (accepted ops ev x))) (pipe_exec ops evs x')
      | _ \<Rightarrow> None)"

lemma pipe_exec_from:
  "pipe_run ops x0 evs0 acc0 x \<Longrightarrow> pipe_exec ops evs x = Some (acc, x') \<Longrightarrow> pipe_run ops x0 (evs0 @ evs) (acc0 @ acc) x'"
proof (induction evs arbitrary: evs0 acc0 acc x)
  case (Cons ev evs)
  then obtain x1 acc1 where s: "pipe_step ops ev x = (Ok (), x1)" and e: "pipe_exec ops evs x1 = Some (acc1, x')"
    and acc: "acc = accepted ops ev x @ acc1"
    by (auto split: prod.splits outcome.splits)
  from Cons.IH [OF pipe_next [OF Cons.prems(1) s] e] acc show ?case by simp
qed simp

lemma pipe_exec_run: "pipe_exec ops evs x = Some (acc, x') \<Longrightarrow> pipe_run ops x evs acc x'"
  using pipe_exec_from [OF pipe_start] by fastforce

context partitions
begin

lemma receive_inv:
  assumes inv: "pipe_inv pending (Suc n) x acc" and run: "pipe_step ops (PReceive e now) x = (Ok (), x')"
  shows "pipe_inv pending n x' (acc @ accepted ops (PReceive e now) x)"
proof -
  from inv obtain ess ins routed where p: "pq_pending pending (Suc n) (runningQueue (gath x)) ess"
    and st: "store_inv (send x) ins" and len: "length (buffers (send x)) = length ess" "length routed = length ess"
    and ms: "mset (concat routed) = mset acc" and eq: "\<forall>p < length ess. concat (map ctx_events (ins p)) @ ess ! p = routed ! p"
    by (auto simp: pipe_inv_def)
  obtain r q where enq: "pq_Enqueue ops e (runningQueue (gath x)) = (r, q)" by fastforce
  obtain g where g: "receive_event ops now e (gath x) = (Ok (), g)" and x': "x' = x\<lparr>gath := g\<rparr>"
    using run by (auto split: prod.splits)
  have q: "runningQueue g = q" using receive_event_counts(3) [OF g] enq by simp
  have r: "r \<noteq> Panic" "r \<noteq> Hang" using g enq by (auto simp: receive_event_def)
  show ?thesis
  proof (cases r)
    case (Ok u)
    then obtain i where i: "i < length ess" and pq: "pq_pending pending n q (ess[i := ess ! i @ [e]])"
      using pq_Enqueue_pending(1) [OF p enq] by blast
    have "mset (concat (routed[i := routed ! i @ [e]])) = mset (acc @ [e])"
      using mset_concat_snoc [of i routed e] i len ms by simp
    moreover have "accepted ops (PReceive e now) x = [e]" using enq Ok by (simp add: accepted_def)
    ultimately show ?thesis
      unfolding pipe_inv_def using pq st len eq i
      by (intro exI [of _ "ess[i := ess ! i @ [e]]"] exI [of _ ins] exI [of _ "routed[i := routed ! i @ [e]]"])
        (auto simp: x' q nth_list_update)
  next
    case (Err y)
    then have "pq_pending pending n q ess" using pq_Enqueue_pending(2) [OF p enq] by blast
    moreover have "accepted ops (PReceive e now) x = []" using enq Err by (simp add: accepted_def)
    ultimately show ?thesis
      unfolding pipe_inv_def using st len eq ms
      by (intro exI [of _ ess] exI [of _ ins] exI [of _ routed]) (simp add: x' q)
  qed (use r in auto)
qed

lemma move_inv:
  assumes inv: "pipe_inv pending (Suc n) x acc" and run: "pipe_move ops p x = (Ok (), x')"
  shows "pipe_inv pending n x' acc"
proof -
  from inv obtain ess ins routed where pq: "pq_pending pending (Suc n) (runningQueue (gath x)) ess"
    and st: "store_inv (send x) ins" and len: "length (buffers (send x)) = length ess" "length routed = length ess"
    and ms: "mset (concat routed) = mset acc" and eq: "\<forall>p < length ess. concat (map ctx_events (ins p)) @ ess ! p = routed ! p"
    by (auto simp: pipe_inv_def)
  obtain r q where deq: "pq_Dequeue ops (int p) (runningQueue (gath x)) = (r, q)" by fastforce
  note pd = pq_Dequeue_pending [OF pq deq]
  have idle: "pipe_inv pending n (x\<lparr>gath := g\<rparr>) acc" if "pq_pending pending n (runningQueue g) ess" for g
    unfolding pipe_inv_def using that st len ms eq by auto
  show ?thesis
  proof (cases "blocking (send x)")
    case True
    then have "x' = x\<lparr>gath := gath x\<rparr>" using run by (simp add: pipe_move_def)
    with idle [OF pq_pending_Suc [OF pq]] show ?thesis by metis
  next
    case False
    show ?thesis
    proof (cases r)
      case (Ok se)
      let ?g = "(gath x)\<lparr>runningQueue := q, queueOutputCounter := Inc ''success'' (queueOutputCounter (gath x))\<rparr>"
        and ?c = "processEvent [] se"
      obtain s where s: "store_input p (Some ?c) (send x) = (Ok (), s)" and x': "x' = x\<lparr>gath := ?g, send := s\<rparr>"
        using run False Ok deq by (auto simp: pipe_move_def consumeQueue_def send_input_def split: prod.splits if_splits)
      obtain es where p: "p < length ess" and es: "ess ! p = se_Event se # es" and pq': "pq_pending pending n q (ess[p := es])"
        using pd(1) [OF Ok] by auto
      have "store_inv s (ins(p := ins p @ [?c]))"
        by (rule store_input_inv [OF st s]) (simp add: processEvent_none)
      then show ?thesis
        unfolding pipe_inv_def using pq' len ms eq p es store_input_length [OF s]
        by (intro exI [of _ "ess[p := es]"] exI [of _ "ins(p := ins p @ [?c])"] exI [of _ routed])
          (auto simp: x' nth_list_update)
    next
      case (Err y)
      then obtain g where "x' = x\<lparr>gath := g\<rparr>" "runningQueue g = q"
        using run False deq by (auto simp: pipe_move_def consumeQueue_def split: if_splits)
      with idle [of g] pd(2) [OF Err] show ?thesis by simp
    qed (use run False deq in \<open>auto simp: pipe_move_def consumeQueue_def\<close>)
  qed
qed

lemma send_inv:
  assumes inv: "pipe_inv pending (Suc n) x acc" and len: "length (buffers s) = length (buffers (send x))"
    and keep: "\<And>ins. store_inv (send x) ins \<Longrightarrow> store_inv s ins"
  shows "pipe_inv pending n (x\<lparr>send := s\<rparr>) acc"
proof -
  from inv obtain ess ins routed where "pq_pending pending (Suc n) (runningQueue (gath x)) ess" "store_inv (send x) ins"
    "length (buffers (send x)) = length ess" "length routed = length ess" "mset (concat routed) = mset acc"
    "\<forall>p < length ess. concat (map ctx_events (ins p)) @ ess ! p = routed ! p"
    unfolding pipe_inv_def by blast
  then show ?thesis
    unfolding pipe_inv_def using pq_pending_Suc keep len
    by (intro exI [of _ ess] exI [of _ ins] exI [of _ routed]) simp
qed

lemma pipe_step_inv:
  assumes inv: "pipe_inv pending (Suc n) x acc" and run: "pipe_step ops ev x = (Ok (), x')"
  shows "pipe_inv pending n x' (acc @ accepted ops ev x)"
proof (cases ev)
  case (PReceive e now)
  with receive_inv [OF inv] run show ?thesis by simp
next
  case (PMove p)
  with move_inv [OF inv] run show ?thesis by (simp add: accepted_def)
next
  case (PTick p)
  then obtain s where s: "store_tick p (send x) = (Ok (), s)" and x': "x' = x\<lparr>send := s\<rparr>"
    using run by (auto split: prod.splits)
  have "pipe_inv pending n x' acc"
    unfolding x' by (rule send_inv [OF inv store_tick_length [OF s]]) (rule store_tick_inv [OF _ s])
  then show ?thesis by (simp add: PTick accepted_def)
next
  case (PStatus st)
  then have x': "x' = x\<lparr>send := (send x)\<lparr>blocking := (st = Disconnect)\<rparr>\<rparr>"
    using run by (cases st) (auto simp: listen_status_def)
  have "pipe_inv pending n x' acc"
    unfolding x' by (rule send_inv [OF inv]) (simp_all add: store_inv_def flushed_def)
  then show ?thesis by (simp add: PStatus accepted_def)
qed

lemma pipe_run_inv:
  "pipe_run ops x0 evs acc x \<Longrightarrow> pipe_inv pending (length evs + n) x0 [] \<Longrightarrow> pipe_inv pending n x acc"
proof (induction arbitrary: n rule: pipe_run.induct)
  case (pipe_next evs acc x ev x')
  from pipe_next.IH [of "Suc n"] pipe_next.prems have "pipe_inv pending (Suc n) x acc" by simp
  with pipe_step_inv [OF this pipe_next.hyps(2)] show ?case by simp
qed simp

lemma pipe_conserves:
  assumes q: "pq_pending pending (length evs + n) (runningQueue (gath x0)) (replicate k [])"
    and s: "sender_Prepare register k s0 = (Ok (), send x0)" and s0: "0 < MaxBufferSize s0" "flushLog s0 = []"
    and run: "pipe_run ops x0 evs acc x"
  shows "\<exists>ess routed. pq_pending pending n (runningQueue (gath x)) ess \<and> length ess = length (buffers (send x)) \<and>
    length routed = length ess \<and> mset (concat routed) = mset acc \<and>
    (\<forall>p < length ess. passed_on (send x) p @ ess ! p = routed ! p)"
proof -
  note prep = sender_Prepare_inv [OF s s0]
  have "pipe_inv pending (length evs + n) x0 []"
    unfolding pipe_inv_def using q prep
    by (intro exI [of _ "replicate k []"] exI [of _ "\<lambda>_. []"]) (simp add: concat_replicate_trivial)
  from pipe_inv_passed [OF pipe_run_inv [OF run this]] show ?thesis .
qed

end

end
