(* ===== verification/Routines.thy ===== *)
theory Routines
  imports Pipeline
begin

text \<open>
  The goroutines of one pipe, step by step: \<open>Boot\<close> of the receiver gatherer, the processor and the
  sender, from the start until all routines have ended. For every partition there is a consumer of
  the queue, a processor, and the sender's \<open>store\<close> and \<open>flush\<close>; besides there are the receiving
  routine and \<open>listen\<close>. A routine is given by the point where it is and what it holds there.

  A step is an atomic action of one routine, or of two that meet on an unbuffered channel. A
  \<open>select\<close> with several ready cases takes any of them, so the sequence of actions is arbitrary; an
  action that is not possible has no result. A panic ends the process: \<open>crashed\<close>. A call that never
  returns is no step. \<open>Shutdown\<close> of the sender is one step. Sleeping and the tickers are not
  modelled: a tick may come at any time.
\<close>

datatype consumer_pc = CLoop | CSend SequenceEvent | CClosing | CEnd
datatype processor_pc = PLoop | PSend OutputEventContext | PEnd
datatype store_pc = SHead | SSelect | SFlush | SRenew | SEnd
datatype flush_pc = FLoop | FBatch BatchBuffer | FEnd

record ('q, 'w) routines =
  rt_gath :: "'q gatherer"
  rt_send :: "'w sender"
  ctx_done :: bool
  receiver_end :: bool
  listen_end :: bool
  consumer :: "consumer_pc list"
  processor :: "processor_pc list"
  storer :: "store_pc list"
  flusher :: "flush_pc list"
  crashed :: bool

section \<open>The gatherer\<close>

text \<open>The receiving routine of \<open>Boot\<close>.\<close>

definition receiver_turn :: "'q queue_ops \<Rightarrow> sniff_data \<Rightarrow> int \<Rightarrow> ('q, 'w) routines \<Rightarrow> ('q, 'w) routines option" where
  "receiver_turn ops e now x =
     (if receiver_end x then None
      else case receive_event ops now e (rt_gath x) of
        (Ok _, g) \<Rightarrow> Some (x\<lparr>rt_gath := g\<rparr>)
      | (Err _, g) \<Rightarrow> Some (x\<lparr>rt_gath := g\<rparr>)
      | (Panic, g) \<Rightarrow> Some (x\<lparr>rt_gath := g, crashed := True\<rparr>)
      | (Hang, g) \<Rightarrow> None)"

text \<open>The loop of a consumer: the context comes first, then a poll whose event is sent on.\<close>

definition consumer_poll :: "'q queue_ops \<Rightarrow> nat \<Rightarrow> ('q, 'w) routines \<Rightarrow> ('q, 'w) routines option" where
  "consumer_poll ops p x =
     (if ctx_done x \<or> p \<ge> length (consumer x) \<or> consumer x ! p \<noteq> CLoop then None
      else case pq_Dequeue ops (int p) (runningQueue (rt_gath x)) of
        (Ok e, q) \<Rightarrow> Some (x\<lparr>rt_gath := (rt_gath x)\<lparr>runningQueue := q\<rparr>, consumer := (consumer x)[p := CSend e]\<rparr>)
      | (Err err, q) \<Rightarrow>
          if err = ErrEmpty then Some (x\<lparr>rt_gath := (rt_gath x)\<lparr>runningQueue := q\<rparr>\<rparr>)
          else Some (x\<lparr>rt_gath := (rt_gath x)\<lparr>runningQueue := q,
                        queueOutputCounter := Inc ''error'' (queueOutputCounter (rt_gath x))\<rparr>\<rparr>)
      | (Panic, q) \<Rightarrow> Some (x\<lparr>crashed := True\<rparr>)
      | (Hang, q) \<Rightarrow> None)"

definition consumer_stop :: "nat \<Rightarrow> ('q, 'w) routines \<Rightarrow> ('q, 'w) routines option" where
  "consumer_stop p x =
     (if ctx_done x \<and> p < length (consumer x) \<and> consumer x ! p = CLoop
      then Some (x\<lparr>consumer := (consumer x)[p := CClosing]\<rparr>) else None)"

definition consumer_close :: "'q queue_ops \<Rightarrow> nat \<Rightarrow> ('q, 'w) routines \<Rightarrow> ('q, 'w) routines option" where
  "consumer_close ops p x =
     (if p < length (consumer x) \<and> consumer x ! p = CClosing
      then case gatherer_Shutdown ops (rt_gath x) of
          (Panic, g) \<Rightarrow> Some (x\<lparr>rt_gath := g, crashed := True\<rparr>)
        | (Hang, g) \<Rightarrow> None
        | (_, g) \<Rightarrow> Some (x\<lparr>rt_gath := g, consumer := (consumer x)[p := CEnd]\<rparr>)
      else None)"

section \<open>The processor\<close>

text \<open>The consumer and the processor meet on the output channel of the partition.\<close>

definition hand_over :: "nat \<Rightarrow> ('q, 'w) routines \<Rightarrow> ('q, 'w) routines option" where
  "hand_over p x =
     (if p < length (consumer x) \<and> p < length (processor x)
      then case (consumer x ! p, processor x ! p) of
          (CSend e, PLoop) \<Rightarrow>
            Some (x\<lparr>rt_gath := (rt_gath x)\<lparr>queueOutputCounter := Inc ''success'' (queueOutputCounter (rt_gath x))\<rparr>,
                    consumer := (consumer x)[p := CLoop], processor := (processor x)[p := PSend (processEvent [] e)]\<rparr>)
        | _ \<Rightarrow> None
      else None)"

definition processor_stop :: "nat \<Rightarrow> ('q, 'w) routines \<Rightarrow> ('q, 'w) routines option" where
  "processor_stop p x =
     (if ctx_done x \<and> p < length (processor x) \<and> processor x ! p = PLoop
      then Some (x\<lparr>processor := (processor x)[p := PEnd]\<rparr>) else None)"

text \<open>A send on a closed channel panics, whether somebody receives or not.\<close>

definition send_closed :: "nat \<Rightarrow> ('q, 'w) routines \<Rightarrow> ('q, 'w) routines option" where
  "send_closed p x =
     (if p < length (processor x) \<and> inputsClosed (rt_send x)
      then case processor x ! p of PSend c \<Rightarrow> Some (x\<lparr>crashed := True\<rparr>) | _ \<Rightarrow> None
      else None)"

section \<open>The sender\<close>

text \<open>\<open>store\<close>: while the client is disconnected it does not get to the \<open>select\<close>.\<close>

definition store_check :: "nat \<Rightarrow> ('q, 'w) routines \<Rightarrow> ('q, 'w) routines option" where
  "store_check p x =
     (if p < length (storer x) \<and> storer x ! p = SHead \<and> \<not> blocking (rt_send x)
      then Some (x\<lparr>storer := (storer x)[p := SSelect]\<rparr>) else None)"

definition store_receive :: "nat \<Rightarrow> ('q, 'w) routines \<Rightarrow> ('q, 'w) routines option" where
  "store_receive p x =
     (if p < length (storer x) \<and> storer x ! p = SSelect \<and> p < length (processor x) \<and> \<not> inputsClosed (rt_send x) \<and>
         p < length (buffers (rt_send x))
      then case processor x ! p of
          PSend c \<Rightarrow>
            (case Add (buffers (rt_send x) ! p) c of
               Ok b \<Rightarrow> Some (x\<lparr>processor := (processor x)[p := PLoop],
                   rt_send := (rt_send x)\<lparr>buffers := (buffers (rt_send x))[p := b]\<rparr>,
                   storer := (storer x)[p := if Len b = MaxBufferSize (rt_send x) then SFlush else SHead]\<rparr>)
             | _ \<Rightarrow> Some (x\<lparr>crashed := True\<rparr>))
        | _ \<Rightarrow> None
      else None)"

text \<open>A closed input channel gives nil.\<close>

definition store_nil :: "nat \<Rightarrow> ('q, 'w) routines \<Rightarrow> ('q, 'w) routines option" where
  "store_nil p x =
     (if p < length (storer x) \<and> storer x ! p = SSelect \<and> inputsClosed (rt_send x)
      then Some (x\<lparr>storer := (storer x)[p := SHead]\<rparr>) else None)"

definition store_timer :: "nat \<Rightarrow> ('q, 'w) routines \<Rightarrow> ('q, 'w) routines option" where
  "store_timer p x =
     (if p < length (storer x) \<and> storer x ! p = SSelect \<and> p < length (buffers (rt_send x))
      then Some (x\<lparr>storer := (storer x)[p := if Len (buffers (rt_send x) ! p) \<ge> MinFlushEvents (rt_send x) then SFlush else SHead]\<rparr>)
      else None)"

definition store_stop :: "nat \<Rightarrow> ('q, 'w) routines \<Rightarrow> ('q, 'w) routines option" where
  "store_stop p x =
     (if ctx_done x \<and> p < length (storer x) \<and> storer x ! p = SSelect
      then Some (x\<lparr>storer := (storer x)[p := SEnd]\<rparr>) else None)"

text \<open>\<open>store\<close> and \<open>flush\<close> meet on the flush channel; then \<open>store\<close> makes a new buffer.\<close>

definition flush_send :: "nat \<Rightarrow> ('q, 'w) routines \<Rightarrow> ('q, 'w) routines option" where
  "flush_send p x =
     (if p < length (storer x) \<and> storer x ! p = SFlush \<and> p < length (flusher x) \<and> flusher x ! p = FLoop \<and>
         p < length (buffers (rt_send x))
      then Some (x\<lparr>storer := (storer x)[p := SRenew], flusher := (flusher x)[p := FBatch (buffers (rt_send x) ! p)],
             rt_send := (rt_send x)\<lparr>flushLog := flushLog (rt_send x) @ [(p, buffers (rt_send x) ! p)]\<rparr>\<rparr>)
      else None)"

definition store_renew :: "nat \<Rightarrow> ('q, 'w) routines \<Rightarrow> ('q, 'w) routines option" where
  "store_renew p x =
     (if p < length (storer x) \<and> storer x ! p = SRenew
      then case NewBatchBuffer (MaxBufferSize (rt_send x)) of
          Ok b \<Rightarrow> Some (x\<lparr>storer := (storer x)[p := SHead],
              rt_send := (rt_send x)\<lparr>buffers := (buffers (rt_send x))[p := b]\<rparr>\<rparr>)
        | _ \<Rightarrow> Some (x\<lparr>crashed := True\<rparr>)
      else None)"

definition flush_consume :: "nat \<Rightarrow> ('q, 'w) routines \<Rightarrow> ('q, 'w) routines option" where
  "flush_consume p x =
     (if p < length (flusher x)
      then case flusher x ! p of
          FBatch b \<Rightarrow>
            (case consume b (rt_send x) of
               (Panic, s) \<Rightarrow> Some (x\<lparr>rt_send := s, crashed := True\<rparr>)
             | (Hang, s) \<Rightarrow> None
             | (_, s) \<Rightarrow> Some (x\<lparr>rt_send := s, flusher := (flusher x)[p := FLoop]\<rparr>))
        | _ \<Rightarrow> None
      else None)"

definition flush_stop :: "nat \<Rightarrow> bool \<Rightarrow> ('q, 'w) routines \<Rightarrow> ('q, 'w) routines option" where
  "flush_stop p late x =
     (if ctx_done x \<and> p < length (flusher x) \<and> flusher x ! p = FLoop
      then case sender_Shutdown late (rt_send x) of
          (Panic, s) \<Rightarrow> Some (x\<lparr>rt_send := s, crashed := True\<rparr>)
        | (Hang, s) \<Rightarrow> None
        | (_, s) \<Rightarrow> Some (x\<lparr>rt_send := s, flusher := (flusher x)[p := FEnd]\<rparr>)
      else None)"

definition listen_turn :: "ClientStatus \<Rightarrow> ('q, 'w) routines \<Rightarrow> ('q, 'w) routines option" where
  "listen_turn st x = (if listen_end x then None else Some (x\<lparr>rt_send := snd (listen_status st (rt_send x))\<rparr>))"

section \<open>Runs\<close>

datatype action =
    Cancel | Receive sniff_data int | ReceiverStop | ListenStatus ClientStatus | ListenStop
  | ConsumerPoll nat | ConsumerStop nat | ConsumerClose nat | HandOver nat | ProcessorStop nat | SendClosed nat
  | StoreCheck nat | StoreReceive nat | StoreNil nat | StoreTimer nat | StoreStop nat | FlushSend nat | StoreRenew nat
  | FlushConsume nat | FlushStop nat bool

fun act :: "'q queue_ops \<Rightarrow> action \<Rightarrow> ('q, 'w) routines \<Rightarrow> ('q, 'w) routines option" where
  "act ops Cancel x = Some (x\<lparr>ctx_done := True\<rparr>)"
| "act ops (Receive e now) x = receiver_turn ops e now x"
| "act ops ReceiverStop x = (if ctx_done x \<and> \<not> receiver_end x then Some (x\<lparr>receiver_end := True\<rparr>) else None)"
| "act ops (ListenStatus st) x = listen_turn st x"
| "act ops ListenStop x = (if ctx_done x \<and> \<not> listen_end x then Some (x\<lparr>listen_end := True\<rparr>) else None)"
| "act ops (ConsumerPoll p) x = consumer_poll ops p x"
| "act ops (ConsumerStop p) x = consumer_stop p x"
| "act ops (ConsumerClose p) x = consumer_close ops p x"
| "act ops (HandOver p) x = hand_over p x"
| "act ops (ProcessorStop p) x = processor_stop p x"
| "act ops (SendClosed p) x = send_closed p x"
| "act ops (StoreCheck p) x = store_check p x"
| "act ops (StoreReceive p) x = store_receive p x"
| "act ops (StoreNil p) x = store_nil p x"
| "act ops (StoreTimer p) x = store_timer p x"
| "act ops (StoreStop p) x = store_stop p x"
| "act ops (FlushSend p) x = flush_send p x"
| "act ops (StoreRenew p) x = store_renew p x"
| "act ops (FlushConsume p) x = flush_consume p x"
| "act ops (FlushStop p late) x = flush_stop p late x"

text \<open>A crashed process does nothing any more.\<close>

definition routine_step :: "'q queue_ops \<Rightarrow> action \<Rightarrow> ('q, 'w) routines \<Rightarrow> ('q, 'w) routines option" where
  "routine_step ops a x = (if crashed x then None else act ops a x)"

fun run_actions :: "'q queue_ops \<Rightarrow> action list \<Rightarrow> ('q, 'w) routines \<Rightarrow> ('q, 'w) routines option" where
  "run_actions ops [] x = Some x"
| "run_actions ops (a # as) x = Option.bind (routine_step ops a x) (run_actions ops as)"

text \<open>\<open>Boot\<close> of the three modules has returned.\<close>

definition all_ended :: "('q, 'w) routines \<Rightarrow> bool" where
  "all_ended x \<longleftrightarrow> receiver_end x \<and> listen_end x \<and> list_all (\<lambda>c. c = CEnd) (consumer x) \<and>
     list_all (\<lambda>c. c = PEnd) (processor x) \<and> list_all (\<lambda>c. c = SEnd) (storer x) \<and> list_all (\<lambda>c. c = FEnd) (flusher x)"

text \<open>
  The routines that \<open>Boot\<close> of the modules starts, for \<open>k\<close> partitions: a consumer for each of them, a
  processor for each of them, and \<open>store\<close> and \<open>flush\<close> for each of them beside \<open>listen\<close>.
\<close>

definition gatherer_Boot :: "nat \<Rightarrow> consumer_pc list" where
  "gatherer_Boot k = map (\<lambda>p. CLoop) [0..<k]"

definition processor_Boot :: "nat \<Rightarrow> processor_pc list" where
  "processor_Boot k = map (\<lambda>partition. PLoop) [0..<k]"

definition sender_Boot :: "nat \<Rightarrow> store_pc list \<times> flush_pc list" where
  "sender_Boot k = (map (\<lambda>partition. SHead) [0..<k], map (\<lambda>partition. FLoop) [0..<k])"

definition Boot_routines :: "nat \<Rightarrow> 'q gatherer \<Rightarrow> 'w sender \<Rightarrow> ('q, 'w) routines" where
  "Boot_routines k g s =
     \<lparr>rt_gath = g, rt_send = s, ctx_done = False, receiver_end = False, listen_end = False, consumer = gatherer_Boot k,
      processor = processor_Boot k, storer = fst (sender_Boot k), flusher = snd (sender_Boot k), crashed = False\<rparr>"

lemma Boot_replicate [simp]:
  "gatherer_Boot k = replicate k CLoop" "processor_Boot k = replicate k PLoop" "sender_Boot k = (replicate k SHead, replicate k FLoop)"
  by (simp_all add: gatherer_Boot_def processor_Boot_def sender_Boot_def map_replicate_const)

lemma run_actions_append: "run_actions ops (as @ bs) x = Option.bind (run_actions ops as x) (run_actions ops bs)"
  by (induction as arbitrary: x) (auto split: Option.bind_split)

end
