(* ===== verification/Routine_Invariant.thy ===== *)
theory Routine_Invariant
  imports Routines
begin

text \<open>
  What the routines of a pipe hold together, at every point of every interleaving: of each
  partition, the batches that were sent to \<open>flush\<close>, the buffer, the context in the hands of the
  processor, the event in the hands of the consumer and the events in the queue are, in this order,
  the events that were routed there.
\<close>

section \<open>One partition\<close>

definition consumer_hand :: "consumer_pc \<Rightarrow> sniff_data list" where
  "consumer_hand c = (case c of CSend e \<Rightarrow> [se_Event e] | _ \<Rightarrow> [])"

definition processor_hand :: "processor_pc \<Rightarrow> sniff_data list" where
  "processor_hand c = (case c of PSend d \<Rightarrow> ctx_events d | _ \<Rightarrow> [])"

text \<open>
  \<open>partition_inv m c pr st fl b evs\<close>: the routines of a partition are at \<open>c\<close>, \<open>pr\<close> and \<open>st\<close>, the
  contexts \<open>fl\<close> were flushed, the buffer is \<open>b\<close> and may hold \<open>m\<close> contexts; all together these are the
  events \<open>evs\<close>. Between the send of the buffer and its replacement it belongs to \<open>flush\<close>. Where \<open>store\<close>
  can receive there is room.
\<close>

definition partition_inv ::
  "int \<Rightarrow> consumer_pc \<Rightarrow> processor_pc \<Rightarrow> store_pc \<Rightarrow> OutputEventContext list \<Rightarrow> BatchBuffer \<Rightarrow> sniff_data list \<Rightarrow> bool" where
  "partition_inv m c pr st fl b evs \<longleftrightarrow>
     (\<exists>cs. buf_holds b cs \<and> bcap b = m \<and> (st = SHead \<or> st = SSelect \<longrightarrow> int (length cs) < m) \<and>
        (\<forall>d. pr = PSend d \<longrightarrow> ctx_Offset d \<noteq> None) \<and>
        concat (map ctx_events (fl @ (if st = SRenew then [] else cs))) @ processor_hand pr @ consumer_hand c = evs)"

named_theorems partition_steps \<open>what an action makes of the invariant of its partition\<close>

lemma poll_partition:
  "partition_inv m CLoop pr st fl b evs \<Longrightarrow> partition_inv m (CSend e) pr st fl b (evs @ [se_Event e])"
  by (auto simp: partition_inv_def consumer_hand_def)

lemma closing_partition [partition_steps]:
  "partition_inv m CLoop pr st fl b evs \<Longrightarrow> partition_inv m CClosing pr st fl b evs"
  by (simp add: partition_inv_def consumer_hand_def)

lemma hand_partition [partition_steps]:
  "partition_inv m (CSend e) PLoop st fl b evs \<Longrightarrow> partition_inv m CLoop (PSend (processEvent [] e)) st fl b evs"
  by (auto simp: partition_inv_def consumer_hand_def processor_hand_def processEvent_none ctx_events_def)

lemma processor_end_partition [partition_steps]:
  "partition_inv m c PLoop st fl b evs \<Longrightarrow> partition_inv m c PEnd st fl b evs"
  by (simp add: partition_inv_def processor_hand_def)

lemma store_partition [partition_steps]:
  "partition_inv m c pr SHead fl b evs \<Longrightarrow> partition_inv m c pr SSelect fl b evs"
  "partition_inv m c pr SSelect fl b evs \<Longrightarrow> partition_inv m c pr SHead fl b evs"
  "partition_inv m c pr SSelect fl b evs \<Longrightarrow> partition_inv m c pr SFlush fl b evs"
  "partition_inv m c pr SSelect fl b evs \<Longrightarrow> partition_inv m c pr SEnd fl b evs"
  by (auto simp: partition_inv_def)

lemma receive_partition:
  assumes "partition_inv m c (PSend d) SSelect fl b evs" and "Add b d = Ok b'"
  shows "partition_inv m c PLoop (if Len b' = m then SFlush else SHead) fl b' evs"
proof -
  from assms(1) obtain cs where cs: "buf_holds b cs" "bcap b = m" "int (length cs) < m" "ctx_Offset d \<noteq> None"
    "concat (map ctx_events (fl @ cs)) @ ctx_events d @ consumer_hand c = evs"
    by (auto simp: partition_inv_def processor_hand_def)
  from Add_holds [OF cs(1) _ cs(4)] cs(2,3) assms(2) have b': "buf_holds b' (cs @ [d])" "bcap b' = m" by auto
  moreover have "Len b' = int (length cs) + 1" using b'(1) by (simp add: buf_holds_def Len_def)
  ultimately show ?thesis using cs(3,5)
    by (auto simp: partition_inv_def processor_hand_def intro!: exI [of _ "cs @ [d]"])
qed

lemma flush_partition:
  "partition_inv m c pr SFlush fl b evs \<Longrightarrow> partition_inv m c pr SRenew (fl @ contents b) b evs"
  using contents_holds by (fastforce simp: partition_inv_def)

lemma renew_partition:
  assumes "partition_inv m c pr SRenew fl b evs" and "0 < m" and "NewBatchBuffer m = Ok b'"
  shows "partition_inv m c pr SHead fl b' evs"
  using assms NewBatchBuffer_holds [of m] by (auto simp: partition_inv_def intro!: exI [of _ "[]"])

section \<open>All partitions\<close>

definition at_partition_inv :: "('q, 'w) routines \<Rightarrow> nat \<Rightarrow> sniff_data list \<Rightarrow> bool" where
  "at_partition_inv x p evs \<longleftrightarrow>
     partition_inv (MaxBufferSize (rt_send x)) (consumer x ! p) (processor x ! p) (storer x ! p) (flushed (rt_send x) p)
       (buffers (rt_send x) ! p) evs"

definition shape :: "('q, 'w) routines \<Rightarrow> nat \<Rightarrow> bool" where
  "shape x k \<longleftrightarrow> length (consumer x) = k \<and> length (processor x) = k \<and> length (storer x) = k \<and> length (flusher x) = k \<and>
     length (buffers (rt_send x)) = k \<and> 0 < MaxBufferSize (rt_send x)"

definition routines_inv :: "(nat \<Rightarrow> 'q \<Rightarrow> sniff_data list \<Rightarrow> bool) \<Rightarrow> nat \<Rightarrow> ('q, 'w) routines \<Rightarrow> sniff_data list \<Rightarrow> bool" where
  "routines_inv pending n x acc \<longleftrightarrow>
     (\<exists>ess ins routed. pq_pending pending n (runningQueue (rt_gath x)) ess \<and> shape x (length ess) \<and>
        length routed = length ess \<and> mset (concat routed) = mset acc \<and>
        (\<forall>p < length ess. at_partition_inv x p (ins p) \<and> ins p @ ess ! p = routed ! p))"

text \<open>The sender's parts that matter: consuming a batch changes none of them.\<close>

lemma flushed_core: "core s' = core s \<Longrightarrow> flushed s' = flushed s"
  using core_fields(5) [of s' s] by (simp add: flushed_def fun_eq_iff)

lemma consume_all_core: "consume_all bs s = (r, s') \<Longrightarrow> core s' = core s"
proof (induction bs arbitrary: s r s')
  case (Cons b bs)
  then have run: "go_bind (consume b) (\<lambda>_. consume_all bs) s = (r, s')" by simp
  show ?case
    by (rule go_bind_inv [where I = "\<lambda>u. core u = core s", OF _ _ run]) (auto dest!: consume_core Cons.IH)
qed simp

lemma consume_each_core: "consume_each bs s = (r, s') \<Longrightarrow> core s' = core s"
proof (induction bs arbitrary: s r s')
  case (Cons b bs)
  obtain r1 s1 where c: "consume b s = (r1, s1)" by (metis prod.collapse)
  obtain r2 s2 where e: "consume_each bs s1 = (r2, s2)" by (metis prod.collapse)
  from Cons.prems have "s' = s1 \<or> s' = s2"
    by (auto simp: c e go_bind_def go_return_def split: outcome.splits)
  with consume_core [OF c] Cons.IH [OF e] show ?case by auto
qed simp

lemma Shutdown_core:
  assumes "sender_Shutdown late s = (r, s')" and "\<not> shutdownDone s"
  shows "core s' = core (s\<lparr>shutdownDone := True, inputsClosed := True\<rparr>)"
proof -
  let ?s = "s\<lparr>shutdownDone := True, inputsClosed := True\<rparr>"
  have run: "go_bind (consume_each (buffers s))
      (\<lambda>finished s. if late \<or> \<not> finished then consume_all (buffers s) s else (Ok (), s)) ?s = (r, s')"
    using assms by (simp add: sender_Shutdown_def)
  show ?thesis
    by (rule go_bind_inv [where I = "\<lambda>u. core u = core ?s", OF _ _ run])
      (auto dest!: consume_each_core consume_all_core split: if_splits)
qed

lemma Shutdown_parts:
  assumes "sender_Shutdown late s = (r, s')"
  shows "buffers s' = buffers s \<and> MaxBufferSize s' = MaxBufferSize s \<and> flushed s' = flushed s"
proof (cases "shutdownDone s")
  case False
  note c = Shutdown_core [OF assms False]
  from core_fields [OF c] flushed_core [OF c] show ?thesis by (simp add: flushed_def fun_eq_iff)
qed (use assms in \<open>auto simp: sender_Shutdown_def\<close>)

lemma routines_local:
  assumes inv: "routines_inv pending n x acc" and q: "runningQueue (rt_gath x') = runningQueue (rt_gath x)"
    and sh: "\<And>k. shape x k \<Longrightarrow> shape x' k"
    and at: "\<And>p k evs. shape x k \<Longrightarrow> p < k \<Longrightarrow> at_partition_inv x p evs \<Longrightarrow> at_partition_inv x' p evs"
  shows "routines_inv pending n x' acc"
proof -
  from inv obtain ess ins routed where "pq_pending pending n (runningQueue (rt_gath x)) ess" "shape x (length ess)"
    "length routed = length ess" "mset (concat routed) = mset acc"
    "\<forall>p < length ess. at_partition_inv x p (ins p) \<and> ins p @ ess ! p = routed ! p" unfolding routines_inv_def by blast
  then show ?thesis unfolding routines_inv_def using q sh at
    by (intro exI [of _ ess] exI [of _ ins] exI [of _ routed]) auto
qed

text \<open>The actions that do not touch the queue.\<close>

definition touches_queue :: "action \<Rightarrow> bool" where
  "touches_queue a = (case a of Receive _ _ \<Rightarrow> True | ConsumerPoll _ \<Rightarrow> True | ConsumerClose _ \<Rightarrow> True | _ \<Rightarrow> False)"

lemmas routine_defs = consumer_stop_def hand_over_def processor_stop_def send_closed_def store_check_def store_receive_def
  store_nil_def store_timer_def store_stop_def flush_send_def store_renew_def flush_consume_def flush_stop_def listen_turn_def

lemma local_action:
  assumes run: "act ops a x = Some x'" and ok: "\<not> crashed x'" and a: "\<not> touches_queue a"
    and sh: "shape x k"
  shows "runningQueue (rt_gath x') = runningQueue (rt_gath x) \<and> shape x' k \<and>
    (\<forall>p < k. \<forall>evs. at_partition_inv x p evs \<longrightarrow> at_partition_inv x' p evs)"
proof (cases a)
  case (StoreReceive p)
  have g: "storer x ! p = SSelect" "p < k"
    using run sh StoreReceive by (auto simp: store_receive_def shape_def split: if_splits)
  obtain d where d: "processor x ! p = PSend d"
    using run StoreReceive by (cases "processor x ! p") (auto simp: store_receive_def split: if_splits)
  obtain b where b: "Add (buffers (rt_send x) ! p) d = Ok b"
    using run ok d StoreReceive by (cases "Add (buffers (rt_send x) ! p) d") (auto simp: store_receive_def split: if_splits)
  have x': "x' = x\<lparr>processor := (processor x)[p := PLoop], rt_send := (rt_send x)\<lparr>buffers := (buffers (rt_send x))[p := b]\<rparr>,
      storer := (storer x)[p := if Len b = MaxBufferSize (rt_send x) then SFlush else SHead]\<rparr>"
    using run d b StoreReceive by (simp add: store_receive_def split: if_splits)
  show ?thesis
    using sh g d b receive_partition [of "MaxBufferSize (rt_send x)" "consumer x ! p" d "flushed (rt_send x) p" "buffers (rt_send x) ! p" _ b]
    by (auto simp: x' at_partition_inv_def shape_def nth_list_update flushed_def)
next
  case (FlushSend p)
  with run sh have x': "x' = x\<lparr>storer := (storer x)[p := SRenew], flusher := (flusher x)[p := FBatch (buffers (rt_send x) ! p)],
      rt_send := (rt_send x)\<lparr>flushLog := flushLog (rt_send x) @ [(p, buffers (rt_send x) ! p)]\<rparr>\<rparr>"
    and p: "p < k" "storer x ! p = SFlush"
    by (auto simp: flush_send_def shape_def split: if_splits)
  have fl: "flushed (rt_send x') q = (if q = p then flushed (rt_send x) p @ contents (buffers (rt_send x) ! p) else flushed (rt_send x) q)" for q
    by (simp add: x' flushed_def)
  show ?thesis
    using sh p flush_partition by (auto simp: at_partition_inv_def fl) (auto simp: x' shape_def nth_list_update)
next
  case (StoreRenew p)
  with run sh ok obtain b where x': "x' = x\<lparr>storer := (storer x)[p := SHead], rt_send := (rt_send x)\<lparr>buffers := (buffers (rt_send x))[p := b]\<rparr>\<rparr>"
    and b: "NewBatchBuffer (MaxBufferSize (rt_send x)) = Ok b" "storer x ! p = SRenew" "p < k"
    by (auto simp: store_renew_def shape_def split: if_splits outcome.splits)
  show ?thesis
    using sh b renew_partition [of "MaxBufferSize (rt_send x)" "consumer x ! p" "processor x ! p" "flushed (rt_send x) p" "buffers (rt_send x) ! p" _ b]
    by (auto simp: x' at_partition_inv_def shape_def nth_list_update flushed_def)
next
  case (FlushConsume p)
  with run ok obtain b s r where x': "x' = x\<lparr>rt_send := s, flusher := (flusher x)[p := FLoop]\<rparr>" and c: "consume b (rt_send x) = (r, s)"
    by (auto simp: flush_consume_def split: if_splits flush_pc.splits prod.splits outcome.splits)
  note f = core_fields [OF consume_core [OF c]] flushed_core [OF consume_core [OF c]]
  show ?thesis using sh f by (simp add: x' at_partition_inv_def shape_def)
next
  case (FlushStop p late)
  with run ok obtain s r where x': "x' = x\<lparr>rt_send := s, flusher := (flusher x)[p := FEnd]\<rparr>" and c: "sender_Shutdown late (rt_send x) = (r, s)"
    by (auto simp: flush_stop_def split: if_splits prod.splits outcome.splits)
  show ?thesis using sh Shutdown_parts [OF c] by (simp add: x' at_partition_inv_def shape_def)
next
  case (ListenStatus st)
  with run show ?thesis using sh
    by (cases st) (auto simp: listen_turn_def listen_status_def at_partition_inv_def shape_def flushed_def split: if_splits)
qed (use assms in \<open>auto simp: routine_defs at_partition_inv_def shape_def nth_list_update touches_queue_def
       split: if_splits consumer_pc.splits processor_pc.splits\<close>, (erule partition_steps)+)

text \<open>The events that the queue accepts during a run.\<close>

definition taken :: "'q queue_ops \<Rightarrow> action \<Rightarrow> ('q, 'w) routines \<Rightarrow> sniff_data list" where
  "taken ops a x =
     (case a of
        Receive e now \<Rightarrow> if is_Ok (fst (pq_Enqueue ops e (runningQueue (rt_gath x)))) then [e] else []
      | _ \<Rightarrow> [])"

fun taken_run :: "'q queue_ops \<Rightarrow> action list \<Rightarrow> ('q, 'w) routines \<Rightarrow> sniff_data list" where
  "taken_run ops [] x = []"
| "taken_run ops (a # as) x =
     taken ops a x @ (case routine_step ops a x of Some x' \<Rightarrow> taken_run ops as x' | None \<Rightarrow> [])"

lemma routines_boot_inv:
  assumes q: "pq_pending pending n (runningQueue g) (replicate k [])"
    and s: "sender_Prepare register k s0 = (Ok (), s)" and s0: "0 < MaxBufferSize s0" "flushLog s0 = []"
  shows "routines_inv pending n (Boot_routines k g s) []"
proof -
  note prep = sender_Prepare_inv [OF s s0]
  have sh: "shape (Boot_routines k g s) k" using prep by (simp add: shape_def Boot_routines_def store_inv_def)
  have "at_partition_inv (Boot_routines k g s) p []" if "p < k" for p
    using prep that
    by (fastforce simp: at_partition_inv_def partition_inv_def Boot_routines_def store_inv_def consumer_hand_def processor_hand_def)
  with q sh show ?thesis
    unfolding routines_inv_def
    by (intro exI [of _ "replicate k []"] exI [of _ "\<lambda>_. []"]) (simp add: Boot_routines_def concat_replicate_trivial)
qed

text \<open>What of a partition is not in the queue: flushed, in the buffer, or in the hands of a routine.\<close>

definition handled :: "('q, 'w) routines \<Rightarrow> nat \<Rightarrow> sniff_data list" where
  "handled x p =
     concat (map ctx_events (flushed (rt_send x) p @ (if storer x ! p = SRenew then [] else contents (buffers (rt_send x) ! p)))) @
       processor_hand (processor x ! p) @ consumer_hand (consumer x ! p)"

lemma at_partition_handled: "at_partition_inv x p evs \<Longrightarrow> handled x p = evs"
  unfolding at_partition_inv_def partition_inv_def handled_def using contents_holds by fastforce

lemma routines_inv_handled:
  assumes "routines_inv pending n x acc"
  shows "\<exists>ess routed. pq_pending pending n (runningQueue (rt_gath x)) ess \<and> length routed = length ess \<and>
    mset (concat routed) = mset acc \<and> (\<forall>p < length ess. handled x p @ ess ! p = routed ! p)"
  using assms at_partition_handled unfolding routines_inv_def by metis

context partitions
begin

lemma receive_routines:
  assumes inv: "routines_inv pending (Suc n) x acc" and run: "receiver_turn ops e now x = Some x'" and ok: "\<not> crashed x'"
  shows "routines_inv pending n x' (acc @ taken ops (Receive e now) x)"
proof -
  from inv obtain ess ins routed where p: "pq_pending pending (Suc n) (runningQueue (rt_gath x)) ess"
    and sh: "shape x (length ess)" and len: "length routed = length ess" and ms: "mset (concat routed) = mset acc"
    and eq: "\<forall>p < length ess. at_partition_inv x p (ins p) \<and> ins p @ ess ! p = routed ! p"
    unfolding routines_inv_def by blast
  obtain r q where enq: "pq_Enqueue ops e (runningQueue (rt_gath x)) = (r, q)" by fastforce
  obtain g where g: "receive_event ops now e (rt_gath x) = (Ok (), g)" and x': "x' = x\<lparr>rt_gath := g\<rparr>"
    using run ok enq by (cases r) (auto simp: receiver_turn_def receive_event_def split: if_splits)
  have q: "runningQueue g = q" using receive_event_counts(3) [OF g] enq by simp
  have r: "r \<noteq> Panic" "r \<noteq> Hang" using g enq by (auto simp: receive_event_def)
  have sh': "shape x' k = shape x k" and at': "at_partition_inv x' p evs = at_partition_inv x p evs" for k p evs
    by (simp_all add: x' shape_def at_partition_inv_def)
  show ?thesis
  proof (cases r)
    case (Ok u)
    then obtain i where i: "i < length ess" and pq: "pq_pending pending n q (ess[i := ess ! i @ [e]])"
      using pq_Enqueue_pending(1) [OF p enq] by blast
    have "mset (concat (routed[i := routed ! i @ [e]])) = mset (acc @ [e])"
      using mset_concat_snoc [of i routed e] i len ms by simp
    moreover have "taken ops (Receive e now) x = [e]" using enq Ok by (simp add: taken_def)
    ultimately show ?thesis
      unfolding routines_inv_def sh' at' using pq sh len eq i
      by (intro exI [of _ "ess[i := ess ! i @ [e]]"] exI [of _ ins] exI [of _ "routed[i := routed ! i @ [e]]"])
        (auto simp: x' q nth_list_update)
  next
    case (Err y)
    then have "pq_pending pending n q ess" using pq_Enqueue_pending(2) [OF p enq] by blast
    moreover have "taken ops (Receive e now) x = []" using enq Err by (simp add: taken_def)
    ultimately show ?thesis
      unfolding routines_inv_def sh' at' using sh len eq ms
      by (intro exI [of _ ess] exI [of _ ins] exI [of _ routed]) (simp add: x' q)
  qed (use r in auto)
qed

lemma poll_routines:
  assumes inv: "routines_inv pending (Suc n) x acc" and run: "consumer_poll ops p x = Some x'" and ok: "\<not> crashed x'"
  shows "routines_inv pending n x' acc"
proof -
  from inv obtain ess ins routed where pq: "pq_pending pending (Suc n) (runningQueue (rt_gath x)) ess"
    and sh: "shape x (length ess)" and len: "length routed = length ess" and ms: "mset (concat routed) = mset acc"
    and eq: "\<forall>p < length ess. at_partition_inv x p (ins p) \<and> ins p @ ess ! p = routed ! p"
    unfolding routines_inv_def by blast
  obtain r q where deq: "pq_Dequeue ops (int p) (runningQueue (rt_gath x)) = (r, q)" by fastforce
  note pd = pq_Dequeue_pending [OF pq deq]
  have c: "consumer x ! p = CLoop" using run by (auto simp: consumer_poll_def split: if_splits)
  show ?thesis
  proof (cases r)
    case (Ok se)
    have x': "x' = x\<lparr>rt_gath := (rt_gath x)\<lparr>runningQueue := q\<rparr>, consumer := (consumer x)[p := CSend se]\<rparr>"
      using run Ok deq by (auto simp: consumer_poll_def split: if_splits)
    obtain es where p: "p < length ess" and es: "ess ! p = se_Event se # es" and pq': "pq_pending pending n q (ess[p := es])"
      using pd(1) [OF Ok] by auto
    have "at_partition_inv x p (ins p)" using eq p by blast
    then have "at_partition_inv x' p (ins p @ [se_Event se])"
      using p c sh by (simp add: at_partition_inv_def x' shape_def poll_partition)
    moreover have "at_partition_inv x' i (ins i)" if "i \<noteq> p" "i < length ess" for i
      using eq that by (auto simp: at_partition_inv_def x')
    moreover have "shape x' (length ess)" using sh by (simp add: shape_def x')
    ultimately show ?thesis
      unfolding routines_inv_def using pq' len ms eq p es
      by (intro exI [of _ "ess[p := es]"] exI [of _ "ins(p := ins p @ [se_Event se])"] exI [of _ routed])
        (auto simp: x' nth_list_update)
  next
    case (Err y)
    then obtain g where x': "x' = x\<lparr>rt_gath := g\<rparr>" and g: "runningQueue g = q"
      using run deq by (auto simp: consumer_poll_def split: if_splits)
    then show ?thesis unfolding routines_inv_def using pd(2) [OF Err] sh len ms eq
      by (intro exI [of _ ess] exI [of _ ins] exI [of _ routed]) (simp add: shape_def at_partition_inv_def)
  qed (use run deq ok in \<open>auto simp: consumer_poll_def split: if_splits\<close>)
qed

text \<open>Closing the queue is the end of its contract; every other action keeps the invariant.\<close>

lemma routine_step_inv:
  assumes inv: "routines_inv pending (Suc n) x acc" and run: "routine_step ops a x = Some x'" and ok: "\<not> crashed x'"
    and a: "\<forall>p. a \<noteq> ConsumerClose p"
  shows "routines_inv pending n x' (acc @ taken ops a x)"
proof (cases "touches_queue a")
  case True
  have act: "act ops a x = Some x'" using run by (simp add: routine_step_def split: if_splits)
  from True a consider e now where "a = Receive e now" | p where "a = ConsumerPoll p"
    by (cases a) (auto simp: touches_queue_def)
  then show ?thesis
    using receive_routines [OF inv _ ok] poll_routines [OF inv _ ok] act by cases (auto simp: taken_def)
next
  case False
  have act: "act ops a x = Some x'" using run by (simp add: routine_step_def split: if_splits)
  from inv have "routines_inv pending n x acc" using pq_pending_Suc unfolding routines_inv_def by blast
  then have "routines_inv pending n x' acc"
  proof (rule routines_local)
    obtain k where "shape x k" using inv unfolding routines_inv_def by blast
    with local_action [OF act ok False] show "runningQueue (rt_gath x') = runningQueue (rt_gath x)" by blast
  qed (use local_action [OF act ok False] in blast)+
  moreover have "taken ops a x = []" using False by (cases a) (auto simp: taken_def touches_queue_def)
  ultimately show ?thesis by simp
qed

lemma run_actions_inv:
  assumes "routines_inv pending (length as + n) x acc" and "run_actions ops as x = Some x'" and "\<not> crashed x'"
    and "\<forall>p. ConsumerClose p \<notin> set as"
  shows "routines_inv pending n x' (acc @ taken_run ops as x)"
  using assms
proof (induction as arbitrary: x acc)
  case (Cons a as)
  then obtain x1 where x1: "routine_step ops a x = Some x1" and rest: "run_actions ops as x1 = Some x'"
    by (auto split: Option.bind_splits)
  have "\<not> crashed x1" using rest Cons.prems(3) by (cases as) (auto simp: routine_step_def split: if_splits)
  with routine_step_inv [OF _ x1, of "length as + n" acc] Cons.prems
  have "routines_inv pending (length as + n) x1 (acc @ taken ops a x)" by auto
  from Cons.IH [OF this rest] Cons.prems show ?case by (simp add: x1)
qed simp

end

end
