(* ===== verification/Routine_Shutdown.thy ===== *)
theory Routine_Shutdown
  imports Routine_Invariant
begin

text \<open>
  The end of a pipe: which states of the routines can never end, and that a quiet pipe can. A state
  in which a routine of some partition waits for a partner that is gone stays so whatever the other
  routines do, and \<open>Boot\<close> of the module never returns.
\<close>

section \<open>Partners that are gone\<close>

datatype wait =
    SendToEndedProcessor   \<comment> \<open>the consumer sends on the output channel, the processor has ended\<close>
  | SendToEndedStore       \<comment> \<open>the processor sends on the input channel, \<open>store\<close> has ended\<close>
  | SendOnClosedInput      \<comment> \<open>the processor sends on the input channel, which \<open>Shutdown\<close> has closed\<close>
  | BlockedByClient        \<comment> \<open>\<open>store\<close> sleeps because the client is disconnected and \<open>listen\<close> has ended\<close>
  | SendToEndedFlush       \<comment> \<open>\<open>store\<close> sends on the flush channel, \<open>flush\<close> has ended\<close>

fun waits :: "wait \<Rightarrow> nat \<Rightarrow> ('q, 'w) routines \<Rightarrow> bool" where
  "waits SendToEndedProcessor p x = (consumer_hand (consumer x ! p) \<noteq> [] \<and> processor x ! p = PEnd)"
| "waits SendToEndedStore p x = ((case processor x ! p of PSend _ \<Rightarrow> True | _ \<Rightarrow> False) \<and> storer x ! p = SEnd)"
| "waits SendOnClosedInput p x = ((case processor x ! p of PSend _ \<Rightarrow> True | _ \<Rightarrow> False) \<and> inputsClosed (rt_send x))"
| "waits BlockedByClient p x = (storer x ! p = SHead \<and> blocking (rt_send x) \<and> listen_end x)"
| "waits SendToEndedFlush p x = (storer x ! p = SFlush \<and> flusher x ! p = FEnd)"

text \<open>Consuming batches changes neither flag.\<close>

lemma core_flags:
  assumes "core s' = core s" shows "inputsClosed s' = inputsClosed s \<and> blocking s' = blocking s"
  using arg_cong [OF assms, of inputsClosed] core_fields(4) [OF assms] by (simp add: core_def)

lemma Shutdown_flags:
  assumes "sender_Shutdown late s = (r, s')"
  shows "blocking s' = blocking s \<and> (inputsClosed s \<longrightarrow> inputsClosed s')"
proof (cases "shutdownDone s")
  case False
  from core_flags [OF Shutdown_core [OF assms False]] show ?thesis by simp
qed (use assms in \<open>auto simp: sender_Shutdown_def\<close>)

lemma update_nth_if: "xs[i := v] ! j = (if i = j \<and> i < length xs then v else xs ! j)"
  by (cases "i < length xs") (auto simp: linorder_not_less list_update_beyond)

lemma waits_act:
  assumes run: "act ops a x = Some x'" and w: "waits w p x"
  shows "waits w p x'"
proof (cases a)
  case (FlushConsume q)
  with run obtain b s r where c: "consume b (rt_send x) = (r, s)" and s: "rt_send x' = s"
    and x': "consumer x' = consumer x" "processor x' = processor x" "storer x' = storer x" "listen_end x' = listen_end x"
      "flusher x' = flusher x \<or> flusher x ! q \<noteq> FEnd \<and> flusher x' = (flusher x)[q := FLoop]"
    by (auto simp: flush_consume_def split: if_splits flush_pc.splits prod.splits outcome.splits)
  from w x' s core_flags [OF consume_core [OF c]] show ?thesis by (cases w) (auto simp: update_nth_if)
next
  case (FlushStop q late)
  with run obtain s r where c: "sender_Shutdown late (rt_send x) = (r, s)" and s: "rt_send x' = s"
    and x': "consumer x' = consumer x" "processor x' = processor x" "storer x' = storer x" "listen_end x' = listen_end x"
      "flusher x' = flusher x \<or> flusher x' = (flusher x)[q := FEnd]"
    by (auto simp: flush_stop_def split: if_splits prod.splits outcome.splits)
  from w x' s Shutdown_flags [OF c] show ?thesis by (cases w) (auto simp: update_nth_if)
next
  case (Receive e now)
  with run w show ?thesis
    by (cases w) (auto simp: receiver_turn_def split: if_splits prod.splits outcome.splits)
next
  case (ConsumerPoll q)
  with run w show ?thesis
    by (cases w) (auto simp: consumer_poll_def update_nth_if consumer_hand_def split: if_splits prod.splits outcome.splits)
next
  case (ConsumerClose q)
  with run w show ?thesis
    by (cases w) (auto simp: consumer_close_def update_nth_if consumer_hand_def split: if_splits prod.splits outcome.splits)
next
  case (ListenStatus st)
  with run w show ?thesis
    by (cases w; cases st) (auto simp: listen_turn_def listen_status_def split: if_splits)
next
  case (StoreReceive q)
  with run w show ?thesis
    by (cases w) (auto simp: store_receive_def update_nth_if split: if_splits processor_pc.splits outcome.splits)
next
  case (StoreRenew q)
  with run w show ?thesis
    by (cases w) (auto simp: store_renew_def update_nth_if split: if_splits outcome.splits)
qed (use run w in \<open>cases w; auto simp: routine_defs update_nth_if consumer_hand_def
       split: if_splits consumer_pc.splits processor_pc.splits\<close>)+

lemma waits_run: "run_actions ops as x = Some x' \<Longrightarrow> waits w p x \<Longrightarrow> waits w p x'"
  by (induction as arbitrary: x) (auto simp: routine_step_def split: Option.bind_splits if_splits dest: waits_act)

text \<open>The routines of a pipe are neither started nor removed on the way.\<close>

definition routine_count :: "('q, 'w) routines \<Rightarrow> nat \<times> nat \<times> nat" where
  "routine_count x = (length (consumer x), length (processor x), length (storer x))"

lemma routine_count_act: "act ops a x = Some x' \<Longrightarrow> routine_count x' = routine_count x"
  by (cases a)
    (auto simp: routine_count_def routine_defs receiver_turn_def consumer_poll_def consumer_close_def
      split: if_splits prod.splits outcome.splits flush_pc.splits consumer_pc.splits processor_pc.splits)

lemma routine_count_run: "run_actions ops as x = Some x' \<Longrightarrow> routine_count x' = routine_count x"
  by (induction as arbitrary: x)
    (auto simp: routine_step_def split: Option.bind_splits if_splits dest!: routine_count_act)

lemma waits_not_ended: "waits w p x \<Longrightarrow> routine_count x = (k, k, k) \<Longrightarrow> p < k \<Longrightarrow> \<not> all_ended x"
  by (cases w) (auto simp: all_ended_def routine_count_def list_all_length consumer_hand_def split: processor_pc.splits)

section \<open>A quiet pipe\<close>

text \<open>
  Nothing is on its way: the consumers poll, the processors wait for an event, \<open>store\<close> and \<open>flush\<close>
  wait in their \<open>select\<close>.
\<close>

definition quiet :: "nat \<Rightarrow> ('q, 'w) routines \<Rightarrow> bool" where
  "quiet k x \<longleftrightarrow> \<not> crashed x \<and> \<not> receiver_end x \<and> \<not> listen_end x \<and> \<not> shutdownDone (rt_send x) \<and>
     consumer x = replicate k CLoop \<and> processor x = replicate k PLoop \<and> storer x = replicate k SSelect \<and>
     flusher x = replicate k FLoop"

text \<open>The stop of all routines: every consumer closes the queue.\<close>

definition stop_actions :: "nat \<Rightarrow> action list" where
  "stop_actions k = [Cancel, ReceiverStop, ListenStop] @ map ConsumerStop [0..<k] @ map ConsumerClose [0..<k] @
     map ProcessorStop [0..<k] @ map StoreStop [0..<k] @ map (\<lambda>p. FlushStop p False) [0..<k]"

definition closed_by :: "'q queue_ops \<Rightarrow> nat \<Rightarrow> 'q gatherer \<Rightarrow> 'q gatherer" where
  "closed_by ops i g = ((\<lambda>g. snd (gatherer_Shutdown ops g)) ^^ i) g"

lemma closed_by_Suc: "gatherer_Shutdown ops (closed_by ops i g) = (fst (gatherer_Shutdown ops (closed_by ops i g)), closed_by ops (Suc i) g)"
  by (simp add: closed_by_def)

text \<open>The same action for one partition after the other.\<close>

lemma run_upto:
  "(\<And>i. i < m \<Longrightarrow> routine_step ops (f i) (st i) = Some (st (Suc i))) \<Longrightarrow> run_actions ops (map f [0..<m]) (st 0) = Some (st m)"
  by (induction m) (simp_all add: run_actions_append)

definition upto_done :: "nat \<Rightarrow> nat \<Rightarrow> 'a \<Rightarrow> 'a \<Rightarrow> 'a list" where
  "upto_done k i d t = replicate i d @ replicate (k - i) t"

lemma upto_done_step:
  assumes "i < k" shows "(replicate i d @ replicate (k - i) t)[i := d] = replicate (Suc i) d @ replicate (k - Suc i) t"
proof -
  obtain m where "k - i = Suc m" and "k - Suc i = m" using assms by (metis Suc_diff_Suc)
  then show ?thesis by (simp add: list_update_append replicate_app_Cons_same)
qed

lemma upto_done_simps [simp]:
  "length (upto_done k i d t) = i + (k - i)" "upto_done k 0 d t = replicate k t" "upto_done k k d t = replicate k d"
  "i < k \<Longrightarrow> upto_done k i d t ! i = t" "i < k \<Longrightarrow> (upto_done k i d t)[i := d] = upto_done k (Suc i) d t"
  by (simp_all add: upto_done_def nth_append upto_done_step)

lemma routines_same:
  "consumer x = c \<Longrightarrow> x\<lparr>consumer := c\<rparr> = x" "processor x = pr \<Longrightarrow> x\<lparr>processor := pr\<rparr> = x"
  "storer x = st \<Longrightarrow> x\<lparr>storer := st\<rparr> = x" "flusher x = fl \<Longrightarrow> x\<lparr>flusher := fl\<rparr> = x"
  "x\<lparr>rt_gath := rt_gath x\<rparr> = x" "x\<lparr>rt_send := rt_send x\<rparr> = x"
  by (cases x; simp)+

lemma stop_consumers:
  assumes "ctx_done x" and "\<not> crashed x" and "consumer x = replicate k CLoop"
  shows "run_actions ops (map ConsumerStop [0..<k]) x = Some (x\<lparr>consumer := replicate k CClosing\<rparr>)"
proof -
  have "run_actions ops (map ConsumerStop [0..<k]) (x\<lparr>consumer := upto_done k 0 CClosing CLoop\<rparr>)
      = Some (x\<lparr>consumer := upto_done k k CClosing CLoop\<rparr>)"
    by (rule run_upto) (use assms in \<open>simp add: routine_step_def consumer_stop_def\<close>)
  with assms(3) show ?thesis by (simp add: routines_same)
qed

lemma stop_processors:
  assumes "ctx_done x" and "\<not> crashed x" and "processor x = replicate k PLoop"
  shows "run_actions ops (map ProcessorStop [0..<k]) x = Some (x\<lparr>processor := replicate k PEnd\<rparr>)"
proof -
  have "run_actions ops (map ProcessorStop [0..<k]) (x\<lparr>processor := upto_done k 0 PEnd PLoop\<rparr>)
      = Some (x\<lparr>processor := upto_done k k PEnd PLoop\<rparr>)"
    by (rule run_upto) (use assms in \<open>simp add: routine_step_def processor_stop_def\<close>)
  with assms(3) show ?thesis by (simp add: routines_same)
qed

lemma stop_stores:
  assumes "ctx_done x" and "\<not> crashed x" and "storer x = replicate k SSelect"
  shows "run_actions ops (map StoreStop [0..<k]) x = Some (x\<lparr>storer := replicate k SEnd\<rparr>)"
proof -
  have "run_actions ops (map StoreStop [0..<k]) (x\<lparr>storer := upto_done k 0 SEnd SSelect\<rparr>)
      = Some (x\<lparr>storer := upto_done k k SEnd SSelect\<rparr>)"
    by (rule run_upto) (use assms in \<open>simp add: routine_step_def store_stop_def\<close>)
  with assms(3) show ?thesis by (simp add: routines_same)
qed

lemma close_queue:
  assumes "\<not> crashed x" and "consumer x = replicate k CClosing"
    and "\<forall>i < k. fst (gatherer_Shutdown ops (closed_by ops i (rt_gath x))) = Ok ()"
  shows "run_actions ops (map ConsumerClose [0..<k]) x = Some (x\<lparr>rt_gath := closed_by ops k (rt_gath x), consumer := replicate k CEnd\<rparr>)"
proof -
  have "run_actions ops (map ConsumerClose [0..<k]) (x\<lparr>rt_gath := closed_by ops 0 (rt_gath x), consumer := upto_done k 0 CEnd CClosing\<rparr>)
      = Some (x\<lparr>rt_gath := closed_by ops k (rt_gath x), consumer := upto_done k k CEnd CClosing\<rparr>)"
    by (rule run_upto)
      (use assms in \<open>simp add: routine_step_def consumer_close_def, subst closed_by_Suc, simp\<close>)
  with assms(2) show ?thesis by (simp add: closed_by_def routines_same)
qed

text \<open>Only the first \<open>flush\<close> that ends shuts the sender down.\<close>

lemma Shutdown_once:
  assumes "sender_Shutdown late s = (r, s')" shows "shutdownDone s'"
proof (cases "shutdownDone s")
  case False
  from arg_cong [OF Shutdown_core [OF assms False], of shutdownDone] show ?thesis by (simp add: core_def)
qed (use assms in \<open>auto simp: sender_Shutdown_def\<close>)

lemma stop_flushes:
  assumes "ctx_done x" and "\<not> crashed x" and "flusher x = replicate k FLoop" and sh: "sender_Shutdown False (rt_send x) = (Ok (), s)"
    and "0 < k"
  shows "run_actions ops (map (\<lambda>p. FlushStop p False) [0..<k]) x = Some (x\<lparr>rt_send := s, flusher := replicate k FEnd\<rparr>)"
proof -
  let ?st = "\<lambda>i. x\<lparr>rt_send := (if i = 0 then rt_send x else s), flusher := upto_done k i FEnd FLoop\<rparr>"
  have "sender_Shutdown False s = (Ok (), s)" using Shutdown_once [OF sh] by (simp add: sender_Shutdown_def)
  then have "run_actions ops (map (\<lambda>p. FlushStop p False) [0..<k]) (?st 0) = Some (?st k)"
    by (intro run_upto) (use assms upto_done_simps(5) [of 0 k FEnd FLoop] in \<open>auto simp: routine_step_def flush_stop_def\<close>)
  with assms(3,5) show ?thesis by (simp add: routines_same)
qed

lemma quiet_stop:
  assumes q: "quiet k x" and k: "0 < k" and cl: "\<forall>i < k. fst (gatherer_Shutdown ops (closed_by ops i (rt_gath x))) = Ok ()"
    and sh: "sender_Shutdown False (rt_send x) = (Ok (), s)"
  shows "\<exists>x'. run_actions ops (stop_actions k) x = Some x' \<and> all_ended x' \<and> \<not> crashed x' \<and> rt_send x' = s \<and>
    rt_gath x' = closed_by ops k (rt_gath x)"
proof -
  let ?x = "x\<lparr>ctx_done := True, receiver_end := True, listen_end := True\<rparr>"
  have "run_actions ops (stop_actions k) x = Some (?x\<lparr>rt_gath := closed_by ops k (rt_gath x), consumer := replicate k CEnd,
      processor := replicate k PEnd, storer := replicate k SEnd, rt_send := s, flusher := replicate k FEnd\<rparr>)"
    using q k cl sh
    by (simp add: stop_actions_def run_actions_append quiet_def routine_step_def stop_consumers close_queue stop_processors
        stop_stores stop_flushes)
  with q show ?thesis by (simp add: all_ended_def quiet_def list_all_iff)
qed

end
