(* ===== verification/Mmap_Restart.thy ===== *)
theory Mmap_Restart
  imports Mmap_Refine
begin

text \<open>
  Durability of the memory mapped queue: what \<open>doFlush\<close> and \<open>Close\<close> leave on disk, and what
  \<open>Initialize\<close> of a new process makes of it. The reading offset restarts at the committed
  offset and the writing offset at the watermark.
\<close>

section \<open>What is on disk\<close>

abbreviation seg_file :: "os_env \<Rightarrow> 'f mmap_queue \<Rightarrow> nat \<Rightarrow> byte list" where
  "seg_file os q i \<equiv> file_content (files q) (filepath_Abs os (seg_path q (int i)))"

abbreviation meta_file :: "os_env \<Rightarrow> 'f mmap_queue \<Rightarrow> byte list" where
  "meta_file os q \<equiv> file_content (files q) (filepath_Abs os (meta_path (queueName q)))"

definition persisted :: "'f mmap_lib \<Rightarrow> os_env \<Rightarrow> 'f mmap_queue \<Rightarrow> bool" where
  "persisted lib os q \<longleftrightarrow>
     (\<forall>i < nC q. truncate_to (nS q) (seg_file os q i) = seg_content lib os q i) \<and>
     meta_file os q = mmap_bytes lib (metaFile (meta q))"

text \<open>Every mapped segment among the given indices is on disk.\<close>

definition clean :: "'f mmap_lib \<Rightarrow> os_env \<Rightarrow> 'f mmap_queue \<Rightarrow> nat set \<Rightarrow> bool" where
  "clean lib os q I \<longleftrightarrow> (\<forall>i \<in> I. \<forall>f. i < nC q \<longrightarrow> segments q ! i = Some f \<longrightarrow> seg_file os q i = mmap_bytes lib f)"

lemma clean_persisted:
  "mq_wf lib os q \<Longrightarrow> clean lib os q {..<nC q} \<Longrightarrow> meta_file os q = mmap_bytes lib (metaFile (meta q)) \<Longrightarrow>
   persisted lib os q"
  using wf_bytes [of lib os q] by (auto simp: persisted_def clean_def seg_content_def split: option.splits)

lemma flush_to_disk_fields [simp]:
  "segments (flush_to_disk lib os i f q) = segments q" "SegmentSize (flush_to_disk lib os i f q) = SegmentSize q"
  "QueueCapacitySegments (flush_to_disk lib os i f q) = QueueCapacitySegments q"
  "queueName (flush_to_disk lib os i f q) = queueName q" "meta (flush_to_disk lib os i f q) = meta q"
  "locker (flush_to_disk lib os i f q) = locker q" "seg_path (flush_to_disk lib os i f q) = seg_path q"
  by (simp_all add: flush_to_disk_def seg_path_def fun_eq_iff)

lemma flush_one_clean:
  assumes wf: "mq_wf lib os q" and i: "i < nC q" and ok: "\<forall>f. Flush lib f = None" and c: "clean lib os q I"
    and run: "flush_one lib os (int i) q = (r, q')"
  shows "clean lib os q' (insert i I)" and "segments q' = segments q" and "locker q' = locker q"
proof -
  show "segments q' = segments q" "locker q' = locker q"
    using run ok by (auto simp: flush_one_def split: option.splits)
  show "clean lib os q' (insert i I)"
  proof (cases "segments q ! i")
    case None
    with run c show ?thesis by (auto simp: flush_one_def clean_def)
  next
    case (Some f)
    with run ok have "q' = flush_to_disk lib os (int i) f q" by (simp add: flush_one_def)
    with c Some flush_to_disk_content [OF wf Some i] show ?thesis by (auto simp: clean_def)
  qed
qed

lemma clean_locker [simp]: "clean lib os (q\<lparr>locker := l\<rparr>) I = clean lib os q I"
  by (simp add: clean_def seg_path_def)

lemma flush_segments_clean:
  "mq_wf lib os q \<Longrightarrow> list_all (\<lambda>i. 0 \<le> i \<and> i < QueueCapacitySegments q) is \<Longrightarrow> \<forall>f. Flush lib f = None \<Longrightarrow>
   clean lib os q I \<Longrightarrow> flush_segments lib os is q = (Ok u, q') \<Longrightarrow>
   clean lib os q' (I \<union> nat ` set is)"
proof (induction "is" arbitrary: q I)
  case (Cons i "is")
  from Cons.prems(5) obtain q1 q2 q3 where l: "lockByIndex i q = (Ok (), q1)"
    and f: "flush_one lib os i q1 = (Ok (), q2)" and ul: "unlockByIndex i q2 = (Ok (), q3)"
    and rest: "flush_segments lib os is q3 = (Ok u, q')"
    by (auto elim!: go_bind_OkE)
  have i: "nat i < nC q" "int (nat i) = i" and rs: "list_all (\<lambda>i. 0 \<le> i \<and> i < QueueCapacitySegments q) is"
    using Cons.prems(2) by (auto simp: nat_less_iff)
  have v1: "same_view lib os q q1" by (rule lockByIndex_view [OF Cons.prems(1) l])
  note wf1 = same_view_wf [OF v1]
  have c1: "clean lib os q1 I" using l Cons.prems(4) by (auto simp: lockByIndex_def split: if_splits)
  have f': "flush_one lib os (int (nat i)) q1 = (Ok (), q2)" and i1: "nat i < nC q1"
    using f i same_view_fields [OF v1] by simp_all
  have c2: "clean lib os q2 (insert (nat i) I)" by (rule flush_one_clean(1) [OF wf1 i1 Cons.prems(3) c1 f'])
  have v2: "same_view lib os q1 q2"
    using flush_one_view [OF wf1, of i True "{}" 0] f i Cons.prems(2) same_view_fields [OF v1] by auto
  have v3: "same_view lib os q2 q3" by (rule unlockByIndex_view [OF same_view_wf [OF v2] ul])
  have c3: "clean lib os q3 (insert (nat i) I)" using ul c2 by (auto simp: unlockByIndex_def split: if_splits)
  have "QueueCapacitySegments q3 = QueueCapacitySegments q"
    using same_view_fields [OF v1] same_view_fields [OF v2] same_view_fields [OF v3] by simp
  with Cons.IH [OF same_view_wf [OF v3] _ Cons.prems(3) c3 rest] rs show ?case by (simp add: Un_commute)
qed auto

lemma nat_image_upto: "nat ` set [0..int n - 1] = {..<n}"
proof (rule set_eqI)
  show "i \<in> nat ` set [0..int n - 1] \<longleftrightarrow> i \<in> {..<n}" for i
    by (auto simp: image_iff intro!: bexI [of _ "int i"])
qed

lemma doFlush_persisted:
  assumes wf: "mq_wf lib os q" and ok: "\<forall>f. Flush lib f = None" and run: "doFlush lib os q = (Ok u, q')"
  shows "persisted lib os q'" and "GetWatermarkOffset lib (meta q') = GetWritingOffset lib (meta q')"
    and "same_view lib os q (q'\<lparr>meta := meta q\<rparr>)"
proof -
  from run obtain q1 wid woff where f: "flush_segments lib os [0..int (length (segments q)) - 1] q = (Ok (), q1)"
    and w: "GetWritingOffset lib (meta q1) = (wid, woff)"
    and q': "q' = flush_meta lib os (q1\<lparr>meta := PutWatermarkOffset lib wid woff (meta q1)\<rparr>)" (is "_ = flush_meta lib os ?q2")
    unfolding doFlush_def by (auto elim!: go_bind_OkE split: prod.splits)
  have ids: "list_all (\<lambda>i. 0 \<le> i \<and> i < QueueCapacitySegments q) [0..int (length (segments q)) - 1]"
    using wf_segs [OF wf] wf_cap [OF wf] by (auto simp: list_all_iff)
  have v: "same_view lib os q q1"
    using wp_Ok [OF wp_flush_segments [OF wf ids calm_True] f] by blast
  note wf1 = same_view_wf [OF v] and laws = wf_laws [OF wf]
  have "clean lib os q1 ({} \<union> nat ` set [0..int (length (segments q)) - 1])"
    by (rule flush_segments_clean [OF wf ids ok _ f]) (simp add: clean_def)
  then have c: "clean lib os q1 {..<nC q1}"
    unfolding nat_image_upto wf_segs [OF wf] using same_view_fields [OF v] by simp
  have put: "meta_wf lib (PutWatermarkOffset lib wid woff (meta q1))"
    by (rule meta_wf_put(2) [OF laws wf_meta [OF wf1]])
  have wf2: "mq_wf lib os ?q2" by (rule mq_wf_meta [OF wf1 put])
  have fm: "flush_meta lib os ?q2 = ?q2\<lparr>files := (files q1)(filepath_Abs os (meta_path (queueName q1))
      \<mapsto> mmap_bytes lib (metaFile (PutWatermarkOffset lib wid woff (meta q1))))\<rparr>"
    using ok by (simp add: flush_meta_def Metadata_Flush_def)
  have "clean lib os q' {..<nC q'}"
    using c meta_path_not_segment [of os q1, THEN not_sym]
    by (auto simp: q' fm clean_def file_content_def seg_path_def)
  moreover have "meta_file os q' = mmap_bytes lib (metaFile (meta q'))"
    by (simp add: q' fm file_content_def)
  moreover have "mq_wf lib os q'" using flush_meta_view [OF wf2] q' same_view_wf by blast
  ultimately show "persisted lib os q'" by (intro clean_persisted)
  have b: "0 \<le> wid" "wid \<le> MaxInt64" "0 \<le> woff" "woff \<le> MaxInt64"
    using w uint64ToInt64_bounds by (auto simp: GetWritingOffset_def)
  show "GetWatermarkOffset lib (meta q') = GetWritingOffset lib (meta q')"
    using get_put_watermark [OF laws wf_meta [OF wf1] b] get_put_other(10) [OF laws wf_meta [OF wf1]] w
    by (simp add: q' fm)
  have "same_view lib os q1 (q'\<lparr>meta := meta q1\<rparr>)"
    using wf1 meta_path_not_segment [of os q1, THEN not_sym]
    by (auto simp: q' fm same_view_def mq_wf_def fixed_def seg_content_def file_content_def seg_path_def
        split: option.splits)
  with v show "same_view lib os q (q'\<lparr>meta := meta q\<rparr>)"
    using same_view_trans same_view_fields(6) by metis
qed

section \<open>Opening a queue\<close>

text \<open>The configuration after the corrections at the start of \<open>Initialize\<close>.\<close>

definition norm_size :: "os_env \<Rightarrow> int \<Rightarrow> int" where
  "norm_size os n =
     (let m = (if go_rem n (os_pagesize os) \<noteq> 0 then n - go_rem n (os_pagesize os) else n)
      in if m div os_pagesize os = 0 then data4KB else m)"

definition init_conf :: "os_env \<Rightarrow> 'f mmap_queue \<Rightarrow> 'f mmap_queue" where
  "init_conf os q = q\<lparr>SegmentSize := norm_size os (SegmentSize q),
     MaxInMemSegments := max minimumSegments (MaxInMemSegments q),
     queueName := ''mmap-queue_'' @ PipeName q\<rparr>"

definition init_meta :: "'f mmap_lib \<Rightarrow> 'f Metadata \<Rightarrow> 'f Metadata" where
  "init_meta lib md =
     (case (GetCommittedOffset lib md, GetWatermarkOffset lib md) of
        ((cmID, cmOffset), (wmID, wmOffset)) \<Rightarrow>
          PutReadingOffset lib cmID cmOffset (PutWritingOffset lib wmID wmOffset md))"

text \<open>A struct whose running components are not set up yet.\<close>

definition fresh :: "'f mmap_queue \<Rightarrow> bool" where
  "fresh q \<longleftrightarrow> mmapCount q = 0 \<and> usedSize q = 0 \<and> unflushedNum q = 0"

lemma Initialize_unfold:
  "Initialize lib os q =
     (let q4 = init_conf os q in
      case NewMetaData lib os (queueName q4) (QueueCapacitySegments q4) (files q4) of
        (Ok md, d) \<Rightarrow>
          let q5 = q4\<lparr>files := d, meta := init_meta lib md\<rparr> in
          if QueueCapacitySegments q5 < 0 then (Panic, q5)
          else go_bind (GetSegment lib os (fst (GetCommittedOffset lib md))) (\<lambda>_.
                 go_bind (GetSegment lib os (fst (GetWatermarkOffset lib md))) (\<lambda>_ q.
            (Ok (), q\<lparr>markReadChannel := [], locker := replicate (nat (QueueCapacitySegments q)) False,
                      ready := True\<rparr>)))
            (q5\<lparr>segments := replicate (nat (QueueCapacitySegments q5)) None\<rparr>)
      | (Err e, d) \<Rightarrow> (Err (Errorf ''error in creating the metadata''), q4\<lparr>files := d\<rparr>)
      | (Panic, d) \<Rightarrow> (Panic, q4\<lparr>files := d\<rparr>)
      | (Hang, d) \<Rightarrow> (Hang, q4\<lparr>files := d\<rparr>))"
proof -
  have "init_conf os q =
     (let pageSize = os_pagesize os;
          q1 = (if go_rem (SegmentSize q) pageSize \<noteq> 0
                then q\<lparr>SegmentSize := SegmentSize q - go_rem (SegmentSize q) pageSize\<rparr> else q);
          q2 = (if SegmentSize q1 div pageSize = 0 then q1\<lparr>SegmentSize := data4KB\<rparr> else q1);
          q3 = (if MaxInMemSegments q2 < minimumSegments
                then q2\<lparr>MaxInMemSegments := minimumSegments\<rparr> else q2)
      in q3\<lparr>queueName := ''mmap-queue_'' @ PipeName q3\<rparr>)"
    by (simp add: init_conf_def norm_size_def Let_def max_def)
  then show ?thesis
    unfolding Initialize_def init_meta_def
    by (simp add: Let_def split_def split: outcome.splits)
qed

lemma GetSegment_locker:
  assumes "mmapCount q < MaxInMemSegments q"
  shows "GetSegment lib os sid (q\<lparr>locker := l, markReadChannel := c\<rparr>)
    = (case GetSegment lib os sid q of (r, q') \<Rightarrow> (r, q'\<lparr>locker := l, markReadChannel := c\<rparr>))"
  using assms
  by (auto simp: GetSegment_def go_bind_def mapSegment_def GetIndex_def seg_path_def Let_def
      split: prod.splits outcome.splits option.splits)

text \<open>The system calls and the library calls that may fail do not fail.\<close>

definition faultless :: "'f mmap_lib \<Rightarrow> os_env \<Rightarrow> bool" where
  "faultless lib os \<longleftrightarrow> os_ok os \<and> (\<forall>f. Flush lib f = None \<and> Unmap lib f = None)"

lemma init_meta_wf: "mmap_laws lib \<Longrightarrow> meta_wf lib md \<Longrightarrow> meta_wf lib (init_meta lib md)"
  by (simp add: init_meta_def meta_wf_put split_def)

lemma opened_wf:
  assumes "mmap_laws lib" and "8 \<le> SegmentSize q" and "0 < QueueCapacitySegments q" and "meta_wf lib m"
  shows "mq_wf lib os (q\<lparr>files := d, meta := m, segments := replicate (nC q) None,
    locker := replicate (nC q) False, markReadChannel := []\<rparr>)"
  using assms by (simp add: mq_wf_def)

lemma seg_content_ready: "seg_content lib os (q\<lparr>ready := b\<rparr>) = seg_content lib os q"
  by (auto simp: seg_content_def seg_path_def fun_eq_iff split: option.splits)

lemma same_view_ready:
  "same_view lib os q q' \<Longrightarrow> mq_wf lib os (q'\<lparr>ready := b\<rparr>) \<and> (\<forall>i < nC q. seg_content lib os (q'\<lparr>ready := b\<rparr>) i = seg_content lib os q i)"
  using seg_content_ready [of lib os b q'] by (auto simp: same_view_def mq_wf_def)

lemma Initialize_opens:
  assumes laws: "mmap_laws lib" and ok: "faultless lib os" and fr: "fresh q"
    and size: "8 \<le> norm_size os (SegmentSize q)" and cap: "0 < QueueCapacitySegments q"
    and new: "NewMetaData lib os (queueName (init_conf os q)) (QueueCapacitySegments q) (files q) = (Ok md, d)"
    and mwf: "meta_wf lib md"
  shows "\<exists>q2. Initialize lib os q = (Ok (), q2) \<and> mq_wf lib os q2 \<and> ready q2 \<and> usedSize q2 = 0 \<and>
     meta q2 = init_meta lib md \<and> SegmentSize q2 = norm_size os (SegmentSize q) \<and>
     QueueCapacitySegments q2 = QueueCapacitySegments q \<and> MaxEventSize q2 = MaxEventSize q \<and>
     calm False lib os {} 2 q2 \<and>
     (\<forall>i < nC q. seg_content lib os q2 i =
        truncate_to (nat (norm_size os (SegmentSize q))) (file_content d (filepath_Abs os (seg_path (init_conf os q) (int i)))))"
proof -
  let ?q4 = "init_conf os q" and ?l = "replicate (nC q) False"
  let ?q5 = "?q4\<lparr>files := d, meta := init_meta lib md, segments := replicate (nC q) None\<rparr>"
  let ?set = "\<lambda>q. q\<lparr>locker := ?l, markReadChannel := []\<rparr>"
  let ?c = "fst (GetCommittedOffset lib md)" and ?w = "fst (GetWatermarkOffset lib md)"
  have ids: "0 \<le> ?c" "0 \<le> ?w" by (simp_all add: GetCommittedOffset_def GetWatermarkOffset_def uint64ToInt64_bounds)
  have f4: "SegmentSize ?q4 = norm_size os (SegmentSize q)" "QueueCapacitySegments ?q4 = QueueCapacitySegments q"
    "MaxInMemSegments ?q4 = max 4 (MaxInMemSegments q)" "mmapCount ?q4 = 0" "files ?q4 = files q"
    "usedSize ?q4 = 0" "MaxEventSize ?q4 = MaxEventSize q"
    using fr by (simp_all add: init_conf_def minimumSegments_def fresh_def)
  have wf: "mq_wf lib os (?set ?q5)"
    using opened_wf [OF laws, of ?q4 "init_meta lib md" os d] init_meta_wf [OF laws mwf] size cap by (simp add: f4)
  have calm: "calm False lib os {} 4 (?set ?q5)"
    using ok by (simp add: calm_def faultless_def f4)
  obtain x q6 where g1: "GetSegment lib os ?c ?q5 = (x, q6)" by fastforce
  obtain y q7 where g2: "GetSegment lib os ?w q6 = (y, q7)" by fastforce
  have s1: "GetSegment lib os ?c (?set ?q5) = (x, ?set q6)"
    using GetSegment_locker [of ?q5 lib os ?c "[]" ?l] g1 by (simp add: f4)
  have wp1: "wp False (GetSegment lib os ?c) (\<lambda>_ q'. same_view lib os (?set ?q5) q' \<and> calm False lib os {} 3 q')
      (\<lambda>_ _. False) (?set ?q5)"
    by (rule wp_conseq [OF wp_GetSegment [OF wf ids(1), where n = 3]]) (use calm in auto)
  then obtain i1 where x: "x = Ok i1" and v1: "same_view lib os (?set ?q5) (?set q6)" and c1: "calm False lib os {} 3 (?set q6)"
    using s1 by (cases x) (auto simp: wp_def)
  have "mmapCount q6 < MaxInMemSegments q6" using c1 by (simp add: calm_def)
  then have s2: "GetSegment lib os ?w (?set q6) = (y, ?set q7)"
    using GetSegment_locker [of q6 lib os ?w "[]" ?l] g2 by simp
  have wp2: "wp False (GetSegment lib os ?w) (\<lambda>_ q'. same_view lib os (?set q6) q' \<and> calm False lib os {} 2 q')
      (\<lambda>_ _. False) (?set q6)"
    by (rule wp_conseq [OF wp_GetSegment [OF same_view_wf [OF v1] ids(2), where n = 2]]) (use c1 in auto)
  then obtain i2 where y: "y = Ok i2" and v2: "same_view lib os (?set q6) (?set q7)" and c2: "calm False lib os {} 2 (?set q7)"
    using s2 by (cases y) (auto simp: wp_def)
  note v = same_view_trans [OF v1 v2]
  let ?q8 = "(?set q7)\<lparr>ready := True\<rparr>"
  have cap7: "QueueCapacitySegments q7 = QueueCapacitySegments q" using same_view_fields(2) [OF v] by (simp add: f4)
  have run: "Initialize lib os q = (Ok (), ?q8)"
    using new cap g1 g2 by (simp add: Initialize_unfold Let_def f4 x y go_bind_def cap7)
  have "seg_content lib os (?set ?q5) i = truncate_to (nat (norm_size os (SegmentSize q)))
      (file_content d (filepath_Abs os (seg_path ?q4 (int i))))" if "i < nC q" for i
    using that by (simp add: seg_content_def seg_path_def f4)
  moreover have "calm False lib os {} 2 ?q8" using c2 by (simp add: calm_def)
  ultimately show ?thesis
    using run same_view_ready [OF v, of True] same_view_fields [OF v] f4 by (intro exI [of _ ?q8]) simp
qed

section \<open>A new queue, and a queue found on disk\<close>

lemma init_meta_offsets:
  assumes "mmap_laws lib" and "meta_wf lib md"
  shows "GetReadingOffset lib (init_meta lib md) = GetCommittedOffset lib md"
    and "GetWritingOffset lib (init_meta lib md) = GetWatermarkOffset lib md"
proof -
  obtain a b c d where o: "GetCommittedOffset lib md = (a, b)" "GetWatermarkOffset lib md = (c, d)" by fastforce
  have bounds: "0 \<le> a" "a \<le> MaxInt64" "0 \<le> b" "b \<le> MaxInt64" "0 \<le> c" "c \<le> MaxInt64" "0 \<le> d" "d \<le> MaxInt64"
    using o uint64ToInt64_bounds by (auto simp: GetCommittedOffset_def GetWatermarkOffset_def)
  have wf: "meta_wf lib (PutWritingOffset lib c d md)" by (rule meta_wf_put(1) [OF assms])
  show "GetReadingOffset lib (init_meta lib md) = GetCommittedOffset lib md"
    using get_put_reading [OF assms(1) wf bounds(1-4)] by (simp add: init_meta_def o)
  show "GetWritingOffset lib (init_meta lib md) = GetWatermarkOffset lib md"
    using get_put_other(4) [OF assms(1) wf] get_put_writing [OF assms bounds(5-8)] by (simp add: init_meta_def o)
qed

text \<open>
  The image of a queue on disk: \<open>content i\<close> are the bytes of segment \<open>i\<close>, \<open>m\<close> the metadata.
\<close>

lemma Initialize_image:
  assumes laws: "mmap_laws lib" and ok: "faultless lib os" and fr: "fresh q"
    and size: "8 \<le> norm_size os (SegmentSize q)" and cap: "0 < QueueCapacitySegments q"
    and m: "mmap_bytes lib (metaFile m) =
      truncate_to 80 (file_content (files q) (filepath_Abs os (meta_path (''mmap-queue_'' @ PipeName q))))"
    and ver: "GetVersion lib m = 0 \<or> GetVersion lib m = metaVersion"
    and capm: "GetCapacity lib m = 0 \<or> GetCapacity lib m = QueueCapacitySegments q"
  shows "\<exists>q2. Initialize lib os q = (Ok (), q2) \<and> mq_wf lib os q2 \<and> ready q2 \<and> usedSize q2 = 0 \<and>
     GetReadingOffset lib (meta q2) = GetCommittedOffset lib m \<and>
     GetWritingOffset lib (meta q2) = GetWatermarkOffset lib m \<and>
     SegmentSize q2 = norm_size os (SegmentSize q) \<and>
     QueueCapacitySegments q2 = QueueCapacitySegments q \<and> MaxEventSize q2 = MaxEventSize q \<and>
     calm False lib os {} 2 q2 \<and>
     (\<forall>i < nC q. seg_content lib os q2 i = truncate_to (nat (norm_size os (SegmentSize q)))
        (file_content (files q) (filepath_Abs os (seg_path (init_conf os q) (int i)))))"
proof -
  let ?dir = "queueName (init_conf os q)"
  have dir: "?dir = ''mmap-queue_'' @ PipeName q" by (simp add: init_conf_def)
  have os: "os_ok os" using ok by (simp add: faultless_def)
  obtain md d where new: "NewMetaData lib os ?dir (QueueCapacitySegments q) (files q) = (Ok md, d)"
    and wf: "meta_wf lib md" and off: "GetCommittedOffset lib md = GetCommittedOffset lib m"
      "GetWatermarkOffset lib md = GetWatermarkOffset lib m"
    and d: "\<forall>p. p \<noteq> filepath_Abs os (meta_path ?dir) \<longrightarrow> d p = files q p"
    using NewMetaData_opens [OF laws os, of m "files q" ?dir] m ver capm unfolding dir by blast
  have "file_content d (filepath_Abs os (seg_path (init_conf os q) i))
      = file_content (files q) (filepath_Abs os (seg_path (init_conf os q) i))" for i
    using d meta_path_not_segment [of os "init_conf os q" i] by (simp add: file_content_def)
  then show ?thesis
    using Initialize_opens [OF laws ok fr size cap new wf] init_meta_offsets [OF laws wf] off by auto
qed

text \<open>No metadata file: the queue starts empty.\<close>

lemma Initialize_new:
  assumes laws: "mmap_laws lib" and ok: "faultless lib os" and fr: "fresh q"
    and size: "8 \<le> norm_size os (SegmentSize q)" and cap: "0 < QueueCapacitySegments q"
    and none: "files q (filepath_Abs os (meta_path (''mmap-queue_'' @ PipeName q))) = None"
    and conf: "conf_ok (init_conf os q)" and n: "int n * QueueCapacitySegments q \<le> MaxInt64"
  shows "\<exists>q2. Initialize lib os q = (Ok (), q2) \<and> ready q2 \<and> usedSize q2 = 0 \<and> holds lib os n q2 []"
proof -
  let ?m = "\<lparr>metaFile = NewSharedFileMmap lib (replicate 80 0), md_name = [], md_size = 0, md_capacity = 0\<rparr>"
  have b: "mmap_bytes lib (metaFile ?m) = replicate 80 0" by (simp add: mmap_new [OF laws])
  note z = slot_zero [OF laws b]
  have zero: "GetVersion lib ?m = 0" "GetCapacity lib ?m = 0" "GetCommittedOffset lib ?m = (0, 0)"
    "GetWatermarkOffset lib ?m = (0, 0)"
    using z slot_pos by (simp_all add: get_defs uint64ToInt_def uint64ToInt64_def MaxInt64_def)
  have m: "mmap_bytes lib (metaFile ?m) =
      truncate_to 80 (file_content (files q) (filepath_Abs os (meta_path (''mmap-queue_'' @ PipeName q))))"
    using none b by (simp add: file_content_def truncate_to_def)
  obtain q2 where i: "Initialize lib os q = (Ok (), q2)" "ready q2" "usedSize q2 = 0" and wf: "mq_wf lib os q2"
    and o: "GetReadingOffset lib (meta q2) = (0, 0)" "GetWritingOffset lib (meta q2) = (0, 0)"
    and f: "SegmentSize q2 = norm_size os (SegmentSize q)" "QueueCapacitySegments q2 = QueueCapacitySegments q"
      "MaxEventSize q2 = MaxEventSize q"
    using Initialize_image [OF laws ok fr size cap m] zero by auto
  have "conf_ok q2" using conf by (simp add: conf_ok_def init_conf_def f)
  then have "holds lib os n q2 []"
    using wf n size by (simp add: holds_def o raddr_def waddr_def pos_ok_def f)
  with i show ?thesis by blast
qed

section \<open>Close and reopen\<close>

lemma flush_to_disk_persisted:
  assumes wf: "mq_wf lib os q" and p: "persisted lib os q" and f: "segments q ! i = Some f" and i: "i < nC q"
  shows "persisted lib os (flush_to_disk lib os (int i) f q)"
proof -
  let ?q = "flush_to_disk lib os (int i) f q"
  have v: "same_view lib os q ?q" by (rule flush_to_disk_view [OF wf f i])
  have "meta_file os ?q = meta_file os q"
    using meta_path_not_segment [of os q "int i"] by (simp add: flush_to_disk_def file_content_def)
  moreover have "truncate_to (nS q) (seg_file os ?q j) = seg_content lib os ?q j" if j: "j < nC q" for j
    using p j flush_to_disk_content [OF wf f i j] wf_bytes [OF wf i f] f v
    by (auto simp: persisted_def same_view_def seg_content_def)
  ultimately show ?thesis using p by (simp add: persisted_def)
qed

lemma close_segments_persisted:
  "mq_wf lib os q \<Longrightarrow> persisted lib os q \<Longrightarrow> list_all (\<lambda>i. 0 \<le> i \<and> i < QueueCapacitySegments q) is \<Longrightarrow>
   persisted lib os (close_segments lib os is q) \<and> same_view lib os q (close_segments lib os is q)"
proof (induction "is" arbitrary: q)
  case Nil
  then show ?case by (simp add: same_view_refl)
next
  case (Cons i "is")
  let ?q1 = "case segments q ! nat i of None \<Rightarrow> q
    | Some f \<Rightarrow> if Flush lib f = None then flush_to_disk lib os i f q else q"
  have i: "nat i < nC q" "int (nat i) = i" using Cons.prems(3) by (auto simp: nat_less_iff)
  have step: "persisted lib os ?q1 \<and> same_view lib os q ?q1"
    using Cons.prems(1,2) flush_to_disk_persisted [OF Cons.prems(1,2) _ i(1), unfolded i(2)]
      flush_to_disk_view [OF Cons.prems(1) _ i(1), unfolded i(2)]
    by (auto simp: same_view_refl split: option.splits)
  then have "QueueCapacitySegments ?q1 = QueueCapacitySegments q" using same_view_fields(2) by blast
  with Cons.IH [of ?q1] step Cons.prems(3) show ?case
    by (auto simp del: option.case dest: same_view_wf intro: same_view_trans)
qed

lemma flush_meta_persisted:
  assumes "mq_wf lib os q" and "persisted lib os q"
  shows "persisted lib os (flush_meta lib os q)"
proof -
  have v: "same_view lib os q (flush_meta lib os q)" by (rule flush_meta_view [OF assms(1)])
  then show ?thesis
    using assms(2) meta_path_not_segment [of os q, THEN not_sym]
    by (auto simp: persisted_def same_view_def flush_meta_def file_content_def seg_path_def)
qed

lemma doFlush_slots:
  assumes wf: "mq_wf lib os q" and run: "doFlush lib os q = (Ok u, q')"
  shows "GetCommittedOffset lib (meta q') = GetCommittedOffset lib (meta q)"
    and "GetVersion lib (meta q') = GetVersion lib (meta q)" and "GetCapacity lib (meta q') = GetCapacity lib (meta q)"
    and "GetWritingOffset lib (meta q') = GetWritingOffset lib (meta q)"
proof -
  from run obtain q1 i k where f: "flush_segments lib os [0..int (length (segments q)) - 1] q = (Ok (), q1)"
    and q': "q' = flush_meta lib os (q1\<lparr>meta := PutWatermarkOffset lib i k (meta q1)\<rparr>)"
    unfolding doFlush_def by (auto elim!: go_bind_OkE split: prod.splits)
  have ids: "list_all (\<lambda>i. 0 \<le> i \<and> i < QueueCapacitySegments q) [0..int (length (segments q)) - 1]"
    using wf_segs [OF wf] wf_cap [OF wf] by (auto simp: list_all_iff)
  have "meta q1 = meta q"
    using wp_Ok [OF wp_flush_segments [OF wf ids calm_True] f] same_view_fields(6) by blast
  then have "meta q' = PutWatermarkOffset lib i k (meta q)" by (simp add: q' flush_meta_def)
  then show "GetCommittedOffset lib (meta q') = GetCommittedOffset lib (meta q)"
    "GetVersion lib (meta q') = GetVersion lib (meta q)" "GetCapacity lib (meta q') = GetCapacity lib (meta q)"
    "GetWritingOffset lib (meta q') = GetWritingOffset lib (meta q)"
    using wf_laws [OF wf] wf_meta [OF wf] by (simp_all add: slot_simps)
qed

text \<open>
  After \<open>Close\<close> everything is on disk: the segments as they were, and metadata whose watermark
  is the writing offset.
\<close>

lemma seg_content_meta: "seg_content lib os (q\<lparr>meta := m\<rparr>) = seg_content lib os q"
  by (auto simp: seg_content_def seg_path_def fun_eq_iff split: option.splits)

lemma same_view_meta:
  "same_view lib os q q' \<Longrightarrow> meta_wf lib m \<Longrightarrow> same_view lib os (q\<lparr>meta := m\<rparr>) (q'\<lparr>meta := m\<rparr>)"
  using mq_wf_meta [of lib os q' m] by (auto simp: same_view_def seg_content_meta fixed_def)

lemma Close_image:
  assumes wf: "mq_wf lib os q" and ok: "\<forall>f. Flush lib f = None" and run: "Close lib os q = (Ok u, q')"
  shows "mq_wf lib os q'" and "persisted lib os q'" and "same_view lib os (q\<lparr>ready := False\<rparr>) (q'\<lparr>meta := meta q\<rparr>)"
    and "GetCommittedOffset lib (meta q') = GetCommittedOffset lib (meta q)"
    and "GetWatermarkOffset lib (meta q') = GetWritingOffset lib (meta q)"
    and "GetVersion lib (meta q') = GetVersion lib (meta q)" and "GetCapacity lib (meta q') = GetCapacity lib (meta q)"
proof -
  let ?q0 = "q\<lparr>ready := False\<rparr>"
  have wf0: "mq_wf lib os ?q0" using wf by (simp add: mq_wf_def)
  obtain q1 where f: "doFlush lib os ?q0 = (Ok (), q1)"
    and q': "q' = flush_meta lib os (close_segments lib os [0..int (length (segments q1)) - 1] q1)" (is "_ = flush_meta lib os ?q2")
    using run unfolding Close_def by (auto elim!: go_bind_OkE)
  note p1 = doFlush_persisted [OF wf0 ok f] and slots = doFlush_slots [OF wf0 f]
  have wf1: "mq_wf lib os q1" using wp_Ok [OF wp_doFlush [OF wf0 calm_True] f] by (auto simp: keeps_def)
  have ids: "list_all (\<lambda>i. 0 \<le> i \<and> i < QueueCapacitySegments q1) [0..int (length (segments q1)) - 1]"
    using wf_segs [OF wf1] wf_cap [OF wf1] by (auto simp: list_all_iff)
  note p2 = close_segments_persisted [OF wf1 p1(1) ids]
  have wf2: "mq_wf lib os ?q2" using p2 same_view_wf by blast
  note v3 = flush_meta_view [OF wf2]
  show "persisted lib os q'" unfolding q' by (rule flush_meta_persisted [OF wf2]) (use p2 in blast)
  show "mq_wf lib os q'" unfolding q' by (rule same_view_wf [OF v3])
  have v: "same_view lib os q1 q'" unfolding q' using p2 v3 same_view_trans by blast
  then have m: "meta q' = meta q1" by (simp add: same_view_def)
  show "same_view lib os ?q0 (q'\<lparr>meta := meta q\<rparr>)"
  proof -
    have "same_view lib os (q1\<lparr>meta := meta q\<rparr>) (q'\<lparr>meta := meta q\<rparr>)"
      by (rule same_view_meta [OF v wf_meta [OF wf]])
    with p1(3) show ?thesis using same_view_trans by fastforce
  qed
  show "GetCommittedOffset lib (meta q') = GetCommittedOffset lib (meta q)"
    "GetWatermarkOffset lib (meta q') = GetWritingOffset lib (meta q)"
    "GetVersion lib (meta q') = GetVersion lib (meta q)" "GetCapacity lib (meta q') = GetCapacity lib (meta q)"
    using slots p1(2) by (simp_all add: m)
qed

lemma Initialize_reopens:
  assumes wf: "mq_wf lib os q1" and conf: "conf_ok q1" and p: "persisted lib os q1" and ok: "faultless lib os"
    and ver: "GetVersion lib (meta q1) = metaVersion" and capm: "GetCapacity lib (meta q1) = QueueCapacitySegments q1"
    and c: "GetCommittedOffset lib (meta q1) = (cid, coff)" "pos_ok q1 cid coff"
    and w: "GetWatermarkOffset lib (meta q1) = (wid, woff)" "pos_ok q1 wid woff"
    and max: "wid + int n * QueueCapacitySegments q1 \<le> MaxInt64"
    and st: "stored lib os q1 (addr q1 cid coff) bss (addr q1 wid woff)"
    and new: "fresh q0" "norm_size os (SegmentSize q0) = SegmentSize q1"
      "QueueCapacitySegments q0 = QueueCapacitySegments q1" "MaxEventSize q0 = MaxEventSize q1"
      "''mmap-queue_'' @ PipeName q0 = queueName q1" "files q0 = files q1"
  shows "\<exists>q2. Initialize lib os q0 = (Ok (), q2) \<and> ready q2 \<and> usedSize q2 = 0 \<and> holds lib os n q2 bss"
proof -
  note laws = wf_laws [OF wf] and S = wf_size [OF wf]
  have size: "8 \<le> norm_size os (SegmentSize q0)" and cap: "0 < QueueCapacitySegments q0"
    using S wf_cap [OF wf] new by simp_all
  have m: "mmap_bytes lib (metaFile (meta q1)) =
      truncate_to 80 (file_content (files q0) (filepath_Abs os (meta_path (''mmap-queue_'' @ PipeName q0))))"
    unfolding new(5,6) using p wf_meta [OF wf] by (simp add: persisted_def meta_wf_def metaSize_def)
  have path: "seg_path (init_conf os q0) = seg_path q1" using new(5) by (simp add: seg_path_def init_conf_def fun_eq_iff)
  obtain q2 where i: "Initialize lib os q0 = (Ok (), q2)" "ready q2" "usedSize q2 = 0" and wf2: "mq_wf lib os q2"
    and o: "GetReadingOffset lib (meta q2) = (cid, coff)" "GetWritingOffset lib (meta q2) = (wid, woff)"
    and f: "SegmentSize q2 = SegmentSize q1" "QueueCapacitySegments q2 = QueueCapacitySegments q1"
      "MaxEventSize q2 = MaxEventSize q1"
    and sc: "\<forall>i < nC q1. seg_content lib os q2 i = truncate_to (nS q1) (seg_file os q1 i)"
    using Initialize_image [OF laws ok new(1) size cap m] ver capm c w by (auto simp: new path)
  have "seg_content lib os q2 i = seg_content lib os q1 i" if "i < nC q1" for i
    using that sc p by (simp add: persisted_def)
  then have vb: "vbyte lib os q2 a = vbyte lib os q1 a" for a
    using wf_cap [OF wf] by (simp add: vbyte_def f)
  have "stored lib os q2 (addr q1 cid coff) bss (addr q1 wid woff)"
    by (rule stored_cong [OF S(3) f(1) vb st])
  then have "holds lib os n q2 bss"
    using wf2 conf max c w by (simp add: holds_def conf_ok_def o raddr_def waddr_def pos_ok_def addr_def f)
  with i show ?thesis by blast
qed

end
