(* ===== verification/Instances.thy ===== *)
theory Instances
  imports Mmap_Restart
begin

text \<open>
  Concrete libraries that satisfy the documented behaviour the theorems rely on: a mapping
  that is a byte list with little endian 64 bit slots (\<open>arr_lib\<close>), an operating system that
  never fails (\<open>quiet_os\<close>), and a protobuf library for two messages (\<open>two_pb\<close>). They show
  that the hypotheses of the theorems can hold, and the witnesses evaluate the model on them.
\<close>

section \<open>A mapping as a byte list\<close>

fun le_digits :: "nat \<Rightarrow> int \<Rightarrow> byte list" where
  "le_digits 0 x = []"
| "le_digits (Suc n) x = word_of_int x # le_digits n (x div 256)"

fun le_value :: "byte list \<Rightarrow> int" where
  "le_value [] = 0"
| "le_value (b # bs) = uint b + 256 * le_value bs"

definition le_enc :: "u64 \<Rightarrow> byte list" where
  "le_enc v = le_digits 8 (uint v)"

definition le_dec :: "byte list \<Rightarrow> u64" where
  "le_dec bs = word_of_int (le_value bs)"

lemma length_le_digits [simp]: "length (le_digits n x) = n"
  by (induction n arbitrary: x) simp_all

lemma le_value_digits: "0 \<le> x \<Longrightarrow> x < 256 ^ n \<Longrightarrow> le_value (le_digits n x) = x"
proof (induction n arbitrary: x)
  case (Suc n)
  then have "le_value (le_digits n (x div 256)) = x div 256" by (intro Suc.IH) auto
  moreover have "uint (word_of_int x :: byte) = x mod 256" by (simp add: uint_word_of_int)
  ultimately show ?case by simp
qed simp

lemma le_dec_enc: "le_dec (le_enc v) = v"
proof -
  have "uint v < 256 ^ 8" using unsigned_less [of v] by simp
  then show ?thesis by (simp add: le_dec_def le_enc_def le_value_digits)
qed

definition arr_lib :: "byte list mmap_lib" where
  "arr_lib = \<lparr>
     NewSharedFileMmap = (\<lambda>c. c),
     mmap_bytes = (\<lambda>f. f),
     ReadAt = (\<lambda>f k n. if 0 \<le> n \<and> n < int (length f) then Ok (take k (drop (nat n) f)) else Err EOF),
     WriteAt = (\<lambda>f bs n. if 0 \<le> n \<and> n < int (length f)
        then (Ok (min (length bs) (length f - nat n)), overlay f (nat n) bs) else (Err EOF, f)),
     ReadUint64At = (\<lambda>f n. le_dec (take 8 (drop (nat n) f))),
     WriteUint64At = (\<lambda>f v n. overlay f (nat n) (le_enc v)),
     Flush = (\<lambda>_. None),
     Unmap = (\<lambda>_. None),
     u64_enc = le_enc,
     u64_dec = le_dec\<rparr>"

lemma arr_lib_laws: "mmap_laws arr_lib"
proof -
  have "length (le_enc v) = 8" for v by (simp add: le_enc_def)
  moreover have "le_value (replicate n 0) = 0" for n by (induction n) simp_all
  then have "le_dec (replicate 8 0) = 0" by (simp only: le_dec_def) simp
  ultimately show ?thesis by (simp add: mmap_laws_def arr_lib_def le_dec_enc)
qed

section \<open>A quiet operating system\<close>

definition quiet_os :: os_env where
  "quiet_os = \<lparr>os_fault = (\<lambda>_ _. False), os_cwd = ''/w'', os_dir_exists = (\<lambda>_. True), os_pagesize = 16\<rparr>"

lemma quiet_os_faultless: "faultless arr_lib quiet_os"
  by (simp add: faultless_def os_ok_def quiet_os_def arr_lib_def)

section \<open>Two messages\<close>

definition ev_a :: sniff_data where
  "ev_a = \<lparr>Name = ''a'', Timestamp = 1, Type = Logging, Remote = True, Data = Some (LogList [[1], [2]])\<rparr>"

definition ev_b :: sniff_data where
  "ev_b = \<lparr>Name = ''b'', Timestamp = 2, Type = TracingType, Remote = True, Data = Some (Segment [7])\<rparr>"

definition two_pb :: proto_lib where
  "two_pb = \<lparr>
     Marshal = (\<lambda>e. if e = ev_a then Ok [1, 2, 3] else if e = ev_b then Ok (replicate 12 9)
        else Err (Errorf ''no message'')),
     Unmarshal = (\<lambda>b. if b = [1, 2, 3] then Ok ev_a else if b = replicate 12 9 then Ok ev_b
        else Err (Errorf ''no message''))\<rparr>"

lemma two_pb_laws: "proto_laws two_pb"
proof -
  have "[1, 2, 3] \<noteq> replicate 12 (9 :: byte)"
    by (auto dest: arg_cong [of _ _ length])
  then show ?thesis by (auto simp: proto_laws_def two_pb_def MaxInt64_def)
qed

section \<open>A small queue\<close>

text \<open>Three segments of sixteen bytes; the longest event has four bytes, or more in \<open>wide\<close>.\<close>

definition new_queue :: "int \<Rightarrow> byte list mmap_queue" where
  "new_queue cap = \<lparr>PipeName = ''p'', SegmentSize = 16, MaxInMemSegments = 4, QueueCapacitySegments = cap,
     FlushPeriod = 1000, FlushCeilingNum = 100, MaxEventSize = 20, queueName = [],
     meta = \<lparr>metaFile = [], md_name = [], md_size = 0, md_capacity = 0\<rparr>, segments = [], mmapCount = 0,
     unflushedNum = 0, markReadChannel = [], ready = False, locker = [], usedSize = 0, files = Map.empty\<rparr>"

definition opened :: "int \<Rightarrow> byte list mmap_queue" where
  "opened cap = snd (Initialize arr_lib quiet_os (new_queue cap))"

lemma opened_holds:
  assumes "0 < cap" and "int n * cap \<le> MaxInt64"
  shows "Initialize arr_lib quiet_os (new_queue cap) = (Ok (), opened cap)"
    and "ready (opened cap)" and "usedSize (opened cap) = 0" and "holds arr_lib quiet_os n (opened cap) []"
proof -
  have s: "norm_size quiet_os 16 = 16" by (simp add: norm_size_def quiet_os_def)
  have "conf_ok (init_conf quiet_os (new_queue cap))"
    by (simp add: conf_ok_def init_conf_def new_queue_def s MaxInt64_def)
  then obtain q2 where "Initialize arr_lib quiet_os (new_queue cap) = (Ok (), q2)" "ready q2" "usedSize q2 = 0"
    "holds arr_lib quiet_os n q2 []"
    using Initialize_new [OF arr_lib_laws quiet_os_faultless, of "new_queue cap" n] assms s
    by (auto simp: fresh_def new_queue_def)
  then show "Initialize arr_lib quiet_os (new_queue cap) = (Ok (), opened cap)"
    "ready (opened cap)" "usedSize (opened cap) = 0" "holds arr_lib quiet_os n (opened cap) []"
    by (simp_all add: opened_def)
qed

lemma opened_pending:
  "0 < cap \<Longrightarrow> int n * cap \<le> MaxInt64 \<Longrightarrow> mq_pending arr_lib quiet_os two_pb n (opened cap) []"
  using opened_holds(4) [of cap n] two_pb_laws by (simp add: mq_pending_def)

end
