(* ===== verification/Queue_Properties.thy ===== *)
theory Queue_Properties
  imports Partitioned_Queue Instances
begin

text \<open>Properties of the memory queue and of the partitioned queue.\<close>

section \<open>A concrete buffer\<close>

text \<open>A capacity and a list of elements.\<close>

definition list_fifo :: "(int \<times> sniff_data list) fifo_lib" where
  "list_fifo = \<lparr>
     NewFixedFIFO = (\<lambda>n. (n, [])),
     FIFO_Enqueue = (\<lambda>(n, es) e. if int (length es) < n then (None, (n, es @ [e])) else (Some (Errorf ''full''), (n, es))),
     FIFO_Dequeue = (\<lambda>(n, es). case es of [] \<Rightarrow> (Err (Errorf ''empty''), (n, es)) | e # es' \<Rightarrow> (Ok e, (n, es'))),
     FIFO_GetLen = (\<lambda>(n, es). int (length es)),
     fifo_elems = snd,
     fifo_cap = fst\<rparr>"

lemma list_fifo_laws: "fifo_laws list_fifo"
  by (auto simp: fifo_laws_def list_fifo_def split: list.splits)

definition mem_queue :: "int \<Rightarrow> sniff_data list \<Rightarrow> (int \<times> sniff_data list) memory_queue" where
  "mem_queue n es = \<lparr>EventBufferSize = n, buffer = (n, es)\<rparr>"

lemma mem_queue_pending: "int (length es) \<le> n \<Longrightarrow> memory_pending list_fifo k (mem_queue n es) es"
  by (simp add: memory_pending_def list_fifo_laws mem_queue_def) (simp add: list_fifo_def)

section \<open>The memory queue\<close>

text \<open>
  C33. The memory queue is a bounded FIFO queue: \<open>Enqueue\<close> is refused with \<open>ErrFull\<close>, without a
  change, exactly when \<open>IsFull\<close> holds, and else appends; \<open>Dequeue\<close> returns the oldest event, or
  \<open>ErrEmpty\<close> when there is none; the capacity is never exceeded. Both calls always return.
\<close>

theorem memory_queue_outcomes:
  assumes "memory_pending lib n q es"
  shows "(if memory_IsFull lib q then memory_Enqueue lib e q = (Err ErrFull, q)
      else \<exists>q'. memory_Enqueue lib e q = (Ok (), q') \<and> memory_pending lib m q' (es @ [e])) \<and>
    (case es of [] \<Rightarrow> memory_Dequeue lib q = (Err ErrEmpty, q)
      | x # xs \<Rightarrow> \<exists>q'. memory_Dequeue lib q = (Ok \<lparr>se_Event = x, se_Offset = DefaultOffset\<rparr>, q') \<and>
          memory_pending lib m q' xs) \<and>
    0 \<le> memory_UsedCount lib q \<and> memory_UsedCount lib q \<le> memory_TotalSize q"
proof -
  have "memory_UsedCount lib q = int (length es)" "int (length es) \<le> memory_TotalSize q"
    using assms by (auto simp: memory_pending_def memory_UsedCount_def memory_TotalSize_def fifo_laws_def)
  then show ?thesis using memory_Enqueue_outcome [OF assms] memory_Dequeue_outcome [OF assms] by auto
qed

theorem memory_queue_outcomes_witness:
  "(\<exists>q'. memory_Enqueue list_fifo ev_b (mem_queue 2 [ev_a]) = (Ok (), q') \<and> memory_pending list_fifo 0 q' [ev_a, ev_b]) \<and>
   (\<exists>q'. memory_Dequeue list_fifo (mem_queue 2 [ev_a])
      = (Ok \<lparr>se_Event = ev_a, se_Offset = DefaultOffset\<rparr>, q') \<and> memory_pending list_fifo 0 q' [])"
proof -
  have "\<not> memory_IsFull list_fifo (mem_queue 2 [ev_a])"
    by (simp add: memory_IsFull_def memory_UsedCount_def memory_TotalSize_def mem_queue_def list_fifo_def)
  with memory_queue_outcomes [OF mem_queue_pending, of "[ev_a]" 2 ev_b 0] show ?thesis by simp
qed

section \<open>The partitioned queue\<close>

text \<open>
  The choice of a partition. With more than one partition, \<open>findPartition\<close> looks at the
  partitions in turn, starting behind the last start (the counter wraps around at the number of
  partitions), returns the first one that is not full, and reports \<open>ErrFull\<close> only when every
  partition is full. It never fails otherwise.
\<close>

theorem findPartition_choice:
  assumes "pq_wf p" and "1 < pq_Partition p"
  shows "findPartition ops p =
      (case find (\<lambda>i. \<not> q_IsFull ops (subQueues p ! nat i)) (probe_order p) of
         None \<Rightarrow> (Err ErrFull, snd (next_index p)) | Some i \<Rightarrow> (Ok i, snd (next_index p))) \<and>
    set (probe_order p) = {0..<pq_Partition p} \<and>
    lb (snd (next_index p)) = (lb p + 1) mod pq_Partition p \<and> pq_wf (snd (next_index p)) \<and>
    subQueues (snd (next_index p)) = subQueues p"
  using findPartition_run [OF assms] probe_order_set [OF assms(1)] next_index_step [OF assms(1)] by simp

definition three_parts :: "(int \<times> sniff_data list) memory_queue PartitionedQueue" where
  "three_parts = \<lparr>pq_PipeName = ''p'', pq_Partition = 3, pq_config = Map.empty,
     subQueues = [mem_queue 1 [ev_a], mem_queue 1 [], mem_queue 1 [ev_a]], loadBalancerIndex = 1, totalQueueSize = 3\<rparr>"

lemma three_parts_wf: "pq_wf three_parts"
  by (simp add: pq_wf_def three_parts_def)

theorem findPartition_choice_witness:
  "probe_order three_parts = [2, 0, 1] \<and>
   findPartition (memory_ops list_fifo) three_parts = (Ok 1, snd (next_index three_parts))"
proof -
  have o: "probe_order three_parts = [2, 0, 1]" by code_simp
  moreover have "find (\<lambda>i. \<not> q_IsFull (memory_ops list_fifo) (subQueues three_parts ! nat i)) [2, 0, 1] = Some 1"
    by code_simp
  ultimately show ?thesis
    using findPartition_choice [OF three_parts_wf, of "memory_ops list_fifo"] by (simp add: three_parts_def)
qed


definition two_mmap :: "byte list mmap_queue PartitionedQueue" where
  "two_mmap = \<lparr>pq_PipeName = ''p'', pq_Partition = 2, pq_config = Map.empty,
     subQueues = [opened 5, opened 5], loadBalancerIndex = 0, totalQueueSize = 160\<rparr>"

lemma two_mmap_pending: "n \<le> 100 \<Longrightarrow> pq_pending (mq_pending arr_lib quiet_os two_pb) n two_mmap [[], []]"
  using opened_pending [of 5 n]
  by (auto simp: pq_pending_def pq_wf_def two_mmap_def MaxInt64_def less_Suc_eq)

lemma two_mmap_run:
  "map_option fst (pqrun (mmap_ops arr_lib quiet_os two_pb) [PEnq ev_a, PEnq ev_a] two_mmap) = Some [ev_a, ev_a]"
  by code_simp


lemma init_partitions_alike:
  assumes "\<And>c. create c = mk (c ''commonfields_pipe_name'')"
    and "init_partitions create ops is queues p = (Ok qs, p')"
    and "\<forall>q \<in> set queues. q = snd (q_Initialize ops (mk (pq_config p ''commonfields_pipe_name'')))"
  shows "(\<forall>q \<in> set qs. q = snd (q_Initialize ops (mk (pq_config p ''commonfields_pipe_name'')))) \<and>
    length qs = length queues + length is"
  using assms(2,3)
proof (induction "is" arbitrary: queues p)
  case (Cons i "is")
  let ?p1 = "p\<lparr>pq_config := (pq_config p)(''pipe_name'' \<mapsto>
      sprint_entry (pq_config p ''pipe_name'') @ ''-'' @ FormatInt (int i))\<rparr>"
  have same: "pq_config ?p1 ''commonfields_pipe_name'' = pq_config p ''commonfields_pipe_name''" by simp
  obtain r q where r: "q_Initialize ops (create (pq_config ?p1)) = (r, q)" by fastforce
  have q: "q = snd (q_Initialize ops (mk (pq_config p ''commonfields_pipe_name'')))"
    using r assms(1) same by (metis snd_conv)
  show ?case
  proof (cases r)
    case (Ok u)
    with Cons.prems(1) r have "init_partitions create ops is (queues @ [q])
        (?p1\<lparr>totalQueueSize := totalQueueSize ?p1 + q_TotalSize ops q\<rparr>) = (Ok qs, p')"
      by (simp add: Let_def)
    from Cons.IH [OF this] Cons.prems(2) q show ?thesis by simp
  qed (use Cons.prems(1) r in \<open>auto simp: Let_def\<close>)
qed auto

text \<open>
  The sub queues of a pipe share their directory. \<open>Initialize\<close> gives every sub queue a
  configuration that differs only under the key \<open>pipe_name\<close>; a plugin takes its pipe name from
  the key \<open>commonfields_pipe_name\<close>, so all sub queues are created alike.
\<close>

theorem partitions_created_alike:
  assumes "\<And>c. create c = mk (c ''commonfields_pipe_name'')" and "pq_Initialize create ops p = (Ok (), p')"
  shows "subQueues p' = replicate (nat (pq_Partition p))
    (snd (q_Initialize ops (mk (pq_config p ''commonfields_pipe_name''))))"
proof -
  from assms(2) obtain qs p1 where i: "init_partitions create ops [0..<nat (pq_Partition p)] [] p = (Ok qs, p1)"
    and s: "subQueues p' = qs"
    by (auto simp: pq_Initialize_def split: if_splits elim!: go_bind_OkE)
  from init_partitions_alike [OF assms(1) i] s show ?thesis by (simp add: replicate_eqI)
qed

theorem partitions_created_alike_witness:
  "\<exists>p'. pq_Initialize (\<lambda>c. mem_queue 5 []) (memory_ops list_fifo) (three_parts\<lparr>pq_Partition := 2\<rparr>) = (Ok (), p') \<and>
     subQueues p' = replicate 2 (mem_queue 5 [])"
proof -
  have "fst (pq_Initialize (\<lambda>c. mem_queue 5 []) (memory_ops list_fifo) (three_parts\<lparr>pq_Partition := 2\<rparr>)) = Ok ()"
    by code_simp
  then obtain p' where "pq_Initialize (\<lambda>c. mem_queue 5 []) (memory_ops list_fifo) (three_parts\<lparr>pq_Partition := 2\<rparr>) = (Ok (), p')"
    by (metis prod.collapse)
  with partitions_created_alike [of "\<lambda>c. mem_queue 5 []" "\<lambda>_. mem_queue 5 []", OF _ this] show ?thesis
    by (simp add: memory_ops_def memory_Initialize_def mem_queue_def list_fifo_def)
qed

end
