(* ===== verification/Module_Properties.thy ===== *)
theory Module_Properties
  imports Pipeline Queue_Properties
begin

text \<open>
  The properties of the sender, the fallbackers and the gatherer, with their witnesses. The
  witnesses use a forwarder that writes what it gets into a list, and one that always fails.
\<close>

section \<open>A world that records\<close>

type_synonym log_world = "(SniffType \<times> sniff_data list) list"

definition recording :: "SniffType \<Rightarrow> log_world forwarder" where
  "recording t = \<lparr>fw_Prepare = (\<lambda>w. (Ok (), w)), ForwardType = t, Forward = (\<lambda>b w. (Ok (), w @ [(t, b)])),
     SupportedSyncInvoke = False, SyncForward = (\<lambda>d w. (Err (Errorf ''unsupport sync forward''), w))\<rparr>"

definition refusing :: "SniffType \<Rightarrow> log_world forwarder" where
  "refusing t = (recording t)\<lparr>Forward := (\<lambda>b w. (Err EOF, w @ [(t, b)]))\<rparr>"

definition rec_sender :: "log_world forwarder list \<Rightarrow> log_world sender" where
  "rec_sender fs = \<lparr>s_PipeName = ''p'', MaxBufferSize = 2, MinFlushEvents = 1, runningForwarders = fs,
     runningFallbacker = none_FallBack, gatherer_Ack = (\<lambda>o1 w. (Ok (), w @ [(Logging, [])])), buffers = [],
     blocking = False, inputsClosed = False, shutdownDone = False, sendCounter = (\<lambda>_. 0), flushLog = [], world = []\<rparr>"

definition ctx_of :: "sniff_data \<Rightarrow> OutputEventContext" where
  "ctx_of e = \<lparr>Context = [(Name e, e)], ctx_Offset = Some \<lparr>Partition = 0, Position = ''0-11''\<rparr>\<rparr>"

definition full_buffer :: BatchBuffer where
  "full_buffer = \<lparr>buf = [Some (ctx_of ev_a), Some (ctx_of ev_b)], first = ctx_Offset (ctx_of ev_a),
     last_offset = ctx_Offset (ctx_of ev_b), bsize = 2, bcap = 2\<rparr>"

lemma full_buffer_holds: "buf_holds full_buffer [ctx_of ev_a, ctx_of ev_b]"
  by (simp add: buf_holds_def full_buffer_def ctx_of_def)

section \<open>The sender\<close>

text \<open>
  C18. Consuming a batch. A batch that holds the contexts \<open>cs\<close> is handed to the forwarders in
  their order: each gets, in one call, all remote events of its own type in the order of the
  contexts, or is not called when there is none; whatever the forwarders answer, the batch is then
  acknowledged with the offset of its last context. An empty batch does nothing.
\<close>

theorem sender_consume:
  assumes "buf_holds b cs"
  shows "consume b s = (if cs = [] then (Ok (), s)
    else go_bind (forward_each (runningForwarders s) cs) (\<lambda>_ s. on_world (gatherer_Ack s (ctx_Offset (last cs))) s) s)"
  using assms by (rule consume_run)

theorem sender_consume_witness:
  "world (snd (consume full_buffer (rec_sender [recording TracingType, recording MeterType, recording Logging])))
     = [(TracingType, [ev_b]), (Logging, [ev_a]), (Logging, [])]"
  unfolding sender_consume [OF full_buffer_holds] by code_simp

text \<open>
  A refused batch and the none fallbacker. When a forwarder fails and the pipe has the none
  fallbacker, the batch is not tried again, and it is counted neither as a success nor as a
  failure: only the world changes, by the one failed call.
\<close>

theorem sender_failure_uncounted:
  assumes "runningFallbacker s = none_FallBack" and "Forward f b (world s) = (Err e, w)"
  shows "forward_batch f b s = (Ok (), s\<lparr>world := w\<rparr>)"
  using assms by (simp add: forward_batch_def on_world_def none_FallBack_def go_bind_def)

theorem sender_failure_uncounted_witness:
  "forward_batch (refusing Logging) [ev_a] (rec_sender []) = (Ok (), (rec_sender [])\<lparr>world := [(Logging, [ev_a])]\<rparr>)"
  by (rule sender_failure_uncounted) (simp_all add: rec_sender_def refusing_def)

section \<open>The timer fallbacker\<close>

text \<open>
  C31. Retries. The timer fallbacker forwards the batch again at most \<open>MaxAttempts - 1\<close> times and
  stops at the first success; it answers \<open>true\<close> exactly when an attempt succeeded, and otherwise
  has made all of them. Before attempt number \<open>k\<close> it sleeps \<open>ExponentialBackoff * 2 ^ k\<close>, at most
  \<open>MaxBackoff\<close>.
\<close>

theorem timer_fallback_attempts:
  assumes "returns forward" and "0 < ExponentialBackoff t" and "ExponentialBackoff t \<le> MaxBackoff t"
  shows "\<exists>rs w' sleeps. attempts (nat (MaxAttempts t - 1)) forward batch w = (rs, w') \<and>
    timer_FallBack t batch forward w = (Ok (True \<in> set rs, sleeps), w') \<and>
    length rs \<le> nat (MaxAttempts t - 1) \<and> list_all (\<lambda>r. \<not> r) (butlast rs) \<and>
    (True \<notin> set rs \<longrightarrow> length rs = nat (MaxAttempts t - 1)) \<and> length sleeps = length rs \<and>
    (\<forall>k < length rs. sleeps ! k = min (ExponentialBackoff t * 2 ^ k) (MaxBackoff t))"
proof -
  obtain rs w' where a: "attempts (nat (MaxAttempts t - 1)) forward batch w = (rs, w')" by fastforce
  let ?s = "backoffs t (ExponentialBackoff t) (length rs)"
  have len: "length (backoffs t l n) = n" for l n by (induction n arbitrary: l) simp_all
  have "timer_FallBack t batch forward w = (Ok (True \<in> set rs, ?s), w')"
    using fallback_loop_attempts [OF assms(1)] a by (simp add: timer_FallBack_def)
  moreover have "\<forall>k < length rs. ?s ! k = min (ExponentialBackoff t * 2 ^ k) (MaxBackoff t)"
    using backoffs_nth [OF assms(2,3)] by blast
  moreover have "length rs \<le> nat (MaxAttempts t - 1)" "list_all (\<lambda>r. \<not> r) (butlast rs)"
    "True \<notin> set rs \<longrightarrow> length rs = nat (MaxAttempts t - 1)"
    using attempts_length [of "nat (MaxAttempts t - 1)" forward batch w] attempts_last [of "nat (MaxAttempts t - 1)" forward batch w] a
    by auto
  ultimately show ?thesis using a len by blast
qed

definition third_time :: "int ForwardFunc" where
  "third_time b w = (if w < 3 then Err EOF else Ok (), w + 1)"

theorem timer_fallback_attempts_witness:
  "timer_FallBack \<lparr>MaxAttempts = 6, ExponentialBackoff = 2000, MaxBackoff = 5000\<rparr> [ev_a] third_time 0
     = (Ok (True, [2000, 4000, 5000, 5000]), 4)"
proof -
  let ?t = "\<lparr>MaxAttempts = 6, ExponentialBackoff = 2000, MaxBackoff = 5000\<rparr>"
  have r: "returns third_time" by (simp add: returns_def third_time_def)
  have a: "attempts (nat (MaxAttempts ?t - 1)) third_time [ev_a] 0 = ([False, False, False, True], 4)"
    by code_simp
  from timer_fallback_attempts [OF r, of ?t "[ev_a]" 0] a obtain sleeps
    where s: "timer_FallBack ?t [ev_a] third_time 0 = (Ok (True, sleeps), 4)" "length sleeps = 4"
      "\<forall>k < 4. sleeps ! k = min (2000 * 2 ^ k) 5000" by auto
  have "sleeps = [2000, 4000, 5000, 5000]"
    using s(2) s(3) [rule_format, of 0] s(3) [rule_format, of 1] s(3) [rule_format, of 2] s(3) [rule_format, of 3]
    by (auto simp: length_Suc_conv eval_nat_numeral)
  with s(1) show ?thesis by simp
qed

section \<open>The gatherer\<close>


definition one_slot :: "(int \<times> sniff_data list) memory_queue gatherer" where
  "one_slot = \<lparr>runningQueue = \<lparr>pq_PipeName = ''p'', pq_Partition = 1, pq_config = Map.empty,
       subQueues = [\<lparr>EventBufferSize = 1, buffer = (1, [])\<rparr>], loadBalancerIndex = 0, totalQueueSize = 1\<rparr>,
     receiveCounter = (\<lambda>_. 0), queueOutputCounter = (\<lambda>_. 0), lastEnqueueErrorPrintTime = 0,
     enqueueErrorCounter = [], errorLog = []\<rparr>"


end
