(* ===== verification/Routine_Properties.thy ===== *)
theory Routine_Properties
  imports Routine_Shutdown Queue_Properties Module_Properties
begin

text \<open>
  What holds for a pipe whose routines are interleaved in any way: no event is lost or doubled on
  the way through the queue, the processor and the buffer; when its routines are stopped, it ends
  where nothing is on the way, and never where a routine waits for one that is gone.
\<close>

section \<open>Concrete pipes\<close>

definition fresh_gatherer :: "'q PartitionedQueue \<Rightarrow> 'q gatherer" where
  "fresh_gatherer q = \<lparr>runningQueue = q, receiveCounter = (\<lambda>_. 0), queueOutputCounter = (\<lambda>_. 0),
     lastEnqueueErrorPrintTime = 0, enqueueErrorCounter = [], errorLog = []\<rparr>"

definition prepared_sender :: "nat \<Rightarrow> log_world sender" where
  "prepared_sender k = snd (sender_Prepare (\<lambda>w. (Ok (), w)) k (rec_sender [recording Logging]))"

lemma prepared_sender: "k = 1 \<or> k = 2 \<Longrightarrow> sender_Prepare (\<lambda>w. (Ok (), w)) k (rec_sender [recording Logging]) = (Ok (), prepared_sender k)"
proof -
  have "fst (sender_Prepare (\<lambda>w. (Ok (), w)) 1 (rec_sender [recording Logging])) = Ok ()" by code_simp
  moreover have "fst (sender_Prepare (\<lambda>w. (Ok (), w)) 2 (rec_sender [recording Logging])) = Ok ()" by code_simp
  moreover assume "k = 1 \<or> k = 2"
  ultimately show ?thesis by (auto simp: prepared_sender_def prod_eq_iff)
qed

definition booted :: "(byte list mmap_queue, log_world) routines" where
  "booted = Boot_routines 2 (fresh_gatherer two_mmap) (prepared_sender 2)"

abbreviation two_ops :: "byte list mmap_queue queue_ops" where
  "two_ops \<equiv> mmap_ops arr_lib quiet_os two_pb"

section \<open>Nothing is lost\<close>


abbreviation actions_ab :: "action list" where
  "actions_ab \<equiv> [Receive ev_a 1, ConsumerPoll 1, HandOver 1, Receive ev_b 2, StoreCheck 1, StoreReceive 1, StoreCheck 1,
     StoreTimer 1, FlushSend 1, ConsumerPoll 0, Cancel, StoreRenew 1, FlushConsume 1]"

lemma booted_run:
  "map_option (\<lambda>x. (world (rt_send x), crashed x, consumer_hand (consumer x ! 0))) (run_actions two_ops actions_ab booted)
     = Some ([(Logging, [ev_a]), (Logging, [])], False, [ev_b])"
  by code_simp

lemma booted_taken: "taken_run two_ops actions_ab booted = [ev_a, ev_b]"
  by code_simp


section \<open>Stopping\<close>

definition small :: "((int \<times> sniff_data list) memory_queue, log_world) routines" where
  "small = Boot_routines 1 one_slot (prepared_sender 1)"

abbreviation small_ops :: "(int \<times> sniff_data list) memory_queue queue_ops" where
  "small_ops \<equiv> memory_ops list_fifo"

text \<open>
  C3. A pipe in which nothing is on the way is stopped properly: when the context is cancelled its
  routines can all end, the queue is closed once for every partition, and the sender has shut down
  exactly once, so that the events left in its buffers were forwarded and acknowledged.
\<close>

theorem quiet_pipe_stops:
  assumes "quiet k x" and "0 < k"
    and "\<forall>i < k. fst (gatherer_Shutdown ops (closed_by ops i (rt_gath x))) = Ok ()"
    and "sender_Shutdown False (rt_send x) = (Ok (), s)"
  shows "\<exists>x'. run_actions ops (stop_actions k) x = Some x' \<and> all_ended x' \<and> \<not> crashed x' \<and> rt_send x' = s \<and>
    rt_gath x' = closed_by ops k (rt_gath x)"
  using assms by (rule quiet_stop)

abbreviation fill_a :: "action list" where
  "fill_a \<equiv> [Receive ev_a 1, ConsumerPoll 0, HandOver 0, StoreCheck 0, StoreReceive 0]"

lemma small_filled:
  "(case run_actions small_ops (fill_a @ [StoreCheck 0]) small of None \<Rightarrow> False | Some x \<Rightarrow>
      \<not> crashed x \<and> \<not> receiver_end x \<and> \<not> listen_end x \<and> \<not> shutdownDone (rt_send x) \<and> consumer x = [CLoop] \<and> processor x = [PLoop] \<and>
      storer x = [SSelect] \<and> flusher x = [FLoop] \<and> fst (gatherer_Shutdown small_ops (rt_gath x)) = Ok () \<and>
      world (rt_send x) = [] \<and> fst (sender_Shutdown False (rt_send x)) = Ok () \<and>
      world (snd (sender_Shutdown False (rt_send x))) = [(Logging, [ev_a]), (Logging, [])])"
  by code_simp

theorem quiet_pipe_stops_witness:
  "\<exists>x x'. run_actions small_ops (fill_a @ [StoreCheck 0]) small = Some x \<and> world (rt_send x) = [] \<and>
    run_actions small_ops (stop_actions 1) x = Some x' \<and> all_ended x' \<and>
    world (rt_send x') = [(Logging, [ev_a]), (Logging, [])]"
proof -
  obtain x where x: "run_actions small_ops (fill_a @ [StoreCheck 0]) small = Some x" and w: "world (rt_send x) = []" and q: "quiet 1 x"
    and g: "fst (gatherer_Shutdown small_ops (rt_gath x)) = Ok ()" and s: "fst (sender_Shutdown False (rt_send x)) = Ok ()"
      "world (snd (sender_Shutdown False (rt_send x))) = [(Logging, [ev_a]), (Logging, [])]"
    using small_filled by (simp add: quiet_def split: option.splits)
  have cl: "\<forall>i < 1. fst (gatherer_Shutdown small_ops (closed_by small_ops i (rt_gath x))) = Ok ()"
    using g by (simp add: closed_by_def)
  have sh: "sender_Shutdown False (rt_send x) = (Ok (), snd (sender_Shutdown False (rt_send x)))" using s(1) by (metis prod.collapse)
  from quiet_pipe_stops [OF q _ cl sh] x w s(2) show ?thesis by auto
qed

text \<open>
  C4. A routine that waits for a partner that is gone waits forever: whatever the other routines do
  and whatever the environment does, \<open>Boot\<close> does not return. The waits are a consumer that sends to a
  processor that has ended, a processor that sends to a store that has ended or on a closed channel
  (where it panics when it gets to run), a store that sleeps because the client is disconnected after
  the listener has ended, and a store that sends a batch to a flush routine that has ended.
\<close>

theorem waits_forever:
  assumes "routine_count x = (k, k, k)" and "p < k" and "waits w p x" and "run_actions ops as x = Some x'"
  shows "waits w p x' \<and> \<not> all_ended x'"
  using waits_run [OF assms(4,3)] waits_not_ended [of w p x' k] routine_count_run [OF assms(4)] assms(1,2) by simp

text \<open>Each of them can happen in a pipe with one event, or none.\<close>

fun way_to :: "wait \<Rightarrow> action list" where
  "way_to SendToEndedProcessor = [Receive ev_a 1, ConsumerPoll 0, Cancel, ProcessorStop 0]"
| "way_to SendToEndedStore = [Receive ev_a 1, ConsumerPoll 0, HandOver 0, StoreCheck 0, Cancel, StoreStop 0]"
| "way_to SendOnClosedInput = [Receive ev_a 1, ConsumerPoll 0, HandOver 0, Cancel, FlushStop 0 False]"
| "way_to BlockedByClient = [ListenStatus Disconnect, Cancel, ListenStop]"
| "way_to SendToEndedFlush = fill_a @ [StoreCheck 0, StoreTimer 0, Cancel, FlushStop 0 False]"

definition waits_at :: "wait \<Rightarrow> bool" where
  "waits_at w = (case run_actions small_ops (way_to w) small of None \<Rightarrow> False
     | Some x \<Rightarrow> \<not> crashed x \<and> routine_count x = (1, 1, 1) \<and> waits w 0 x)"

lemma way_to_waits: "waits_at w"
proof -
  have "list_all waits_at [SendToEndedProcessor, SendToEndedStore, SendOnClosedInput, BlockedByClient, SendToEndedFlush]"
    by code_simp
  then show ?thesis by (cases w) simp_all
qed

theorem waits_forever_witness:
  "\<exists>x. run_actions small_ops (way_to SendToEndedProcessor) small = Some x \<and>
    (\<forall>as x'. run_actions small_ops as x = Some x' \<longrightarrow> \<not> all_ended x')"
proof -
  obtain x where x: "run_actions small_ops (way_to SendToEndedProcessor) small = Some x"
    and w: "routine_count x = (1, 1, 1)" "waits SendToEndedProcessor 0 x"
    using way_to_waits [of SendToEndedProcessor] by (auto simp: waits_at_def simp del: way_to.simps split: option.splits)
  from waits_forever [OF w(1) _ w(2)] x show ?thesis by auto
qed

text \<open>The closed channel ends the whole process.\<close>

lemma closed_input_panics:
  "map_option crashed (run_actions small_ops (way_to SendOnClosedInput @ [SendClosed 0]) small) = Some True"
  by code_simp

text \<open>A shutdown that takes longer than the limit forwards the events in the buffers twice.\<close>

lemma late_shutdown_twice:
  "map_option (\<lambda>x. world (rt_send x)) (run_actions small_ops (fill_a @ [Cancel, FlushStop 0 True]) small)
     = Some [(Logging, [ev_a]), (Logging, []), (Logging, [ev_a]), (Logging, [])]"
  by code_simp

text \<open>
  A buffer that was handed to \<open>flush\<close> and is not yet replaced is consumed by the shutdown too, which
  the flush routine of another partition starts: its events are forwarded twice.
\<close>

lemma shutdown_races_store:
  "map_option (\<lambda>x. world (rt_send x)) (run_actions two_ops [Receive ev_a 1, ConsumerPoll 1, HandOver 1, StoreCheck 1,
       StoreReceive 1, StoreCheck 1, StoreTimer 1, FlushSend 1, Cancel, FlushStop 0 False, FlushConsume 1] booted)
     = Some [(Logging, [ev_a]), (Logging, []), (Logging, [ev_a]), (Logging, [])]"
  by code_simp

end
