(* ===== verification/Fetcher_Gatherer.thy ===== *)
theory Fetcher_Gatherer
  imports Routines
begin

text \<open>
  \<open>internal/satellite/module/gatherer/fetcher_gatherer.go\<close>: the gatherer over a fetcher, with the
  goroutines of its \<open>Boot\<close> and their wait group. The fetcher itself is a plugin; what it puts into
  its channel are the events of the actions. The processor that takes the events is one that is
  always there.
\<close>

record 'q FetcherGatherer =
  fg_runningQueue :: "'q PartitionedQueue"
  fg_outputChannel :: nat
  fetchCounter :: status_counter
  fg_queueOutputCounter :: status_counter
  fg_log :: "string list"

definition fetcher_Prepare :: "(plugin_config \<Rightarrow> 'q) \<Rightarrow> 'q queue_ops \<Rightarrow> ('q FetcherGatherer, unit) go" where
  "fetcher_Prepare create ops f =
     (case pq_Initialize create ops (fg_runningQueue f) of
        (Ok _, p) \<Rightarrow> (Ok (), f\<lparr>fg_runningQueue := p, fg_outputChannel := length (subQueues p), fetchCounter := (\<lambda>_. 0),
                              fg_queueOutputCounter := (\<lambda>_. 0)\<rparr>)
      | (r, p) \<Rightarrow> (r, f\<lparr>fg_runningQueue := p\<rparr>))"

definition PartitionCount :: "'q FetcherGatherer \<Rightarrow> nat" where
  "PartitionCount f = fg_outputChannel f"

text \<open>One event of the fetcher: the queue comes before the counter, and every error is logged.\<close>

definition fetch_event :: "'q queue_ops \<Rightarrow> sniff_data \<Rightarrow> ('q FetcherGatherer, unit) go" where
  "fetch_event ops e f =
     (case pq_Enqueue ops e (fg_runningQueue f) of
        (Ok _, p) \<Rightarrow> (Ok (), f\<lparr>fg_runningQueue := p, fetchCounter := Inc ''all'' (fetchCounter f)\<rparr>)
      | (Err x, p) \<Rightarrow>
          (Ok (), f\<lparr>fg_runningQueue := p, fetchCounter := Inc ''abandoned'' (Inc ''all'' (fetchCounter f)),
                    fg_log := fg_log f @ [error_text x]\<rparr>)
      | (Panic, p) \<Rightarrow> (Panic, f\<lparr>fg_runningQueue := p\<rparr>)
      | (Hang, p) \<Rightarrow> (Hang, f\<lparr>fg_runningQueue := p\<rparr>))"

definition fetcher_Shutdown :: "'q queue_ops \<Rightarrow> ('q FetcherGatherer, unit) go" where
  "fetcher_Shutdown ops f =
     (case pq_Close ops (fg_runningQueue f) of
        (Ok _, p) \<Rightarrow> (Ok (), f\<lparr>fg_runningQueue := p\<rparr>)
      | (Err x, p) \<Rightarrow> (Ok (), f\<lparr>fg_runningQueue := p, fg_log := fg_log f @ [error_text x]\<rparr>)
      | (Panic, p) \<Rightarrow> (Panic, f\<lparr>fg_runningQueue := p\<rparr>)
      | (Hang, p) \<Rightarrow> (Hang, f\<lparr>fg_runningQueue := p\<rparr>))"

definition FetcherGatherer_Ack :: "'q queue_ops \<Rightarrow> Offset \<Rightarrow> ('q FetcherGatherer, unit) go" where
  "FetcherGatherer_Ack ops lastOffset f =
     (case pq_Ack ops lastOffset (fg_runningQueue f) of (x, p) \<Rightarrow> (x, f\<lparr>fg_runningQueue := p\<rparr>))"

section \<open>Boot\<close>

text \<open>
  \<open>Boot\<close> calls \<open>consumeQueue\<close> for one partition after the other and waits at its end. \<open>consumeQueue\<close>
  starts a consumer and then waits for the same wait group.
\<close>

datatype boot_pc = BCall nat | BWait nat | BLast | BEnd

record 'q fetch_run =
  fr_gath :: "'q FetcherGatherer"
  fr_done :: bool
  fr_wg :: int
  fr_fetching :: bool
  fr_boot :: boot_pc
  fr_consumer :: "consumer_pc list"
  fr_crashed :: bool

definition fetcher_Boot :: "'q FetcherGatherer \<Rightarrow> 'q fetch_run" where
  "fetcher_Boot f = \<lparr>fr_gath = f, fr_done = False, fr_wg = int (PartitionCount f) + 1, fr_fetching = True, fr_boot = BCall 0,
     fr_consumer = [], fr_crashed = False\<rparr>"

definition boot_turn :: "'q fetch_run \<Rightarrow> 'q fetch_run option" where
  "boot_turn x =
     (case fr_boot x of
        BCall p \<Rightarrow>
          Some (if p < PartitionCount (fr_gath x)
            then x\<lparr>fr_consumer := fr_consumer x @ [CLoop], fr_boot := BWait p\<rparr>
            else x\<lparr>fr_boot := BLast\<rparr>)
      | BWait p \<Rightarrow> if fr_wg x = 0 then Some (x\<lparr>fr_boot := BCall (Suc p)\<rparr>) else None
      | BLast \<Rightarrow> if fr_wg x = 0 then Some (x\<lparr>fr_boot := BEnd\<rparr>) else None
      | BEnd \<Rightarrow> None)"

definition fetch_turn :: "'q queue_ops \<Rightarrow> sniff_data \<Rightarrow> 'q fetch_run \<Rightarrow> 'q fetch_run option" where
  "fetch_turn ops e x =
     (if \<not> fr_fetching x then None
      else case fetch_event ops e (fr_gath x) of
        (Hang, f) \<Rightarrow> None
      | (Panic, f) \<Rightarrow> Some (x\<lparr>fr_gath := f, fr_crashed := True\<rparr>)
      | (_, f) \<Rightarrow> Some (x\<lparr>fr_gath := f\<rparr>))"

definition fetch_stop :: "'q fetch_run \<Rightarrow> 'q fetch_run option" where
  "fetch_stop x = (if fr_done x \<and> fr_fetching x then Some (x\<lparr>fr_fetching := False, fr_wg := fr_wg x - 1\<rparr>) else None)"

definition fetcher_poll :: "'q queue_ops \<Rightarrow> nat \<Rightarrow> 'q fetch_run \<Rightarrow> 'q fetch_run option" where
  "fetcher_poll ops p x =
     (if fr_done x \<or> p \<ge> length (fr_consumer x) \<or> fr_consumer x ! p \<noteq> CLoop then None
      else let f = fr_gath x in
        case pq_Dequeue ops (int p) (fg_runningQueue f) of
          (Ok e, q) \<Rightarrow> Some (x\<lparr>fr_gath := f\<lparr>fg_runningQueue := q\<rparr>, fr_consumer := (fr_consumer x)[p := CSend e]\<rparr>)
        | (Err err, q) \<Rightarrow>
            if err = ErrEmpty then Some (x\<lparr>fr_gath := f\<lparr>fg_runningQueue := q\<rparr>\<rparr>)
            else Some (x\<lparr>fr_gath := f\<lparr>fg_runningQueue := q, fg_queueOutputCounter := Inc ''error'' (fg_queueOutputCounter f),
                          fg_log := fg_log f @ [error_text err]\<rparr>\<rparr>)
        | (Panic, q) \<Rightarrow> Some (x\<lparr>fr_crashed := True\<rparr>)
        | (Hang, q) \<Rightarrow> None)"

text \<open>The processor takes the event from the output channel.\<close>

definition fetcher_hand :: "nat \<Rightarrow> 'q fetch_run \<Rightarrow> 'q fetch_run option" where
  "fetcher_hand p x =
     (if p < length (fr_consumer x)
      then case fr_consumer x ! p of
          CSend e \<Rightarrow> Some (x\<lparr>fr_consumer := (fr_consumer x)[p := CLoop],
            fr_gath := (fr_gath x)\<lparr>fg_queueOutputCounter := Inc ''success'' (fg_queueOutputCounter (fr_gath x))\<rparr>\<rparr>)
        | _ \<Rightarrow> None
      else None)"

definition fetcher_stop :: "nat \<Rightarrow> 'q fetch_run \<Rightarrow> 'q fetch_run option" where
  "fetcher_stop p x =
     (if fr_done x \<and> p < length (fr_consumer x) \<and> fr_consumer x ! p = CLoop
      then Some (x\<lparr>fr_consumer := (fr_consumer x)[p := CClosing]\<rparr>) else None)"

definition fetcher_close :: "'q queue_ops \<Rightarrow> nat \<Rightarrow> 'q fetch_run \<Rightarrow> 'q fetch_run option" where
  "fetcher_close ops p x =
     (if p < length (fr_consumer x) \<and> fr_consumer x ! p = CClosing
      then case fetcher_Shutdown ops (fr_gath x) of
          (Hang, f) \<Rightarrow> None
        | (Panic, f) \<Rightarrow> Some (x\<lparr>fr_gath := f, fr_crashed := True\<rparr>)
        | (_, f) \<Rightarrow> Some (x\<lparr>fr_gath := f, fr_consumer := (fr_consumer x)[p := CEnd], fr_wg := fr_wg x - 1\<rparr>)
      else None)"

text \<open>The steps; cancelling the context is one of them.\<close>

inductive fetch_step :: "'q queue_ops \<Rightarrow> 'q fetch_run \<Rightarrow> 'q fetch_run \<Rightarrow> bool" for ops where
  cancelled: "\<not> fr_crashed x \<Longrightarrow> fetch_step ops x (x\<lparr>fr_done := True\<rparr>)"
| booted: "\<not> fr_crashed x \<Longrightarrow> boot_turn x = Some x' \<Longrightarrow> fetch_step ops x x'"
| fetched: "\<not> fr_crashed x \<Longrightarrow> fetch_turn ops e x = Some x' \<Longrightarrow> fetch_step ops x x'"
| fetch_ended: "\<not> fr_crashed x \<Longrightarrow> fetch_stop x = Some x' \<Longrightarrow> fetch_step ops x x'"
| polled: "\<not> fr_crashed x \<Longrightarrow> fetcher_poll ops p x = Some x' \<Longrightarrow> fetch_step ops x x'"
| handed: "\<not> fr_crashed x \<Longrightarrow> fetcher_hand p x = Some x' \<Longrightarrow> fetch_step ops x x'"
| stopped: "\<not> fr_crashed x \<Longrightarrow> fetcher_stop p x = Some x' \<Longrightarrow> fetch_step ops x x'"
| closed: "\<not> fr_crashed x \<Longrightarrow> fetcher_close ops p x = Some x' \<Longrightarrow> fetch_step ops x x'"

inductive_cases fetch_stepE: "fetch_step ops x x'"

section \<open>The wait group\<close>

text \<open>The wait group counts the routines that have not ended and the consumers that are not started.\<close>

definition ended :: "'q fetch_run \<Rightarrow> nat" where
  "ended x = length (filter (\<lambda>c. c = CEnd) (fr_consumer x)) + (if fr_fetching x then 0 else 1)"

definition fetch_inv :: "nat \<Rightarrow> 'q fetch_run \<Rightarrow> bool" where
  "fetch_inv k x \<longleftrightarrow> PartitionCount (fr_gath x) = k \<and> fr_wg x = int k + 1 - int (ended x) \<and>
     (case fr_boot x of BCall p \<Rightarrow> length (fr_consumer x) = p \<and> p \<le> k | BWait p \<Rightarrow> length (fr_consumer x) = Suc p \<and> p < k
      | _ \<Rightarrow> length (fr_consumer x) = k)"

lemma ended_update:
  assumes "p < length cs" and "cs ! p \<noteq> CEnd"
  shows "length (filter (\<lambda>c. c = CEnd) (cs[p := c])) = length (filter (\<lambda>c. c = CEnd) cs) + (if c = CEnd then 1 else 0)"
  using assms by (induction cs arbitrary: p) (auto simp: nth_Cons split: nat.splits)

text \<open>No step but those of \<open>Boot\<close> changes what the invariant is about.\<close>

definition fetch_view :: "'q fetch_run \<Rightarrow> nat \<times> boot_pc \<times> nat \<times> int" where
  "fetch_view x = (PartitionCount (fr_gath x), fr_boot x, length (fr_consumer x), fr_wg x + int (ended x))"

lemma fetch_inv_view: "fetch_view x' = fetch_view x \<Longrightarrow> fetch_inv k x' = fetch_inv k x"
  by (auto simp: fetch_view_def fetch_inv_def split: boot_pc.splits)

lemma fetch_event_count: "fetch_event ops e f = (r, f') \<Longrightarrow> PartitionCount f' = PartitionCount f"
  by (auto simp: fetch_event_def PartitionCount_def split: prod.splits outcome.splits)

lemma fetcher_Shutdown_count: "fetcher_Shutdown ops f = (r, f') \<Longrightarrow> PartitionCount f' = PartitionCount f"
  by (auto simp: fetcher_Shutdown_def PartitionCount_def split: prod.splits outcome.splits)

lemma fetch_step_view: "fetch_step ops x x' \<Longrightarrow> fetch_view x' = fetch_view x \<or> boot_turn x = Some x'"
proof (erule fetch_stepE)
  fix e assume "fetch_turn ops e x = Some x'"
  then have "fetch_view x' = fetch_view x"
    by (auto simp: fetch_turn_def fetch_view_def ended_def dest!: fetch_event_count split: if_splits prod.splits outcome.splits)
  then show ?thesis ..
next
  fix p assume "fetcher_poll ops p x = Some x'"
  then have "fetch_view x' = fetch_view x"
    by (auto simp: fetcher_poll_def Let_def fetch_view_def ended_def ended_update PartitionCount_def split: if_splits prod.splits outcome.splits)
  then show ?thesis ..
next
  fix p assume "fetcher_close ops p x = Some x'"
  then have "fetch_view x' = fetch_view x"
    by (auto simp: fetcher_close_def fetch_view_def ended_def ended_update dest!: fetcher_Shutdown_count split: if_splits prod.splits outcome.splits)
  then show ?thesis ..
next
  fix p assume "fetcher_hand p x = Some x'"
  then have "fetch_view x' = fetch_view x"
    by (auto simp: fetcher_hand_def fetch_view_def ended_def ended_update PartitionCount_def split: if_splits consumer_pc.splits)
  then show ?thesis ..
qed (auto simp: fetch_stop_def fetcher_stop_def fetch_view_def ended_def ended_update split: if_splits)

lemma fetch_step_inv:
  assumes "fetch_step ops x x'" and i: "fetch_inv k x"
  shows "fetch_inv k x'"
  using fetch_step_view [OF assms(1)]
proof
  assume "boot_turn x = Some x'"
  with i show ?thesis by (cases "fr_boot x") (auto simp: boot_turn_def fetch_inv_def ended_def split: if_split_asm)
qed (use i fetch_inv_view in blast)

lemma fetcher_Boot_inv: "fetch_inv (PartitionCount f) (fetcher_Boot f)"
  by (simp add: fetch_inv_def fetcher_Boot_def ended_def)

text \<open>With two partitions or more the first \<open>consumeQueue\<close> never returns: at most two routines have started.\<close>

lemma first_wait_stays:
  assumes "fetch_step ops x x'" and i: "fetch_inv k x" and "2 \<le> k" and b: "fr_boot x = BCall 0 \<or> fr_boot x = BWait 0"
  shows "fr_boot x' = BCall 0 \<or> fr_boot x' = BWait 0"
proof -
  have "length (filter (\<lambda>c. c = CEnd) (fr_consumer x)) \<le> length (fr_consumer x)" by simp
  moreover have "length (fr_consumer x) \<le> 1" using i b by (auto simp: fetch_inv_def)
  ultimately have "ended x \<le> 2" by (simp only: ended_def split: if_split) linarith
  with i assms(3) have "fr_wg x \<noteq> 0" by (auto simp: fetch_inv_def)
  with fetch_step_view [OF assms(1)] b i assms(3) show ?thesis by (auto simp: boot_turn_def fetch_inv_def fetch_view_def)
qed

text \<open>
  A fetcher gatherer with several partitions consumes the first one only, and its \<open>Boot\<close> does not
  return, not even after the context is done.
\<close>

lemma fetcher_first_partition_only:
  assumes "(fetch_step ops)\<^sup>*\<^sup>* (fetcher_Boot f) x" and "2 \<le> PartitionCount f"
  shows "fr_boot x \<noteq> BEnd \<and> length (fr_consumer x) \<le> 1 \<and> (0 < p \<longrightarrow> fetcher_poll ops p x = None)"
proof -
  have "fetch_inv (PartitionCount f) x \<and> (fr_boot x = BCall 0 \<or> fr_boot x = BWait 0)"
    using assms(1)
  proof induction
    case base
    show ?case using fetcher_Boot_inv [of f] by (simp add: fetcher_Boot_def)
  next
    case (step y z)
    then show ?case using fetch_step_inv first_wait_stays [OF _ _ assms(2)] by blast
  qed
  then show ?thesis by (auto simp: fetch_inv_def fetcher_poll_def)
qed

text \<open>With one partition it can be stopped, whenever its consumer is between two polls.\<close>

lemma single_partition_stops:
  assumes i: "fetch_inv 1 x" and ok: "\<not> fr_crashed x" and run: "fr_fetching x" "fr_boot x = BWait 0" "fr_consumer x = [CLoop]"
    and "fst (fetcher_Shutdown ops (fr_gath x)) = Ok ()"
  shows "\<exists>x'. (fetch_step ops)\<^sup>*\<^sup>* x x' \<and> fr_boot x' = BEnd"
proof -
  obtain f where f: "fetcher_Shutdown ops (fr_gath x) = (Ok (), f)" using assms(6) by (metis prod.collapse)
  then have k: "PartitionCount f = 1" using i
    by (auto simp: fetcher_Shutdown_def fetch_inv_def PartitionCount_def split: prod.splits outcome.splits)
  have wg: "fr_wg x = 2" using i run by (simp add: fetch_inv_def ended_def)
  let ?a = "x\<lparr>fr_done := True\<rparr>"
  let ?b = "?a\<lparr>fr_fetching := False, fr_wg := 1\<rparr>"
  let ?c = "?b\<lparr>fr_consumer := [CClosing]\<rparr>"
  let ?d = "?c\<lparr>fr_gath := f, fr_consumer := [CEnd], fr_wg := 0\<rparr>"
  have "(fetch_step ops)\<^sup>*\<^sup>* x ?a" using cancelled [OF ok] by blast
  also have "fetch_step ops ?a ?b" by (rule fetch_ended) (use ok run wg in \<open>simp_all add: fetch_stop_def\<close>)
  also have "fetch_step ops ?b ?c" by (rule stopped [of _ 0]) (use ok run in \<open>simp_all add: fetcher_stop_def\<close>)
  also have "fetch_step ops ?c ?d" by (rule closed [of _ _ 0]) (use ok f in \<open>simp_all add: fetcher_close_def\<close>)
  also have "fetch_step ops ?d (?d\<lparr>fr_boot := BCall 1\<rparr>)" by (rule booted) (use ok run in \<open>simp_all add: boot_turn_def\<close>)
  also have "fetch_step ops (?d\<lparr>fr_boot := BCall 1\<rparr>) (?d\<lparr>fr_boot := BLast\<rparr>)"
    by (rule booted) (use ok k in \<open>simp_all add: boot_turn_def\<close>)
  also have "fetch_step ops (?d\<lparr>fr_boot := BLast\<rparr>) (?d\<lparr>fr_boot := BEnd\<rparr>)" by (rule booted) (use ok in \<open>simp_all add: boot_turn_def\<close>)
  finally show ?thesis by fastforce
qed

end
