(* ===== verification/Mmap_Swap.thy ===== *)
theory Mmap_Swap
  imports Mmap_Refine
begin

text \<open>
  The swapper and the locks: when \<open>doSwap\<close> makes room, when it never returns, and what an
  error of \<open>GetSegment\<close> does to the lock its caller holds.
\<close>

section \<open>Unmapping\<close>

lemma unmapSegment_None:
  "mq_wf lib os q \<Longrightarrow> 0 \<le> i \<Longrightarrow> segments q ! nat (GetIndex q i) = None \<Longrightarrow> unmapSegment lib os i q = (Ok (), q)"
  by (simp add: unmapSegment_def Let_def index_in_range)

lemma unmapSegment_Some:
  assumes "mq_wf lib os q" and "0 \<le> i" and "segments q ! nat (GetIndex q i) = Some f"
    and "\<forall>f. Flush lib f = None \<and> Unmap lib f = None"
  shows "\<exists>q'. unmapSegment lib os i q = (Ok (), q') \<and> mmapCount q' = mmapCount q - 1"
  using assms by (simp add: unmapSegment_def Let_def index_in_range flush_to_disk_def)

text \<open>A segment that a pass of \<open>doSwap\<close> unmaps: it is mapped, and neither written nor read.\<close>

definition victim :: "'f mmap_queue \<Rightarrow> int \<Rightarrow> int \<Rightarrow> int \<Rightarrow> bool" where
  "victim q w r i \<longleftrightarrow> GetIndex q i \<noteq> w \<and> GetIndex q i \<noteq> r \<and> segments q ! nat (GetIndex q i) \<noteq> None"

lemma swap_pass_count:
  "mq_wf lib os q \<Longrightarrow> list_all (\<lambda>i. 0 \<le> i) ids \<Longrightarrow> \<forall>f. Flush lib f = None \<and> Unmap lib f = None \<Longrightarrow>
   \<exists>b q'. swap_pass lib os c w r ids q = (Ok b, q') \<and> mmapCount q' \<le> mmapCount q \<and>
     (b \<longrightarrow> MaxInMemSegments q - mmapCount q' \<ge> MaxInMemSegments q div 2 - 1) \<and>
     (\<not> b \<and> (\<exists>i \<in> set ids. victim q w r i) \<longrightarrow> mmapCount q' < mmapCount q)"
proof (induction ids arbitrary: q)
  case (Cons i ids)
  have i: "0 \<le> i" and ids: "list_all (\<lambda>i. 0 \<le> i) ids" using Cons.prems(2) by auto
  note IH = Cons.IH [OF _ ids Cons.prems(3)]
  show ?case
  proof (cases "GetIndex q i = w \<or> GetIndex q i = r")
    case True
    then show ?thesis using IH [OF Cons.prems(1)] by (auto simp: victim_def)
  next
    case out: False
    show ?thesis
    proof (cases "segments q ! nat (GetIndex q i)")
      case None
      then show ?thesis
        using out IH [OF Cons.prems(1)] unmapSegment_None [OF Cons.prems(1) i None] by (auto simp: victim_def)
    next
      case (Some f)
      obtain q1 where u: "unmapSegment lib os i q = (Ok (), q1)" and n: "mmapCount q1 = mmapCount q - 1"
        using unmapSegment_Some [OF Cons.prems(1) i Some Cons.prems(3)] by blast
      have v: "same_view lib os q q1" by (rule unmapSegment_view [OF Cons.prems(1) u])
      show ?thesis
      proof (cases "\<not> c \<and> MaxInMemSegments q1 - mmapCount q1 \<ge> MaxInMemSegments q1 div 2 - 1")
        case True
        then show ?thesis
          using out u n same_view_fields(3) [OF v] by (intro exI [of _ True] exI [of _ q1]) simp
      next
        case False
        obtain b q' where "swap_pass lib os c w r ids q1 = (Ok b, q')" and "mmapCount q' \<le> mmapCount q1"
          and "b \<longrightarrow> MaxInMemSegments q1 - mmapCount q' \<ge> MaxInMemSegments q1 div 2 - 1"
          using IH [OF same_view_wf [OF v]] by blast
        then show ?thesis
          using False out u n same_view_fields(3) [OF v] by (intro exI [of _ b] exI [of _ q']) auto
      qed
    qed
  qed
qed auto

text \<open>With a victim in its window, \<open>doSwap\<close> returns and leaves room for a segment.\<close>

lemma doSwap_frees:
  assumes wf: "mq_wf lib os q" and ok: "\<forall>f. Flush lib f = None \<and> Unmap lib f = None"
    and max: "4 \<le> MaxInMemSegments q" "mmapCount q = MaxInMemSegments q"
    and wID: "fst (GetWritingOffset lib (meta q)) = wID" and rID: "fst (GetReadingOffset lib (meta q)) = rID"
    and vic: "i \<in> set (swap_ids q (wID + QueueCapacitySegments q))" "victim q (GetIndex q wID) (GetIndex q rID) i"
  shows "\<exists>q'. doSwap lib os q = (Ok (), q') \<and> mmapCount q' < MaxInMemSegments q' \<and> same_view lib os q q'"
proof -
  let ?c = "wID - rID + 1 > MaxInMemSegments q * 3 div 2" and ?ids = "swap_ids q (wID + QueueCapacitySegments q)"
  have pos: "list_all (\<lambda>i. 0 \<le> i) ?ids" by (auto simp: swap_ids_def list_all_iff)
  obtain b q' where p: "swap_pass lib os ?c (GetIndex q wID) (GetIndex q rID) ?ids q = (Ok b, q')"
    and le: "b \<longrightarrow> MaxInMemSegments q - mmapCount q' \<ge> MaxInMemSegments q div 2 - 1"
    and lt: "\<not> b \<longrightarrow> mmapCount q' < mmapCount q"
    using swap_pass_count [OF wf pos ok, of ?c "GetIndex q wID" "GetIndex q rID"] vic by blast
  have v: "same_view lib os q q'" by (rule swap_pass_view [OF wf p])
  have room: "mmapCount q' < MaxInMemSegments q'"
    using le lt max same_view_fields(3) [OF v] by (cases b) auto
  obtain n where n: "nat (mmapCount q) + 2 = Suc (Suc n)" by auto
  have "doSwap lib os q = (Ok (), q')"
    using p room max wID rID unfolding doSwap_def doSwap_fuel_def Let_def n by (cases b) auto
  with room v show ?thesis by blast
qed

text \<open>Without one, no number of passes is enough.\<close>

lemma swap_pass_idle:
  "mq_wf lib os q \<Longrightarrow> list_all (\<lambda>i. 0 \<le> i) ids \<Longrightarrow> \<forall>i \<in> set ids. \<not> victim q w r i \<Longrightarrow>
   4 \<le> MaxInMemSegments q \<Longrightarrow> MaxInMemSegments q \<le> mmapCount q \<Longrightarrow>
   swap_pass lib os c w r ids q = (Ok False, q)"
  by (induction ids) (auto simp: victim_def unmapSegment_None)

lemma doSwap_stuck:
  assumes wf: "mq_wf lib os q" and max: "4 \<le> MaxInMemSegments q" "MaxInMemSegments q \<le> mmapCount q"
    and wID: "fst (GetWritingOffset lib (meta q)) = wID" and rID: "fst (GetReadingOffset lib (meta q)) = rID"
    and none: "\<forall>i \<in> set (swap_ids q (wID + QueueCapacitySegments q)). \<not> victim q (GetIndex q wID) (GetIndex q rID) i"
  shows "doSwap_fuel fuel lib os q = (Hang, q)"
proof -
  let ?ids = "swap_ids q (wID + QueueCapacitySegments q)"
  have pos: "list_all (\<lambda>i. 0 \<le> i) ?ids" by (auto simp: swap_ids_def list_all_iff)
  have "swap_loop fuel lib os c (GetIndex q wID) (GetIndex q rID) ?ids q = (Hang, q)" for c
    using swap_pass_idle [OF wf pos none max] max by (induction fuel) simp_all
  then show ?thesis by (simp add: doSwap_fuel_def Let_def wID rID)
qed

section \<open>Locks after an error\<close>

lemma unmapSegment_locker: "unmapSegment lib os sid q = (r, q') \<Longrightarrow> locker q' = locker q"
  by (auto simp: unmapSegment_def Let_def flush_to_disk_def split: if_splits option.splits)

lemma mapSegment_locker: "mapSegment lib os sid q = (r, q') \<Longrightarrow> locker q' = locker q"
  by (auto simp: mapSegment_def Let_def split: if_splits option.splits prod.splits outcome.splits)

lemma swap_pass_locker: "swap_pass lib os c w r ids q = (x, q') \<Longrightarrow> locker q' = locker q"
proof (induction ids arbitrary: q)
  case (Cons i ids)
  obtain y q1 where u: "unmapSegment lib os i q = (y, q1)" by fastforce
  show ?case
    using Cons.prems u unmapSegment_locker [OF u] Cons.IH [of q1] Cons.IH [of q]
    by (cases y) (auto split: if_splits)
qed simp

lemma swap_loop_locker: "swap_loop n lib os c w r ids q = (x, q') \<Longrightarrow> locker q' = locker q"
proof (induction n arbitrary: q)
  case (Suc n)
  obtain y q1 where p: "swap_pass lib os c w r ids q = (y, q1)" by fastforce
  show ?case
    using Suc.prems p swap_pass_locker [OF p] Suc.IH [of q1]
    by (cases y) (auto split: if_splits bool.splits)
qed simp

lemma doSwap_locker: "doSwap lib os q = (x, q') \<Longrightarrow> locker q' = locker q"
  unfolding doSwap_def doSwap_fuel_def Let_def by (rule swap_loop_locker)

lemma swapper_insufficient_locker: "swapper_insufficient lib os q = (x, q') \<Longrightarrow> locker q' = locker q"
  by (auto simp: swapper_insufficient_def split: if_splits prod.splits outcome.splits dest: doSwap_locker)

lemma GetSegment_locker_same:
  assumes "GetSegment lib os sid q = (r, q')"
  shows "locker q' = locker q"
  using assms unfolding GetSegment_def
  by (rule go_bind_inv [rotated 2, where I = "\<lambda>q1. locker q1 = locker q"])
    (auto dest!: swapper_insufficient_locker elim!: go_bind_inv [rotated 2] mapSegment_locker [THEN trans]
      simp: Let_def split: if_splits option.splits)

text \<open>\<open>writeLength\<close> that fails leaves the lock of its segment held.\<close>

lemma writeLength_Err_locked:
  assumes wf: "mq_wf lib os q" and pos: "pos_ok q sid offset"
    and run: "writeLength lib os len sid offset q = (Err e, q')"
  shows "writeLength lib os len' sid offset q' = (Hang, q')"
proof -
  obtain s k where lp: "length_pos q sid offset = (s, k)" by fastforce
  have s: "0 \<le> s" using length_pos_addr(1) [OF lp pos wf_size(1) [OF wf]] by (simp add: pos_ok_def)
  let ?rest = "\<lambda>ix. go_bind (seg_WriteUint64At lib ix (intToUint64 len) k) (\<lambda>_.
        go_bind (unlock s) (\<lambda>_ q. (Ok (next_pos q s (k + uInt64Size)), q)))"
  have rest: "?rest ix q2 \<noteq> (Err e, q')" for ix q2
    by (intro go_bind_no_Err) (auto simp: seg_WriteUint64At_def unlock_def unlockByIndex_def split: option.splits)
  let ?q1 = "q\<lparr>locker := (locker q)[nat (GetIndex q s) := True]\<rparr>"
  have l: "lock s q = (Ok (), ?q1)" and g: "go_bind (GetSegment lib os s) ?rest ?q1 = (Err e, q')"
    using run lp by (auto simp: writeLength_def lock_def lockByIndex_def go_bind_def split: if_splits)
  then have get: "GetSegment lib os s ?q1 = (Err e, q')"
    using rest by (auto simp: go_bind_def [of "GetSegment lib os s"] split: prod.splits outcome.splits)
  have v1: "same_view lib os q ?q1" by (rule lock_view [OF wf l])
  have v: "same_view lib os q q'"
    using same_view_trans [OF v1 GetSegment_view [OF same_view_wf [OF v1] get]] .
  have "locker q' = (locker q)[nat (GetIndex q s) := True]" using GetSegment_locker_same [OF get] by simp
  then have "lock s q' = (Hang, q')"
    using index_in_range [OF wf s] wf_lock [OF wf] same_view_fields(8) [OF v]
    by (simp add: lock_def lockByIndex_def in_range_def)
  moreover have "length_pos q' sid offset = (s, k)"
    using lp same_view_fields(1) [OF v] by (simp add: length_pos_def)
  ultimately show ?thesis by (simp add: writeLength_def go_bind_def)
qed

end
