(* ===== verification/Mmap_Steps.thy ===== *)
theory Mmap_Steps
  imports Mmap_Restart Mmap_Swap
begin

text \<open>
  The memory mapped queue as a state machine: the gatherer enqueues, the sender dequeues and
  acknowledges, the timer of the flush goroutine flushes, and the swapper handles what is in
  its channel, in any order. A configuration is the queue with the events accepted and the
  events delivered so far.
\<close>

datatype mq_label = SEnq sniff_data | SDeq | SAck Offset | SFlush | SSwap

type_synonym 'f mq_config = "'f mmap_queue \<times> sniff_data list \<times> sniff_data list"

inductive mq_step :: "'f mmap_lib \<Rightarrow> os_env \<Rightarrow> proto_lib \<Rightarrow> mq_label \<Rightarrow> 'f mq_config \<Rightarrow> 'f mq_config \<Rightarrow> bool"
  for lib os pb where
  enq: "Enqueue lib os pb e q = (Ok (), q') \<Longrightarrow> mq_step lib os pb (SEnq e) (q, acc, del) (q', acc @ [e], del)"
| enq_error: "Enqueue lib os pb e q = (Err x, q') \<Longrightarrow> mq_step lib os pb (SEnq e) (q, acc, del) (q', acc, del)"
| deq: "Dequeue lib os pb q = (Ok se, q') \<Longrightarrow> mq_step lib os pb SDeq (q, acc, del) (q', acc, del @ [se_Event se])"
| deq_error: "Dequeue lib os pb q = (Err x, q') \<Longrightarrow> mq_step lib os pb SDeq (q, acc, del) (q', acc, del)"
| ack: "Ack lib lastOffset q = (Ok (), q') \<Longrightarrow> mq_step lib os pb (SAck lastOffset) (q, acc, del) (q', acc, del)"
| flush_tick: "doFlush lib os q = (Ok (), q') \<Longrightarrow> mq_step lib os pb SFlush (q, acc, del) (q', acc, del)"
| swap_tick: "swapper_receive lib os q = (Ok (), q') \<Longrightarrow> mq_step lib os pb SSwap (q, acc, del) (q', acc, del)"

inductive_cases mq_stepE: "mq_step lib os pb l (q, acc, del) c"

inductive_simps mq_step_simps: "mq_step lib os pb l (q, acc, del) (q', acc', del')"

text \<open>The configurations after a sequence of labels.\<close>

inductive mq_path :: "'f mmap_lib \<Rightarrow> os_env \<Rightarrow> proto_lib \<Rightarrow> 'f mq_config \<Rightarrow> mq_label list \<Rightarrow> 'f mq_config \<Rightarrow> bool"
  for lib os pb c0 where
  start: "mq_path lib os pb c0 [] c0"
| step: "mq_path lib os pb c0 ls c \<Longrightarrow> mq_step lib os pb l c c' \<Longrightarrow> mq_path lib os pb c0 (ls @ [l]) c'"

definition mq_inv :: "'f mmap_lib \<Rightarrow> os_env \<Rightarrow> proto_lib \<Rightarrow> nat \<Rightarrow> 'f mq_config \<Rightarrow> bool" where
  "mq_inv lib os pb n c \<longleftrightarrow> (case c of (q, acc, del) \<Rightarrow> \<exists>rest. mq_pending lib os pb n q rest \<and> del @ rest = acc)"

lemma keeps_pending: "keeps lib os q q' \<Longrightarrow> mq_pending lib os pb n q es \<Longrightarrow> mq_pending lib os pb n q' es"
  unfolding mq_pending_def using keeps_holds by blast

lemma pending_wf: "mq_pending lib os pb n q es \<Longrightarrow> mq_wf lib os q"
  by (auto simp: mq_pending_def holds_def)

lemma Ack_keeps: "mq_wf lib os q \<Longrightarrow> Ack lib off q = (r, q') \<Longrightarrow> keeps lib os q q'"
  using meta_update_keeps [of lib os q "PutCommittedOffset lib i k (meta q)" for i k]
    meta_wf_put(3) [of lib "meta q"] get_put_other [of lib "meta q"] wf_laws [of lib os q] wf_meta [of lib os q]
    same_view_keeps [OF same_view_refl, of lib os q]
  by (auto simp: Ack_def Let_def split: if_splits prod.splits)

lemma mq_step_inv:
  assumes "mq_step lib os pb l c c'" and "mq_inv lib os pb (Suc n) c"
  shows "mq_inv lib os pb n c'"
proof -
  obtain q acc del where c: "c = (q, acc, del)" by (cases c)
  then obtain rest where p: "mq_pending lib os pb (Suc n) q rest" and acc: "del @ rest = acc"
    using assms(2) by (auto simp: mq_inv_def)
  note wf = pending_wf [OF p] and less = mq_pending_less [OF p]
  have keep: "mq_inv lib os pb n (q', acc, del)" if "keeps lib os q q'" for q'
    using keeps_pending [OF that less] acc by (auto simp: mq_inv_def)
  from assms(1)[unfolded c] show ?thesis
  proof (rule mq_stepE)
    fix e q' assume "c' = (q', acc @ [e], del)" "Enqueue lib os pb e q = (Ok (), q')"
    with mq.enq_Ok [OF p, of e "()" q'] acc show ?thesis by (auto simp: mq_inv_def)
  next
    fix e x q' assume "c' = (q', acc, del)" "Enqueue lib os pb e q = (Err x, q')"
    with mq.enq_Err [OF p] acc show ?thesis by (auto simp: mq_inv_def)
  next
    fix se q' assume "c' = (q', acc, del @ [se_Event se])" "Dequeue lib os pb q = (Ok se, q')"
    with mq.deq_Ok [OF p] acc show ?thesis by (fastforce simp: mq_inv_def)
  next
    fix x q' assume "c' = (q', acc, del)" "Dequeue lib os pb q = (Err x, q')"
    with mq.deq_Err [OF p] acc show ?thesis by (auto simp: mq_inv_def)
  next
    fix off q' assume "c' = (q', acc, del)" "Ack lib off q = (Ok (), q')"
    with Ack_keeps [OF wf] keep show ?thesis by blast
  next
    fix q' assume "c' = (q', acc, del)" "doFlush lib os q = (Ok (), q')"
    with wp_Ok [OF wp_doFlush [OF wf calm_True]] keep show ?thesis by blast
  next
    fix q' assume "c' = (q', acc, del)" "swapper_receive lib os q = (Ok (), q')"
    with wp_Ok [OF wp_swapper_receive [OF wf calm_True]] same_view_keeps [OF _ wf] keep show ?thesis by blast
  qed
qed

lemma mq_path_inv:
  "mq_path lib os pb c0 ls c \<Longrightarrow> mq_inv lib os pb (length ls + n) c0 \<Longrightarrow> mq_inv lib os pb n c"
proof (induction arbitrary: n rule: mq_path.induct)
  case (step ls c l c')
  from step.IH [of "Suc n"] step.prems have "mq_inv lib os pb (Suc n) c" by simp
  with mq_step_inv [OF step.hyps(2)] show ?case by simp
qed simp

end
