(* ===== verification/Mmap_Properties.thy ===== *)
theory Mmap_Properties
  imports Mmap_Steps Instances
begin

text \<open>
  The properties of the memory mapped queue, each with a witness that evaluates the model on
  the libraries of \<open>Instances\<close>.
\<close>

lemma decode_encode:
  assumes "0 \<le> i" and "i \<le> MaxInt64" and "0 \<le> k" and "k \<le> MaxInt64"
  shows "decodeOffset (encodeOffset i k) = Ok (i, k)"
proof -
  have no: "CHR ''-'' \<notin> set (FormatInt j)" if "0 \<le> j" for j
    using that digits_of_no_sign by (auto simp: FormatInt_def)
  have "Split (CHR ''-'') (FormatInt i @ ''-'' @ FormatInt k) = [FormatInt i, FormatInt k]"
    using Split_append_sep [OF no [OF assms(1)], of "FormatInt k"] Split_no_sep [OF no [OF assms(3)]] by simp
  with assms show ?thesis
    by (simp add: decodeOffset_def encodeOffset_def ParseInt_FormatInt MaxInt64_def)
qed

text \<open>Evaluation of the small queue.\<close>

lemma run_small:
  "qrun (Enqueue arr_lib quiet_os two_pb) (Dequeue arr_lib quiet_os two_pb)
     [QEnq ev_a, QEnq ev_b, QDeq] (opened 5) \<noteq> None"
  by code_simp

text \<open>
  C1. The memory mapped queue is a FIFO queue. From a queue that holds the events \<open>es\<close>, any
  sequence of \<open>Enqueue\<close> and \<open>Dequeue\<close> calls that return delivers, in order and without loss
  or duplication, the events it held followed by the events it accepted; what is not delivered
  is still held. The bytes of an event may cross segments, segments are mapped, unmapped and
  swapped, calls may fail.
\<close>

theorem mmap_queue_fifo:
  assumes "mq_pending lib os pb (length ops + n) q es"
    and "qrun (Enqueue lib os pb) (Dequeue lib os pb) ops q = Some (acc, del, s)"
  shows "\<exists>rest. mq_pending lib os pb n s rest \<and> del @ rest = es @ acc"
  using assms by (rule mq.run_fifo)

theorem mmap_queue_fifo_witness:
  "\<exists>acc del s rest. qrun (Enqueue arr_lib quiet_os two_pb) (Dequeue arr_lib quiet_os two_pb)
     [QEnq ev_a, QEnq ev_b, QDeq] (opened 5) = Some (acc, del, s) \<and>
     mq_pending arr_lib quiet_os two_pb 0 s rest \<and> del @ rest = [] @ acc"
proof -
  obtain acc del s where run: "qrun (Enqueue arr_lib quiet_os two_pb) (Dequeue arr_lib quiet_os two_pb)
     [QEnq ev_a, QEnq ev_b, QDeq] (opened 5) = Some (acc, del, s)"
    using run_small by fastforce
  have "mq_pending arr_lib quiet_os two_pb (length [QEnq ev_a, QEnq ev_b, QDeq] + 0) (opened 5) []"
    by (rule opened_pending) (simp_all add: MaxInt64_def)
  from mmap_queue_fifo [OF this run] run show ?thesis by blast
qed

text \<open>
  C8. A new queue. When no system call fails and there is no metadata file, \<open>Initialize\<close>
  returns without error, the queue is ready and holds no event, and its counters stay in range
  for \<open>n\<close> calls.
\<close>

theorem mmap_initialize_new:
  assumes "mmap_laws lib" and "proto_laws pb" and "faultless lib os" and "fresh q"
    and "8 \<le> norm_size os (SegmentSize q)" and "0 < QueueCapacitySegments q"
    and "files q (filepath_Abs os (meta_path (''mmap-queue_'' @ PipeName q))) = None"
    and "conf_ok (init_conf os q)" and "int n * QueueCapacitySegments q \<le> MaxInt64"
  shows "\<exists>q'. Initialize lib os q = (Ok (), q') \<and> ready q' \<and> UsedCount q' = 0 \<and> mq_pending lib os pb n q' []"
  using Initialize_new [OF assms(1,3-9)] assms(2) by (auto simp: mq_pending_def UsedCount_def)

theorem mmap_initialize_new_witness:
  "\<exists>q'. Initialize arr_lib quiet_os (new_queue 3) = (Ok (), q') \<and> ready q' \<and> UsedCount q' = 0 \<and>
     mq_pending arr_lib quiet_os two_pb 100 q' []"
  by (rule mmap_initialize_new [OF arr_lib_laws two_pb_laws quiet_os_faultless])
    (simp_all add: fresh_def new_queue_def norm_size_def quiet_os_def conf_ok_def init_conf_def MaxInt64_def)

text \<open>
  C9. Every interleaving of the producer, the consumer, acknowledgements, the flush timer and
  the swapper keeps the queue consistent: after any sequence of steps from a queue without
  events, the delivered events are a prefix of the accepted ones, and the queue holds exactly
  the rest.
\<close>

theorem mmap_reachable:
  assumes "mq_path lib os pb (q0, [], []) ls (q, acc, del)"
    and "mq_pending lib os pb (length ls + n) q0 []"
  shows "\<exists>rest. mq_pending lib os pb n q rest \<and> del @ rest = acc"
proof -
  have "mq_inv lib os pb (length ls + n) (q0, [], [])" using assms(2) by (simp add: mq_inv_def)
  from mq_path_inv [OF assms(1) this] show ?thesis by (simp add: mq_inv_def)
qed

lemma step_example:
  assumes "Enqueue arr_lib quiet_os two_pb ev_a q = (Ok (), q')"
  shows "mq_path arr_lib quiet_os two_pb (q, [], []) [SEnq ev_a] (q', [ev_a], [])"
  using mq_path.step [OF mq_path.start mq_step.enq [OF assms], of "[]" "[]"] by simp

lemma enq_example: "fst (Enqueue arr_lib quiet_os two_pb ev_a (opened 3)) = Ok ()"
  by code_simp

theorem mmap_reachable_witness:
  "\<exists>q' rest. mq_path arr_lib quiet_os two_pb (opened 3, [], []) [SEnq ev_a] (q', [ev_a], []) \<and>
     mq_pending arr_lib quiet_os two_pb 5 q' rest \<and> [] @ rest = [ev_a]"
proof -
  obtain q' where q': "Enqueue arr_lib quiet_os two_pb ev_a (opened 3) = (Ok (), q')"
    using enq_example by (metis prod.collapse)
  have "mq_pending arr_lib quiet_os two_pb (length [SEnq ev_a] + 5) (opened 3) []"
    by (rule opened_pending) (simp_all add: MaxInt64_def)
  from mmap_reachable [OF step_example [OF q'] this] step_example [OF q'] show ?thesis by blast
qed


lemma opened_5:
  "mmapCount (opened 5) = 1" "locker (opened 5) = replicate 5 False" "MaxInMemSegments (opened 5) = 4"
  "QueueCapacitySegments (opened 5) = 5" "SegmentSize (opened 5) = 16" "MaxEventSize (opened 5) = 20"
proof -
  have "(case Initialize arr_lib quiet_os (new_queue 5) of (r, q) \<Rightarrow>
      (mmapCount q, locker q, MaxInMemSegments q, QueueCapacitySegments q, SegmentSize q, MaxEventSize q))
    = (1, replicate 5 False, 4, 5, 16, 20)" by code_simp
  then show "mmapCount (opened 5) = 1" "locker (opened 5) = replicate 5 False" "MaxInMemSegments (opened 5) = 4"
    "QueueCapacitySegments (opened 5) = 5" "SegmentSize (opened 5) = 16" "MaxEventSize (opened 5) = 20"
    by (simp_all add: opened_def split_def)
qed

lemma opened_5_calm: "m \<le> 3 \<Longrightarrow> calm False arr_lib quiet_os {} m (opened 5)"
  using quiet_os_faultless by (auto simp: calm_def opened_5 faultless_def)

lemma opened_5_holds: "holds arr_lib quiet_os 100 (opened 5) []"
  by (rule opened_holds(4)) (simp_all add: MaxInt64_def)

lemma opened_5_not_full: "\<not> IsFull arr_lib (opened 5)"
  by code_simp



definition filled :: "byte list mmap_queue" where
  "filled = snd (enqueue arr_lib quiet_os [1, 2, 3] (opened 5))"

lemma filled_fields:
  "mmapCount filled = 1" "locker filled = replicate 5 False" "MaxInMemSegments filled = 4"
  "QueueCapacitySegments filled = 5" "SegmentSize filled = 16" "UsedCount filled = 3"
proof -
  have "(case enqueue arr_lib quiet_os [1, 2, 3] (opened 5) of (r, q) \<Rightarrow>
      (mmapCount q, locker q, MaxInMemSegments q, QueueCapacitySegments q, SegmentSize q, UsedCount q))
    = (1, replicate 5 False, 4, 5, 16, 3)" by code_simp
  then show "mmapCount filled = 1" "locker filled = replicate 5 False" "MaxInMemSegments filled = 4"
    "QueueCapacitySegments filled = 5" "SegmentSize filled = 16" "UsedCount filled = 3"
    by (simp_all add: filled_def split_def)
qed

lemma filled_holds: "holds arr_lib quiet_os 9 filled [[1, 2, 3]]"
proof -
  have "holds arr_lib quiet_os (Suc 9) (opened 5) []" using holds_less [OF opened_5_holds, of 10] by simp
  from wp_enqueue [OF this, of "[1, 2, 3]" False 0] opened_5_calm [of 3] opened_5_not_full
  show ?thesis by (auto simp: opened_5 wp_def filled_def split: prod.splits outcome.splits)
qed


text \<open>The events from the committed offset on.\<close>

definition unacked :: "'f mmap_lib \<Rightarrow> os_env \<Rightarrow> proto_lib \<Rightarrow> 'f mmap_queue \<Rightarrow> sniff_data list \<Rightarrow> bool" where
  "unacked lib os pb q us \<longleftrightarrow>
     (case GetCommittedOffset lib (meta q) of (i, k) \<Rightarrow> pos_ok q i k \<and>
        (\<exists>bss. stored lib os q (addr q i k) bss (waddr lib q) \<and> list_all2 (\<lambda>e b. Marshal pb e = Ok b) us bss))"

lemma reopened_queue:
  assumes p: "mq_pending lib os pb n q es" and u: "unacked lib os pb q us" and ok: "faultless lib os"
    and meta: "GetVersion lib (meta q) = metaVersion" "GetCapacity lib (meta q) = QueueCapacitySegments q"
    and close: "Close lib os q = (Ok (), q1)"
    and new: "fresh q0" "norm_size os (SegmentSize q0) = SegmentSize q"
      "QueueCapacitySegments q0 = QueueCapacitySegments q" "MaxEventSize q0 = MaxEventSize q"
      "''mmap-queue_'' @ PipeName q0 = queueName q" "files q0 = files q1"
  shows "\<exists>q2. Initialize lib os q0 = (Ok (), q2) \<and> ready q2 \<and> UsedCount q2 = 0 \<and> mq_pending lib os pb n q2 us"
proof -
  from p obtain bss where pb: "proto_laws pb" and h: "holds lib os n q bss" by (auto simp: mq_pending_def)
  obtain wid woff where w: "GetWritingOffset lib (meta q) = (wid, woff)" by fastforce
  from h w have wf: "mq_wf lib os q" and conf: "conf_ok q" and wp: "pos_ok q wid woff"
    and max: "wid + int n * QueueCapacitySegments q \<le> MaxInt64" by (auto simp: holds_def)
  obtain cid coff us' where c: "GetCommittedOffset lib (meta q) = (cid, coff)" "pos_ok q cid coff"
    and st: "stored lib os q (addr q cid coff) us' (addr q wid woff)"
    and ms: "list_all2 (\<lambda>e b. Marshal pb e = Ok b) us us'"
    using u by (auto simp: unacked_def waddr_def w)
  have fl: "\<forall>f. Flush lib f = None" using ok by (simp add: faultless_def)
  note im = Close_image [OF wf fl close]
  have eq: "SegmentSize q1 = SegmentSize q" "QueueCapacitySegments q1 = QueueCapacitySegments q"
    "MaxEventSize q1 = MaxEventSize q" "queueName q1 = queueName q"
    using same_view_fields [OF im(3)] by simp_all
  have vb: "vbyte lib os q1 a = vbyte lib os q a" for a
    using im(3) wf_cap [OF wf] by (auto simp: vbyte_def same_view_def seg_content_meta seg_content_ready eq)
  have pe: "addr q1 = addr q" "pos_ok q1 = pos_ok q" by (auto simp: addr_def pos_ok_def eq fun_eq_iff)
  have "stored lib os q1 (addr q1 cid coff) us' (addr q1 wid woff)"
    unfolding pe by (rule stored_cong [OF wf_size(3) [OF wf] eq(1) vb st])
  moreover have "conf_ok q1" using conf by (simp add: conf_ok_def eq)
  ultimately have "\<exists>q2. Initialize lib os q0 = (Ok (), q2) \<and> ready q2 \<and> usedSize q2 = 0 \<and> holds lib os n q2 us'"
    using im c wp max meta new w by (intro Initialize_reopens [OF im(1) _ im(2) ok]) (auto simp: eq pe)
  with pb ms show ?thesis by (auto simp: mq_pending_def UsedCount_def)
qed


text \<open>A queue with one event that is accepted and not delivered, closed and opened again.\<close>

definition one_left :: "byte list mmap_queue" where
  "one_left = snd (Enqueue arr_lib quiet_os two_pb ev_a (opened 3))"

definition closed :: "byte list mmap_queue" where
  "closed = snd (Close arr_lib quiet_os one_left)"

lemma one_left_fields:
  "fst (Enqueue arr_lib quiet_os two_pb ev_a (opened 3)) = Ok ()"
  "GetCommittedOffset arr_lib (meta one_left) = (0, 0)" "GetReadingOffset arr_lib (meta one_left) = (0, 0)"
  "GetVersion arr_lib (meta one_left) = metaVersion" "GetCapacity arr_lib (meta one_left) = 3"
  "QueueCapacitySegments one_left = 3" "SegmentSize one_left = 16" "MaxEventSize one_left = 20"
  "queueName one_left = ''mmap-queue_p''" "ready one_left"
proof -
  have "(case Enqueue arr_lib quiet_os two_pb ev_a (opened 3) of (r, q) \<Rightarrow>
      (r, GetCommittedOffset arr_lib (meta q), GetReadingOffset arr_lib (meta q), GetVersion arr_lib (meta q), GetCapacity arr_lib (meta q),
       QueueCapacitySegments q, SegmentSize q, MaxEventSize q, queueName q, ready q))
    = (Ok (), (0, 0), (0, 0), metaVersion, 3, 3, 16, 20, ''mmap-queue_p'', True)" by code_simp
  then show "fst (Enqueue arr_lib quiet_os two_pb ev_a (opened 3)) = Ok ()"
    "GetCommittedOffset arr_lib (meta one_left) = (0, 0)" "GetReadingOffset arr_lib (meta one_left) = (0, 0)"
    "GetVersion arr_lib (meta one_left) = metaVersion" "GetCapacity arr_lib (meta one_left) = 3"
    "QueueCapacitySegments one_left = 3" "SegmentSize one_left = 16" "MaxEventSize one_left = 20"
    "queueName one_left = ''mmap-queue_p''" "ready one_left"
    by (simp_all add: one_left_def split_def)
qed

lemma closed_run: "Close arr_lib quiet_os one_left = (Ok (), closed)"
proof -
  have "fst (Close arr_lib quiet_os one_left) = Ok ()" by code_simp
  then show ?thesis by (simp add: closed_def prod_eq_iff)
qed

lemma one_left_pending: "mq_pending arr_lib quiet_os two_pb 5 one_left [ev_a]"
proof -
  have "mq_pending arr_lib quiet_os two_pb (Suc 5) (opened 3) []" by (rule opened_pending) (simp_all add: MaxInt64_def)
  from mq.enq_Ok [OF this, of ev_a "()" one_left] one_left_fields(1) show ?thesis
    by (simp add: one_left_def prod_eq_iff)
qed

lemma one_left_unacked: "unacked arr_lib quiet_os two_pb one_left [ev_a]"
  using one_left_pending by (auto simp: unacked_def mq_pending_def holds_def one_left_fields raddr_def)


text \<open>
  Offsets survive their string form: decoding the position that \<open>encodeOffset\<close> gives
  returns the segment identifier and the offset, over the whole non-negative 64 bit range.
\<close>

theorem mmap_offset_roundtrip:
  assumes "0 \<le> sid" and "sid \<le> MaxInt64" and "0 \<le> offset" and "offset \<le> MaxInt64"
  shows "decodeOffset (encodeOffset sid offset) = Ok (sid, offset)"
  using assms by (rule decode_encode)

theorem mmap_offset_roundtrip_witness:
  "decodeOffset (encodeOffset 12 345) = Ok (12, 345)"
  by (rule mmap_offset_roundtrip) (simp_all add: MaxInt64_def)

text \<open>
  C32. Acknowledging what was just delivered: the offset that \<open>Dequeue\<close> returns, passed to
  \<open>Ack\<close>, makes the committed offset the reading offset; after it the unacknowledged events
  are exactly the pending ones, and no pending event is affected.
\<close>

theorem mmap_ack_delivered:
  assumes p: "mq_pending lib os pb n q es" and "ready q"
    and deq: "Dequeue lib os pb q = (Ok se, q1)" and ack: "Ack lib (se_Offset se) q1 = (Ok (), q2)" and r: "ready q1"
  shows "GetCommittedOffset lib (meta q2) = GetReadingOffset lib (meta q2) \<and>
    mq_pending lib os pb n q2 (tl es) \<and> unacked lib os pb q2 (tl es)"
proof -
  obtain i k where ik: "GetReadingOffset lib (meta q1) = (i, k)" by fastforce
  have d: "mq_pending lib os pb n q1 (tl es)" and off: "se_Offset se = encodeOffset i k"
    using wp_Ok [OF wp_Dequeue [OF p] deq] ik by auto
  note wf = pending_wf [OF d] and laws = wf_laws [OF pending_wf [OF d]]
  have b: "0 \<le> i" "i \<le> MaxInt64" "0 \<le> k" "k \<le> MaxInt64"
    using ik uint64ToInt64_bounds by (auto simp: GetReadingOffset_def)
  have q2: "q2 = q1\<lparr>meta := PutCommittedOffset lib i k (meta q1)\<rparr>"
    using ack r decode_encode [OF b] by (simp add: Ack_def off)
  have pend: "mq_pending lib os pb n q2 (tl es)" by (rule keeps_pending [OF Ack_keeps [OF wf ack] d])
  have c: "GetCommittedOffset lib (meta q2) = (i, k)" "GetReadingOffset lib (meta q2) = (i, k)"
    using get_put_committed [OF laws wf_meta [OF wf] b] get_put_other(8) [OF laws wf_meta [OF wf]] ik
    by (simp_all add: q2)
  have "unacked lib os pb q2 (tl es)"
    using pend c by (auto simp: unacked_def mq_pending_def holds_def raddr_def)
  with pend c show ?thesis by simp
qed

definition one_taken :: "byte list mmap_queue" where
  "one_taken = snd (Dequeue arr_lib quiet_os two_pb one_left)"

lemma one_taken_fields:
  "fst (Dequeue arr_lib quiet_os two_pb one_left) = Ok \<lparr>se_Event = ev_a, se_Offset = \<lparr>Partition = 0, Position = ''0-11''\<rparr>\<rparr>"
  "ready one_taken"
proof -
  have "(case Dequeue arr_lib quiet_os two_pb one_left of (r, q) \<Rightarrow> (r, ready q))
    = (Ok \<lparr>se_Event = ev_a, se_Offset = \<lparr>Partition = 0, Position = ''0-11''\<rparr>\<rparr>, True)" by code_simp
  then show "fst (Dequeue arr_lib quiet_os two_pb one_left) = Ok \<lparr>se_Event = ev_a, se_Offset = \<lparr>Partition = 0, Position = ''0-11''\<rparr>\<rparr>"
    "ready one_taken"
    by (simp_all add: one_taken_def split_def)
qed

theorem mmap_ack_delivered_witness:
  "\<exists>q2. Ack arr_lib \<lparr>Partition = 0, Position = ''0-11''\<rparr> one_taken = (Ok (), q2) \<and>
     GetCommittedOffset arr_lib (meta q2) = GetReadingOffset arr_lib (meta q2) \<and>
     mq_pending arr_lib quiet_os two_pb 5 q2 []"
proof -
  let ?se = "\<lparr>se_Event = ev_a, se_Offset = \<lparr>Partition = 0, Position = ''0-11''\<rparr>\<rparr>"
  have d: "Dequeue arr_lib quiet_os two_pb one_left = (Ok ?se, one_taken)"
    using one_taken_fields(1) by (simp add: one_taken_def prod_eq_iff)
  obtain q2 where a: "Ack arr_lib (se_Offset ?se) one_taken = (Ok (), q2)"
    unfolding Ack_def Let_def split_def by (cases "ready one_taken") simp_all
  from mmap_ack_delivered [OF one_left_pending one_left_fields(10) d a one_taken_fields(2)] a
  show ?thesis by auto
qed

text \<open>
  C35. Swapping makes room. When the limit of mapped segments is reached and one of the segments
  that \<open>doSwap\<close> inspects is mapped and is neither the written nor the read one, \<open>doSwap\<close>
  returns, at least one more segment can be mapped, and every stored byte is as before.
\<close>

theorem mmap_swap_frees:
  assumes "mq_wf lib os q" and "faultless lib os" and "4 \<le> MaxInMemSegments q" and "mmapCount q = MaxInMemSegments q"
    and "fst (GetWritingOffset lib (meta q)) = wID" and "fst (GetReadingOffset lib (meta q)) = rID"
    and "i \<in> set (swap_ids q (wID + QueueCapacitySegments q))" and "victim q (GetIndex q wID) (GetIndex q rID) i"
  shows "\<exists>q'. doSwap lib os q = (Ok (), q') \<and> mmapCount q' < MaxInMemSegments q' \<and>
    (\<forall>a. vbyte lib os q' a = vbyte lib os q a)"
  using doSwap_frees [OF assms(1) _ assms(3-8)] assms(2) vbyte_same_view [OF _ assms(1)]
  by (auto simp: faultless_def)

text \<open>Four mapped segments of a queue of five, or of eight.\<close>

definition crowded :: "int \<Rightarrow> byte list mmap_queue" where
  "crowded cap = snd (go_bind (GetSegment arr_lib quiet_os 1) (\<lambda>_. go_bind (GetSegment arr_lib quiet_os 2)
     (\<lambda>_. GetSegment arr_lib quiet_os 3)) (opened cap))"

lemma crowded_wf:
  assumes "0 < cap" and "cap \<le> MaxInt64"
  shows "mq_wf arr_lib quiet_os (crowded cap)"
proof -
  have wf: "mq_wf arr_lib quiet_os (opened cap)"
    using opened_holds(4) [of cap 1] assms by (simp add: holds_def)
  let ?m = "go_bind (GetSegment arr_lib quiet_os 1) (\<lambda>_. go_bind (GetSegment arr_lib quiet_os 2)
     (\<lambda>_. GetSegment arr_lib quiet_os 3))"
  have "mq_wf arr_lib quiet_os t" if "?m (opened cap) = (r, t)" for r t
    using that wf
    by (elim go_bind_inv [rotated 2, where I = "mq_wf arr_lib quiet_os"])
      (blast intro: same_view_wf GetSegment_view)+
  then show ?thesis unfolding crowded_def by (metis prod.collapse)
qed

lemma crowded_5:
  "MaxInMemSegments (crowded 5) = 4" "mmapCount (crowded 5) = 4" "QueueCapacitySegments (crowded 5) = 5"
  "GetWritingOffset arr_lib (meta (crowded 5)) = (0, 0)" "GetReadingOffset arr_lib (meta (crowded 5)) = (0, 0)"
  "2 \<in> set (swap_ids (crowded 5) 5)" "\<not> Option.is_none (segments (crowded 5) ! 2)"
proof -
  have "(case go_bind (GetSegment arr_lib quiet_os 1) (\<lambda>_. go_bind (GetSegment arr_lib quiet_os 2)
     (\<lambda>_. GetSegment arr_lib quiet_os 3)) (opened 5) of (r, q) \<Rightarrow>
      (MaxInMemSegments q, mmapCount q, QueueCapacitySegments q, GetWritingOffset arr_lib (meta q), GetReadingOffset arr_lib (meta q),
       2 \<in> set (swap_ids q 5), Option.is_none (segments q ! 2)))
    = (4, 4, 5, (0, 0), (0, 0), True, False)" by code_simp
  then show "MaxInMemSegments (crowded 5) = 4" "mmapCount (crowded 5) = 4" "QueueCapacitySegments (crowded 5) = 5"
    "GetWritingOffset arr_lib (meta (crowded 5)) = (0, 0)" "GetReadingOffset arr_lib (meta (crowded 5)) = (0, 0)"
    "2 \<in> set (swap_ids (crowded 5) 5)" "\<not> Option.is_none (segments (crowded 5) ! 2)"
    by (simp_all add: crowded_def split_def)
qed

theorem mmap_swap_frees_witness:
  "\<exists>q'. doSwap arr_lib quiet_os (crowded 5) = (Ok (), q') \<and> mmapCount q' < MaxInMemSegments q' \<and>
    (\<forall>a. vbyte arr_lib quiet_os q' a = vbyte arr_lib quiet_os (crowded 5) a)"
proof (rule mmap_swap_frees)
  show "mq_wf arr_lib quiet_os (crowded 5)" by (rule crowded_wf) (simp_all add: MaxInt64_def)
  show "victim (crowded 5) (GetIndex (crowded 5) 0) (GetIndex (crowded 5) 0) 2"
    using crowded_5(7) by (simp add: victim_def GetIndex_def crowded_5 Option.is_none_def)
qed (simp_all add: quiet_os_faultless crowded_5)

text \<open>
  Swapping may never end. When the limit is reached and no segment that \<open>doSwap\<close> inspects
  can be unmapped, the outer loop runs forever, whatever the number of passes; the caller of
  \<open>GetSegment\<close> waits for it.
\<close>

theorem mmap_swap_stuck:
  assumes "mq_wf lib os q" and "4 \<le> MaxInMemSegments q" and "MaxInMemSegments q \<le> mmapCount q"
    and "fst (GetWritingOffset lib (meta q)) = wID" and "fst (GetReadingOffset lib (meta q)) = rID"
    and "list_all (\<lambda>i. \<not> victim q (GetIndex q wID) (GetIndex q rID) i) (swap_ids q (wID + QueueCapacitySegments q))"
  shows "\<forall>fuel. doSwap_fuel fuel lib os q = (Hang, q)"
  using doSwap_stuck [OF assms(1-5)] assms(6) by (simp add: list_all_iff)

lemma crowded_8:
  "MaxInMemSegments (crowded 8) = 4" "mmapCount (crowded 8) = 4" "QueueCapacitySegments (crowded 8) = 8"
  "GetWritingOffset arr_lib (meta (crowded 8)) = (0, 0)" "GetReadingOffset arr_lib (meta (crowded 8)) = (0, 0)"
  "swap_ids (crowded 8) 8 = [7, 6, 5, 4]"
  "map Option.is_none (segments (crowded 8)) = [False, False, False, False, True, True, True, True]"
proof -
  have "(case go_bind (GetSegment arr_lib quiet_os 1) (\<lambda>_. go_bind (GetSegment arr_lib quiet_os 2)
     (\<lambda>_. GetSegment arr_lib quiet_os 3)) (opened 8) of (r, q) \<Rightarrow>
      (MaxInMemSegments q, mmapCount q, QueueCapacitySegments q, GetWritingOffset arr_lib (meta q), GetReadingOffset arr_lib (meta q),
       swap_ids q 8, map Option.is_none (segments q)))
    = (4, 4, 8, (0, 0), (0, 0), [7, 6, 5, 4], [False, False, False, False, True, True, True, True])" by code_simp
  then show "MaxInMemSegments (crowded 8) = 4" "mmapCount (crowded 8) = 4" "QueueCapacitySegments (crowded 8) = 8"
    "GetWritingOffset arr_lib (meta (crowded 8)) = (0, 0)" "GetReadingOffset arr_lib (meta (crowded 8)) = (0, 0)"
    "swap_ids (crowded 8) 8 = [7, 6, 5, 4]"
    "map Option.is_none (segments (crowded 8)) = [False, False, False, False, True, True, True, True]"
    by (simp_all add: crowded_def split_def)
qed

lemma crowded_8_none: "i < 8 \<Longrightarrow> Option.is_none (segments (crowded 8) ! i) = (4 \<le> i)"
proof -
  assume i: "i < 8"
  have "length (segments (crowded 8)) = 8" using arg_cong [OF crowded_8(7), of length] by simp
  with i have "Option.is_none (segments (crowded 8) ! i) = map Option.is_none (segments (crowded 8)) ! i" by simp
  also have "\<dots> = (4 \<le> i)" using i unfolding crowded_8(7) by (auto simp: nth_Cons' numeral_eq_Suc less_Suc_eq)
  finally show ?thesis .
qed

theorem mmap_swap_stuck_witness: "\<forall>fuel. doSwap_fuel fuel arr_lib quiet_os (crowded 8) = (Hang, crowded 8)"
proof (rule mmap_swap_stuck)
  show "mq_wf arr_lib quiet_os (crowded 8)" by (rule crowded_wf) (simp_all add: MaxInt64_def)
  show "list_all (\<lambda>i. \<not> victim (crowded 8) (GetIndex (crowded 8) 0) (GetIndex (crowded 8) 0) i)
     (swap_ids (crowded 8) (0 + QueueCapacitySegments (crowded 8)))"
    using crowded_8_none [of 4] crowded_8_none [of 5] crowded_8_none [of 6] crowded_8_none [of 7]
    by (simp add: crowded_8 victim_def GetIndex_def Option.is_none_def)
qed (simp_all add: crowded_8)

text \<open>
  C36. A failed mapping blocks the queue. When the segment that takes the length of the next
  event cannot be mapped, \<open>enqueue\<close> reports the error but keeps the segment's lock: every later
  \<open>enqueue\<close> waits for that lock forever, also when the segment could be mapped again.
\<close>

theorem mmap_error_keeps_lock:
  assumes "mq_wf lib os q" and "GetWritingOffset lib (meta q) = (sid, offset)" and "pos_ok q sid offset"
    and "\<not> IsFull lib q" and "writeLength lib os (int (length b)) sid offset q = (Err e, q')"
  shows "enqueue lib os b q = (Err e, q') \<and> (\<forall>b'. enqueue lib os b' q' = (Hang, q'))"
proof -
  have v: "same_view lib os q q'"
    using wp_Err [OF wp_writeLength [OF assms(1,3) calm_True] assms(5)] by blast
  have "\<not> IsFull lib q'" and w: "GetWritingOffset lib (meta q') = (sid, offset)"
    using assms(2,4) same_view_fields [OF v] by (simp_all add: IsFull_def)
  then show ?thesis
    using assms(2,4,5) writeLength_Err_locked [OF assms(1,3,5)] by (simp add: enqueue_def go_bind_def)
qed

definition broken_os :: os_env where
  "broken_os = quiet_os\<lparr>os_fault := (\<lambda>c _. c = OsOpenFile)\<rparr>"

definition at_edge :: "byte list mmap_queue" where
  "at_edge = (opened 5)\<lparr>meta := PutWritingOffset arr_lib 0 12 (meta (opened 5))\<rparr>"

lemma at_edge_fields:
  "GetWritingOffset arr_lib (meta at_edge) = (0, 12)" "\<not> IsFull arr_lib at_edge" "SegmentSize at_edge = 16"
  "fst (writeLength arr_lib broken_os 3 0 12 at_edge) = Err (Errorf ''error in opening segment file'')"
  by code_simp+

theorem mmap_error_keeps_lock_witness:
  "\<exists>q'. enqueue arr_lib broken_os [1, 2, 3] at_edge = (Err (Errorf ''error in opening segment file''), q') \<and>
     (\<forall>b'. enqueue arr_lib broken_os b' q' = (Hang, q'))"
proof -
  have "mq_wf arr_lib broken_os at_edge"
    using opened_5_holds meta_wf_put(1) [OF arr_lib_laws] by (auto simp: holds_def at_edge_def mq_wf_def)
  moreover obtain q' where "writeLength arr_lib broken_os (int (length [1, 2, 3 :: byte])) 0 12 at_edge
      = (Err (Errorf ''error in opening segment file''), q')"
    using at_edge_fields(4) by (cases "writeLength arr_lib broken_os 3 0 12 at_edge") simp
  ultimately show ?thesis
    using mmap_error_keeps_lock [of arr_lib broken_os at_edge 0 12 "[1, 2, 3]"] at_edge_fields
    by (auto simp: pos_ok_def)
qed

text \<open>
  An offset that is not of the form of the queue is not rejected: \<open>Ack\<close> logs the error and
  then commits offset (0, 0), so that a restart delivers from the start of the ring again.
\<close>

theorem mmap_ack_illegal:
  assumes "mq_wf lib os q" and "ready q" and "\<not> is_Ok (decodeOffset off)"
  shows "\<exists>q'. Ack lib off q = (Ok (), q') \<and> GetCommittedOffset lib (meta q') = (0, 0)"
  using assms get_put_committed [OF wf_laws [OF assms(1)] wf_meta [OF assms(1)], of 0 0]
  by (cases "decodeOffset off") (auto simp: Ack_def MaxInt64_def)

theorem mmap_ack_illegal_witness:
  "\<exists>q'. Ack arr_lib \<lparr>Partition = 0, Position = ''7''\<rparr> (opened 5) = (Ok (), q') \<and>
     GetCommittedOffset arr_lib (meta q') = (0, 0)"
proof (rule mmap_ack_illegal)
  show "mq_wf arr_lib quiet_os (opened 5)" using opened_5_holds by (simp add: holds_def)
  show "ready (opened 5)" by (rule opened_holds(2) [of 5 0]) (simp_all add: MaxInt64_def)
  show "\<not> is_Ok (decodeOffset \<lparr>Partition = 0, Position = ''7''\<rparr>)" by (simp add: decodeOffset_def)
qed


end
