(* ===== verification/Metric_Labels.thy ===== *)
theory Metric_Labels
  imports Go_Strings "HOL-Library.AList"
begin

text \<open>
  \<open>internal/satellite/telemetry/metricservice/base.go\<close> and \<open>counter.go\<close>: metrics with labels. The
  values of a metric are found by a 64 bit hash of the label values; label values with the same
  hash share a bucket. A value is named by its hash and its place in the bucket, as the code
  holds a pointer to it. Slices that are read beyond their end panic. Numbers are any type with
  zero and addition (floating point addition need not be associative); the compare and swap loop
  of \<open>addFloat64\<close> is one atomic addition.
\<close>

unbundle bit_operations_syntax

section \<open>The hash\<close>

definition offset64 :: u64 where "offset64 = 14695981039346656037"

definition prime64 :: u64 where "prime64 = 1099511628211"

definition SeparatorByte :: nat where "SeparatorByte = 255"

definition hashNew :: u64 where "hashNew = offset64"

definition hashAddByte :: "u64 \<Rightarrow> nat \<Rightarrow> u64" where
  "hashAddByte h b = (h XOR word_of_nat b) * prime64"

definition hashAdd :: "u64 \<Rightarrow> string \<Rightarrow> u64" where
  "hashAdd h s = fold (\<lambda>c h. (h XOR word_of_nat (of_char c)) * prime64) s h"

section \<open>Label values\<close>

text \<open>\<open>utf8.ValidString\<close>, by the well-formed byte sequences of the Unicode standard.\<close>

definition continuation :: "nat \<Rightarrow> nat \<Rightarrow> nat \<Rightarrow> bool" where
  "continuation lo hi b \<longleftrightarrow> lo \<le> b \<and> b \<le> hi"

fun valid_utf8 :: "nat list \<Rightarrow> bool" where
  "valid_utf8 [] = True"
| "valid_utf8 (b # bs) =
     (if b < 0x80 then valid_utf8 bs
      else if 0xC2 \<le> b \<and> b \<le> 0xDF
      then case bs of c # cs \<Rightarrow> continuation 0x80 0xBF c \<and> valid_utf8 cs | _ \<Rightarrow> False
      else if 0xE0 \<le> b \<and> b \<le> 0xEF
      then case bs of c # d # ds \<Rightarrow>
          continuation (if b = 0xE0 then 0xA0 else 0x80) (if b = 0xED then 0x9F else 0xBF) c \<and> continuation 0x80 0xBF d \<and> valid_utf8 ds
        | _ \<Rightarrow> False
      else if 0xF0 \<le> b \<and> b \<le> 0xF4
      then case bs of c # d # e # es \<Rightarrow>
          continuation (if b = 0xF0 then 0x90 else 0x80) (if b = 0xF4 then 0x8F else 0xBF) c \<and> continuation 0x80 0xBF d \<and>
          continuation 0x80 0xBF e \<and> valid_utf8 es
        | _ \<Rightarrow> False
      else False)"

definition ValidString :: "string \<Rightarrow> bool" where
  "ValidString s \<longleftrightarrow> valid_utf8 (map of_char s)"

type_synonym curried = "(nat \<times> string) list"

definition validateLabelValues :: "string list \<Rightarrow> int \<Rightarrow> go_error option" where
  "validateLabelValues vals expectedNumberOfValues =
     (if int (length vals) \<noteq> expectedNumberOfValues then Some (Errorf ''inconsistent label cardinality'')
      else if list_ex (\<lambda>v. \<not> ValidString v) vals then Some (Errorf ''label value is not valid UTF-8'')
      else None)"

text \<open>
  The three loops over the labels read, at place \<open>i\<close>, the next curried value when it is for this
  place, and the next of the given values otherwise.
\<close>

definition next_label :: "nat \<Rightarrow> string list \<Rightarrow> curried \<Rightarrow> (string \<times> string list \<times> curried) outcome" where
  "next_label i lvs cur =
     (case cur of
        (j, v) # cs \<Rightarrow> if j = i then Ok (v, lvs, cs) else (case lvs of [] \<Rightarrow> Panic | l # ls \<Rightarrow> Ok (l, ls, cur))
      | [] \<Rightarrow> (case lvs of [] \<Rightarrow> Panic | l # ls \<Rightarrow> Ok (l, ls, [])))"

fun hash_loop :: "nat \<Rightarrow> nat \<Rightarrow> string list \<Rightarrow> curried \<Rightarrow> u64 \<Rightarrow> u64 outcome" where
  "hash_loop 0 i vals cur h = Ok h"
| "hash_loop (Suc n) i vals cur h =
     out_bind (next_label i vals cur) (\<lambda>(v, vals', cur').
       hash_loop n (Suc i) vals' cur' (hashAddByte (hashAdd h v) SeparatorByte))"

fun inline_loop :: "nat \<Rightarrow> nat \<Rightarrow> string list \<Rightarrow> curried \<Rightarrow> string list outcome" where
  "inline_loop 0 i lvs cur = Ok []"
| "inline_loop (Suc n) i lvs cur =
     out_bind (next_label i lvs cur) (\<lambda>(v, lvs', cur').
       out_bind (inline_loop n (Suc i) lvs' cur') (\<lambda>vs. Ok (v # vs)))"

definition inlineLabelValues :: "string list \<Rightarrow> curried \<Rightarrow> string list outcome" where
  "inlineLabelValues lvs cur = inline_loop (length lvs + length cur) 0 lvs cur"

fun match_loop :: "nat \<Rightarrow> string list \<Rightarrow> string list \<Rightarrow> curried \<Rightarrow> bool outcome" where
  "match_loop i [] lvs cur = Ok True"
| "match_loop i (v # vs) lvs cur =
     out_bind (next_label i lvs cur) (\<lambda>(w, lvs', cur'). if v \<noteq> w then Ok False else match_loop (Suc i) vs lvs' cur')"

definition matchLabelValues :: "string list \<Rightarrow> string list \<Rightarrow> curried \<Rightarrow> bool outcome" where
  "matchLabelValues values lvs cur =
     (if length values \<noteq> length lvs + length cur then Ok False else match_loop 0 values lvs cur)"

section \<open>BaseMetric\<close>

type_synonym 'm bucket = "(string list \<times> 'm) list"

record 'm BaseMetric =
  bm_Name :: string
  LabelKeys :: "string list"
  NewSubMetric :: "string list \<Rightarrow> 'm"
  bm_curry :: curried
  bm_metrics :: "(u64 \<times> 'm bucket) list"

definition NewBaseMetric :: "string \<Rightarrow> string list \<Rightarrow> (string list \<Rightarrow> 'm) \<Rightarrow> 'm BaseMetric" where
  "NewBaseMetric name labels new = \<lparr>bm_Name = name, LabelKeys = labels, NewSubMetric = new, bm_curry = [], bm_metrics = []\<rparr>"

definition hashLabelValues :: "string list \<Rightarrow> 'm BaseMetric \<Rightarrow> u64 outcome" where
  "hashLabelValues vals b =
     (case validateLabelValues vals (int (length (LabelKeys b)) - int (length (bm_curry b))) of
        Some e \<Rightarrow> Err e
      | None \<Rightarrow> hash_loop (length (LabelKeys b)) 0 vals (bm_curry b) hashNew)"

fun findMetricWithLabelValues :: "'m bucket \<Rightarrow> string list \<Rightarrow> curried \<Rightarrow> nat outcome" where
  "findMetricWithLabelValues [] lvs cur = Ok 0"
| "findMetricWithLabelValues (m # ms) lvs cur =
     out_bind (matchLabelValues (fst m) lvs cur) (\<lambda>eq.
       if eq then Ok 0 else out_bind (findMetricWithLabelValues ms lvs cur) (\<lambda>i. Ok (Suc i)))"

definition getMetricWithHashAndLabelValues :: "u64 \<Rightarrow> string list \<Rightarrow> curried \<Rightarrow> 'm BaseMetric \<Rightarrow> nat option outcome" where
  "getMetricWithHashAndLabelValues h lvs cur b =
     (case map_of (bm_metrics b) h of
        None \<Rightarrow> Ok None
      | Some ms \<Rightarrow> out_bind (findMetricWithLabelValues ms lvs cur) (\<lambda>i. Ok (if i < length ms then Some i else None)))"

text \<open>The part of \<open>getOrCreateMetricWithLabelValues\<close> under the write lock: it looks again.\<close>

definition create_locked :: "u64 \<Rightarrow> string list \<Rightarrow> curried \<Rightarrow> ('m BaseMetric, nat) go" where
  "create_locked h lvs cur b =
     (case getMetricWithHashAndLabelValues h lvs cur b of
        Ok (Some i) \<Rightarrow> (Ok i, b)
      | Ok None \<Rightarrow>
          (case inlineLabelValues lvs cur of
             Ok inlinedLVs \<Rightarrow>
               (let ms = (case map_of (bm_metrics b) h of None \<Rightarrow> [] | Some ms \<Rightarrow> ms) in
                (Ok (length ms), b\<lparr>bm_metrics := AList.update h (ms @ [(inlinedLVs, NewSubMetric b inlinedLVs)]) (bm_metrics b)\<rparr>))
           | _ \<Rightarrow> (Panic, b))
      | _ \<Rightarrow> (Panic, b))"

definition getOrCreateMetricWithLabelValues :: "u64 \<Rightarrow> string list \<Rightarrow> curried \<Rightarrow> ('m BaseMetric, nat) go" where
  "getOrCreateMetricWithLabelValues h lvs cur b =
     (case getMetricWithHashAndLabelValues h lvs cur b of
        Ok (Some i) \<Rightarrow> (Ok i, b)
      | Ok None \<Rightarrow> create_locked h lvs cur b
      | _ \<Rightarrow> (Panic, b))"

definition GetMetricWithLabelValues :: "string list \<Rightarrow> ('m BaseMetric, u64 \<times> nat) go" where
  "GetMetricWithLabelValues lvs b =
     (case hashLabelValues lvs b of
        Ok h \<Rightarrow> go_bind (getOrCreateMetricWithLabelValues h lvs (bm_curry b)) (\<lambda>i. go_return (h, i)) b
      | Err e \<Rightarrow> (Err e, b)
      | Panic \<Rightarrow> (Panic, b)
      | Hang \<Rightarrow> (Hang, b))"

text \<open>\<open>addFloat64\<close> through the pointer; a counter panics when the labels are refused.\<close>

definition addFloat64 :: "u64 \<times> nat \<Rightarrow> 'f \<Rightarrow> 'f :: plus BaseMetric \<Rightarrow> 'f BaseMetric" where
  "addFloat64 p delta b =
     (case map_of (bm_metrics b) (fst p) of
        None \<Rightarrow> b
      | Some ms \<Rightarrow> b\<lparr>bm_metrics := AList.update (fst p)
          (ms[snd p := (fst (ms ! snd p), snd (ms ! snd p) + delta)]) (bm_metrics b)\<rparr>)"

definition Counter_Add :: "'f \<Rightarrow> string list \<Rightarrow> ('f :: plus BaseMetric, unit) go" where
  "Counter_Add val labelValues b =
     (case GetMetricWithLabelValues labelValues b of
        (Ok p, b') \<Rightarrow> (Ok (), addFloat64 p val b')
      | (Hang, b') \<Rightarrow> (Hang, b')
      | (_, b') \<Rightarrow> (Panic, b'))"

definition Counter_Inc :: "string list \<Rightarrow> ('f :: {plus, one} BaseMetric, unit) go" where
  "Counter_Inc labelValues = Counter_Add 1 labelValues"

definition DynamicGauge_Inc :: "string list \<Rightarrow> ('f :: {plus, one} BaseMetric, unit) go" where
  "DynamicGauge_Inc labels = Counter_Add 1 labels"

definition DynamicGauge_Dec :: "string list \<Rightarrow> ('f :: {plus, one, uminus} BaseMetric, unit) go" where
  "DynamicGauge_Dec labels = Counter_Add (- 1) labels"

section \<open>Labels with curried values\<close>

fun places :: "nat \<Rightarrow> curried \<Rightarrow> nat \<Rightarrow> bool" where
  "places i [] n = True"
| "places i ((j, v) # cs) n = (i \<le> j \<and> j < n \<and> places (Suc j) cs n)"

lemma places_mono: "places i cur n \<Longrightarrow> k \<le> i \<Longrightarrow> places k cur n"
  by (cases cur) auto

lemma places_length: "places i cur n \<Longrightarrow> length cur \<le> n - i"
  by (induction i cur n rule: places.induct) auto

lemma inline_loop_Ok:
  "places i cur n \<Longrightarrow> length lvs + length cur = m \<Longrightarrow> i + m = n \<Longrightarrow> \<exists>vs. inline_loop m i lvs cur = Ok vs \<and> length vs = m"
proof (induction m arbitrary: i lvs cur)
  case (Suc m i lvs cur)
  have "\<exists>v lvs' cur'. next_label i lvs cur = Ok (v, lvs', cur') \<and> places (Suc i) cur' n \<and> length lvs' + length cur' = m"
  proof (cases cur)
    case Nil
    then show ?thesis using Suc.prems by (cases lvs) (auto simp: next_label_def)
  next
    case (Cons c cs)
    obtain j v where c: "c = (j, v)" by fastforce
    show ?thesis
    proof (cases "j = i")
      case True
      then show ?thesis using Suc.prems Cons c by (auto simp: next_label_def)
    next
      case False
      then have p: "places (Suc i) cur n" using Suc.prems(1) Cons c by auto
      then have "length cur \<le> n - Suc i" by (rule places_length)
      then obtain l ls where "lvs = l # ls" using Suc.prems by (cases lvs) auto
      then show ?thesis using False Suc.prems Cons c p by (auto simp: next_label_def)
    qed
  qed
  then obtain v lvs' cur' where nx: "next_label i lvs cur = Ok (v, lvs', cur')" "places (Suc i) cur' n" "length lvs' + length cur' = m"
    by blast
  from Suc.IH [OF nx(2,3)] Suc.prems(3) nx(1) show ?case by auto
qed simp

lemma match_loop_inline: "inline_loop (length vals) i lvs cur = Ok vs \<Longrightarrow> match_loop i vals lvs cur = Ok (vals = vs)"
proof (induction vals arbitrary: i lvs cur vs)
  case (Cons v vals)
  from Cons.prems obtain w lvs' cur' ws where "next_label i lvs cur = Ok (w, lvs', cur')"
      "inline_loop (length vals) (Suc i) lvs' cur' = Ok ws" "vs = w # ws" by (auto simp: out_bind_eq_Ok)
  with Cons.IH show ?case by simp
qed simp

lemma inlined_length: "inlineLabelValues lvs cur = Ok vs \<Longrightarrow> length vs = length lvs + length cur"
proof -
  have "inline_loop m i lvs cur = Ok vs \<Longrightarrow> length vs = m" for m i lvs cur vs
    by (induction m arbitrary: i lvs cur vs) (auto simp: out_bind_eq_Ok split: prod.splits)
  then show "inlineLabelValues lvs cur = Ok vs \<Longrightarrow> ?thesis" unfolding inlineLabelValues_def by blast
qed

lemma matchLabelValues_inlined: "inlineLabelValues lvs cur = Ok vs \<Longrightarrow> matchLabelValues vals lvs cur = Ok (vals = vs)"
  using inlined_length [of lvs cur vs] match_loop_inline [of vals 0 lvs cur vs]
  by (auto simp: matchLabelValues_def inlineLabelValues_def)

text \<open>The hash is a function of the inlined values.\<close>

definition label_hash :: "string list \<Rightarrow> u64" where
  "label_hash vs = fold (\<lambda>v h. hashAddByte (hashAdd h v) SeparatorByte) vs hashNew"

lemma hash_loop_inline:
  "inline_loop n i lvs cur = Ok vs \<Longrightarrow> hash_loop n i lvs cur h = Ok (fold (\<lambda>v h. hashAddByte (hashAdd h v) SeparatorByte) vs h)"
  by (induction n i lvs cur h arbitrary: vs rule: hash_loop.induct) (auto simp: out_bind_eq_Ok)

section \<open>A metric is a map from label values to numbers\<close>

definition view :: "'m BaseMetric \<Rightarrow> string list \<Rightarrow> 'm option" where
  "view b vs = Option.bind (map_of (bm_metrics b) (label_hash vs)) (\<lambda>ms. map_of ms vs)"

fun first_index :: "string list \<Rightarrow> 'm bucket \<Rightarrow> nat" where
  "first_index vs [] = 0"
| "first_index vs (m # ms) = (if fst m = vs then 0 else Suc (first_index vs ms))"

lemma first_index_less: "first_index vs ms < length ms \<longleftrightarrow> vs \<in> fst ` set ms"
  by (induction ms) auto

lemma first_index_absent: "vs \<notin> fst ` set ms \<Longrightarrow> first_index vs ms = length ms"
  by (induction ms) auto

lemma find_inlined: "inlineLabelValues lvs cur = Ok vs \<Longrightarrow> findMetricWithLabelValues ms lvs cur = Ok (first_index vs ms)"
  by (induction ms) (simp_all add: matchLabelValues_inlined)

lemma get_inlined:
  "inlineLabelValues lvs cur = Ok vs \<Longrightarrow>
   getMetricWithHashAndLabelValues h lvs cur b = Ok (case map_of (bm_metrics b) h of None \<Rightarrow> None
     | Some ms \<Rightarrow> if vs \<in> fst ` set ms then Some (first_index vs ms) else None)"
  by (simp add: getMetricWithHashAndLabelValues_def find_inlined first_index_less split: option.splits)

text \<open>The bucket of a hash, with a value for the given labels in it.\<close>

definition bucket_of :: "'m BaseMetric \<Rightarrow> u64 \<Rightarrow> 'm bucket" where
  "bucket_of b h = (case map_of (bm_metrics b) h of None \<Rightarrow> [] | Some ms \<Rightarrow> ms)"

definition with_value :: "string list \<Rightarrow> 'm BaseMetric \<Rightarrow> 'm bucket" where
  "with_value vs b =
     (let ms = bucket_of b (label_hash vs) in if vs \<in> fst ` set ms then ms else ms @ [(vs, NewSubMetric b vs)])"

lemma getOrCreate_inlined:
  assumes "inlineLabelValues lvs cur = Ok vs"
  shows "\<exists>b'. getOrCreateMetricWithLabelValues (label_hash vs) lvs cur b = (Ok (first_index vs (with_value vs b)), b') \<and>
    map_of (bm_metrics b') = (map_of (bm_metrics b))(label_hash vs \<mapsto> with_value vs b) \<and>
    (b' = b \<or> b' = b\<lparr>bm_metrics := AList.update (label_hash vs) (with_value vs b) (bm_metrics b)\<rparr>)"
proof (cases "vs \<in> fst ` set (bucket_of b (label_hash vs))")
  case True
  then obtain ms where ms: "map_of (bm_metrics b) (label_hash vs) = Some ms" "vs \<in> fst ` set ms" "with_value vs b = ms"
    by (cases "map_of (bm_metrics b) (label_hash vs)") (auto simp: bucket_of_def with_value_def)
  then have "getOrCreateMetricWithLabelValues (label_hash vs) lvs cur b = (Ok (first_index vs ms), b)"
    by (simp add: getOrCreateMetricWithLabelValues_def get_inlined [OF assms])
  with ms show ?thesis by (simp add: map_upd_triv)
next
  case False
  have at: "first_index vs (ms @ [(vs, x)]) = length ms" if "vs \<notin> fst ` set ms" for ms and x :: 'a
    using that by (induction ms) auto
  have none: "getMetricWithHashAndLabelValues (label_hash vs) lvs cur b = Ok None"
    using False by (auto simp: get_inlined [OF assms] bucket_of_def split: option.splits)
  let ?b = "b\<lparr>bm_metrics := AList.update (label_hash vs) (with_value vs b) (bm_metrics b)\<rparr>"
  have "getOrCreateMetricWithLabelValues (label_hash vs) lvs cur b = (Ok (first_index vs (with_value vs b)), ?b)"
    using False at [OF False]
    by (simp add: getOrCreateMetricWithLabelValues_def create_locked_def none assms with_value_def Let_def bucket_of_def)
  then show ?thesis by (simp add: update_conv')
qed

lemma map_of_first_update:
  "vs \<in> fst ` set ms \<Longrightarrow> map_of (ms[first_index vs ms := (fst (ms ! first_index vs ms), x)]) = (map_of ms)(vs \<mapsto> x)"
proof (induction ms)
  case (Cons m ms)
  obtain a y where m: "m = (a, y)" by fastforce
  show ?case
  proof (cases "a = vs")
    case False
    with Cons.prems m have "vs \<in> fst ` set ms" by auto
    from Cons.IH [OF this] False m show ?thesis by (simp add: fun_upd_twist del: fun_upd_apply)
  qed (auto simp: m fun_eq_iff)
qed simp

lemma first_index_nth: "vs \<in> fst ` set ms \<Longrightarrow> map_of ms vs = Some (snd (ms ! first_index vs ms))"
  by (induction ms) auto

lemma view_bucket: "view b vs = map_of (bucket_of b (label_hash vs)) vs"
  by (simp add: view_def bucket_of_def split: option.splits)

lemma with_value_has: "vs \<in> fst ` set (with_value vs b)"
  by (simp add: with_value_def Let_def)

lemma with_value_view:
  "map_of (with_value vs b) ws =
     (if ws = vs then Some (case view b vs of None \<Rightarrow> NewSubMetric b vs | Some x \<Rightarrow> x) else map_of (bucket_of b (label_hash vs)) ws)"
proof (cases "vs \<in> fst ` set (bucket_of b (label_hash vs))")
  case True
  then obtain x where "map_of (bucket_of b (label_hash vs)) vs = Some x"
    by (metis map_of_eq_None_iff not_Some_eq)
  with True show ?thesis by (simp add: with_value_def Let_def view_bucket)
next
  case False
  then have "map_of (bucket_of b (label_hash vs)) vs = None" by (simp add: map_of_eq_None_iff)
  with False show ?thesis by (simp add: with_value_def Let_def view_bucket map_add_def split: option.splits)
qed

text \<open>Adding is an update of the map, whatever the hashes are.\<close>

definition labels_of :: "string list \<Rightarrow> 'm BaseMetric \<Rightarrow> bool" where
  "labels_of lvs b \<longleftrightarrow> places 0 (bm_curry b) (length (LabelKeys b)) \<and>
     validateLabelValues lvs (int (length (LabelKeys b)) - int (length (bm_curry b))) = None"

lemma labels_of_inlined:
  assumes "labels_of lvs b"
  shows "\<exists>vs. inlineLabelValues lvs (bm_curry b) = Ok vs \<and> length vs = length (LabelKeys b) \<and> hashLabelValues lvs b = Ok (label_hash vs)"
proof -
  have len: "length lvs + length (bm_curry b) = length (LabelKeys b)"
    using assms by (auto simp: labels_of_def validateLabelValues_def split: if_splits)
  from inline_loop_Ok [of 0 "bm_curry b" "length (LabelKeys b)" lvs "length (LabelKeys b)"] assms len
  obtain vs where "inline_loop (length (LabelKeys b)) 0 lvs (bm_curry b) = Ok vs" "length vs = length (LabelKeys b)"
    by (auto simp: labels_of_def)
  with assms len show ?thesis
    by (auto simp: inlineLabelValues_def hashLabelValues_def labels_of_def label_hash_def hash_loop_inline)
qed

definition same_shape :: "'m BaseMetric \<Rightarrow> 'm BaseMetric \<Rightarrow> bool" where
  "same_shape b b' \<longleftrightarrow> bm_Name b' = bm_Name b \<and> LabelKeys b' = LabelKeys b \<and> NewSubMetric b' = NewSubMetric b \<and> bm_curry b' = bm_curry b"

text \<open>Every bucket holds different label values of its own hash, as many as there are keys.\<close>

definition bm_wf :: "'m BaseMetric \<Rightarrow> bool" where
  "bm_wf b \<longleftrightarrow> distinct (map fst (bm_metrics b)) \<and>
     list_all (\<lambda>p. distinct (map fst (snd p)) \<and> list_all (\<lambda>e. label_hash (fst e) = fst p \<and> length (fst e) = length (LabelKeys b)) (snd p)) (bm_metrics b)"

lemma bm_wf_bucket:
  "bm_wf b \<Longrightarrow> distinct (map fst (bucket_of b h)) \<and> list_all (\<lambda>e. label_hash (fst e) = h \<and> length (fst e) = length (LabelKeys b)) (bucket_of b h)"
proof (cases "map_of (bm_metrics b) h")
  case (Some ms)
  assume "bm_wf b"
  then have "list_all (\<lambda>p. distinct (map fst (snd p)) \<and> list_all (\<lambda>e. label_hash (fst e) = fst p \<and> length (fst e) = length (LabelKeys b)) (snd p)) (bm_metrics b)"
    by (simp add: bm_wf_def)
  from this [unfolded list_all_iff [of _ "bm_metrics b"], rule_format, OF map_of_SomeD [OF Some]] Some
  show ?thesis by (simp add: bucket_of_def)
qed (simp add: bucket_of_def)

lemma bm_wf_update:
  assumes "bm_wf b" and "distinct (map fst ms)" and "list_all (\<lambda>e. label_hash (fst e) = h \<and> length (fst e) = length (LabelKeys b)) ms"
  shows "bm_wf (b\<lparr>bm_metrics := AList.update h ms (bm_metrics b)\<rparr>)"
proof -
  have "set (AList.update h ms xs) \<subseteq> insert (h, ms) (set xs)" for xs :: "(u64 \<times> 'a bucket) list"
    by (induction xs) auto
  with assms show ?thesis by (fastforce simp: bm_wf_def distinct_update list_all_iff)
qed

lemma with_value_wf:
  assumes "bm_wf b" and "length vs = length (LabelKeys b)"
  shows "distinct (map fst (with_value vs b)) \<and>
    list_all (\<lambda>e. label_hash (fst e) = label_hash vs \<and> length (fst e) = length (LabelKeys b)) (with_value vs b)"
  using bm_wf_bucket [OF assms(1), of "label_hash vs"] assms(2) by (auto simp: with_value_def Let_def)

lemma Counter_Add_view:
  fixes b :: "'f :: plus BaseMetric"
  assumes "labels_of lvs b" and wf: "bm_wf b"
  shows "\<exists>vs b'. inlineLabelValues lvs (bm_curry b) = Ok vs \<and> Counter_Add val lvs b = (Ok (), b') \<and> bm_wf b' \<and> same_shape b b' \<and>
    view b' = (view b)(vs \<mapsto> (case view b vs of None \<Rightarrow> NewSubMetric b vs | Some x \<Rightarrow> x) + val)"
proof -
  from labels_of_inlined [OF assms(1)] obtain vs where vs: "inlineLabelValues lvs (bm_curry b) = Ok vs"
    "length vs = length (LabelKeys b)" "hashLabelValues lvs b = Ok (label_hash vs)" by blast
  let ?ms = "with_value vs b" and ?h = "label_hash vs"
  from getOrCreate_inlined [OF vs(1)] obtain b1 where b1: "getOrCreateMetricWithLabelValues ?h lvs (bm_curry b) b = (Ok (first_index vs ?ms), b1)"
    "map_of (bm_metrics b1) = (map_of (bm_metrics b))(?h \<mapsto> ?ms)"
    "b1 = b \<or> b1 = b\<lparr>bm_metrics := AList.update ?h ?ms (bm_metrics b)\<rparr>" by blast
  define x where "x = (case view b vs of None \<Rightarrow> NewSubMetric b vs | Some x \<Rightarrow> x)"
  define ms' where "ms' = ?ms[first_index vs ?ms := (fst (?ms ! first_index vs ?ms), x + val)]"
  let ?b = "b1\<lparr>bm_metrics := AList.update ?h ms' (bm_metrics b1)\<rparr>"
  have x: "snd (?ms ! first_index vs ?ms) = x"
    using first_index_nth [OF with_value_has [of vs b]] with_value_view [of vs b vs] by (simp add: x_def)
  have add: "Counter_Add val lvs b = (Ok (), ?b)"
    using vs(3) b1(1,2) by (simp add: Counter_Add_def GetMetricWithLabelValues_def go_bind_def addFloat64_def x ms'_def)
  have wf1: "bm_wf b1" using b1(3) wf bm_wf_update with_value_wf [OF wf vs(2)] by blast
  have "map fst ms' = map fst ?ms" using with_value_has [of vs b]
    by (simp add: ms'_def map_update list_update_same_conv first_index_less)
  moreover have "length (fst e) = length (LabelKeys b) \<and> label_hash (fst e) = ?h" if "e \<in> set ms'" for e
  proof -
    have "fst e \<in> set (map fst ms')" using that by simp
    then have "fst e \<in> fst ` set ?ms" using calculation by simp
    with with_value_wf [OF wf vs(2)] show ?thesis by (auto simp: list_all_iff)
  qed
  ultimately have wf2: "bm_wf ?b"
    using wf1 with_value_wf [OF wf vs(2)] b1(3) by (intro bm_wf_update) (auto simp: list_all_iff)
  have shape: "same_shape b ?b" using b1(3) by (auto simp: same_shape_def)
  have ms': "map_of ms' = (map_of ?ms)(vs \<mapsto> x + val)"
    unfolding ms'_def by (rule map_of_first_update [OF with_value_has])
  have "view ?b ws = ((view b)(vs \<mapsto> x + val)) ws" for ws
  proof (cases "label_hash ws = ?h")
    case True
    then show ?thesis using ms' with_value_view [of vs b ws]
      by (auto simp: view_def update_conv' view_bucket [symmetric] bucket_of_def split: option.splits)
  next
    case False
    then show ?thesis using b1(2) by (auto simp: view_def update_conv')
  qed
  then have "view ?b = (view b)(vs \<mapsto> x + val)" by (rule ext)
  with vs(1) add wf2 shape show ?thesis unfolding x_def by blast
qed

text \<open>A sequence of additions.\<close>

fun add_all :: "(string list \<times> 'f) list \<Rightarrow> ('f :: plus BaseMetric, unit) go" where
  "add_all [] b = (Ok (), b)"
| "add_all ((lvs, v) # as) b = go_bind (Counter_Add v lvs) (\<lambda>_. add_all as) b"

definition total :: "'f :: {plus, zero} option \<Rightarrow> 'f list \<Rightarrow> 'f option" where
  "total x vs = (if vs = [] then x else Some (foldl (+) (case x of None \<Rightarrow> 0 | Some y \<Rightarrow> y) vs))"

definition added_to :: "string list \<Rightarrow> (string list \<times> 'f) list \<Rightarrow> 'f list" where
  "added_to lvs as = map snd (filter (\<lambda>a. fst a = lvs) as)"

lemma total_step: "total (Some ((case x of None \<Rightarrow> 0 | Some y \<Rightarrow> y) + v)) vs = total x (v # vs)"
  by (simp add: total_def)

lemma inline_no_curry: "inlineLabelValues lvs [] = Ok lvs"
proof -
  have "inline_loop (length lvs) i lvs [] = Ok lvs" for i
    by (induction lvs arbitrary: i) (simp_all add: next_label_def)
  then show ?thesis by (simp add: inlineLabelValues_def)
qed

lemma add_all_view:
  fixes b :: "'f :: {plus, zero} BaseMetric"
  assumes "list_all (\<lambda>a. labels_of (fst a) b) as" and "bm_wf b" and "bm_curry b = []" and "NewSubMetric b = (\<lambda>_. 0)"
  shows "\<exists>b'. add_all as b = (Ok (), b') \<and> bm_wf b' \<and> same_shape b b' \<and> (\<forall>lvs. view b' lvs = total (view b lvs) (added_to lvs as))"
  using assms
proof (induction as arbitrary: b)
  case Nil
  then show ?case by (simp add: same_shape_def total_def added_to_def)
next
  case (Cons a as b)
  obtain lvs v where a: "a = (lvs, v)" by fastforce
  have lab: "labels_of lvs b" using Cons.prems(1) a by simp
  from Counter_Add_view [OF lab Cons.prems(2), of v, unfolded Cons.prems(3,4) inline_no_curry] obtain b1 where
    b1: "Counter_Add v lvs b = (Ok (), b1)" "bm_wf b1" "same_shape b b1" "view b1 = (view b)(lvs \<mapsto> (case view b lvs of None \<Rightarrow> 0 | Some x \<Rightarrow> x) + v)"
    by auto
  have "list_all (\<lambda>a. labels_of (fst a) b1) as" using Cons.prems(1) b1(3) by (auto simp: list_all_iff labels_of_def same_shape_def)
  from Cons.IH [OF this b1(2)] b1(3) Cons.prems obtain b2 where
    b2: "add_all as b1 = (Ok (), b2)" "bm_wf b2" "same_shape b1 b2" "\<forall>lvs. view b2 lvs = total (view b1 lvs) (added_to lvs as)"
    by (auto simp: same_shape_def)
  have "view b2 ws = total (view b ws) (added_to ws (a # as))" for ws
    using b2(4) by (simp add: b1(4) a added_to_def total_step)
  with b1 b2 a show ?case by (auto simp: go_bind_def same_shape_def)
qed

section \<open>What is written\<close>

text \<open>The loops of \<open>WriteMetric\<close>: all values with their labels.\<close>

definition entries :: "'m BaseMetric \<Rightarrow> (string list \<times> 'm) list" where
  "entries b = concat (map snd (bm_metrics b))"

definition hashed :: "(u64 \<times> 'm bucket) list \<Rightarrow> bool" where
  "hashed xs \<longleftrightarrow> distinct (map fst xs) \<and> list_all (\<lambda>p. distinct (map fst (snd p)) \<and> list_all (\<lambda>e. label_hash (fst e) = fst p) (snd p)) xs"

lemma hashed_hashes: "hashed xs \<Longrightarrow> e \<in> set (concat (map snd xs)) \<Longrightarrow> label_hash (fst e) \<in> fst ` set xs"
  by (force simp: hashed_def list_all_iff)

lemma hashed_flat:
  "hashed xs \<Longrightarrow> distinct (map fst (concat (map snd xs))) \<and>
     (\<forall>vs. map_of (concat (map snd xs)) vs = Option.bind (map_of xs (label_hash vs)) (\<lambda>ms. map_of ms vs))"
proof (induction xs)
  case (Cons p xs)
  obtain h ms where p: "p = (h, ms)" by fastforce
  have xs: "hashed xs" using Cons.prems by (simp add: hashed_def)
  note IH = Cons.IH [OF xs]
  have h: "h \<notin> fst ` set xs" "distinct (map fst ms)" "\<And>e. e \<in> set ms \<Longrightarrow> label_hash (fst e) = h"
    using Cons.prems p by (auto simp: hashed_def list_all_iff)
  have "fst ` set ms \<inter> fst ` set (concat (map snd xs)) = {}"
  proof (intro Int_emptyI)
    fix vs assume vs: "vs \<in> fst ` set ms" "vs \<in> fst ` set (concat (map snd xs))"
    from vs(2) obtain e where "e \<in> set (concat (map snd xs))" "vs = fst e" by blast
    then have "label_hash vs \<in> fst ` set xs" using hashed_hashes [OF xs] by simp
    moreover have "label_hash vs = h" using vs(1) h(3) by blast
    ultimately show False using h(1) by simp
  qed
  then have d: "distinct (map fst ms @ map fst (concat (map snd xs)))" using IH h(2) by (simp only: distinct_append set_map)
  have "map_of (ms @ concat (map snd xs)) vs = Option.bind (map_of (p # xs) (label_hash vs)) (\<lambda>ms. map_of ms vs)" for vs
  proof (cases "label_hash vs = h")
    case True
    then have "map_of xs (label_hash vs) = None" using h(1) by (simp add: map_of_eq_None_iff)
    with True IH p show ?thesis by (simp add: map_add_def split: option.splits)
  next
    case False
    then have "map_of ms vs = None" using h(3) by (force simp: map_of_eq_None_iff)
    with False IH p show ?thesis by (simp add: map_add_def split: option.splits)
  qed
  with d p show ?case by (simp only: list.map concat.simps map_append snd_conv simp_thms)
qed simp

lemma entries_view:
  assumes "bm_wf b"
  shows "distinct (map fst (entries b)) \<and> map_of (entries b) = view b"
proof -
  have "hashed (bm_metrics b)" using assms by (auto simp: bm_wf_def hashed_def list_all_iff)
  from hashed_flat [OF this] show ?thesis by (simp add: entries_def view_def fun_eq_iff)
qed

end
