(* ===== verification/Grpc_Env.thy ===== *)
theory Grpc_Env
  imports Sender
begin

text \<open>
  The outside of the forwarders: a gRPC connection (or a Kafka producer), as a history of calls.
  The environment answers a call with an error or a message, as any function of the history; so a
  theorem over all environments covers every way in which calls can fail. A stream is named by
  the position of the call that opened it. The LRU cache of the routing rules is a library, given
  by its operations. Counters are kept by name.
\<close>

text \<open>What is sent: bytes that are passed on, messages whose fields the code reads, or nil.\<close>

datatype wire = Raw msg | Ping instance_ping | Meters "meter_data list" | Metrics metrics_message | Otlp otlp_request | NilMsg

text \<open>The context of a call: plain, with a route key and an appointed address, or two way.\<close>

datatype call_ctx = Background | Routed string string | Bidirectional

datatype rpc =
    Open string call_ctx
  | SendMsg nat wire
  | CloseAndRecv nat
  | CloseSend nat
  | RecvMsg nat
  | Call string call_ctx wire
  | Produce "(string \<times> msg) list"

type_synonym calls = "(rpc \<times> bool) list"

record 'c net =
  hist :: calls
  cache :: 'c
  counters :: "string \<Rightarrow> int"

record 'c grpc_env =
  answer :: "calls \<Rightarrow> rpc \<Rightarrow> go_error + msg"
  peer_address :: "calls \<Rightarrow> nat \<Rightarrow> string"
  appointed :: "calls \<Rightarrow> string"
  lru_New :: "int \<Rightarrow> 'c"
  lru_Add :: "'c \<Rightarrow> string \<Rightarrow> string \<Rightarrow> 'c"
  lru_Get :: "'c \<Rightarrow> string \<Rightarrow> string option \<times> 'c"

type_synonym ('c, 'a) netgo = "('c net, 'a) go"

definition do_rpc :: "'c grpc_env \<Rightarrow> rpc \<Rightarrow> ('c, msg) netgo" where
  "do_rpc env c n =
     (case answer env (hist n) c of
        Inl e \<Rightarrow> (Err e, n\<lparr>hist := hist n @ [(c, False)]\<rparr>)
      | Inr m \<Rightarrow> (Ok m, n\<lparr>hist := hist n @ [(c, True)]\<rparr>))"

definition open_stream :: "'c grpc_env \<Rightarrow> string \<Rightarrow> call_ctx \<Rightarrow> ('c, nat) netgo" where
  "open_stream env meth ctx n =
     (let s = length (hist n) in go_bind (do_rpc env (Open meth ctx)) (\<lambda>_. go_return s) n)"

text \<open>The error of a call, as a value.\<close>

definition try_rpc :: "'c grpc_env \<Rightarrow> rpc \<Rightarrow> ('c, go_error option) netgo" where
  "try_rpc env c n =
     (case do_rpc env c n of (Ok _, n') \<Rightarrow> (Ok None, n') | (Err e, n') \<Rightarrow> (Ok (Some e), n') | (Panic, n') \<Rightarrow> (Panic, n') | (Hang, n') \<Rightarrow> (Hang, n'))"

definition count_by :: "string \<Rightarrow> int \<Rightarrow> ('c, unit) netgo" where
  "count_by k d n = (Ok (), n\<lparr>counters := (counters n)(k := counters n k + d)\<rparr>)"

text \<open>\<open>CloseAndRecv\<close>, where the end of the stream is not an error.\<close>

definition close_and_recv :: "'c grpc_env \<Rightarrow> nat \<Rightarrow> ('c, go_error option) netgo" where
  "close_and_recv env s = go_bind (try_rpc env (CloseAndRecv s)) (\<lambda>r. go_return (if r = Some EOF then None else r))"

section \<open>What was delivered\<close>

fun sent_by :: "rpc \<Rightarrow> wire list" where
  "sent_by (SendMsg s w) = [w]"
| "sent_by (Call m c w) = [w]"
| "sent_by (Produce ms) = map (\<lambda>p. Raw (snd p)) ms"
| "sent_by _ = []"

definition delivered :: "calls \<Rightarrow> wire list" where
  "delivered h = concat (map (\<lambda>p. if snd p then sent_by (fst p) else []) h)"

lemma delivered_Nil [simp]: "delivered [] = []"
  and delivered_append [simp]: "delivered (h @ h') = delivered h @ delivered h'"
  and delivered_Cons [simp]: "delivered (p # h) = (if snd p then sent_by (fst p) else []) @ delivered h"
  by (simp_all add: delivered_def)

text \<open>The streams that were opened, and those that were closed, with repetitions.\<close>

definition opened_streams :: "calls \<Rightarrow> nat list" where
  "opened_streams h = filter (\<lambda>i. case h ! i of (Open m c, ok) \<Rightarrow> ok | _ \<Rightarrow> False) [0..<length h]"

definition closed_streams :: "calls \<Rightarrow> nat list" where
  "closed_streams h = concat (map (\<lambda>p. case fst p of CloseAndRecv s \<Rightarrow> [s] | CloseSend s \<Rightarrow> [s] | _ \<Rightarrow> []) h)"

section \<open>Calls never panic\<close>

lemma do_rpc_cases:
  obtains (ok) m where "do_rpc env c n = (Ok m, n\<lparr>hist := hist n @ [(c, True)]\<rparr>)"
  | (err) e where "do_rpc env c n = (Err e, n\<lparr>hist := hist n @ [(c, False)]\<rparr>)"
  by (cases "answer env (hist n) c") (auto simp: do_rpc_def)

lemma wp_do_rpc:
  assumes "\<And>m. Q m (n\<lparr>hist := hist n @ [(c, True)]\<rparr>)" and "\<And>e. E e (n\<lparr>hist := hist n @ [(c, False)]\<rparr>)"
  shows "wp False (do_rpc env c) Q E n"
  using assms by (cases rule: do_rpc_cases [of env c n]) (auto simp: wp_def)

lemma wp_open_stream:
  assumes "Q (length (hist n)) (n\<lparr>hist := hist n @ [(Open meth ctx, True)]\<rparr>)"
    and "\<And>e. E e (n\<lparr>hist := hist n @ [(Open meth ctx, False)]\<rparr>)"
  shows "wp False (open_stream env meth ctx) Q E n"
  using assms by (cases rule: do_rpc_cases [of env "Open meth ctx" n]) (auto simp: wp_def open_stream_def go_bind_def)

lemma wp_try_rpc:
  assumes "Q None (n\<lparr>hist := hist n @ [(c, True)]\<rparr>)" and "\<And>e. Q (Some e) (n\<lparr>hist := hist n @ [(c, False)]\<rparr>)"
  shows "wp False (try_rpc env c) Q E n"
  using assms by (cases rule: do_rpc_cases [of env c n]) (auto simp: wp_def try_rpc_def)

lemma wp_close_and_recv:
  assumes "\<And>r ok. Q r (n\<lparr>hist := hist n @ [(CloseAndRecv s, ok)]\<rparr>)"
  shows "wp False (close_and_recv env s) Q E n"
  unfolding close_and_recv_def wp_bind by (rule wp_try_rpc) (use assms in \<open>simp_all add: wp_def\<close>)

lemma wp_return [simp]: "wp h (go_return x) Q E s = Q x s"
  by (simp add: wp_def)

end
