(* ===== verification/Metric_Service.thy ===== *)
theory Metric_Service
  imports Metric_Labels Grpc_Env
begin

text \<open>
  \<open>internal/satellite/telemetry/metricservice\<close>: the registry of metrics and the report to the
  backend. A metric that another one points to is named by its key in the registry (a metric that
  is registered is never replaced). Getters of gauges read the state \<open>'w\<close> of the satellite. The
  iteration over the map of metrics follows the list. The wire form of a value is the parameter
  \<open>encode\<close>.
\<close>

datatype ('w, 'f) Metric =
    CounterMetric "'f BaseMetric"
  | GaugeMetric string "(string \<times> string) list" "'w \<Rightarrow> 'f"
  | DynamicGaugeMetric "'f BaseMetric"
  | TimerMetric string string string

record ('w, 'f) metric_server =
  ms_service :: string
  ms_instance :: string
  MetricPrefix :: string
  ms_ClientName :: string
  ms_metrics :: "(string \<times> ('w, 'f) Metric) list"
  prevServerAddr :: string
  reportStream :: "nat option"

type_synonym ('w, 'f, 'a) msgo = "(('w, 'f) metric_server, 'a) go"

definition metric_Start :: "string \<Rightarrow> string \<Rightarrow> string \<Rightarrow> string \<Rightarrow> ('w, 'f) metric_server \<Rightarrow> ('w, 'f) metric_server" where
  "metric_Start service inst prefix client s =
     s\<lparr>ms_metrics := [], MetricPrefix := prefix, ms_ClientName := client, ms_service := service, ms_instance := inst\<rparr>"

definition metric_Register :: "string \<Rightarrow> ('w, 'f) Metric \<Rightarrow> ('w, 'f) metric_server \<Rightarrow> ('w, 'f) metric_server" where
  "metric_Register name metric s = s\<lparr>ms_metrics := AList.update name metric (ms_metrics s)\<rparr>"

section \<open>Creating metrics\<close>

text \<open>The result is the key of the metric; a metric of another type under this key is a panic.\<close>

definition NewCounter :: "string \<Rightarrow> string list \<Rightarrow> ('w, 'f :: zero, string) msgo" where
  "NewCounter name labels s =
     (case map_of (ms_metrics s) name of
        None \<Rightarrow> (Ok name, metric_Register name (CounterMetric (NewBaseMetric name labels (\<lambda>_. 0))) s)
      | Some (CounterMetric b) \<Rightarrow> (Ok name, s)
      | Some _ \<Rightarrow> (Panic, s))"

definition rebuildGaugeName :: "string \<Rightarrow> string list \<Rightarrow> string" where
  "rebuildGaugeName name labels = fold (\<lambda>l r. r @ ''_'' @ l) labels name"

text \<open>The constant labels are given as keys and values in turn; an odd number of them panics.\<close>

fun const_labels :: "string list \<Rightarrow> (string \<times> string) list \<Rightarrow> (string \<times> string) list outcome" where
  "const_labels [] acc = Ok acc"
| "const_labels [k] acc = Panic"
| "const_labels (k # v # ls) acc = const_labels ls (AList.update k v acc)"

definition NewGauge :: "string \<Rightarrow> ('w \<Rightarrow> 'f) \<Rightarrow> string list \<Rightarrow> ('w, 'f, string) msgo" where
  "NewGauge name getter labels s =
     (let rebuildName = rebuildGaugeName name labels in
      case const_labels labels [] of
        Ok constLabels \<Rightarrow>
          (Ok rebuildName, if map_of (ms_metrics s) rebuildName = None
             then metric_Register rebuildName (GaugeMetric name constLabels getter) s else s)
      | _ \<Rightarrow> (Panic, s))"

definition NewDynamicGauge :: "string \<Rightarrow> string list \<Rightarrow> ('w, 'f :: zero, string) msgo" where
  "NewDynamicGauge name labels s =
     (let rebuildName = rebuildGaugeName name labels in
      case map_of (ms_metrics s) rebuildName of
        None \<Rightarrow> (Ok rebuildName, metric_Register rebuildName (DynamicGaugeMetric (NewBaseMetric name labels (\<lambda>_. 0))) s)
      | Some (DynamicGaugeMetric b) \<Rightarrow> (Ok rebuildName, s)
      | Some _ \<Rightarrow> (Panic, s))"

definition NewTimer :: "string \<Rightarrow> string list \<Rightarrow> ('w, 'f :: zero, string) msgo" where
  "NewTimer name labels s =
     (case map_of (ms_metrics s) name of
        None \<Rightarrow>
          go_bind (NewCounter (name @ ''_sum'') labels) (\<lambda>sk.
          go_bind (NewCounter (name @ ''_count'') labels) (\<lambda>ck s.
            (Ok name, metric_Register name (TimerMetric name sk ck) s))) s
      | Some (TimerMetric n a b) \<Rightarrow> (Ok name, s)
      | Some _ \<Rightarrow> (Panic, s))"

section \<open>Changing metrics\<close>

definition counter_at :: "string \<Rightarrow> ('f BaseMetric, unit) go \<Rightarrow> ('w, 'f, unit) msgo" where
  "counter_at key act s =
     (case map_of (ms_metrics s) key of
        Some (CounterMetric b) \<Rightarrow> (case act b of (r, b') \<Rightarrow> (r, metric_Register key (CounterMetric b') s))
      | _ \<Rightarrow> (Panic, s))"

text \<open>\<open>AddTime\<close> of a timer: the time in milliseconds to the sum, one to the count.\<close>

definition AddTime :: "string \<Rightarrow> 'f \<Rightarrow> string list \<Rightarrow> ('w, 'f :: {plus, one}, unit) msgo" where
  "AddTime key ms labelValues s =
     (case map_of (ms_metrics s) key of
        Some (TimerMetric n sk ck) \<Rightarrow>
          go_bind (counter_at sk (Counter_Add ms labelValues)) (\<lambda>_. counter_at ck (Counter_Inc labelValues)) s
      | _ \<Rightarrow> (Panic, s))"

section \<open>Reporting\<close>

text \<open>A value in a report: its name, labels and number.\<close>

record 'f single_value =
  sv_Name :: string
  sv_Labels :: "(string \<times> string) list"
  sv_Value :: 'f

definition appendSingleValue :: "string \<Rightarrow> string \<Rightarrow> (string \<times> string) list \<Rightarrow> 'f \<Rightarrow> 'f single_value list \<Rightarrow> 'f single_value list" where
  "appendSingleValue prefix name labels val ms = ms @ [\<lparr>sv_Name = prefix @ name, sv_Labels = labels, sv_Value = val\<rparr>]"

definition WriteMetric_base :: "string \<Rightarrow> 'f BaseMetric \<Rightarrow> 'f single_value list \<Rightarrow> 'f single_value list" where
  "WriteMetric_base prefix b =
     fold (\<lambda>(vals, x). appendSingleValue prefix (bm_Name b) (zip (LabelKeys b) vals) x) (entries b)"

text \<open>A timer writes its two counters.\<close>

definition write_counter :: "string \<Rightarrow> ('w, 'f) metric_server \<Rightarrow> string \<Rightarrow> 'f single_value list \<Rightarrow> 'f single_value list" where
  "write_counter prefix s key ms = (case map_of (ms_metrics s) key of Some (CounterMetric b) \<Rightarrow> WriteMetric_base prefix b ms | _ \<Rightarrow> ms)"

fun WriteMetric :: "string \<Rightarrow> 'w \<Rightarrow> ('w, 'f) metric_server \<Rightarrow> ('w, 'f) Metric \<Rightarrow> 'f single_value list \<Rightarrow> 'f single_value list" where
  "WriteMetric prefix w s (CounterMetric b) ms = WriteMetric_base prefix b ms"
| "WriteMetric prefix w s (DynamicGaugeMetric b) ms = WriteMetric_base prefix b ms"
| "WriteMetric prefix w s (GaugeMetric name labels getter) ms = appendSingleValue prefix name labels (getter w) ms"
| "WriteMetric prefix w s (TimerMetric name sk ck) ms = write_counter prefix s ck (write_counter prefix s sk ms)"

definition appended :: "'w \<Rightarrow> ('w, 'f) metric_server \<Rightarrow> 'f single_value list" where
  "appended w s = fold (\<lambda>p. WriteMetric (MetricPrefix s) w s (snd p)) (ms_metrics s) []"

text \<open>
  The report goes over one stream, which is opened again after an error. The two states of these
  calls are the server and the network.
\<close>

definition openBatchStream :: "'c grpc_env \<Rightarrow> (('w, 'f) metric_server \<times> 'c net, unit) go" where
  "openBatchStream env sn =
     (case sn of (s, n) \<Rightarrow>
        (case (case reportStream s of None \<Rightarrow> (Ok None, n) | Some st \<Rightarrow> try_rpc env (CloseAndRecv st) n) of
           (Ok _, n1) \<Rightarrow>
             (case open_stream env ''MeterReportService.CollectBatch'' (Routed ''metricsService'' (prevServerAddr s)) n1 of
                (Ok st, n2) \<Rightarrow> (Ok (), s\<lparr>reportStream := Some st, prevServerAddr := peer_address env (hist n2) st\<rparr>, n2)
              | (Err e, n2) \<Rightarrow> (Err (Errorf ''could not start metrics service stream''), s, n2)
              | (Panic, n2) \<Rightarrow> (Panic, s, n2)
              | (Hang, n2) \<Rightarrow> (Hang, s, n2))
         | (Err e, n1) \<Rightarrow> (Err e, s, n1)
         | (Panic, n1) \<Rightarrow> (Panic, s, n1)
         | (Hang, n1) \<Rightarrow> (Hang, s, n1)))"

definition report_data :: "(int \<Rightarrow> 'f single_value \<Rightarrow> msg) \<Rightarrow> int \<Rightarrow> ('w, 'f) metric_server \<Rightarrow> 'f single_value list \<Rightarrow> meter_data list" where
  "report_data encode time s vs =
     (case map (\<lambda>v. \<lparr>m_service = [], m_instance = [], m_value = encode time v\<rparr>) vs of
        [] \<Rightarrow> []
      | m # ms \<Rightarrow> m\<lparr>m_service := ms_service s, m_instance := ms_instance s\<rparr> # ms)"

definition send_report :: "'c grpc_env \<Rightarrow> (int \<Rightarrow> 'f single_value \<Rightarrow> msg) \<Rightarrow> int \<Rightarrow> 'w \<Rightarrow> (('w, 'f) metric_server \<times> 'c net, unit) go" where
  "send_report env encode time w sn =
     (case sn of (s, n) \<Rightarrow>
        if appended w s = [] then (Ok (), s, n)
        else case reportStream s of
            None \<Rightarrow> (Panic, s, n)
          | Some st \<Rightarrow>
              (case try_rpc env (SendMsg st (Meters (report_data encode time s (appended w s)))) n of
                 (Ok None, n1) \<Rightarrow> (Ok (), s, n1)
               | (Ok (Some e), n1) \<Rightarrow>
                   (case openBatchStream env (s, n1) of
                      (Panic, sn2) \<Rightarrow> (Panic, sn2) | (Hang, sn2) \<Rightarrow> (Hang, sn2) | (_, sn2) \<Rightarrow> (Ok (), sn2))
               | (_, n1) \<Rightarrow> (Panic, s, n1)))"

definition sendMetrics :: "'c grpc_env \<Rightarrow> (int \<Rightarrow> 'f single_value \<Rightarrow> msg) \<Rightarrow> int \<Rightarrow> 'w \<Rightarrow> (('w, 'f) metric_server \<times> 'c net, unit) go" where
  "sendMetrics env encode time w sn =
     (if reportStream (fst sn) = None then go_bind (openBatchStream env) (\<lambda>_. send_report env encode time w) sn
      else send_report env encode time w sn)"

definition metric_Close :: "'c grpc_env \<Rightarrow> (('w, 'f) metric_server \<times> 'c net, unit) go" where
  "metric_Close env sn =
     (case sn of (s, n) \<Rightarrow>
        (case reportStream s of
           None \<Rightarrow> (Ok (), s, n)
         | Some st \<Rightarrow> (case try_rpc env (CloseAndRecv st) n of (Ok _, n1) \<Rightarrow> (Ok (), s, n1) | (_, n1) \<Rightarrow> (Panic, s, n1))))"

section \<open>The values of a report\<close>

definition base_values :: "string \<Rightarrow> 'f BaseMetric \<Rightarrow> 'f single_value list" where
  "base_values prefix b = map (\<lambda>e. \<lparr>sv_Name = prefix @ bm_Name b, sv_Labels = zip (LabelKeys b) (fst e), sv_Value = snd e\<rparr>) (entries b)"

lemma WriteMetric_base_values: "WriteMetric_base prefix b ms = ms @ base_values prefix b"
proof -
  have "fold (\<lambda>(vals, x). appendSingleValue prefix (bm_Name b) (zip (LabelKeys b) vals) x) es ms
      = ms @ map (\<lambda>e. \<lparr>sv_Name = prefix @ bm_Name b, sv_Labels = zip (LabelKeys b) (fst e), sv_Value = snd e\<rparr>) es" for es
    by (induction es arbitrary: ms) (simp_all add: appendSingleValue_def split_def)
  then show ?thesis by (simp add: WriteMetric_base_def base_values_def)
qed

fun metric_values :: "'w \<Rightarrow> ('w, 'f) metric_server \<Rightarrow> ('w, 'f) Metric \<Rightarrow> 'f single_value list" where
  "metric_values w s (CounterMetric b) = base_values (MetricPrefix s) b"
| "metric_values w s (DynamicGaugeMetric b) = base_values (MetricPrefix s) b"
| "metric_values w s (GaugeMetric name labels getter) = [\<lparr>sv_Name = MetricPrefix s @ name, sv_Labels = labels, sv_Value = getter w\<rparr>]"
| "metric_values w s (TimerMetric name sk ck) =
     (case map_of (ms_metrics s) sk of Some (CounterMetric b) \<Rightarrow> base_values (MetricPrefix s) b | _ \<Rightarrow> []) @
     (case map_of (ms_metrics s) ck of Some (CounterMetric b) \<Rightarrow> base_values (MetricPrefix s) b | _ \<Rightarrow> [])"

lemma WriteMetric_values: "WriteMetric (MetricPrefix s) w s m ms = ms @ metric_values w s m"
  by (cases m) (auto simp: WriteMetric_base_values appendSingleValue_def write_counter_def split: option.splits Metric.splits)

lemma appended_values:
  fixes s :: "('w, 'f) metric_server"
  shows "appended w s = concat (map (\<lambda>p. metric_values w s (snd p)) (ms_metrics s))"
proof -
  have "fold (\<lambda>p. WriteMetric (MetricPrefix s) w s (snd p)) ps ms = ms @ concat (map (\<lambda>p. metric_values w s (snd p)) ps)"
    for ps :: "(string \<times> ('w, 'f) Metric) list" and ms
    by (induction ps arbitrary: ms) (simp_all add: WriteMetric_values)
  then show ?thesis by (simp add: appended_def)
qed

end
