(* ===== verification/Telemetry.thy ===== *)
theory Telemetry
  imports Metric_Service
begin

text \<open>
  \<open>internal/satellite/telemetry/telemetry.go\<close>, the servers \<open>none\<close> and \<open>metricservice\<close> behind its interface:
  the satellite creates its metrics at the current server, which may pass every call on to
  several servers.

  An object of an interface is the record of its methods over a state \<open>'w\<close>. A time is given where
  the code reads the clock, in nanoseconds. \<open>Append\<close> of the package \<open>multierror\<close> is an argument.
\<close>

section \<open>The interfaces\<close>

record ('w, 'f) counter =
  c_Inc :: "string list \<Rightarrow> ('w, unit) go"
  c_Add :: "'f \<Rightarrow> string list \<Rightarrow> ('w, unit) go"

record 'w dynamic_gauge =
  g_Inc :: "string list \<Rightarrow> ('w, unit) go"
  g_Dec :: "string list \<Rightarrow> ('w, unit) go"

type_synonym 'w recorder = "int \<Rightarrow> ('w, unit) go"

record 'w timer =
  t_Start :: "int \<Rightarrow> string list \<Rightarrow> ('w, 'w recorder) go"
  t_AddTime :: "int \<Rightarrow> string list \<Rightarrow> ('w, unit) go"

record tel_config =
  tc_Cluster :: string
  tc_Service :: string
  tc_Instance :: string
  ExportType :: string
  tc_MetricPrefix :: string
  ClientName :: string

record ('x, 'w, 'f) tel_server =
  ts_Start :: "tel_config \<Rightarrow> ('w, unit) go"
  ts_AfterSharingStart :: "('w, unit) go"
  ts_Close :: "('w, unit) go"
  ts_NewCounter :: "string \<Rightarrow> string list \<Rightarrow> ('w, ('w, 'f) counter) go"
  ts_NewGauge :: "string \<Rightarrow> ('x \<Rightarrow> 'f) \<Rightarrow> string list \<Rightarrow> ('w, unit) go"
  ts_NewDynamicGauge :: "string \<Rightarrow> string list \<Rightarrow> ('w, 'w dynamic_gauge) go"
  ts_NewTimer :: "string \<Rightarrow> string list \<Rightarrow> ('w, 'w timer) go"

section \<open>Several servers\<close>

text \<open>The loops: a call for each element, and a call for each whose results are collected.\<close>

fun for_each :: "('a \<Rightarrow> ('w, unit) go) \<Rightarrow> 'a list \<Rightarrow> ('w, unit) go" where
  "for_each f [] w = (Ok (), w)"
| "for_each f (x # xs) w = go_bind (f x) (\<lambda>_. for_each f xs) w"

fun collect :: "('a \<Rightarrow> ('w, 'b) go) \<Rightarrow> 'a list \<Rightarrow> ('w, 'b list) go" where
  "collect f [] w = (Ok [], w)"
| "collect f (x # xs) w = go_bind (f x) (\<lambda>y. go_bind (collect f xs) (\<lambda>ys. go_return (y # ys))) w"

text \<open>A loop that goes on after an error and returns all of them.\<close>

fun each_error :: "(go_error option \<Rightarrow> go_error \<Rightarrow> go_error) \<Rightarrow> ('a \<Rightarrow> ('w, unit) go) \<Rightarrow> 'a list \<Rightarrow> go_error option \<Rightarrow> ('w, unit) go" where
  "each_error Append f [] err w = (case err of None \<Rightarrow> (Ok (), w) | Some e \<Rightarrow> (Err e, w))"
| "each_error Append f (x # xs) err w =
     (case f x w of
        (Ok _, w1) \<Rightarrow> each_error Append f xs err w1
      | (Err e, w1) \<Rightarrow> each_error Append f xs (Some (Append err e)) w1
      | (Panic, w1) \<Rightarrow> (Panic, w1)
      | (Hang, w1) \<Rightarrow> (Hang, w1))"

definition MultipleCounter :: "('w, 'f) counter list \<Rightarrow> ('w, 'f) counter" where
  "MultipleCounter cs =
     \<lparr>c_Inc = (\<lambda>ls. for_each (\<lambda>c. c_Inc c ls) cs), c_Add = (\<lambda>v ls. for_each (\<lambda>c. c_Add c v ls) cs)\<rparr>"

definition MultipleDynamicGauge :: "'w dynamic_gauge list \<Rightarrow> 'w dynamic_gauge" where
  "MultipleDynamicGauge gs =
     \<lparr>g_Inc = (\<lambda>ls. for_each (\<lambda>g. g_Inc g ls) gs), g_Dec = (\<lambda>ls. for_each (\<lambda>g. g_Dec g ls) gs)\<rparr>"

definition MultipleTimeRecorder :: "'w recorder list \<Rightarrow> 'w recorder" where
  "MultipleTimeRecorder rs now = for_each (\<lambda>r. r now) rs"

definition MultipleTimer :: "'w timer list \<Rightarrow> 'w timer" where
  "MultipleTimer ts =
     \<lparr>t_Start = (\<lambda>now ls. go_bind (collect (\<lambda>t. t_Start t now ls) ts) (\<lambda>rs. go_return (MultipleTimeRecorder rs))),
      t_AddTime = (\<lambda>d ls. for_each (\<lambda>t. t_AddTime t d ls) ts)\<rparr>"

definition MultipleServer :: "(go_error option \<Rightarrow> go_error \<Rightarrow> go_error) \<Rightarrow> ('x, 'w, 'f) tel_server list \<Rightarrow> ('x, 'w, 'f) tel_server" where
  "MultipleServer Append ss =
     \<lparr>ts_Start = (\<lambda>config. each_error Append (\<lambda>s. ts_Start s config) ss None),
      ts_AfterSharingStart = each_error Append ts_AfterSharingStart ss None,
      ts_Close = each_error Append ts_Close ss None,
      ts_NewCounter = (\<lambda>name labels. go_bind (collect (\<lambda>s. ts_NewCounter s name labels) ss) (\<lambda>cs. go_return (MultipleCounter cs))),
      ts_NewGauge = (\<lambda>name getter labels. for_each (\<lambda>s. ts_NewGauge s name getter labels) ss),
      ts_NewDynamicGauge = (\<lambda>name labels. go_bind (collect (\<lambda>s. ts_NewDynamicGauge s name labels) ss) (\<lambda>gs. go_return (MultipleDynamicGauge gs))),
      ts_NewTimer = (\<lambda>name labels. go_bind (collect (\<lambda>s. ts_NewTimer s name labels) ss) (\<lambda>ts. go_return (MultipleTimer ts)))\<rparr>"

section \<open>The current server\<close>

record ('x, 'w, 'f) tel_globals =
  servers :: "(string \<times> ('x, 'w, 'f) tel_server) list"
  currentServer :: "('x, 'w, 'f) tel_server option"
  defaultServer :: "('x, 'w, 'f) tel_server option"

definition tel_Register :: "string \<Rightarrow> ('x, 'w, 'f) tel_server \<Rightarrow> bool \<Rightarrow> ('x, 'w, 'f) tel_globals \<Rightarrow> ('x, 'w, 'f) tel_globals" where
  "tel_Register name server isDefault g =
     (let g1 = g\<lparr>servers := AList.update name server (servers g)\<rparr>
      in if isDefault then g1\<lparr>defaultServer := Some server\<rparr> else g1)"

fun start_exporters :: "('x, 'w, 'f) tel_globals \<Rightarrow> tel_config \<Rightarrow> string list \<Rightarrow> ('w, ('x, 'w, 'f) tel_server list) go" where
  "start_exporters g c [] w = (Ok [], w)"
| "start_exporters g c (t # types) w =
     (case map_of (servers g) t of
        None \<Rightarrow> (Err (Errorf (''could not found telemetry exporter: '' @ t)), w)
      | Some server \<Rightarrow>
          go_bind (ts_Start server c) (\<lambda>_. go_bind (start_exporters g c types) (\<lambda>ss. go_return (server # ss))) w)"

definition tel_Init :: "(go_error option \<Rightarrow> go_error \<Rightarrow> go_error) \<Rightarrow> tel_config \<Rightarrow> (('x, 'w, 'f) tel_globals \<times> 'w, unit) go" where
  "tel_Init Append c gw =
     (case gw of (g, w) \<Rightarrow>
        (case start_exporters g c (Split (CHR '','') (ExportType c)) w of
           (Ok exportServers, w1) \<Rightarrow>
             (Ok (), (if length exportServers > 1 then g\<lparr>currentServer := Some (MultipleServer Append exportServers)\<rparr>
                      else case exportServers of [s] \<Rightarrow> g\<lparr>currentServer := Some s\<rparr> | _ \<Rightarrow> g), w1)
         | (Err e, w1) \<Rightarrow> (Err e, g, w1)
         | (Panic, w1) \<Rightarrow> (Panic, g, w1)
         | (Hang, w1) \<Rightarrow> (Hang, g, w1)))"

definition getServer :: "('x, 'w, 'f) tel_globals \<Rightarrow> ('x, 'w, 'f) tel_server option \<times> ('x, 'w, 'f) tel_globals" where
  "getServer g =
     (let g1 = (if currentServer g = None then g\<lparr>currentServer := defaultServer g\<rparr> else g) in (currentServer g1, g1))"

text \<open>A call of the package: a method of the current server; without one it is a nil dereference.\<close>

definition at_server :: "(('x, 'w, 'f) tel_server \<Rightarrow> ('w, 'a) go) \<Rightarrow> (('x, 'w, 'f) tel_globals \<times> 'w, 'a) go" where
  "at_server meth gw =
     (case gw of (g, w) \<Rightarrow>
        (case getServer g of
           (None, g1) \<Rightarrow> (Panic, g1, w)
         | (Some s, g1) \<Rightarrow> (case meth s w of (r, w1) \<Rightarrow> (r, g1, w1))))"

definition tel_AfterShardingStart :: "(('x, 'w, 'f) tel_globals \<times> 'w, unit) go" where
  "tel_AfterShardingStart = at_server ts_AfterSharingStart"

definition tel_Close :: "(('x, 'w, 'f) tel_globals \<times> 'w, unit) go" where
  "tel_Close = at_server ts_Close"

definition tel_NewCounter :: "string \<Rightarrow> string list \<Rightarrow> (('x, 'w, 'f) tel_globals \<times> 'w, ('w, 'f) counter) go" where
  "tel_NewCounter name labels = at_server (\<lambda>s. ts_NewCounter s name labels)"

definition tel_NewGauge :: "string \<Rightarrow> ('x \<Rightarrow> 'f) \<Rightarrow> string list \<Rightarrow> (('x, 'w, 'f) tel_globals \<times> 'w, unit) go" where
  "tel_NewGauge name getter labels = at_server (\<lambda>s. ts_NewGauge s name getter labels)"

definition tel_NewDynamicGauge :: "string \<Rightarrow> string list \<Rightarrow> (('x, 'w, 'f) tel_globals \<times> 'w, 'w dynamic_gauge) go" where
  "tel_NewDynamicGauge name labels = at_server (\<lambda>s. ts_NewDynamicGauge s name labels)"

definition tel_NewTimer :: "string \<Rightarrow> string list \<Rightarrow> (('x, 'w, 'f) tel_globals \<times> 'w, 'w timer) go" where
  "tel_NewTimer name labels = at_server (\<lambda>s. ts_NewTimer s name labels)"

section \<open>The server none\<close>

definition none_Counter :: "('w, 'f) counter" where
  "none_Counter = \<lparr>c_Inc = (\<lambda>_. go_return ()), c_Add = (\<lambda>_ _. go_return ())\<rparr>"

definition none_DynamicGauge :: "'w dynamic_gauge" where
  "none_DynamicGauge = \<lparr>g_Inc = (\<lambda>_. go_return ()), g_Dec = (\<lambda>_. go_return ())\<rparr>"

definition none_Timer :: "'w timer" where
  "none_Timer = \<lparr>t_Start = (\<lambda>_ _. go_return (\<lambda>_. go_return ())), t_AddTime = (\<lambda>_ _. go_return ())\<rparr>"

definition none_server :: "('x, 'w, 'f) tel_server" where
  "none_server = \<lparr>ts_Start = (\<lambda>_. go_return ()), ts_AfterSharingStart = go_return (), ts_Close = go_return (),
     ts_NewCounter = (\<lambda>_ _. go_return none_Counter), ts_NewGauge = (\<lambda>_ _ _. go_return ()),
     ts_NewDynamicGauge = (\<lambda>_ _. go_return none_DynamicGauge), ts_NewTimer = (\<lambda>_ _. go_return none_Timer)\<rparr>"

section \<open>The server of the metrics service\<close>

text \<open>Its state is the registry of metrics and the network.\<close>

type_synonym ('x, 'f, 'c) ms_world = "('x, 'f) metric_server \<times> 'c net"

definition on_registry :: "(('x, 'f) metric_server, 'a) go \<Rightarrow> (('x, 'f, 'c) ms_world, 'a) go" where
  "on_registry act sn = (case act (fst sn) of (r, s) \<Rightarrow> (r, s, snd sn))"

definition counter_object :: "string \<Rightarrow> (('x, 'f :: {plus, one}, 'c) ms_world, 'f) counter" where
  "counter_object key = \<lparr>c_Inc = (\<lambda>ls. on_registry (counter_at key (Counter_Inc ls))),
     c_Add = (\<lambda>v ls. on_registry (counter_at key (Counter_Add v ls)))\<rparr>"

definition gauge_at :: "string \<Rightarrow> ('f BaseMetric, unit) go \<Rightarrow> ('w, 'f, unit) msgo" where
  "gauge_at key act s =
     (case map_of (ms_metrics s) key of
        Some (DynamicGaugeMetric b) \<Rightarrow> (case act b of (r, b') \<Rightarrow> (r, metric_Register key (DynamicGaugeMetric b') s))
      | _ \<Rightarrow> (Panic, s))"

definition gauge_object :: "string \<Rightarrow> ('x, 'f :: {plus, one, uminus}, 'c) ms_world dynamic_gauge" where
  "gauge_object key = \<lparr>g_Inc = (\<lambda>ls. on_registry (gauge_at key (DynamicGauge_Inc ls))),
     g_Dec = (\<lambda>ls. on_registry (gauge_at key (DynamicGauge_Dec ls)))\<rparr>"

text \<open>A duration in milliseconds, as a float: the conversion is \<open>f64\<close>.\<close>

definition timer_AddTime :: "(int \<Rightarrow> 'f) \<Rightarrow> string \<Rightarrow> int \<Rightarrow> string list \<Rightarrow> (('x, 'f :: {plus, one}, 'c) ms_world, unit) go" where
  "timer_AddTime f64 key d ls = on_registry (AddTime key (f64 (sgn d * (\<bar>d\<bar> div 1000000))) ls)"

definition timer_object :: "(int \<Rightarrow> 'f) \<Rightarrow> string \<Rightarrow> ('x, 'f :: {plus, one}, 'c) ms_world timer" where
  "timer_object f64 key =
     \<lparr>t_Start = (\<lambda>startTime ls. go_return (\<lambda>now. timer_AddTime f64 key (now - startTime) ls)), t_AddTime = timer_AddTime f64 key\<rparr>"

text \<open>
  The client is looked up among the shared plugins: missing, of another kind, or a gRPC client.
\<close>

definition metric_AfterSharingStart :: "(string \<Rightarrow> bool option) \<Rightarrow> (('x, 'f, 'c) ms_world, unit) go" where
  "metric_AfterSharingStart Manager sn =
     (case Manager (ms_ClientName (fst sn)) of
        None \<Rightarrow> (Err (Errorf (''could not fould client '' @ ms_ClientName (fst sn))), sn)
      | Some False \<Rightarrow> (Err (Errorf ''the client is not grpc client''), sn)
      | Some True \<Rightarrow> (Ok (), sn))"

definition metric_service_server :: "'c grpc_env \<Rightarrow> (string \<Rightarrow> bool option) \<Rightarrow> (int \<Rightarrow> 'f) \<Rightarrow>
    ('x, ('x, 'f :: {plus, zero, one, uminus}, 'c) ms_world, 'f) tel_server" where
  "metric_service_server env Manager f64 =
     \<lparr>ts_Start = (\<lambda>config. on_registry (\<lambda>s. (Ok (), metric_Start (tc_Service config) (tc_Instance config) (tc_MetricPrefix config) (ClientName config) s))),
      ts_AfterSharingStart = metric_AfterSharingStart Manager,
      ts_Close = metric_Close env,
      ts_NewCounter = (\<lambda>name labels. go_bind (on_registry (NewCounter name labels)) (\<lambda>key. go_return (counter_object key))),
      ts_NewGauge = (\<lambda>name getter labels. go_bind (on_registry (NewGauge name getter labels)) (\<lambda>_. go_return ())),
      ts_NewDynamicGauge = (\<lambda>name labels. go_bind (on_registry (NewDynamicGauge name labels)) (\<lambda>key. go_return (gauge_object key))),
      ts_NewTimer = (\<lambda>name labels. go_bind (on_registry (NewTimer name labels)) (\<lambda>key. go_return (timer_object f64 key)))\<rparr>"

section \<open>Counters behind the interface\<close>

text \<open>
  What a user of a counter relies on: adding a value that \<open>fits\<close> with valid labels succeeds, keeps
  the counter usable and adds to the value read for these labels and to no other. \<open>Reads\<close> is the value a server would
  report for the labels.
\<close>

locale counter_object_laws =
  fixes obj :: "('w, 'f :: {plus, zero, one}) counter" and usable :: "'w \<Rightarrow> bool" and valid :: "string list \<Rightarrow> bool"
    and reads :: "'w \<Rightarrow> string list \<Rightarrow> 'f option" and fits :: "'f \<Rightarrow> bool"
  assumes adds: "usable w \<Longrightarrow> valid ls \<Longrightarrow> fits v \<Longrightarrow> \<exists>w'. c_Add obj v ls w = (Ok (), w') \<and> usable w' \<and>
      reads w' = (reads w)(ls \<mapsto> (case reads w ls of None \<Rightarrow> 0 | Some x \<Rightarrow> x) + v)"
    and incs: "usable w \<Longrightarrow> c_Inc obj ls w = c_Add obj 1 ls w"
begin

lemma add_sequence:
  assumes "usable w" and "list_all (\<lambda>a. valid (fst a) \<and> fits (snd a)) as"
  shows "\<exists>w'. for_each (\<lambda>a. c_Add obj (snd a) (fst a)) as w = (Ok (), w') \<and> usable w' \<and>
    (\<forall>ls. reads w' ls = total (reads w ls) (added_to ls as))"
  using assms
proof (induction as arbitrary: w)
  case Nil
  then show ?case by (simp add: total_def added_to_def)
next
  case (Cons a as w)
  obtain ls v where a: "a = (ls, v)" by fastforce
  from adds [of w ls v] Cons.prems a obtain w1 where
    w1: "c_Add obj v ls w = (Ok (), w1)" "usable w1" "reads w1 = (reads w)(ls \<mapsto> (case reads w ls of None \<Rightarrow> 0 | Some x \<Rightarrow> x) + v)" by auto
  from Cons.IH [OF w1(2)] Cons.prems(2) obtain w2 where
    w2: "for_each (\<lambda>a. c_Add obj (snd a) (fst a)) as w1 = (Ok (), w2)" "usable w2"
    "\<forall>ls. reads w2 ls = total (reads w1 ls) (added_to ls as)" by auto
  have "reads w2 ls' = total (reads w ls') (added_to ls' (a # as))" for ls'
    using w2(3) by (simp add: w1(3) a added_to_def total_step)
  with w1 w2 a show ?case by (auto simp: go_bind_def)
qed

end

text \<open>The counters of the metrics service.\<close>

definition counter_of :: "string \<Rightarrow> ('x, 'f) metric_server \<Rightarrow> 'f BaseMetric option" where
  "counter_of key s = (case map_of (ms_metrics s) key of Some (CounterMetric b) \<Rightarrow> Some b | _ \<Rightarrow> None)"

definition counter_ready :: "string \<Rightarrow> string list \<Rightarrow> ('x, 'f :: zero, 'c) ms_world \<Rightarrow> bool" where
  "counter_ready key keys sn \<longleftrightarrow> (\<exists>b. counter_of key (fst sn) = Some b \<and> bm_wf b \<and> bm_curry b = [] \<and> NewSubMetric b = (\<lambda>_. 0) \<and> LabelKeys b = keys)"

definition counter_reads :: "string \<Rightarrow> ('x, 'f, 'c) ms_world \<Rightarrow> string list \<Rightarrow> 'f option" where
  "counter_reads key sn ls = Option.bind (counter_of key (fst sn)) (\<lambda>b. view b ls)"

definition labels_valid :: "string list \<Rightarrow> string list \<Rightarrow> bool" where
  "labels_valid keys ls \<longleftrightarrow> validateLabelValues ls (int (length keys)) = None"

interpretation ms_counter: counter_object_laws "counter_object key" "counter_ready key keys" "labels_valid keys" "counter_reads key" "\<lambda>_. True"
  for key :: string and keys :: "string list"
proof
  fix w :: "('x, 'f :: {plus, zero, one}, 'c) ms_world" and ls v
  assume w: "counter_ready key keys w" and ls: "labels_valid keys ls"
  obtain s n where sn: "w = (s, n)" by fastforce
  from w sn obtain b where b: "map_of (ms_metrics s) key = Some (CounterMetric b)" "bm_wf b" "bm_curry b = []"
    "NewSubMetric b = (\<lambda>_. 0)" "LabelKeys b = keys"
    by (auto simp: counter_ready_def counter_of_def split: option.splits Metric.splits)
  have lab: "labels_of ls b" using ls b(3,5) by (simp add: labels_of_def labels_valid_def)
  from Counter_Add_view [OF lab b(2), of v, unfolded b(3,4) inline_no_curry] obtain b1 where
    b1: "Counter_Add v ls b = (Ok (), b1)" "bm_wf b1" "same_shape b b1" "view b1 = (view b)(ls \<mapsto> (case view b ls of None \<Rightarrow> 0 | Some x \<Rightarrow> x) + v)"
    by auto
  have s1: "map_of (ms_metrics (metric_Register key (CounterMetric b1) s)) key = Some (CounterMetric b1)"
    by (simp add: metric_Register_def update_Some_unfold)
  have r0: "counter_reads key w = view b" using b(1) sn by (simp add: counter_reads_def counter_of_def fun_eq_iff)
  have r1: "counter_reads key (metric_Register key (CounterMetric b1) s, n) = view b1"
    using s1 by (simp add: counter_reads_def counter_of_def fun_eq_iff)
  have u1: "counter_ready key keys (metric_Register key (CounterMetric b1) s, n)"
    using s1 b1(2,3) b(3-5) by (simp add: counter_ready_def counter_of_def same_shape_def)
  have "c_Add (counter_object key) v ls w = (Ok (), metric_Register key (CounterMetric b1) s, n)"
    using b(1) b1(1) sn by (simp add: counter_object_def on_registry_def counter_at_def)
  with r0 r1 u1 b1(4) show "\<exists>w'. c_Add (counter_object key) v ls w = (Ok (), w') \<and> counter_ready key keys w' \<and>
      counter_reads key w' = (counter_reads key w)(ls \<mapsto> (case counter_reads key w ls of None \<Rightarrow> 0 | Some x \<Rightarrow> x) + v)"
    by auto
next
  show "c_Inc (counter_object key) ls w = c_Add (counter_object key) 1 ls w" for ls and w :: "('x, 'f :: {plus, zero, one}, 'c) ms_world"
    by (simp add: counter_object_def Counter_Inc_def)
qed

end
