(* ===== verification/Telemetry_Properties.thy ===== *)
theory Telemetry_Properties
  imports Telemetry
begin

text \<open>
  What the satellite reports about itself: the values of a labelled counter, and the timer.
\<close>

lemma fresh_metric:
  "bm_wf (NewBaseMetric name keys new) \<and> view (NewBaseMetric name keys new) lvs = None \<and> bm_curry (NewBaseMetric name keys new) = [] \<and>
    NewSubMetric (NewBaseMetric name keys new) = new \<and> LabelKeys (NewBaseMetric name keys new) = keys \<and> bm_Name (NewBaseMetric name keys new) = name"
  by (simp add: NewBaseMetric_def bm_wf_def view_def)

lemma fresh_labels:
  "validateLabelValues lvs (int (length keys)) = None \<Longrightarrow> labels_of lvs (NewBaseMetric name keys new)"
  by (simp add: labels_of_def NewBaseMetric_def)

text \<open>
  C22. Labelled counters. Any sequence of additions with as many valid labels as the counter has
  keys succeeds, and the values the counter then writes are exactly the label lists that were
  used, each once, with the sum of what was added to it in this order, also where the hashes of
  different label lists collide.
\<close>

theorem counter_totals:
  fixes as :: "(string list \<times> 'f :: {plus, zero}) list"
  assumes "list_all (\<lambda>a. validateLabelValues (fst a) (int (length keys)) = None) as"
  shows "\<exists>b. add_all as (NewBaseMetric name keys (\<lambda>_. 0)) = (Ok (), b) \<and> distinct (map fst (entries b)) \<and>
    (\<forall>lvs. map_of (entries b) lvs = total None (added_to lvs as)) \<and>
    base_values prefix b = map (\<lambda>e. \<lparr>sv_Name = prefix @ name, sv_Labels = zip keys (fst e), sv_Value = snd e\<rparr>) (entries b)"
proof -
  let ?b = "NewBaseMetric name keys (\<lambda>_. 0 :: 'f)"
  have "list_all (\<lambda>a. labels_of (fst a) ?b) as" using assms by (auto simp: list_all_iff intro: fresh_labels)
  from add_all_view [OF this] fresh_metric [of name keys "\<lambda>_. 0 :: 'f"] obtain b where
    b: "add_all as ?b = (Ok (), b)" "bm_wf b" "same_shape ?b b" "\<forall>lvs. view b lvs = total None (added_to lvs as)" by auto
  from entries_view [OF b(2)] b fresh_metric [of name keys "\<lambda>_. 0 :: 'f"] show ?thesis
    by (intro exI [of _ b]) (simp add: base_values_def same_shape_def)
qed

theorem counter_totals_witness:
  "\<exists>b :: nat BaseMetric. add_all [([''x''], 1), ([''y''], 2), ([''x''], 3)] (NewBaseMetric ''n'' [''k''] (\<lambda>_. 0)) = (Ok (), b) \<and>
    map_of (entries b) [''x''] = Some 4 \<and> map_of (entries b) [''y''] = Some 2 \<and> map_of (entries b) [''z''] = None"
proof -
  have v: "list_all (\<lambda>a. validateLabelValues (fst a) (int (length [''k''])) = None) [([''x''], 1 :: nat), ([''y''], 2), ([''x''], 3)]"
    by code_simp
  from counter_totals [OF v, of "''n''" "[]"] show ?thesis by (auto simp: total_def added_to_def)
qed

section \<open>The timer\<close>

text \<open>One addition to a counter that is new.\<close>

lemma first_addition:
  fixes val :: "'f :: {plus, zero}"
  assumes "validateLabelValues lvs (int (length keys)) = None"
  shows "\<exists>b. Counter_Add val lvs (NewBaseMetric name keys (\<lambda>_. 0)) = (Ok (), b) \<and>
    base_values prefix b = [\<lparr>sv_Name = prefix @ name, sv_Labels = zip keys lvs, sv_Value = 0 + val\<rparr>]"
proof -
  from assms have "list_all (\<lambda>a. validateLabelValues (fst a) (int (length keys)) = None) [(lvs, val)]" by simp
  from add_all_view [of "NewBaseMetric name keys (\<lambda>_. 0 :: 'f)" "[(lvs, val)]"] fresh_labels [OF assms] fresh_metric [of name keys "\<lambda>_. 0 :: 'f"]
  obtain b where b: "add_all [(lvs, val)] (NewBaseMetric name keys (\<lambda>_. 0)) = (Ok (), b)" "bm_wf b"
    "same_shape (NewBaseMetric name keys (\<lambda>_. 0)) b" "\<forall>ws. view b ws = total None (added_to ws [(lvs, val)])" by auto
  have e: "distinct (map fst (entries b))" "map_of (entries b) = [lvs \<mapsto> 0 + val]"
    using entries_view [OF b(2)] b(4) by (auto simp: total_def added_to_def fun_eq_iff)
  then have "set (entries b) = {(lvs, 0 + val)}"
    by (auto simp flip: map_of_eq_Some_iff split: if_splits)
  moreover from e(1) have "distinct (entries b)" by (simp add: distinct_map)
  ultimately have "entries b = [(lvs, 0 + val)]"
    by (metis distinct_card card_1_singleton_iff length_Suc_conv length_0_conv One_nat_def list.set_intros(1) singletonD)
  with b fresh_metric [of name keys "\<lambda>_. 0 :: 'f"] show ?thesis
    by (intro exI [of _ b]) (auto simp: base_values_def same_shape_def go_bind_def split: prod.splits outcome.splits)
qed

text \<open>
  A timer is reported twice. \<open>NewTimer\<close> registers its two counters under their own names,
  and the timer writes both of them again, so that a report holds the sum and the count of every
  timer two times.
\<close>

theorem timer_reported_twice:
  fixes ms :: "'f :: {plus, zero, one}" and s0 :: "('w, 'f) metric_server"
  assumes "validateLabelValues lvs (int (length keys)) = None"
  shows "\<exists>s. go_bind (NewTimer name keys) (\<lambda>timer. AddTime timer ms lvs) (metric_Start service inst prefix client s0) = (Ok (), s) \<and>
    (let sm = \<lparr>sv_Name = prefix @ name @ ''_sum'', sv_Labels = zip keys lvs, sv_Value = 0 + ms\<rparr>;
         ct = \<lparr>sv_Name = prefix @ name @ ''_count'', sv_Labels = zip keys lvs, sv_Value = 0 + 1\<rparr>
     in appended w s = [sm, ct, sm, ct])"
proof -
  from first_addition [OF assms, of ms "name @ ''_sum''" prefix] obtain b1 where
    b1: "Counter_Add ms lvs (NewBaseMetric (name @ ''_sum'') keys (\<lambda>_. 0)) = (Ok (), b1)"
    "base_values prefix b1 = [\<lparr>sv_Name = prefix @ name @ ''_sum'', sv_Labels = zip keys lvs, sv_Value = 0 + ms\<rparr>]" by blast
  from first_addition [OF assms, of 1 "name @ ''_count''" prefix] obtain b2 where
    b2: "Counter_Add 1 lvs (NewBaseMetric (name @ ''_count'') keys (\<lambda>_. 0 :: 'f)) = (Ok (), b2)"
    "base_values prefix b2 = [\<lparr>sv_Name = prefix @ name @ ''_count'', sv_Labels = zip keys lvs, sv_Value = 0 + 1\<rparr>]" by blast
  have "go_bind (NewTimer name keys) (\<lambda>timer. AddTime timer ms lvs) (metric_Start service inst prefix client s0) =
      (Ok (), (metric_Start service inst prefix client s0)\<lparr>ms_metrics :=
         [(name @ ''_sum'', CounterMetric b1), (name @ ''_count'', CounterMetric b2), (name, TimerMetric name (name @ ''_sum'') (name @ ''_count''))]\<rparr>)"
    using b1(1) b2(1)
    by (simp add: go_bind_def NewTimer_def metric_Start_def NewCounter_def metric_Register_def AddTime_def counter_at_def Counter_Inc_def)
  with b1(2) b2(2) show ?thesis by (simp add: appended_values metric_Start_def Let_def)
qed

theorem timer_reported_twice_witness:
  "\<exists>s :: (unit, int) metric_server.
    go_bind (NewTimer ''t'' [''k'']) (\<lambda>timer. AddTime timer 5 [''v'']) (metric_Start [] [] ''sw_'' [] \<lparr>ms_service = [], ms_instance = [],
      MetricPrefix = [], ms_ClientName = [], ms_metrics = [], prevServerAddr = [], reportStream = None\<rparr>) = (Ok (), s) \<and>
    map (\<lambda>v. (sv_Name v, sv_Value v)) (appended () s) = [(''sw_t_sum'', 5), (''sw_t_count'', 1), (''sw_t_sum'', 5), (''sw_t_count'', 1)]"
proof -
  have "validateLabelValues [''v''] (int (length [''k''])) = None" by code_simp
  from timer_reported_twice [OF this, of "''t''" "5 :: int" "[]" "[]" "''sw_''" "[]" "\<lparr>ms_service = [], ms_instance = [],
      MetricPrefix = [], ms_ClientName = [], ms_metrics = [], prevServerAddr = [], reportStream = None\<rparr>" "()"]
  show ?thesis by (auto simp: Let_def)
qed

section \<open>From the configuration to the report\<close>

text \<open>A counter that also passes its calls to the server none behaves as the counter.\<close>

lemma counter_with_none:
  "c_Add (MultipleCounter [obj, none_Counter]) v ls w = c_Add obj v ls w"
  "c_Add (MultipleCounter [none_Counter, obj]) v ls w = c_Add obj v ls w"
  by (auto simp: MultipleCounter_def none_Counter_def go_bind_def split: prod.splits outcome.splits)

lemma for_each_cong: "(\<And>a w. f a w = g a w) \<Longrightarrow> for_each f xs w = for_each g xs w"
  by (induction xs arbitrary: w) (simp_all add: go_bind_def split: prod.splits outcome.splits)

text \<open>
  From the configuration to the report. When the metrics service is exported, alone or
  together with the exporter none, the telemetry starts, a counter can be created, and what the
  server writes for it after any sequence of additions is the sum of the additions for each list
  of labels.
\<close>

theorem telemetry_counter_reported:
  fixes env :: "'c grpc_env" and g :: "('x, ('x, 'f :: {plus, zero, one, uminus}, 'c) ms_world, 'f) tel_globals"
  assumes "map_of (servers g) ''metrics_service'' = Some (metric_service_server env Manager f64)"
    and "map_of (servers g) ''none'' = Some none_server"
    and "ExportType c \<in> {''metrics_service'', ''metrics_service,none'', ''none,metrics_service''}"
    and "list_all (\<lambda>a. validateLabelValues (fst a) (int (length keys)) = None) as"
  shows "\<exists>g1 w1 obj w2 w3 b. tel_Init Append c (g, w) = (Ok (), g1, w1) \<and>
    tel_NewCounter name keys (g1, w1) = (Ok obj, g1, w2) \<and>
    for_each (\<lambda>a. c_Add obj (snd a) (fst a)) as w2 = (Ok (), w3) \<and>
    counter_of name (fst w3) = Some b \<and> distinct (map fst (entries b)) \<and>
    (\<forall>ls. map_of (entries b) ls = total None (added_to ls as))"
proof -
  let ?ms = "metric_service_server env Manager f64"
  define w1 where "w1 = (metric_Start (tc_Service c) (tc_Instance c) (tc_MetricPrefix c) (ClientName c) (fst w), snd w)"
  define w2 where "w2 = (metric_Register name (CounterMetric (NewBaseMetric name keys (\<lambda>_. 0))) (fst w1), snd w1)"
  have start: "ts_Start ?ms c w = (Ok (), w1)" and new: "ts_NewCounter ?ms name keys w1 = (Ok (counter_object name), w2)"
    by (simp_all add: metric_service_server_def on_registry_def w1_def w2_def go_bind_def NewCounter_def metric_Start_def)
  have split: "Split (CHR '','') ''metrics_service'' = [''metrics_service'']"
    "Split (CHR '','') ''metrics_service,none'' = [''metrics_service'', ''none'']"
    "Split (CHR '','') ''none,metrics_service'' = [''none'', ''metrics_service'']" by simp_all
  have obj: "\<exists>g1 obj. tel_Init Append c (g, w) = (Ok (), g1, w1) \<and> tel_NewCounter name keys (g1, w1) = (Ok obj, g1, w2) \<and>
      (\<forall>v ls w. c_Add obj v ls w = c_Add (counter_object name) v ls w)"
    using assms(1-3) start new split
    by (elim insertE emptyE; intro exI [of _ "fst (snd (tel_Init Append c (g, w)))"])
      (simp_all add: tel_Init_def go_bind_def none_server_def tel_NewCounter_def at_server_def getServer_def MultipleServer_def counter_with_none)
  have ready: "counter_ready name keys w2" and none: "counter_reads name w2 ls = None" for ls
    using fresh_metric [of name keys "\<lambda>_. 0 :: 'f"]
    by (simp_all add: w2_def counter_ready_def counter_reads_def counter_of_def metric_Register_def AList.update_conv)
  have valid: "list_all (\<lambda>a. labels_valid keys (fst a) \<and> True) as" using assms(4) by (simp add: labels_valid_def list_all_iff)
  from ms_counter.add_sequence [OF ready valid] obtain w3 where
    w3: "for_each (\<lambda>a. c_Add (counter_object name) (snd a) (fst a)) as w2 = (Ok (), w3)" "counter_ready name keys w3"
    "\<forall>ls. counter_reads name w3 ls = total (counter_reads name w2 ls) (added_to ls as)" by blast
  from w3(2) obtain b where b: "counter_of name (fst w3) = Some b" "bm_wf b" by (auto simp: counter_ready_def)
  have "map_of (entries b) ls = total None (added_to ls as)" for ls
    using entries_view [OF b(2)] w3(3) b(1) none by (simp add: counter_reads_def)
  moreover from obj obtain g1 obj where "tel_Init Append c (g, w) = (Ok (), g1, w1)" "tel_NewCounter name keys (g1, w1) = (Ok obj, g1, w2)"
    "\<forall>v ls w. c_Add obj v ls w = c_Add (counter_object name) v ls w" by blast
  ultimately show ?thesis
    using w3(1) b entries_view [OF b(2)] for_each_cong [of "\<lambda>a. c_Add obj (snd a) (fst a)" "\<lambda>a. c_Add (counter_object name) (snd a) (fst a)" as w2]
    by (metis (no_types, lifting))
qed

definition silent_env :: "unit grpc_env" where
  "silent_env = \<lparr>answer = (\<lambda>_ _. Inr []), peer_address = (\<lambda>_ _. []), appointed = (\<lambda>_. []), lru_New = (\<lambda>_. ()),
     lru_Add = (\<lambda>c _ _. c), lru_Get = (\<lambda>c _. (None, c))\<rparr>"

definition test_globals :: "(unit, (unit, int, unit) ms_world, int) tel_globals" where
  "test_globals = tel_Register ''none'' none_server True
     (tel_Register ''metrics_service'' (metric_service_server silent_env (\<lambda>_. Some True) (\<lambda>i. i)) False
       \<lparr>servers = [], currentServer = None, defaultServer = None\<rparr>)"

definition test_config :: tel_config where
  "test_config = \<lparr>tc_Cluster = [], tc_Service = ''sat'', tc_Instance = ''i'', ExportType = ''none,metrics_service'',
     tc_MetricPrefix = ''sw_'', ClientName = ''grpc-client''\<rparr>"

theorem telemetry_counter_reported_witness:
  "\<exists>g1 w1 obj w2 w3 b. tel_Init (\<lambda>_ e. e) test_config (test_globals, (\<lparr>ms_service = [], ms_instance = [], MetricPrefix = [], ms_ClientName = [],
      ms_metrics = [], prevServerAddr = [], reportStream = None\<rparr>, \<lparr>hist = [], cache = (), counters = (\<lambda>_. 0)\<rparr>)) = (Ok (), g1, w1) \<and>
    tel_NewCounter ''n'' [''k''] (g1, w1) = (Ok obj, g1, w2) \<and>
    for_each (\<lambda>a. c_Add obj (snd a) (fst a)) [([''x''], 2), ([''x''], 3)] w2 = (Ok (), w3) \<and>
    counter_of ''n'' (fst w3) = Some b \<and> map_of (entries b) [''x''] = Some 5"
proof -
  have s: "map_of (servers test_globals) ''metrics_service'' = Some (metric_service_server silent_env (\<lambda>_. Some True) (\<lambda>i. i))"
    "map_of (servers test_globals) ''none'' = Some none_server"
    by (simp_all add: test_globals_def tel_Register_def)
  have e: "ExportType test_config \<in> {''metrics_service'', ''metrics_service,none'', ''none,metrics_service''}" by (simp add: test_config_def)
  have v: "list_all (\<lambda>a. validateLabelValues (fst a) (int (length [''k''])) = None) [([''x''], 2 :: int), ([''x''], 3)]" by code_simp
  show ?thesis
    using telemetry_counter_reported [OF s e v, of "\<lambda>_ e. e" "(\<lparr>ms_service = [], ms_instance = [], MetricPrefix = [], ms_ClientName = [],
      ms_metrics = [], prevServerAddr = [], reportStream = None\<rparr>, \<lparr>hist = [], cache = (), counters = (\<lambda>_. 0)\<rparr>)" "''n''"]
    by (fastforce simp: total_def added_to_def)
qed

end
