(* ===== verification/Queue_Gauges.thy ===== *)
theory Queue_Gauges
  imports Queue_Properties Mmap_Properties Telemetry_Properties
begin

text \<open>
  \<open>registerQueueTelemetry\<close> of \<open>plugins/queue/partition/partitioned_queue.go\<close>: what the telemetry reports
  about the queue of a pipe. A getter reads the queue when the report is written; \<open>seen\<close> is the
  queue in the state \<open>'x\<close> of the satellite. The index of a getter is in range, since a queue keeps
  its partitions.
\<close>

definition registerQueueTelemetry :: "(int \<Rightarrow> 'f) \<Rightarrow> 'q queue_ops \<Rightarrow> ('x \<Rightarrow> 'q PartitionedQueue) \<Rightarrow> string \<Rightarrow> nat \<Rightarrow>
    (('x, 'w, 'f) tel_globals \<times> 'w, unit) go" where
  "registerQueueTelemetry f64 ops seen pipeline n =
     go_bind (tel_NewGauge ''pipeline_queue_total_capacity'' (\<lambda>x. f64 (totalQueueSize (seen x))) [''pipeline'', pipeline])
       (\<lambda>_. for_each
          (\<lambda>pn. tel_NewGauge ''pipeline_queue_partition_size'' (\<lambda>x. f64 (q_UsedCount ops (subQueues (seen x) ! pn)))
             [''pipeline'', pipeline, ''partition'', FormatInt (int pn)])
          [0..<n])"

text \<open>\<open>Initialize\<close> with this call at its end.\<close>

definition pq_Initialize_telemetry :: "(plugin_config \<Rightarrow> 'q) \<Rightarrow> 'q queue_ops \<Rightarrow> (int \<Rightarrow> 'f) \<Rightarrow> ('x \<Rightarrow> 'q PartitionedQueue) \<Rightarrow>
    ('q PartitionedQueue \<times> ('x, 'w, 'f) tel_globals \<times> 'w, unit) go" where
  "pq_Initialize_telemetry create ops f64 seen pt =
     (case pt of (p, t) \<Rightarrow>
        (case pq_Initialize create ops p of
           (Ok _, p1) \<Rightarrow> (case registerQueueTelemetry f64 ops seen (pq_PipeName p) (length (subQueues p1)) t of (r, t1) \<Rightarrow> (r, p1, t1))
         | (r, p1) \<Rightarrow> (r, p1, t)))"

section \<open>Registering gauges\<close>

lemma update_new: "map_of xs k = None \<Longrightarrow> AList.update k v xs = xs @ [(k, v)]"
  by (induction xs) (auto split: if_splits)

definition add_metrics :: "(string \<times> ('x, 'f) Metric) list \<Rightarrow> ('x, 'f, 'c) ms_world \<Rightarrow> ('x, 'f, 'c) ms_world" where
  "add_metrics ms w = ((fst w)\<lparr>ms_metrics := ms_metrics (fst w) @ ms\<rparr>, snd w)"

lemma add_metrics_add: "add_metrics bs (add_metrics as w) = add_metrics (as @ bs) w"
  by (simp add: add_metrics_def)

text \<open>\<open>srv\<close> passes its gauges to the metrics service, alone or beside the exporter none.\<close>

definition gauges_reach :: "'c grpc_env \<Rightarrow> (string \<Rightarrow> bool option) \<Rightarrow> (int \<Rightarrow> 'f) \<Rightarrow>
    ('x, ('x, 'f :: {plus, zero, one, uminus}, 'c) ms_world, 'f) tel_globals \<Rightarrow> bool" where
  "gauges_reach env Manager f64 g \<longleftrightarrow>
     (\<exists>srv. getServer g = (Some srv, g) \<and> ts_NewGauge srv = ts_NewGauge (metric_service_server env Manager f64))"

lemma NewGauge_new:
  assumes "gauges_reach env Manager f64 g" and "const_labels labels [] = Ok cl"
    and "map_of (ms_metrics (fst w)) (rebuildGaugeName name labels) = None"
  shows "tel_NewGauge name getter labels (g, w) = (Ok (), g, add_metrics [(rebuildGaugeName name labels, GaugeMetric name cl getter)] w)"
proof -
  have "ts_NewGauge (metric_service_server env Manager f64) name getter labels w
      = (Ok (), add_metrics [(rebuildGaugeName name labels, GaugeMetric name cl getter)] w)"
    using assms(2,3)
    by (simp add: metric_service_server_def on_registry_def go_bind_def go_return_def NewGauge_def Let_def metric_Register_def
        update_new add_metrics_def)
  with assms(1) show ?thesis by (auto simp: gauges_reach_def tel_NewGauge_def at_server_def)
qed

text \<open>A row of gauges under keys that are new.\<close>

lemma NewGauge_row:
  assumes "gauges_reach env Manager f64 g" and "\<And>i. const_labels (labels i) [] = Ok (cl i)"
    and "distinct (map (\<lambda>i. rebuildGaugeName name (labels i)) is)"
    and "\<forall>i \<in> set is. map_of (ms_metrics (fst w)) (rebuildGaugeName name (labels i)) = None"
  shows "for_each (\<lambda>i. tel_NewGauge name (getter i) (labels i)) is (g, w)
    = (Ok (), g, add_metrics (map (\<lambda>i. (rebuildGaugeName name (labels i), GaugeMetric name (cl i) (getter i))) is) w)"
  using assms(3,4)
proof (induction "is" arbitrary: w)
  case Nil
  then show ?case by (simp add: add_metrics_def)
next
  case (Cons i "is")
  let ?w = "add_metrics [(rebuildGaugeName name (labels i), GaugeMetric name (cl i) (getter i))] w"
  have "\<forall>j \<in> set is. map_of (ms_metrics (fst ?w)) (rebuildGaugeName name (labels j)) = None"
    using Cons.prems by (auto simp: add_metrics_def map_add_def) (metis image_eqI)
  from Cons.IH [OF _ this] Cons.prems NewGauge_new [OF assms(1,2), of w name i "getter i"] show ?case
    by (simp add: go_bind_def add_metrics_add)
qed

section \<open>What is reported about a queue\<close>

definition capacity_value :: "string \<Rightarrow> string \<Rightarrow> 'f \<Rightarrow> 'f single_value" where
  "capacity_value prefix pipeline v =
     \<lparr>sv_Name = prefix @ ''pipeline_queue_total_capacity'', sv_Labels = [(''pipeline'', pipeline)], sv_Value = v\<rparr>"

definition partition_value :: "string \<Rightarrow> string \<Rightarrow> nat \<Rightarrow> 'f \<Rightarrow> 'f single_value" where
  "partition_value prefix pipeline pn v =
     \<lparr>sv_Name = prefix @ ''pipeline_queue_partition_size'',
      sv_Labels = [(''pipeline'', pipeline), (''partition'', FormatInt (int pn))], sv_Value = v\<rparr>"

lemma registered_gauges:
  assumes g: "gauges_reach env Manager f64 g" and "ms_metrics (fst w) = []"
  shows "\<exists>w'. registerQueueTelemetry h ops seen pipeline n (g, w) = (Ok (), g, w') \<and>
    (\<forall>x. appended x (fst w') = capacity_value (MetricPrefix (fst w)) pipeline (h (totalQueueSize (seen x))) #
       map (\<lambda>pn. partition_value (MetricPrefix (fst w)) pipeline pn (h (q_UsedCount ops (subQueues (seen x) ! pn)))) [0..<n])"
proof -
  let ?labels = "\<lambda>pn. [''pipeline'', pipeline, ''partition'', FormatInt (int pn)]"
    and ?name = "''pipeline_queue_partition_size''"
  let ?cap = "(rebuildGaugeName ''pipeline_queue_total_capacity'' [''pipeline'', pipeline],
    GaugeMetric ''pipeline_queue_total_capacity'' [(''pipeline'', pipeline)] (\<lambda>x. h (totalQueueSize (seen x))))"
  let ?w = "add_metrics [?cap] w"
  have one: "tel_NewGauge ''pipeline_queue_total_capacity'' (\<lambda>x. h (totalQueueSize (seen x))) [''pipeline'', pipeline] (g, w) = (Ok (), g, ?w)"
    using assms by (intro NewGauge_new) simp_all
  have inj: "inj (\<lambda>pn. rebuildGaugeName ?name (?labels pn))"
    by (rule injI) (auto simp: rebuildGaugeName_def dest!: FormatInt_inject [rotated 2])
  have row: "for_each (\<lambda>pn. tel_NewGauge ?name (\<lambda>x. h (q_UsedCount ops (subQueues (seen x) ! pn))) (?labels pn)) [0..<n] (g, ?w)
    = (Ok (), g, add_metrics (map (\<lambda>pn. (rebuildGaugeName ?name (?labels pn), GaugeMetric ?name
        [(''pipeline'', pipeline), (''partition'', FormatInt (int pn))] (\<lambda>x. h (q_UsedCount ops (subQueues (seen x) ! pn))))) [0..<n]) ?w)"
    using assms(2) inj
    by (intro NewGauge_row [OF g]) (auto simp: distinct_map inj_on_def inj_def add_metrics_def rebuildGaugeName_def)
  show ?thesis
    using one row assms(2)
    by (simp add: registerQueueTelemetry_def go_bind_def add_metrics_add appended_values add_metrics_def o_def
        capacity_value_def partition_value_def)
qed

lemma gauges_with_none:
  "ts_NewGauge (MultipleServer Append [s, none_server]) = ts_NewGauge s"
  "ts_NewGauge (MultipleServer Append [none_server, s]) = ts_NewGauge s"
  by (auto simp: MultipleServer_def none_server_def go_bind_def go_return_def fun_eq_iff split: prod.splits outcome.splits)

lemma none_Start: "ts_Start none_server c w = (Ok (), w)"
  by (simp add: none_server_def)

lemma tel_Init_gauges:
  assumes "map_of (servers g) ''metrics_service'' = Some (metric_service_server env Manager f64)"
    and "map_of (servers g) ''none'' = Some none_server"
    and "ExportType c \<in> {''metrics_service'', ''metrics_service,none'', ''none,metrics_service''}"
  shows "\<exists>g1 w1. tel_Init Append c (g, w) = (Ok (), g1, w1) \<and> gauges_reach env Manager f64 g1 \<and> ms_metrics (fst w1) = [] \<and>
    MetricPrefix (fst w1) = tc_MetricPrefix c"
proof -
  let ?ms = "metric_service_server env Manager f64"
  define w1 where "w1 = (metric_Start (tc_Service c) (tc_Instance c) (tc_MetricPrefix c) (ClientName c) (fst w), snd w)"
  have start: "ts_Start ?ms c w = (Ok (), w1)" by (simp add: metric_service_server_def on_registry_def w1_def)
  have split: "Split (CHR '','') ''metrics_service'' = [''metrics_service'']"
    "Split (CHR '','') ''metrics_service,none'' = [''metrics_service'', ''none'']"
    "Split (CHR '','') ''none,metrics_service'' = [''none'', ''metrics_service'']" by simp_all
  obtain ss where ss: "ss \<in> {[?ms], [?ms, none_server], [none_server, ?ms]}"
    and ex: "start_exporters g c (Split (CHR '','') (ExportType c)) w = (Ok ss, w1)"
    using assms(3)
  proof (elim insertE emptyE)
    assume e: "ExportType c = ''metrics_service''"
    show thesis by (rule that [of "[?ms]"]) (simp_all only: e split start_exporters.simps, simp_all add: assms start go_bind_def go_return_def)
  next
    assume e: "ExportType c = ''metrics_service,none''"
    show thesis by (rule that [of "[?ms, none_server]"])
      (simp_all only: e split start_exporters.simps, simp_all add: assms start none_Start go_bind_def go_return_def)
  next
    assume e: "ExportType c = ''none,metrics_service''"
    show thesis by (rule that [of "[none_server, ?ms]"])
      (simp_all only: e split start_exporters.simps, simp_all add: assms start none_Start go_bind_def go_return_def)
  qed
  define srv where "srv = (if length ss > 1 then MultipleServer Append ss else hd ss)"
  have srv: "ts_NewGauge srv = ts_NewGauge ?ms" using ss by (auto simp: srv_def gauges_with_none)
  have "tel_Init Append c (g, w) = (Ok (), g\<lparr>currentServer := Some srv\<rparr>, w1)" using ss ex by (auto simp: tel_Init_def srv_def)
  moreover have "gauges_reach env Manager f64 (g\<lparr>currentServer := Some srv\<rparr>)"
    using srv by (auto simp: gauges_reach_def getServer_def)
  ultimately have "\<exists>g1. tel_Init Append c (g, w) = (Ok (), g1, w1) \<and> gauges_reach env Manager f64 g1" by blast
  then show ?thesis by (auto simp: w1_def metric_Start_def)
qed


definition two_parts :: "(int \<times> sniff_data list) memory_queue PartitionedQueue" where
  "two_parts = \<lparr>pq_PipeName = ''p'', pq_Partition = 2, pq_config = Map.empty, subQueues = [mem_queue 5 [ev_a], mem_queue 5 []],
     loadBalancerIndex = 0, totalQueueSize = 10\<rparr>"

definition gauge_globals :: "((int \<times> sniff_data list) memory_queue PartitionedQueue,
    ((int \<times> sniff_data list) memory_queue PartitionedQueue, int, unit) ms_world, int) tel_globals" where
  "gauge_globals = tel_Register ''none'' none_server True
     (tel_Register ''metrics_service'' (metric_service_server silent_env (\<lambda>_. Some True) (\<lambda>i. i)) False
       \<lparr>servers = [], currentServer = None, defaultServer = None\<rparr>)"


text \<open>
  A memory mapped queue does not report events but bytes, and its account starts again with each
  process: after a restart it reports nothing, although it holds an event.
\<close>

lemma restart_use_forgotten:
  "\<exists>q2. Initialize arr_lib quiet_os ((new_queue 3)\<lparr>files := files closed\<rparr>) = (Ok (), q2) \<and>
     mq_pending arr_lib quiet_os two_pb 5 q2 [ev_a] \<and> q_UsedCount (mmap_ops arr_lib quiet_os two_pb) q2 = 0"
  using reopened_queue [OF one_left_pending one_left_unacked quiet_os_faultless _ _ closed_run, of "(new_queue 3)\<lparr>files := files closed\<rparr>"]
  by (simp add: one_left_fields fresh_def new_queue_def norm_size_def quiet_os_def mmap_ops_def) blast

end
