(* ===== verification/Env_Override.thy ===== *)
theory Env_Override
  imports Go_Strings
begin

text \<open>
  \<open>internal/satellite/config/override_by_env.go\<close>: the strings of a configuration that look like
  \<open>${NAME:default}\<close> are replaced by the value of an environment variable or by the default. The
  configuration is the value tree that the YAML reader gives. The type of floating point numbers
  and \<open>strconv.ParseFloat\<close> are parameters; the environment is a function from names to values,
  empty for a variable that is not set.
\<close>

datatype cfg_key = KString string | KOther

datatype 'f cfg_value =
    VNil
  | VString string
  | VInt int
  | VFloat 'f
  | VBool bool
  | VSlice "'f cfg_value list"
  | VMapString "(string \<times> 'f cfg_value) list"
  | VMapInterface "(cfg_key \<times> 'f cfg_value) list"

section \<open>The regular expression\<close>

text \<open>
  \<open>${_|[A-Z]+:.*}\<close>. Its first alternative asks for text behind the end of the text and never
  matches; the second one matches when somewhere an upper case letter is followed by a colon and,
  on the same line, by a closing brace.
\<close>

definition is_upper :: "char \<Rightarrow> bool" where
  "is_upper c \<longleftrightarrow> 65 \<le> (of_char c :: nat) \<and> (of_char c :: nat) \<le> 90"

fun brace_ahead :: "string \<Rightarrow> bool" where
  "brace_ahead [] = False"
| "brace_ahead (c # cs) = (c = CHR ''}'' \<or> c \<noteq> CHR 0x0A \<and> brace_ahead cs)"

fun MatchString :: "string \<Rightarrow> bool" where
  "MatchString (c # d # cs) = (is_upper c \<and> d = CHR '':'' \<and> brace_ahead cs \<or> MatchString (d # cs))"
| "MatchString _ = False"

section \<open>Values\<close>

text \<open>
  \<open>strings.EqualFold\<close> with an ASCII word: letters are compared without case; the long s
  (two bytes) folds to s.
\<close>

fun fold_case :: "string \<Rightarrow> string" where
  "fold_case (c # d # cs) =
     (if c = CHR 0xC5 \<and> d = CHR 0xBF then CHR ''s'' # fold_case cs
      else (if is_upper c then char_of ((of_char c :: nat) + 32) else c) # fold_case (d # cs))"
| "fold_case [c] = [if is_upper c then char_of ((of_char c :: nat) + 32) else c]"
| "fold_case [] = []"

definition EqualFold :: "string \<Rightarrow> string \<Rightarrow> bool" where
  "EqualFold s t \<longleftrightarrow> fold_case s = fold_case t"

text \<open>A slice expression \<open>s[a:b]\<close> panics unless \<open>a \<le> b \<le> len(s)\<close>.\<close>

definition substring :: "string \<Rightarrow> nat \<Rightarrow> nat \<Rightarrow> string outcome" where
  "substring s a b = (if a \<le> b \<and> b \<le> length s then Ok (take (b - a) (drop a s)) else Panic)"

definition quote :: string where "quote = [CHR 0x22]"

definition parseVal :: "(string \<Rightarrow> 'f option) \<Rightarrow> string \<Rightarrow> 'f cfg_value outcome" where
  "parseVal ParseFloat val =
     (case ParseInt val of
        Ok intVal \<Rightarrow> Ok (VInt intVal)
      | _ \<Rightarrow>
          (case ParseFloat val of
             Some floatVal \<Rightarrow> Ok (VFloat floatVal)
           | None \<Rightarrow>
               if EqualFold val ''true'' then Ok (VBool True)
               else if EqualFold val ''false'' then Ok (VBool False)
               else if HasPrefix val quote \<and> HasSuffix val quote
               then out_bind (substring val 1 (length val - 1)) (\<lambda>s. Ok (VString s))
               else Ok (VString val)))"

definition overrideString :: "(string \<Rightarrow> 'f option) \<Rightarrow> (string \<Rightarrow> string) \<Rightarrow> string \<Rightarrow> 'f cfg_value outcome" where
  "overrideString ParseFloat env s =
     (if MatchString s
      then case IndexByte s (CHR '':'') of
          None \<Rightarrow> Panic
        | Some index \<Rightarrow>
            out_bind (substring s 2 index) (\<lambda>envName.
            out_bind (substring s (index + 1) (length s - 1)) (\<lambda>defaultVal.
              let envVal = env envName in
              parseVal ParseFloat (if envVal \<noteq> [] then envVal else defaultVal)))
      else Ok (VString s))"

section \<open>Trees\<close>

definition string_key :: "cfg_key \<Rightarrow> string outcome" where
  "string_key k = (case k of KString s \<Rightarrow> Ok s | KOther \<Rightarrow> Panic)"

text \<open>
  \<open>override_value\<close> is the \<open>switch\<close> of \<open>overrideMapStringInterface\<close>. In a slice the values that
  are neither maps nor strings are not appended.
\<close>

fun kept_in_slice :: "'f cfg_value \<Rightarrow> bool" where
  "kept_in_slice (VString _) = True"
| "kept_in_slice (VMapString _) = True"
| "kept_in_slice (VMapInterface _) = True"
| "kept_in_slice _ = False"

fun override_value :: "(string \<Rightarrow> 'f option) \<Rightarrow> (string \<Rightarrow> string) \<Rightarrow> 'f cfg_value \<Rightarrow> 'f cfg_value outcome" where
  "override_value pf env (VString s) = overrideString pf env s"
| "override_value pf env (VSlice vs) =
     out_bind (traverse (override_value pf env) (filter kept_in_slice vs)) (\<lambda>ws. Ok (VSlice ws))"
| "override_value pf env (VMapString es) =
     out_bind (traverse (\<lambda>e. out_bind (override_value pf env (snd e)) (\<lambda>v. Ok (fst e, v))) es) (\<lambda>fs. Ok (VMapString fs))"
| "override_value pf env (VMapInterface es) =
     out_bind (traverse (\<lambda>e. out_bind (string_key (fst e)) (\<lambda>k.
                             out_bind (override_value pf env (snd e)) (\<lambda>v. Ok (k, v)))) es) (\<lambda>fs. Ok (VMapString fs))"
| "override_value pf env v = Ok v"

definition overrideMapStringInterface ::
    "(string \<Rightarrow> 'f option) \<Rightarrow> (string \<Rightarrow> string) \<Rightarrow> (string \<times> 'f cfg_value) list \<Rightarrow> (string \<times> 'f cfg_value) list outcome" where
  "overrideMapStringInterface pf env cfg =
     traverse (\<lambda>e. out_bind (override_value pf env (snd e)) (\<lambda>v. Ok (fst e, v))) cfg"

text \<open>\<open>v.Set(key, val)\<close> for every key of the overridden settings.\<close>

definition overrideConfigByEnv ::
    "(string \<Rightarrow> 'f option) \<Rightarrow> (string \<Rightarrow> string) \<Rightarrow> (string \<times> 'f cfg_value) list \<Rightarrow> (string \<rightharpoonup> 'f cfg_value) \<Rightarrow> (string \<rightharpoonup> 'f cfg_value) outcome" where
  "overrideConfigByEnv pf env settings v =
     out_bind (overrideMapStringInterface pf env settings) (\<lambda>cfg. Ok (fold (\<lambda>(k, x) v. v(k \<mapsto> x)) cfg v))"

section \<open>Placeholders\<close>

lemma brace_ahead_end: "CHR 0x0A \<notin> set d \<Longrightarrow> brace_ahead (d @ ''}'')"
  by (induction d) auto

lemma MatchString_mid: "is_upper c \<Longrightarrow> brace_ahead r \<Longrightarrow> MatchString (a @ c # CHR '':'' # r)"
proof (induction a)
  case (Cons x a)
  then show ?case by (cases a) auto
qed simp

lemma IndexByte_append: "c \<notin> set a \<Longrightarrow> IndexByte (a @ c # b) c = Some (length a)"
  by (induction a) auto

text \<open>\<open>${NAME:default}\<close> reads the variable \<open>NAME\<close>, or the default when it is empty.\<close>

lemma overrideString_placeholder:
  assumes "is_upper (last name)" and "name \<noteq> []" and "CHR '':'' \<notin> set name" and "CHR 0x0A \<notin> set d"
  shows "overrideString pf env (''${'' @ name @ '':'' @ d @ ''}'')
    = parseVal pf (if env name \<noteq> [] then env name else d)"
proof -
  let ?s = "''${'' @ name @ '':'' @ d @ ''}''"
  have s: "?s = (''${'' @ butlast name) @ last name # CHR '':'' # (d @ ''}'')"
    using assms(2) by (metis append.assoc append_Cons append_Nil append_butlast_last_id)
  have m: "MatchString ?s" unfolding s by (rule MatchString_mid [OF assms(1) brace_ahead_end [OF assms(4)]])
  have i: "IndexByte ?s (CHR '':'') = Some (2 + length name)"
    using IndexByte_append [of "CHR '':''" "''${'' @ name" "d @ ''}''"] assms(3) by simp
  have n: "substring ?s 2 (2 + length name) = Ok name" by (simp add: substring_def)
  have v: "substring ?s (2 + length name + 1) (length ?s - 1) = Ok d" by (simp add: substring_def)
  show ?thesis unfolding overrideString_def using m i n v by (simp del: append.simps)
qed

text \<open>The strings of a tree, and the trees whose strings and slices an override leaves alone.\<close>

fun plain :: "'f cfg_value \<Rightarrow> bool" where
  "plain (VString s) = (\<not> MatchString s)"
| "plain (VSlice vs) = list_all (\<lambda>v. kept_in_slice v \<and> plain v) vs"
| "plain (VMapString es) = list_all (\<lambda>e. plain (snd e)) es"
| "plain (VMapInterface es) = False"
| "plain _ = True"

lemma traverse_same: "(\<And>x. x \<in> set xs \<Longrightarrow> f x = Ok x) \<Longrightarrow> traverse f xs = Ok xs"
  by (induction xs) auto

lemma override_plain: "plain v \<Longrightarrow> override_value pf env v = Ok v"
proof (induction pf env v rule: override_value.induct)
  case (2 pf env vs)
  then have "filter kept_in_slice vs = vs" by (auto simp: list_all_iff filter_id_conv)
  with 2 show ?case by (simp add: traverse_same list_all_iff)
next
  case (3 pf env es)
  then show ?case by (simp add: traverse_same list_all_iff)
qed (simp_all add: overrideString_def)

text \<open>What an override leaves is in the shape of the input, but for the slices.\<close>

lemma parseVal_FormatInt: "- MaxInt64 - 1 \<le> i \<Longrightarrow> i \<le> MaxInt64 \<Longrightarrow> parseVal pf (FormatInt i) = Ok (VInt i)"
  by (simp add: parseVal_def ParseInt_FormatInt)

end
