(* ===== verification/Plugin_Registry.thy ===== *)
theory Plugin_Registry
  imports Env_Override "HOL-Library.AList"
begin

text \<open>
  \<open>internal/pkg/plugin/registry.go\<close> and \<open>internal/satellite/config/loader.go\<close>: how the
  configuration of a pipe reaches its plugins. The reflection of Go is written out: a category is
  a type of plugins, a plugin says which categories it implements; the common fields of a
  configuration are the one field \<open>PipeName\<close> with the tag \<open>pipe_name\<close>. The viper library that
  reads the default configuration, merges the given one and fills the struct of a plugin is the
  parameter \<open>fill\<close>.
\<close>

type_synonym 'f Config = "(string \<times> 'f cfg_value) list"

section \<open>loader.go\<close>

record CommonFields =
  cf_PipeName :: string

definition common_key :: string where
  "common_key = ''commonfields_pipe_name''"

definition propagateCommonFields :: "CommonFields \<Rightarrow> 'f Config \<Rightarrow> 'f Config" where
  "propagateCommonFields cf pc = AList.update common_key (VString (cf_PipeName cf)) pc"

record 'f GathererConfig =
  g_CommonFields :: "CommonFields option"
  QueueConfig :: "'f Config option"
  ReceiverConfig :: "'f Config option"
  ServerName :: string
  FetcherConfig :: "'f Config option"

record 'f ProcessorConfig =
  p_CommonFields :: "CommonFields option"
  FilterConfig :: "'f Config list"

record 'f SenderConfig =
  s_CommonFields :: "CommonFields option"
  ForwardersConfig :: "'f Config list"
  FallbackerConfig :: "'f Config option"
  ClientName :: string

record 'f SharingConfig =
  Clients :: "'f Config list"
  Servers :: "'f Config list"
  SharingCommonConfig :: CommonFields

record 'f PipeConfig =
  PipeCommonConfig :: CommonFields
  GathererOf :: "'f GathererConfig option"
  ProcessorOf :: "'f ProcessorConfig option"
  SenderOf :: "'f SenderConfig option"

text \<open>\<open>propagateCommonFieldsInStruct\<close> on the struct types it is called with.\<close>

definition propagate_gatherer :: "CommonFields \<Rightarrow> 'f GathererConfig \<Rightarrow> 'f GathererConfig" where
  "propagate_gatherer cf g =
     g\<lparr>QueueConfig := map_option (propagateCommonFields cf) (QueueConfig g),
       ReceiverConfig := map_option (propagateCommonFields cf) (ReceiverConfig g),
       FetcherConfig := map_option (propagateCommonFields cf) (FetcherConfig g)\<rparr>"

definition propagate_sender :: "CommonFields \<Rightarrow> 'f SenderConfig \<Rightarrow> 'f SenderConfig" where
  "propagate_sender cf s =
     s\<lparr>ForwardersConfig := map (propagateCommonFields cf) (ForwardersConfig s),
       FallbackerConfig := map_option (propagateCommonFields cf) (FallbackerConfig s)\<rparr>"

definition propagate_processor :: "CommonFields \<Rightarrow> 'f ProcessorConfig \<Rightarrow> 'f ProcessorConfig" where
  "propagate_processor cf p = p\<lparr>FilterConfig := map (propagateCommonFields cf) (FilterConfig p)\<rparr>"

definition propagateCommonFieldsInSharing :: "'f SharingConfig \<Rightarrow> 'f SharingConfig" where
  "propagateCommonFieldsInSharing s =
     s\<lparr>Clients := map (propagateCommonFields (SharingCommonConfig s)) (Clients s),
       Servers := map (propagateCommonFields (SharingCommonConfig s)) (Servers s)\<rparr>"

text \<open>Setting a field of a module that is not configured is a nil dereference.\<close>

definition propagate_pipe :: "'f PipeConfig \<Rightarrow> 'f PipeConfig outcome" where
  "propagate_pipe pipe =
     (let cf = PipeCommonConfig pipe in
      case (GathererOf pipe, SenderOf pipe, ProcessorOf pipe) of
        (Some g, Some s, Some p) \<Rightarrow>
          Ok (pipe\<lparr>GathererOf := Some (propagate_gatherer cf (g\<lparr>g_CommonFields := Some cf\<rparr>)),
                   SenderOf := Some (propagate_sender cf (s\<lparr>s_CommonFields := Some cf\<rparr>)),
                   ProcessorOf := Some (propagate_processor cf (p\<lparr>p_CommonFields := Some cf\<rparr>))\<rparr>)
      | _ \<Rightarrow> Panic)"

definition propagateCommonFieldsInPipes :: "'f PipeConfig list \<Rightarrow> 'f PipeConfig list outcome" where
  "propagateCommonFieldsInPipes = traverse propagate_pipe"

section \<open>registry.go\<close>

text \<open>
  A registered plugin: its name, the categories it implements, and whether its struct has the
  field \<open>CommonFields\<close>. A plugin that was created carries the settings that were filled in and
  its pipe name.
\<close>

record 'c plugin_type =
  pt_Name :: string
  pt_implements :: "'c \<Rightarrow> bool"
  pt_has_common :: bool

record ('c, 's) plugin =
  pl_type :: "'c plugin_type"
  pl_settings :: 's
  pl_PipeName :: string

type_synonym 'c registry = "('c \<times> (string \<times> 'c plugin_type) list) list"

definition RegisterPluginCategory :: "'c \<Rightarrow> 'c registry \<Rightarrow> 'c registry" where
  "RegisterPluginCategory c Reg = AList.update c [] Reg"

definition RegisterPlugin :: "'c plugin_type \<Rightarrow> 'c registry \<Rightarrow> 'c registry" where
  "RegisterPlugin p Reg =
     map (\<lambda>(c, pReg). (c, if pt_implements p c then AList.update (pt_Name p) p pReg else pReg)) Reg"

definition nameFinder :: "'f Config \<Rightarrow> string outcome" where
  "nameFinder cfg = (case map_of cfg ''plugin_name'' of Some (VString name) \<Rightarrow> Ok name | _ \<Rightarrow> Panic)"

text \<open>
  \<open>fill\<close> is \<open>ReadConfig\<close>, \<open>MergeConfigMap\<close> and \<open>Unmarshal\<close> of viper: the settings of the plugin
  and the pipe name that is a field of the struct, or a failure, which is a panic.
\<close>

definition Initializing ::
    "('c plugin_type \<Rightarrow> 'f Config \<Rightarrow> ('s \<times> string) outcome) \<Rightarrow> 'c plugin_type \<Rightarrow> 'f Config \<Rightarrow> ('c, 's) plugin outcome" where
  "Initializing fill p cfg =
     (case fill p cfg of
        Ok (settings, name) \<Rightarrow>
          if \<not> pt_has_common p then Panic
          else (case map_of cfg common_key of
                  None \<Rightarrow> Ok \<lparr>pl_type = p, pl_settings = settings, pl_PipeName = name\<rparr>
                | Some VNil \<Rightarrow> Ok \<lparr>pl_type = p, pl_settings = settings, pl_PipeName = name\<rparr>
                | Some (VString s) \<Rightarrow> Ok \<lparr>pl_type = p, pl_settings = settings, pl_PipeName = s\<rparr>
                | Some _ \<Rightarrow> Panic)
      | _ \<Rightarrow> Panic)"

definition plugin_Get ::
    "('c plugin_type \<Rightarrow> 'f Config \<Rightarrow> ('s \<times> string) outcome) \<Rightarrow> 'c registry \<Rightarrow> 'c \<Rightarrow> 'f Config \<Rightarrow> ('c, 's) plugin outcome" where
  "plugin_Get fill Reg category cfg =
     out_bind (nameFinder cfg) (\<lambda>pluginName.
       case map_of Reg category of
         None \<Rightarrow> Panic
       | Some pReg \<Rightarrow> (case map_of pReg pluginName of None \<Rightarrow> Panic | Some p \<Rightarrow> Initializing fill p cfg))"

section \<open>Lookups after registrations\<close>

definition reg_find :: "'c registry \<Rightarrow> 'c \<Rightarrow> string \<Rightarrow> 'c plugin_type option" where
  "reg_find Reg c n = Option.bind (map_of Reg c) (\<lambda>pReg. map_of pReg n)"

lemma map_of_map_values: "map_of (map (\<lambda>(c, v). (c, h c v)) xs) k = map_option (h k) (map_of xs k)"
  by (induction xs) auto

lemma RegisterPlugin_find:
  "reg_find (RegisterPlugin p Reg) c n =
     (if c \<in> fst ` set Reg \<and> pt_implements p c \<and> n = pt_Name p then Some p else reg_find Reg c n)"
proof (cases "map_of Reg c")
  case None
  then have "c \<notin> fst ` set Reg" by (simp add: map_of_eq_None_iff)
  with None show ?thesis by (simp add: reg_find_def RegisterPlugin_def map_of_map_values)
next
  case (Some pReg)
  then have "c \<in> fst ` set Reg" by (force dest: map_of_SomeD)
  with Some show ?thesis by (simp add: reg_find_def RegisterPlugin_def map_of_map_values update_conv)
qed

lemma RegisterPlugin_categories: "fst ` set (RegisterPlugin p Reg) = fst ` set Reg"
  by (force simp: RegisterPlugin_def image_iff)

text \<open>All registrations of \<open>plugins.RegisterPlugins\<close> in order: the last plugin of a name wins.\<close>

definition register_all :: "'c plugin_type list \<Rightarrow> 'c registry \<Rightarrow> 'c registry" where
  "register_all ps Reg = fold RegisterPlugin ps Reg"

lemma register_all_find:
  "c \<in> fst ` set Reg \<Longrightarrow> reg_find (register_all ps Reg) c n =
     (case find (\<lambda>p. pt_implements p c \<and> pt_Name p = n) (rev ps) of Some p \<Rightarrow> Some p | None \<Rightarrow> reg_find Reg c n)"
proof (induction ps rule: rev_induct)
  case (snoc p ps)
  have "c \<in> fst ` set (register_all ps Reg)"
    using snoc.prems
  proof (induction ps rule: rev_induct)
    case (snoc q qs)
    then show ?case by (simp add: register_all_def RegisterPlugin_categories)
  qed (simp add: register_all_def)
  with snoc show ?case by (auto simp: register_all_def RegisterPlugin_find)
qed (simp add: register_all_def)

lemma find_distinct:
  assumes "p \<in> set ps" and "P p" and "\<And>q. q \<in> set ps \<Longrightarrow> P q \<Longrightarrow> q = p"
  shows "find P ps = Some p"
proof (cases "find P ps")
  case None
  with assms(1,2) show ?thesis by (auto simp: find_None_iff)
next
  case (Some q)
  then have "q \<in> set ps" "P q" by (auto simp: find_Some_iff)
  from assms(3) [OF this] Some show ?thesis by simp
qed

text \<open>The pipe name: what the loader puts into a configuration is what the plugin has.\<close>

lemma propagate_lookup: "map_of (propagateCommonFields cf pc) k = (if k = common_key then Some (VString (cf_PipeName cf)) else map_of pc k)"
  by (simp add: propagateCommonFields_def update_conv)

lemma plugin_Get_propagated:
  assumes n: "map_of pc ''plugin_name'' = Some (VString n)" and r: "reg_find Reg c n = Some p"
    and fill: "fill p (propagateCommonFields cf pc) = Ok (settings, name)" and has: "pt_has_common p"
  shows "plugin_Get fill Reg c (propagateCommonFields cf pc)
    = Ok \<lparr>pl_type = p, pl_settings = settings, pl_PipeName = cf_PipeName cf\<rparr>"
proof -
  have "nameFinder (propagateCommonFields cf pc) = Ok n"
    using n by (simp add: nameFinder_def propagate_lookup common_key_def)
  with r fill has show ?thesis
    by (auto simp: plugin_Get_def reg_find_def Initializing_def propagate_lookup bind_eq_Some_conv)
qed

end
