(* ===== verification/Plugin_Catalogue.thy ===== *)
theory Plugin_Catalogue
  imports Plugin_Registry
begin

text \<open>
  \<open>plugins/init.go\<close> and the repositories of the plugin packages: which plugins a satellite knows,
  under which names, in which category. Every plugin struct has the common fields and implements
  the interface of its own category only.
\<close>

datatype category =
  Filter | Forwarder | Parser | Queue | Receiver | Fetcher | Fallbacker | Server | Client

definition mk_plugin :: "category \<Rightarrow> string \<Rightarrow> category plugin_type" where
  "mk_plugin c n = \<lparr>pt_Name = n, pt_implements = (\<lambda>d. d = c), pt_has_common = True\<rparr>"

definition register_category :: "category \<Rightarrow> string list \<Rightarrow> category registry \<Rightarrow> category registry" where
  "register_category c names Reg = register_all (map (mk_plugin c) names) (RegisterPluginCategory c Reg)"

definition RegisterFilterPlugins :: "category registry \<Rightarrow> category registry" where
  "RegisterFilterPlugins = register_category Filter []"

definition forwarder_names :: "string list" where
  "forwarder_names =
     [''native-log-kafka-forwarder'', ''native-log-grpc-forwarder'', ''native-meter-grpc-forwarder'',
      ''native-management-grpc-forwarder'', ''native-tracing-grpc-forwarder'', ''native-profile-grpc-forwarder'',
      ''native-cds-grpc-forwarder'', ''native-event-grpc-forwarder'', ''native-jvm-grpc-forwarder'',
      ''native-clr-grpc-forwarder'', ''native-process-grpc-forwarder'', ''native-ebpf-profiling-grpc-forwarder'',
      ''envoy-als-v2-grpc-forwarder'', ''envoy-als-v3-grpc-forwarder'', ''envoy-metrics-v2-grpc-forwarder'',
      ''envoy-metrics-v3-grpc-forwarder'', ''otlp-metrics-v1-grpc-forwarder'',
      ''native-ebpf-accesslog-grpc-forwarder'', ''native-async-profiler-grpc-forwarder'']"

definition RegisterForwarderPlugins :: "category registry \<Rightarrow> category registry" where
  "RegisterForwarderPlugins = register_category Forwarder forwarder_names"

definition RegisterParserPlugins :: "category registry \<Rightarrow> category registry" where
  "RegisterParserPlugins = register_category Parser []"

definition queues :: "string list" where
  "queues = [''memory-queue'', ''mmap-queue'', ''none-queue'']"

definition RegisterQueuePlugins :: "category registry \<Rightarrow> category registry" where
  "RegisterQueuePlugins = register_category Queue queues"

definition receiver_names :: "string list" where
  "receiver_names =
     [''grpc-native-log-receiver'', ''grpc-native-management-receiver'', ''grpc-native-tracing-receiver'',
      ''grpc-native-profile-receiver'', ''grpc-native-cds-receiver'', ''http-native-log-receiver'',
      ''grpc-native-jvm-receiver'', ''grpc-native-clr-receiver'', ''grpc-native-event-receiver'',
      ''grpc-native-meter-receiver'', ''grpc-native-process-receiver'', ''grpc-native-ebpf-profiling-receiver'',
      ''grpc-envoy-als-v2-receiver'', ''grpc-envoy-als-v3-receiver'', ''grpc-envoy-metrics-v2-receiver'',
      ''grpc-envoy-metrics-v3-receiver'', ''grpc-otlp-metrics-v1-receiver'',
      ''grpc-native-ebpf-accesslog-receiver'', ''grpc-native-async-profiler-receiver'']"

definition RegisterReceiverPlugins :: "category registry \<Rightarrow> category registry" where
  "RegisterReceiverPlugins = register_category Receiver receiver_names"

definition RegisterFetcherPlugins :: "category registry \<Rightarrow> category registry" where
  "RegisterFetcherPlugins = register_category Fetcher []"

definition RegisterFallbackerPlugins :: "category registry \<Rightarrow> category registry" where
  "RegisterFallbackerPlugins = register_category Fallbacker [''none-fallbacker'', ''timer-fallbacker'']"

definition RegisterServerPlugins :: "category registry \<Rightarrow> category registry" where
  "RegisterServerPlugins = register_category Server [''grpc-server'', ''http-server'']"

definition RegisterClientPlugins :: "category registry \<Rightarrow> category registry" where
  "RegisterClientPlugins = register_category Client [''kafka-client'', ''grpc-client'']"

definition RegisterPlugins :: "category registry \<Rightarrow> category registry" where
  "RegisterPlugins Reg =
     RegisterClientPlugins (RegisterServerPlugins (RegisterFallbackerPlugins (RegisterFetcherPlugins
       (RegisterReceiverPlugins (RegisterQueuePlugins (RegisterParserPlugins (RegisterForwarderPlugins
         (RegisterFilterPlugins Reg))))))))"

section \<open>What is registered\<close>

fun catalogue :: "category \<Rightarrow> string list" where
  "catalogue Forwarder = forwarder_names"
| "catalogue Queue = queues"
| "catalogue Receiver = receiver_names"
| "catalogue Fallbacker = [''none-fallbacker'', ''timer-fallbacker'']"
| "catalogue Server = [''grpc-server'', ''http-server'']"
| "catalogue Client = [''kafka-client'', ''grpc-client'']"
| "catalogue _ = []"

lemma RegisterPluginCategory_find:
  "reg_find (RegisterPluginCategory c Reg) d n = (if d = c then None else reg_find Reg d n)"
  by (simp add: reg_find_def RegisterPluginCategory_def update_conv)

lemma find_named: "find (\<lambda>p. pt_implements p d \<and> pt_Name p = n) (map (mk_plugin c) ns) =
    (if d = c \<and> n \<in> set ns then Some (mk_plugin c n) else None)"
  by (induction ns) (auto simp: mk_plugin_def)

lemma register_all_other:
  "\<forall>p \<in> set ps. \<not> pt_implements p c \<Longrightarrow> reg_find (register_all ps Reg) c n = reg_find Reg c n"
  unfolding register_all_def by (induction ps arbitrary: Reg) (auto simp: RegisterPlugin_find)

lemma register_category_find:
  "reg_find (register_category c ns Reg) d n =
     (if d = c then (if n \<in> set ns then Some (mk_plugin c n) else None) else reg_find Reg d n)"
proof (cases "d = c")
  case True
  have "map_of (RegisterPluginCategory c Reg) c = Some []" by (simp add: RegisterPluginCategory_def update_conv)
  then have "c \<in> fst ` set (RegisterPluginCategory c Reg)" by (force dest: map_of_SomeD)
  from register_all_find [OF this, of "map (mk_plugin c) ns" n] True show ?thesis
    by (simp add: register_category_def rev_map find_named RegisterPluginCategory_find)
next
  case False
  then have "reg_find (register_category c ns Reg) d n = reg_find (RegisterPluginCategory c Reg) d n"
    unfolding register_category_def by (intro register_all_other) (simp add: mk_plugin_def)
  with False show ?thesis by (simp add: RegisterPluginCategory_find)
qed

lemmas register_defs = RegisterPlugins_def RegisterClientPlugins_def RegisterServerPlugins_def
  RegisterFallbackerPlugins_def RegisterFetcherPlugins_def RegisterReceiverPlugins_def RegisterQueuePlugins_def
  RegisterParserPlugins_def RegisterForwarderPlugins_def RegisterFilterPlugins_def

lemma RegisterPlugins_find:
  "reg_find (RegisterPlugins Reg) c n = (if n \<in> set (catalogue c) then Some (mk_plugin c n) else None)"
  by (cases c) (simp_all add: register_defs register_category_find)

section \<open>Getting a plugin\<close>

definition GetQueue :: "(category plugin_type \<Rightarrow> 'f Config \<Rightarrow> ('s \<times> string) outcome) \<Rightarrow> category registry \<Rightarrow> 'f Config \<Rightarrow> (category, 's) plugin outcome" where
  "GetQueue fill Reg = plugin_Get fill Reg Queue"

definition GetReceiver :: "(category plugin_type \<Rightarrow> 'f Config \<Rightarrow> ('s \<times> string) outcome) \<Rightarrow> category registry \<Rightarrow> 'f Config \<Rightarrow> (category, 's) plugin outcome" where
  "GetReceiver fill Reg = plugin_Get fill Reg Receiver"

definition GetFetcher :: "(category plugin_type \<Rightarrow> 'f Config \<Rightarrow> ('s \<times> string) outcome) \<Rightarrow> category registry \<Rightarrow> 'f Config \<Rightarrow> (category, 's) plugin outcome" where
  "GetFetcher fill Reg = plugin_Get fill Reg Fetcher"

definition GetForwarder :: "(category plugin_type \<Rightarrow> 'f Config \<Rightarrow> ('s \<times> string) outcome) \<Rightarrow> category registry \<Rightarrow> 'f Config \<Rightarrow> (category, 's) plugin outcome" where
  "GetForwarder fill Reg = plugin_Get fill Reg Forwarder"

definition GetFallbacker :: "(category plugin_type \<Rightarrow> 'f Config \<Rightarrow> ('s \<times> string) outcome) \<Rightarrow> category registry \<Rightarrow> 'f Config \<Rightarrow> (category, 's) plugin outcome" where
  "GetFallbacker fill Reg = plugin_Get fill Reg Fallbacker"

definition GetFilter :: "(category plugin_type \<Rightarrow> 'f Config \<Rightarrow> ('s \<times> string) outcome) \<Rightarrow> category registry \<Rightarrow> 'f Config \<Rightarrow> (category, 's) plugin outcome" where
  "GetFilter fill Reg = plugin_Get fill Reg Filter"

definition GetServer :: "(category plugin_type \<Rightarrow> 'f Config \<Rightarrow> ('s \<times> string) outcome) \<Rightarrow> category registry \<Rightarrow> 'f Config \<Rightarrow> (category, 's) plugin outcome" where
  "GetServer fill Reg = plugin_Get fill Reg Server"

definition GetClient :: "(category plugin_type \<Rightarrow> 'f Config \<Rightarrow> ('s \<times> string) outcome) \<Rightarrow> category registry \<Rightarrow> 'f Config \<Rightarrow> (category, 's) plugin outcome" where
  "GetClient fill Reg = plugin_Get fill Reg Client"

lemma plugin_Get_uncatalogued:
  assumes "nameFinder cfg = Ok n" and "n \<notin> set (catalogue c)"
  shows "plugin_Get fill (RegisterPlugins Reg) c cfg = Panic"
  using RegisterPlugins_find [of Reg c n] assms
  by (auto simp: plugin_Get_def reg_find_def bind_eq_None_conv split: option.splits)

end
