(* ===== verification/Boot.thy ===== *)
theory Boot
  imports Plugin_Catalogue
begin

text \<open>
  \<open>internal/satellite/boot/boot.go\<close>, \<open>internal/satellite/sharing/sharing_plugins.go\<close> and the
  \<open>create.go\<close> files of the modules: how a configuration becomes running modules. The plugins are
  created by the registry; what \<open>Prepare\<close>, \<open>Start\<close>, \<open>Close\<close> and \<open>Shutdown\<close> of a plugin or module do
  to the world is a table of operations, an argument here. Maps that the code iterates over are
  association lists; their order stands for the order of the iteration.
\<close>

section \<open>Sharing plugins\<close>

text \<open>The manager maps the name of a plugin to the plugin.\<close>

type_synonym 's shared = "(string \<times> (category, 's) plugin) list"

record ('p, 'w) sharing_ops =
  sh_Prepare :: "'p \<Rightarrow> ('w, unit) go"
  sh_Start :: "'p \<Rightarrow> ('w, unit) go"
  sh_Close :: "'p \<Rightarrow> ('w, unit) go"

type_synonym ('f, 's) filler = "category plugin_type \<Rightarrow> 'f Config \<Rightarrow> ('s \<times> string) outcome"

fun load_shared :: "('f Config \<Rightarrow> (category, 's) plugin outcome) \<Rightarrow> 'f Config list \<Rightarrow> 's shared \<Rightarrow> 's shared outcome" where
  "load_shared get [] Manager = Ok Manager"
| "load_shared get (c # cs) Manager =
     out_bind (get c) (\<lambda>p. load_shared get cs (AList.update (pt_Name (pl_type p)) p Manager))"

text \<open>\<open>once.Do\<close>: the manager of the first call stays.\<close>

definition sharing_Load :: "('f, 's) filler \<Rightarrow> category registry \<Rightarrow> 'f SharingConfig \<Rightarrow> 's shared option \<Rightarrow> 's shared outcome" where
  "sharing_Load fill Reg cfg once =
     (case once of
        Some Manager \<Rightarrow> Ok Manager
      | None \<Rightarrow> out_bind (load_shared (GetClient fill Reg) (Clients cfg) []) (load_shared (GetServer fill Reg) (Servers cfg)))"

fun sharing_Close :: "('p, 'w) sharing_ops \<Rightarrow> (string \<times> 'p) list \<Rightarrow> ('w, unit) go" where
  "sharing_Close ops [] w = (Ok (), w)"
| "sharing_Close ops ((n, p) # ms) w =
     (case sh_Close ops p w of
        (Panic, w') \<Rightarrow> (Panic, w')
      | (Hang, w') \<Rightarrow> (Hang, w')
      | (_, w') \<Rightarrow> sharing_Close ops ms w')"

text \<open>\<open>Prepare\<close> and \<open>Start\<close> are the same loop: the first error closes every plugin.\<close>

fun sharing_each :: "('p \<Rightarrow> ('w, unit) go) \<Rightarrow> ('p, 'w) sharing_ops \<Rightarrow> (string \<times> 'p) list \<Rightarrow> (string \<times> 'p) list \<Rightarrow> ('w, unit) go" where
  "sharing_each act ops all [] w = (Ok (), w)"
| "sharing_each act ops all ((n, p) # ms) w =
     (case act p w of
        (Ok _, w') \<Rightarrow> sharing_each act ops all ms w'
      | (Err e, w') \<Rightarrow>
          go_bind (sharing_Close ops all)
            (\<lambda>_ w. (Err (Errorf (''cannot preare the sharing plugins named '' @ n)), w)) w'
      | (Panic, w') \<Rightarrow> (Panic, w')
      | (Hang, w') \<Rightarrow> (Hang, w'))"

definition sharing_Prepare :: "('p, 'w) sharing_ops \<Rightarrow> (string \<times> 'p) list \<Rightarrow> ('w, unit) go" where
  "sharing_Prepare ops Manager = sharing_each (sh_Prepare ops) ops Manager Manager"

definition sharing_Start :: "('p, 'w) sharing_ops \<Rightarrow> (string \<times> 'p) list \<Rightarrow> ('w, unit) go" where
  "sharing_Start ops Manager = sharing_each (sh_Start ops) ops Manager Manager"

section \<open>Modules\<close>

datatype 's module =
    ReceiverGathererModule (queue_plugin: "(category, 's) plugin") (source_plugin: "(category, 's) plugin") string
  | FetcherGathererModule (queue_plugin: "(category, 's) plugin") (source_plugin: "(category, 's) plugin")
  | SenderModule "(category, 's) plugin list" "(category, 's) plugin" string
  | ProcessorModule "(category, 's) plugin list"

text \<open>\<open>sharing.Manager[name].(T)\<close>: the plugin must be there and of the asked category.\<close>

definition shared_as :: "category \<Rightarrow> string \<Rightarrow> 's shared \<Rightarrow> string outcome" where
  "shared_as c n Manager =
     (case map_of Manager n of
        None \<Rightarrow> Panic
      | Some p \<Rightarrow> if pt_implements (pl_type p) c then Ok n else Panic)"

definition partition_type :: "category plugin_type" where
  "partition_type = \<lparr>pt_Name = ''partition-queue'', pt_implements = (\<lambda>_. False), pt_has_common = True\<rparr>"

text \<open>A nil map is read as an empty one.\<close>

definition cfg_of :: "'f Config option \<Rightarrow> 'f Config" where
  "cfg_of c = (case c of None \<Rightarrow> [] | Some x \<Rightarrow> x)"

definition NewPartitionQueue :: "('f, 's) filler \<Rightarrow> 'f Config option \<Rightarrow> (category, 's) plugin outcome" where
  "NewPartitionQueue fill c = Initializing fill partition_type (cfg_of c)"

definition newReceiverGatherer :: "('f, 's) filler \<Rightarrow> category registry \<Rightarrow> 's shared \<Rightarrow> 'f GathererConfig \<Rightarrow> 's module outcome" where
  "newReceiverGatherer fill Reg Manager cfg =
     out_bind (NewPartitionQueue fill (QueueConfig cfg)) (\<lambda>q.
     out_bind (GetReceiver fill Reg (cfg_of (ReceiverConfig cfg))) (\<lambda>r.
     out_bind (shared_as Server (ServerName cfg) Manager) (\<lambda>s. Ok (ReceiverGathererModule q r s))))"

definition newFetcherGatherer :: "('f, 's) filler \<Rightarrow> category registry \<Rightarrow> 'f GathererConfig \<Rightarrow> 's module outcome" where
  "newFetcherGatherer fill Reg cfg =
     out_bind (NewPartitionQueue fill (QueueConfig cfg)) (\<lambda>q.
     out_bind (GetFetcher fill Reg (cfg_of (FetcherConfig cfg))) (\<lambda>f. Ok (FetcherGathererModule q f)))"

text \<open>Without a receiver and a fetcher the result is nil.\<close>

definition NewGatherer :: "('f, 's) filler \<Rightarrow> category registry \<Rightarrow> 's shared \<Rightarrow> 'f GathererConfig \<Rightarrow> 's module option outcome" where
  "NewGatherer fill Reg Manager cfg =
     (if ReceiverConfig cfg \<noteq> None then out_bind (newReceiverGatherer fill Reg Manager cfg) (\<lambda>m. Ok (Some m))
      else if FetcherConfig cfg \<noteq> None then out_bind (newFetcherGatherer fill Reg cfg) (\<lambda>m. Ok (Some m))
      else Ok None)"

definition NewSender :: "('f, 's) filler \<Rightarrow> category registry \<Rightarrow> 's shared \<Rightarrow> 'f SenderConfig \<Rightarrow> 's module outcome" where
  "NewSender fill Reg Manager cfg =
     out_bind (GetFallbacker fill Reg (cfg_of (FallbackerConfig cfg))) (\<lambda>fb.
     out_bind (shared_as Client (ClientName cfg) Manager) (\<lambda>c.
     out_bind (traverse (GetForwarder fill Reg) (ForwardersConfig cfg)) (\<lambda>fs. Ok (SenderModule fs fb c))))"

definition NewProcessor :: "('f, 's) filler \<Rightarrow> category registry \<Rightarrow> 'f ProcessorConfig \<Rightarrow> 's module outcome" where
  "NewProcessor fill Reg cfg = out_bind (traverse (GetFilter fill Reg) (FilterConfig cfg)) (\<lambda>fs. Ok (ProcessorModule fs))"

type_synonym 's ModuleContainer = "(string \<times> 's module list) list"

text \<open>
  The modules of a pipe are made known to each other. The setters check which interface a module
  implements; what they keep is their result. A method of a nil gatherer is a panic.
\<close>

definition SetProcessor :: "'s module \<Rightarrow> 's module outcome" where
  "SetProcessor m = (case m of ProcessorModule _ \<Rightarrow> Ok m
     | _ \<Rightarrow> Err (Errorf ''set processor only supports to inject processor module''))"

definition SetGatherer :: "'s module \<Rightarrow> 's module outcome" where
  "SetGatherer m = (case m of ReceiverGathererModule _ _ _ \<Rightarrow> Ok m | FetcherGathererModule _ _ \<Rightarrow> Ok m
     | _ \<Rightarrow> Err (Errorf ''set gatherer only supports to inject gatherer module''))"

definition SetSender :: "'s module \<Rightarrow> 's module outcome" where
  "SetSender m = (case m of SenderModule _ _ _ \<Rightarrow> Ok m
     | _ \<Rightarrow> Err (Errorf ''set sender only supports to inject sender module''))"

definition init_pipe :: "('f, 's) filler \<Rightarrow> category registry \<Rightarrow> 's shared \<Rightarrow> 'f GathererConfig \<Rightarrow> 'f SenderConfig \<Rightarrow> 'f ProcessorConfig
    \<Rightarrow> 's module list outcome" where
  "init_pipe fill Reg Manager gc sc pc =
     out_bind (NewGatherer fill Reg Manager gc) (\<lambda>g.
     out_bind (NewSender fill Reg Manager sc) (\<lambda>s.
     out_bind (NewProcessor fill Reg pc) (\<lambda>p.
       case g of
         None \<Rightarrow> Panic
       | Some g \<Rightarrow>
           out_bind (SetProcessor p) (\<lambda>_.
           out_bind (SetGatherer g) (\<lambda>_.
           out_bind (SetSender s) (\<lambda>_.
           out_bind (SetGatherer g) (\<lambda>_. Ok [g, s, p])))))))"

text \<open>The setters never refuse: the modules come from the constructors of their kind.\<close>

lemma init_pipe_eq:
  "init_pipe fill Reg Manager gc sc pc =
     out_bind (NewGatherer fill Reg Manager gc) (\<lambda>g.
     out_bind (NewSender fill Reg Manager sc) (\<lambda>s.
     out_bind (NewProcessor fill Reg pc) (\<lambda>p.
       case g of None \<Rightarrow> Panic | Some g \<Rightarrow> Ok [g, s, p])))"
proof -
  have g: "SetGatherer m = Ok m" if "NewGatherer fill Reg Manager gc = Ok (Some m)" for m
    using that by (auto simp: NewGatherer_def newReceiverGatherer_def newFetcherGatherer_def out_bind_eq_Ok SetGatherer_def split: if_splits)
  have s: "SetSender m = Ok m" if "NewSender fill Reg Manager sc = Ok m" for m
    using that by (auto simp: NewSender_def out_bind_eq_Ok SetSender_def)
  have p: "SetProcessor m = Ok m" if "NewProcessor fill Reg pc = Ok m" for m
    using that by (auto simp: NewProcessor_def out_bind_eq_Ok SetProcessor_def)
  show ?thesis
    unfolding init_pipe_def
    by (cases "NewGatherer fill Reg Manager gc"; cases "NewSender fill Reg Manager sc"; cases "NewProcessor fill Reg pc")
      (auto simp: g s p split: option.splits)
qed

fun init_pipes :: "('f, 's) filler \<Rightarrow> category registry \<Rightarrow> 's shared \<Rightarrow> 'f PipeConfig list \<Rightarrow> 's ModuleContainer \<Rightarrow> 's ModuleContainer outcome" where
  "init_pipes fill Reg Manager [] container = Ok container"
| "init_pipes fill Reg Manager (aCfg # rest) container =
     (case (GathererOf aCfg, SenderOf aCfg, ProcessorOf aCfg) of
        (Some g, Some s, Some p) \<Rightarrow>
          out_bind (init_pipe fill Reg Manager g s p) (\<lambda>modules.
            init_pipes fill Reg Manager rest
              (AList.update (cf_PipeName (PipeCommonConfig aCfg)) modules container))
      | _ \<Rightarrow> Panic)"

definition initModules :: "('f, 's) filler \<Rightarrow> category registry \<Rightarrow> 's shared \<Rightarrow> 'f PipeConfig list \<Rightarrow> 's ModuleContainer outcome" where
  "initModules fill Reg Manager pipes =
     (if list_ex (\<lambda>c. GathererOf c = None \<or> SenderOf c = None \<or> ProcessorOf c = None) pipes
      then Err (Errorf ''gatherer, sender, and processor is required in the namespace config'')
      else init_pipes fill Reg Manager pipes [])"

record ('m, 'w) module_ops =
  mo_Prepare :: "'m \<Rightarrow> ('w, unit) go"
  mo_Shutdown :: "'m \<Rightarrow> 'w \<Rightarrow> 'w"

text \<open>\<open>Shutdown\<close> has no result.\<close>

definition shutdown_all :: "('m, 'w) module_ops \<Rightarrow> 'm list \<Rightarrow> 'w \<Rightarrow> 'w" where
  "shutdown_all ops ms w = fold (mo_Shutdown ops) ms w"

fun prepare_loop :: "('m, 'w) module_ops \<Rightarrow> 'm list \<Rightarrow> 'm list \<Rightarrow> ('w, unit) go" where
  "prepare_loop ops preparedModules [] w = (Ok (), w)"
| "prepare_loop ops preparedModules (m # ms) w =
     (case mo_Prepare ops m w of
        (Ok _, w') \<Rightarrow> prepare_loop ops (preparedModules @ [m]) ms w'
      | (Err e, w') \<Rightarrow> (Err e, shutdown_all ops (preparedModules @ [m]) w')
      | (Panic, w') \<Rightarrow> (Panic, w')
      | (Hang, w') \<Rightarrow> (Hang, w'))"

definition prepareModules :: "('m, 'w) module_ops \<Rightarrow> (string \<times> 'm list) list \<Rightarrow> ('w, unit) go" where
  "prepareModules ops container = prepare_loop ops [] (concat (map snd container))"

text \<open>
  \<open>Start\<close> from the loaded configuration on. \<open>boot\<close> starts the modules and returns when they have
  ended, \<open>after\<close> is \<open>telemetry.AfterShardingStart\<close>; the deferred \<open>sharing.Close\<close> runs on every
  return behind \<open>sharing.Prepare\<close>.
\<close>

definition with_deferred :: "('w, unit) go \<Rightarrow> ('w, unit) go \<Rightarrow> ('w, unit) go" where
  "with_deferred body close w =
     (case body w of
        (Hang, w') \<Rightarrow> (Hang, w')
      | (r, w') \<Rightarrow> (case close w' of (Ok _, w'') \<Rightarrow> (r, w'') | (Hang, w'') \<Rightarrow> (Hang, w'') | (_, w'') \<Rightarrow> (Panic, w'')))"

definition Start_from :: "('f, 's) filler \<Rightarrow> category registry \<Rightarrow> ((category, 's) plugin, 'w) sharing_ops \<Rightarrow> ('s module, 'w) module_ops
    \<Rightarrow> ('w, unit) go \<Rightarrow> ('s ModuleContainer \<Rightarrow> ('w, unit) go) \<Rightarrow> 'f SharingConfig \<Rightarrow> 'f PipeConfig list \<Rightarrow> ('w, unit) go" where
  "Start_from fill Reg sops mops after boot sharing pipes w =
     (case sharing_Load fill Reg sharing None of
        Ok Manager \<Rightarrow>
          (case sharing_Prepare sops Manager w of
             (Ok _, w1) \<Rightarrow>
               with_deferred (\<lambda>w.
                 case initModules fill Reg Manager pipes of
                   Ok modules \<Rightarrow>
                     go_bind (prepareModules mops modules) (\<lambda>_.
                     go_bind (sharing_Start sops Manager) (\<lambda>_.
                     go_bind after (\<lambda>_. boot modules))) w
                 | Err e \<Rightarrow> (Err e, w) | Panic \<Rightarrow> (Panic, w) | Hang \<Rightarrow> (Hang, w))
               (sharing_Close sops Manager) w1
           | (Err e, w1) \<Rightarrow> (Err (Errorf ''error in preparing the sharing plugins''), w1)
           | (Panic, w1) \<Rightarrow> (Panic, w1)
           | (Hang, w1) \<Rightarrow> (Hang, w1))
      | Err e \<Rightarrow> (Err e, w) | Panic \<Rightarrow> (Panic, w) | Hang \<Rightarrow> (Hang, w))"

section \<open>Preparing all or shutting down what was prepared\<close>

fun prepare_each :: "('m, 'w) module_ops \<Rightarrow> 'm list \<Rightarrow> ('w, unit) go" where
  "prepare_each ops [] w = (Ok (), w)"
| "prepare_each ops (m # ms) w = go_bind (mo_Prepare ops m) (\<lambda>_. prepare_each ops ms) w"

lemma prepare_loop_Ok: "prepare_loop ops done ms w = (Ok (), w') \<longleftrightarrow> prepare_each ops ms w = (Ok (), w')"
  by (induction ms arbitrary: "done" w) (auto simp: go_bind_def split: prod.splits outcome.splits)

lemma prepare_loop_Err:
  "prepare_loop ops done ms w = (Err e, w') \<Longrightarrow>
   \<exists>pre m post w1 w2. ms = pre @ m # post \<and> prepare_each ops pre w = (Ok (), w1) \<and>
     mo_Prepare ops m w1 = (Err e, w2) \<and> w' = shutdown_all ops (done @ pre @ [m]) w2"
proof (induction ms arbitrary: "done" w)
  case (Cons m ms)
  obtain r w1 where p: "mo_Prepare ops m w = (r, w1)" by fastforce
  show ?case
  proof (cases r)
    case (Ok u)
    with Cons.prems p have "prepare_loop ops (done @ [m]) ms w1 = (Err e, w')" by simp
    from Cons.IH [OF this] obtain pre m' post w2 w3 where ih: "ms = pre @ m' # post" "prepare_each ops pre w1 = (Ok (), w2)"
      "mo_Prepare ops m' w2 = (Err e, w3)" "w' = shutdown_all ops (done @ (m # pre) @ [m']) w3"
      by auto
    have "prepare_each ops (m # pre) w = (Ok (), w2)" using p Ok ih(2) by (simp add: go_bind_def)
    with ih show ?thesis by (metis append_Cons)
  next
    case (Err e1)
    with Cons.prems p have "e1 = e" "w' = shutdown_all ops (done @ [m]) w1" by auto
    with p Err show ?thesis
      by (intro exI [of _ "[]"] exI [of _ m] exI [of _ ms] exI [of _ w] exI [of _ w1]) simp
  qed (use Cons.prems p in auto)
qed simp

end
