(* ===== verification/Config_Properties.thy ===== *)
theory Config_Properties
  imports Boot
begin

text \<open>
  The properties of the configuration, the plugin registry and the start of the modules, with
  their witnesses.
\<close>

section \<open>Overriding by the environment\<close>

text \<open>
  A placeholder is replaced. A string \<open>${NAME:default}\<close> whose name has no colon and ends
  with an upper case letter becomes the parsed value of the variable \<open>NAME\<close>, or of the default
  when the variable is not set or empty.
\<close>

theorem env_placeholder:
  assumes "is_upper (last name)" and "name \<noteq> []" and "CHR '':'' \<notin> set name" and "CHR 0x0A \<notin> set d"
  shows "overrideString pf env (''${'' @ name @ '':'' @ d @ ''}'')
    = parseVal pf (if env name \<noteq> [] then env name else d)"
  using assms by (rule overrideString_placeholder)

theorem env_placeholder_witness:
  "overrideString (\<lambda>_. None :: unit option) (\<lambda>n. if n = ''OAP_PORT'' then ''11800'' else []) ''${OAP_PORT:9090}'' = Ok (VInt 11800)"
proof -
  have "overrideString (\<lambda>_. None :: unit option) (\<lambda>n. if n = ''OAP_PORT'' then ''11800'' else []) ''${OAP_PORT:9090}''
      = parseVal (\<lambda>_. None) ''11800''"
    using env_placeholder [of "''OAP_PORT''" "''9090''" "\<lambda>_. None :: unit option" "\<lambda>n. if n = ''OAP_PORT'' then ''11800'' else []"]
    by (simp add: is_upper_def)
  also have "\<dots> = Ok (VInt 11800)" by code_simp
  finally show ?thesis .
qed

text \<open>
  A configuration without placeholders is unchanged: when no string of it matches the regular
  expression, its maps have string keys and its slices hold only strings and maps, the override
  returns it as it is, whatever the environment.
\<close>

theorem env_plain_unchanged:
  assumes "list_all (\<lambda>e. plain (snd e)) cfg"
  shows "overrideMapStringInterface pf env cfg = Ok cfg"
  unfolding overrideMapStringInterface_def
  by (rule traverse_same) (use assms in \<open>auto simp: list_all_iff override_plain\<close>)

definition small_cfg :: "(string \<times> unit cfg_value) list" where
  "small_cfg = [(''level'', VString ''info''), (''sizes'', VMapString [(''segment'', VInt 16)]),
     (''pipes'', VSlice [VString ''logs'', VMapString [(''fast'', VBool True)]])]"

theorem env_plain_unchanged_witness: "overrideMapStringInterface (\<lambda>_. None) (\<lambda>_. ''x'') small_cfg = Ok small_cfg"
  by (rule env_plain_unchanged) (simp add: small_cfg_def)

lemma traverse_length: "traverse f xs = Ok ys \<Longrightarrow> length ys = length xs"
  by (induction xs arbitrary: ys) (auto simp: out_bind_eq_Ok)

text \<open>
  Slices lose values. The override keeps of a slice only the strings and the maps: numbers,
  booleans and nested slices are dropped, so that the result has as many elements as the slice
  has strings and maps.
\<close>

theorem env_slice_drops:
  assumes "override_value pf env (VSlice vs) = Ok v"
  shows "\<exists>ws. v = VSlice ws \<and> length ws = length (filter kept_in_slice vs)"
  using assms by (auto simp: out_bind_eq_Ok dest: traverse_length)

theorem env_slice_drops_witness:
  "override_value (\<lambda>_. None :: unit option) (\<lambda>_. []) (VSlice [VInt 1, VBool True, VSlice [VString ''a'']]) = Ok (VSlice [])"
proof -
  obtain v where v: "override_value (\<lambda>_. None :: unit option) (\<lambda>_. []) (VSlice [VInt 1, VBool True, VSlice [VString ''a'']]) = Ok v"
    by simp
  from env_slice_drops [OF v] v show ?thesis by simp
qed

text \<open>
  The override can crash on its input: a string in which the first colon is its second
  character and that matches, such as \<open>A:}\<close>, and a placeholder whose value is a single quotation
  mark, which no number parser accepts, lead to a slice expression out of range.
\<close>

theorem env_override_panics:
  assumes "pf quote = None"
  shows "overrideString pf env ''A:}'' = Panic \<and> overrideString pf (\<lambda>_. []) (''${A:'' @ quote @ ''}'') = Panic"
proof -
  have "overrideString pf env ''A:}'' = Panic"
    by (simp add: overrideString_def is_upper_def substring_def)
  moreover have "ParseInt quote = Err (Errorf ''invalid syntax'')" by code_simp
  then have "parseVal pf quote = Panic"
    using assms by (simp add: parseVal_def EqualFold_def HasPrefix_def HasSuffix_def quote_def substring_def is_upper_def)
  ultimately show ?thesis
    using overrideString_placeholder [of "''A''" quote pf "\<lambda>_. []"] by (simp add: quote_def is_upper_def)
qed

theorem env_override_panics_witness:
  "overrideString (\<lambda>_. None :: unit option) (\<lambda>_. []) ''A:}'' = Panic \<and>
   overrideString (\<lambda>_. None :: unit option) (\<lambda>_. []) (''${A:'' @ quote @ ''}'') = Panic"
  by (rule env_override_panics) simp

section \<open>Plugins\<close>

text \<open>
  A plugin knows its pipe. For every plugin of the catalogue, the configuration that the
  loader has passed the common fields into creates, through the registry, the plugin of that name
  with the pipe's name, whatever the configuration had under that key before.
\<close>

theorem plugin_pipe_name:
  assumes "map_of pc ''plugin_name'' = Some (VString n)" and "n \<in> set (catalogue c)"
    and "fill (mk_plugin c n) (propagateCommonFields cf pc) = Ok (settings, name)"
  shows "plugin_Get fill (RegisterPlugins Reg) c (propagateCommonFields cf pc)
    = Ok \<lparr>pl_type = mk_plugin c n, pl_settings = settings, pl_PipeName = cf_PipeName cf\<rparr>"
proof (rule plugin_Get_propagated [where n = n and pc = pc])
  show "reg_find (RegisterPlugins Reg) c n = Some (mk_plugin c n)" using assms(2) by (simp add: RegisterPlugins_find)
  show "pt_has_common (mk_plugin c n)" by (simp add: mk_plugin_def)
qed (fact assms)+

theorem plugin_pipe_name_witness:
  "plugin_Get (\<lambda>_ _. Ok ((), [])) (RegisterPlugins []) Queue
     (propagateCommonFields \<lparr>cf_PipeName = ''logpipe''\<rparr> [(''plugin_name'', VString ''mmap-queue'' :: unit cfg_value)])
   = Ok \<lparr>pl_type = mk_plugin Queue ''mmap-queue'', pl_settings = (), pl_PipeName = ''logpipe''\<rparr>"
  using plugin_pipe_name [of "[(''plugin_name'', VString ''mmap-queue'' :: unit cfg_value)]" "''mmap-queue''" Queue
      "\<lambda>_ _. Ok ((), [])" "\<lparr>cf_PipeName = ''logpipe''\<rparr>" "()" "[]" "[]"]
  by (simp add: queues_def)

text \<open>
  No fetcher gatherer can be created: the satellite registers no fetcher plugin, so
  \<open>newFetcherGatherer\<close> never returns a module, whatever the configuration.
\<close>

theorem fetcher_gatherer_never:
  "\<forall>m. newFetcherGatherer fill (RegisterPlugins Reg) cfg \<noteq> Ok m"
proof -
  have "GetFetcher fill (RegisterPlugins Reg) c \<noteq> Ok p" for c p
  proof (cases "nameFinder c")
    case (Ok n)
    then show ?thesis using plugin_Get_uncatalogued [of c n Fetcher fill Reg] by (simp add: GetFetcher_def)
  qed (simp_all add: GetFetcher_def plugin_Get_def)
  then show ?thesis by (auto simp: newFetcherGatherer_def out_bind_eq_Ok)
qed

section \<open>Starting the modules\<close>

text \<open>
  C26. Preparing is all or nothing. \<open>prepareModules\<close> succeeds exactly when every module of every
  pipe, in order, prepares without an error. When one fails, its error is returned, no later
  module was prepared, and every module up to and including the failed one is shut down once, in
  the order of preparation.
\<close>

theorem prepare_modules_rollback:
  "(prepareModules ops container w = (Ok (), w') \<longleftrightarrow> prepare_each ops (concat (map snd container)) w = (Ok (), w')) \<and>
   (prepareModules ops container w = (Err e, w') \<longrightarrow>
     (\<exists>pre m post w1 w2. concat (map snd container) = pre @ m # post \<and> prepare_each ops pre w = (Ok (), w1) \<and>
        mo_Prepare ops m w1 = (Err e, w2) \<and> w' = shutdown_all ops (pre @ [m]) w2))"
  using prepare_loop_Ok [of ops "[]" "concat (map snd container)" w w']
    prepare_loop_Err [of ops "[]" "concat (map snd container)" w e w']
  by (simp add: prepareModules_def)

definition log_module_ops :: "(int, string list) module_ops" where
  "log_module_ops = \<lparr>mo_Prepare = (\<lambda>m w. (if m = 3 then Err EOF else Ok (), w @ [''prepare '' @ FormatInt m])),
     mo_Shutdown = (\<lambda>m w. w @ [''shutdown '' @ FormatInt m])\<rparr>"

theorem prepare_modules_rollback_witness:
  "\<exists>w'. prepareModules log_module_ops [(''a'', [1, 2]), (''b'', [3, 4])] [] = (Err EOF, w') \<and>
     (\<exists>pre m post w1 w2. concat (map snd [(''a'', [1, 2]), (''b'', [3, 4])]) = pre @ m # post \<and>
        prepare_each log_module_ops pre [] = (Ok (), w1) \<and>
        mo_Prepare log_module_ops m w1 = (Err EOF, w2) \<and> w' = shutdown_all log_module_ops (pre @ [m]) w2)"
proof -
  have "fst (prepareModules log_module_ops [(''a'', [1, 2]), (''b'', [3, 4])] []) = Err EOF" by code_simp
  then obtain w' where p: "prepareModules log_module_ops [(''a'', [1, 2]), (''b'', [3, 4])] [] = (Err EOF, w')"
    by (metis prod.collapse)
  with prepare_modules_rollback [of log_module_ops "[(''a'', [1, 2]), (''b'', [3, 4])]" "[]" w' EOF] show ?thesis by blast
qed

lemma init_pipes_last:
  assumes "init_pipes fill Reg Manager pipes container = Ok c"
  shows "case find (\<lambda>p. cf_PipeName (PipeCommonConfig p) = n) (rev pipes) of
     None \<Rightarrow> map_of c n = map_of container n
   | Some p \<Rightarrow> (\<exists>g s r ms. GathererOf p = Some g \<and> SenderOf p = Some s \<and> ProcessorOf p = Some r \<and>
        init_pipe fill Reg Manager g s r = Ok ms \<and> map_of c n = Some ms)"
  using assms
proof (induction pipes arbitrary: container)
  case (Cons p pipes)
  let ?n = "cf_PipeName (PipeCommonConfig p)"
  from Cons.prems obtain g s r ms where f: "GathererOf p = Some g" "SenderOf p = Some s" "ProcessorOf p = Some r"
    and i: "init_pipe fill Reg Manager g s r = Ok ms"
    and rest: "init_pipes fill Reg Manager pipes (AList.update ?n ms container) = Ok c"
    by (auto simp: out_bind_eq_Ok split: option.splits)
  have app: "find P (xs @ [y]) = (case find P xs of Some z \<Rightarrow> Some z | None \<Rightarrow> if P y then Some y else None)" for P xs y
    by (induction xs) auto
  from Cons.IH [OF rest] f i show ?case
    by (auto simp: app update_conv split: option.splits)
qed simp

text \<open>
  One pipe per name. \<open>initModules\<close> keeps the modules under the name of the pipe: when two
  pipes have the same name, the modules of the first are replaced by those of the last and never
  prepared or booted.
\<close>

theorem init_modules_last_pipe:
  assumes "initModules fill Reg Manager pipes = Ok container"
    and "find (\<lambda>p. cf_PipeName (PipeCommonConfig p) = n) (rev pipes) = Some pipe"
  shows "\<exists>g s p ms. GathererOf pipe = Some g \<and> SenderOf pipe = Some s \<and> ProcessorOf pipe = Some p \<and>
    init_pipe fill Reg Manager g s p = Ok ms \<and> map_of container n = Some ms"
  using init_pipes_last [of fill Reg Manager pipes "[]" container n] assms
  by (simp add: initModules_def split: if_splits)

definition demo_pipe :: "string \<Rightarrow> string \<Rightarrow> unit PipeConfig" where
  "demo_pipe n rcv = \<lparr>PipeCommonConfig = \<lparr>cf_PipeName = n\<rparr>,
     GathererOf = Some \<lparr>g_CommonFields = None, QueueConfig = Some [], ReceiverConfig = Some [(''plugin_name'', VString rcv)],
       ServerName = ''grpc-server'', FetcherConfig = None\<rparr>,
     ProcessorOf = Some \<lparr>p_CommonFields = None, FilterConfig = []\<rparr>,
     SenderOf = Some \<lparr>s_CommonFields = None, ForwardersConfig = [],
       FallbackerConfig = Some [(''plugin_name'', VString ''none-fallbacker'')], ClientName = ''grpc-client''\<rparr>\<rparr>"

definition demo_manager :: "unit shared" where
  "demo_manager = [(''grpc-server'', \<lparr>pl_type = mk_plugin Server ''grpc-server'', pl_settings = (), pl_PipeName = []\<rparr>),
     (''grpc-client'', \<lparr>pl_type = mk_plugin Client ''grpc-client'', pl_settings = (), pl_PipeName = []\<rparr>)]"

definition demo_container :: "unit ModuleContainer outcome" where
  "demo_container = initModules (\<lambda>_ _. Ok ((), [])) (RegisterPlugins []) demo_manager
     [demo_pipe ''p'' ''grpc-native-log-receiver'', demo_pipe ''p'' ''grpc-native-jvm-receiver'']"

lemma jvm_receiver:
  "GetReceiver (\<lambda>_ _. Ok ((), [])) (RegisterPlugins []) [(''plugin_name'', VString ''grpc-native-jvm-receiver'' :: unit cfg_value)]
     = Ok \<lparr>pl_type = mk_plugin Receiver ''grpc-native-jvm-receiver'', pl_settings = (), pl_PipeName = []\<rparr>"
proof -
  have "reg_find (RegisterPlugins []) Receiver ''grpc-native-jvm-receiver'' = Some (mk_plugin Receiver ''grpc-native-jvm-receiver'')"
    by (simp add: RegisterPlugins_find receiver_names_def)
  then show ?thesis
    by (auto simp: GetReceiver_def plugin_Get_def nameFinder_def reg_find_def Initializing_def common_key_def
        bind_eq_Some_conv mk_plugin_def)
qed

theorem init_modules_last_pipe_witness:
  "\<exists>container ms. demo_container = Ok container \<and> map_of container ''p'' = Some ms \<and>
     map (\<lambda>m. pt_Name (pl_type (source_plugin m))) (take 1 ms) = [''grpc-native-jvm-receiver'']"
proof -
  have ok: "is_Ok demo_container" by code_simp
  then obtain container where c: "demo_container = Ok container" by (auto simp: is_Ok_iff)
  have "find (\<lambda>p. cf_PipeName (PipeCommonConfig p) = ''p'')
      (rev [demo_pipe ''p'' ''grpc-native-log-receiver'', demo_pipe ''p'' ''grpc-native-jvm-receiver''])
      = Some (demo_pipe ''p'' ''grpc-native-jvm-receiver'')"
    by (simp add: demo_pipe_def)
  from init_modules_last_pipe [OF c [unfolded demo_container_def] this] obtain g s p ms where
    f: "GathererOf (demo_pipe ''p'' ''grpc-native-jvm-receiver'') = Some g"
    and i: "init_pipe (\<lambda>_ _. Ok ((), [])) (RegisterPlugins []) demo_manager g s p = Ok ms" and m: "map_of container ''p'' = Some ms"
    by blast
  from f have g: "g = the (GathererOf (demo_pipe ''p'' ''grpc-native-jvm-receiver''))" by simp
  have "ReceiverConfig g = Some [(''plugin_name'', VString ''grpc-native-jvm-receiver'')]" by (simp add: g demo_pipe_def)
  with i obtain q s1 s2 p2 r where ms: "ms = [ReceiverGathererModule q r s1, s2, p2]"
    and r: "GetReceiver (\<lambda>_ _. Ok ((), [])) (RegisterPlugins []) [(''plugin_name'', VString ''grpc-native-jvm-receiver'' :: unit cfg_value)] = Ok r"
    by (auto simp: init_pipe_eq NewGatherer_def newReceiverGatherer_def cfg_of_def out_bind_eq_Ok)
  have "r = \<lparr>pl_type = mk_plugin Receiver ''grpc-native-jvm-receiver'', pl_settings = (), pl_PipeName = []\<rparr>"
    using r jvm_receiver by simp
  then have "map (\<lambda>m. pt_Name (pl_type (source_plugin m))) (take 1 ms) = [''grpc-native-jvm-receiver'']"
    by (simp add: ms mk_plugin_def)
  with c m show ?thesis by (intro exI conjI)
qed

end
