(* ===== verification/Logger.thy ===== *)
theory Logger
  imports Go_Strings
begin

text \<open>
  \<open>internal/pkg/log/log.go\<close>: the global logger. logrus is a parameter: its levels with their names,
  and what it hands to the formatter, an entry. The text of a time under a layout and the text that
  \<open>fmt.Sprint\<close> makes of a value that is no string are arguments too.
\<close>

section \<open>Text\<close>

text \<open>\<open>strings.Contains\<close> and \<open>strings.Replace\<close> with the count 1, for a text that is not empty.\<close>

fun Contains :: "string \<Rightarrow> string \<Rightarrow> bool" where
  "Contains [] sub = (sub = [])"
| "Contains (c # s) sub = (HasPrefix (c # s) sub \<or> Contains s sub)"

fun ReplaceOnce :: "string \<Rightarrow> string \<Rightarrow> string \<Rightarrow> string" where
  "ReplaceOnce [] old new = []"
| "ReplaceOnce (c # s) old new =
     (if HasPrefix (c # s) old then new @ drop (length old) (c # s) else c # ReplaceOnce s old new)"

section \<open>Configuration\<close>

record LoggerConfig =
  lc_LogPattern :: string
  lc_TimePattern :: string
  lc_Level :: string

definition defaultLogPattern :: string where
  "defaultLogPattern = ''%time [%level][%field] - %msg''"

definition defaultTimePattern :: string where
  "defaultTimePattern = ''2006-01-02 15:04:05.000''"

record 'l logrus_lib =
  ParseLevel :: "string \<Rightarrow> 'l option"
  LevelString :: "'l \<Rightarrow> string"
  InfoLevel :: 'l

record formatter =
  logPattern :: string
  timePattern :: string

record 'l logger =
  lg_Level :: 'l
  lg_Formatter :: formatter

type_synonym 'l ConfigOption = "'l logger \<Rightarrow> 'l logger"
type_synonym FormatOption = "formatter \<Rightarrow> formatter"

definition SetLogPattern :: "string \<Rightarrow> FormatOption" where
  "SetLogPattern p f = f\<lparr>logPattern := p\<rparr>"

definition SetTimePattern :: "string \<Rightarrow> FormatOption" where
  "SetTimePattern p f = f\<lparr>timePattern := p\<rparr>"

definition SetLevel :: "'l logrus_lib \<Rightarrow> string \<Rightarrow> 'l ConfigOption" where
  "SetLevel lib levelStr logger =
     logger\<lparr>lg_Level := (case ParseLevel lib levelStr of None \<Rightarrow> InfoLevel lib | Some level \<Rightarrow> level)\<rparr>"

text \<open>A new logger of logrus has the level info; its formatter is replaced at the end.\<close>

definition initBySettings :: "'l logrus_lib \<Rightarrow> 'l ConfigOption list \<Rightarrow> FormatOption list \<Rightarrow> 'l logger" where
  "initBySettings lib configOpts formatOpts =
     (let f = fold (\<lambda>opt f. opt f) formatOpts \<lparr>logPattern = [], timePattern = []\<rparr>;
          f1 = (if Contains (logPattern f) [CHR 0x0A] then f else f\<lparr>logPattern := logPattern f @ [CHR 0x0A]\<rparr>)
      in (fold (\<lambda>opt l. opt l) configOpts \<lparr>lg_Level = InfoLevel lib, lg_Formatter = f\<rparr>)\<lparr>lg_Formatter := f1\<rparr>)"

text \<open>\<open>once.Do\<close>: the logger of the first call stays.\<close>

definition log_Init :: "'l logrus_lib \<Rightarrow> LoggerConfig \<Rightarrow> 'l logger option \<Rightarrow> 'l logger option" where
  "log_Init lib cfg Logger =
     (case Logger of
        Some l \<Rightarrow> Some l
      | None \<Rightarrow>
          (let configOpts = [SetLevel lib (if lc_Level cfg \<noteq> [] then lc_Level cfg else LevelString lib (InfoLevel lib))];
               formatOpts = [SetTimePattern (if lc_TimePattern cfg \<noteq> [] then lc_TimePattern cfg else defaultTimePattern),
                             SetLogPattern (if lc_LogPattern cfg \<noteq> [] then lc_LogPattern cfg else defaultLogPattern)]
           in Some (initBySettings lib configOpts formatOpts)))"

section \<open>Format\<close>

datatype 'v field = FieldString string | FieldOther 'v

text \<open>\<open>Data\<close> is a map; its order here is the order of the iteration.\<close>

record ('l, 't, 'v) entry =
  e_Time :: 't
  e_Level :: 'l
  e_Data :: "(string \<times> 'v field) list"
  e_Message :: string

definition field_text :: "('v \<Rightarrow> string) \<Rightarrow> string \<times> 'v field \<Rightarrow> string" where
  "field_text sprint kv = fst kv @ ''='' @ (case snd kv of FieldString s \<Rightarrow> s | FieldOther v \<Rightarrow> sprint v)"

definition buildFields :: "('v \<Rightarrow> string) \<Rightarrow> ('l, 't, 'v) entry \<Rightarrow> string" where
  "buildFields sprint entry = Join (CHR '','') (map (field_text sprint) (e_Data entry))"

definition log_Format :: "'l logrus_lib \<Rightarrow> ('t \<Rightarrow> string \<Rightarrow> string) \<Rightarrow> ('v \<Rightarrow> string) \<Rightarrow> formatter \<Rightarrow> ('l, 't, 'v) entry \<Rightarrow> string" where
  "log_Format lib time_Format sprint f entry =
     (let output = logPattern f;
          output = ReplaceOnce output ''%time'' (time_Format (e_Time entry) (timePattern f));
          output = ReplaceOnce output ''%level'' (LevelString lib (e_Level entry));
          output = ReplaceOnce output ''%field'' (buildFields sprint entry);
          output = ReplaceOnce output ''%msg'' (e_Message entry)
      in output)"

section \<open>What is written\<close>

text \<open>The first percent sign decides where a placeholder is found.\<close>

lemma ReplaceOnce_at: "CHR ''%'' \<notin> set pre \<Longrightarrow> ReplaceOnce (pre @ (CHR ''%'' # old) @ post) (CHR ''%'' # old) new = pre @ new @ post"
  by (induction pre) (auto simp: HasPrefix_def)

declare ReplaceOnce.simps [simp del]

lemma Contains_char: "Contains s [c] = (c \<in> set s)"
  by (induction s) (auto simp: HasPrefix_def)

lemma log_Init_fields:
  assumes "log_Init lib cfg None = Some l"
  shows "lg_Level l = (case ParseLevel lib (if lc_Level cfg \<noteq> [] then lc_Level cfg else LevelString lib (InfoLevel lib)) of
      None \<Rightarrow> InfoLevel lib | Some level \<Rightarrow> level)"
    and "timePattern (lg_Formatter l) = (if lc_TimePattern cfg \<noteq> [] then lc_TimePattern cfg else defaultTimePattern)"
    and "logPattern (lg_Formatter l) =
      (let p = (if lc_LogPattern cfg \<noteq> [] then lc_LogPattern cfg else defaultLogPattern)
       in if CHR 0x0A \<in> set p then p else p @ [CHR 0x0A])"
  using assms
  by (auto simp: log_Init_def initBySettings_def SetLevel_def SetTimePattern_def SetLogPattern_def Contains_char Let_def)

text \<open>
  C29. With the default pattern a line of the log holds the time, the level, the fields and the
  message in their places and ends with a newline, provided that the texts of the time, the level
  and the fields hold no percent sign; the message may hold any text.
\<close>

theorem log_line:
  assumes "log_Init lib cfg None = Some l" and "lc_LogPattern cfg = [] \<or> lc_LogPattern cfg = defaultLogPattern"
    and "CHR ''%'' \<notin> set (time_Format (e_Time e) (timePattern (lg_Formatter l)))" and "CHR ''%'' \<notin> set (LevelString lib (e_Level e))"
    and "CHR ''%'' \<notin> set (buildFields sprint e)"
  shows "log_Format lib time_Format sprint (lg_Formatter l) e =
    time_Format (e_Time e) (timePattern (lg_Formatter l)) @ '' ['' @ LevelString lib (e_Level e) @ '']['' @ buildFields sprint e @
      ''] - '' @ e_Message e @ [CHR 0x0A]"
proof -
  let ?t = "time_Format (e_Time e) (timePattern (lg_Formatter l))" and ?l = "LevelString lib (e_Level e)" and ?f = "buildFields sprint e"
  have p: "logPattern (lg_Formatter l) = [] @ ''%time'' @ '' [%level][%field] - %msg'' @ [CHR 0x0A]"
    using log_Init_fields(3) [OF assms(1)] assms(2) by (auto simp: defaultLogPattern_def)
  have "ReplaceOnce (logPattern (lg_Formatter l)) ''%time'' ?t = (?t @ '' ['') @ ''%level'' @ ''][%field] - %msg'' @ [CHR 0x0A]"
    using ReplaceOnce_at [of "[]" "''time''" "'' [%level][%field] - %msg'' @ [CHR 0x0A]" ?t] unfolding p by simp
  moreover have "ReplaceOnce \<dots> ''%level'' ?l = (?t @ '' ['' @ ?l @ '']['') @ ''%field'' @ ''] - %msg'' @ [CHR 0x0A]"
    using ReplaceOnce_at [of "?t @ '' [''" "''level''" "''][%field] - %msg'' @ [CHR 0x0A]" ?l] assms(3) by simp
  moreover have "ReplaceOnce \<dots> ''%field'' ?f = (?t @ '' ['' @ ?l @ '']['' @ ?f @ ''] - '') @ ''%msg'' @ [CHR 0x0A]"
    using ReplaceOnce_at [of "?t @ '' ['' @ ?l @ ''][''" "''field''" "''] - %msg'' @ [CHR 0x0A]" ?f] assms(3,4) by simp
  moreover have "ReplaceOnce \<dots> ''%msg'' (e_Message e) = ?t @ '' ['' @ ?l @ '']['' @ ?f @ ''] - '' @ e_Message e @ [CHR 0x0A]"
    using ReplaceOnce_at [of "?t @ '' ['' @ ?l @ '']['' @ ?f @ ''] - ''" "''msg''" "[CHR 0x0A]" "e_Message e"] assms(3-5) by simp
  ultimately show ?thesis by (simp add: log_Format_def Let_def)
qed

text \<open>Three levels, times that are given as text, numbers for the values that are no strings.\<close>

definition three_levels :: "nat logrus_lib" where
  "three_levels = \<lparr>ParseLevel = (\<lambda>s. if s = ''error'' then Some 0 else if s = ''info'' then Some 1 else if s = ''debug'' then Some 2 else None),
     LevelString = (\<lambda>l. if l = 0 then ''error'' else if l = 1 then ''info'' else ''debug''), InfoLevel = 1\<rparr>"

definition blank_config :: LoggerConfig where
  "blank_config = \<lparr>lc_LogPattern = [], lc_TimePattern = [], lc_Level = ''verbose''\<rparr>"

definition closing_entry :: "string \<Rightarrow> (nat, string, nat) entry" where
  "closing_entry v = \<lparr>e_Time = ''12:00'', e_Level = 1, e_Data = [(''pipe'', FieldString v), (''size'', FieldOther 3)], e_Message = ''closing 100%''\<rparr>"

theorem log_line_witness:
  "\<exists>l. log_Init three_levels blank_config None = Some l \<and> lg_Level l = 1 \<and>
    log_Format three_levels (\<lambda>t p. t) (\<lambda>n. ''3'') (lg_Formatter l) (closing_entry ''logpipe'')
      = ''12:00 [info][pipe=logpipe,size=3] - closing 100%'' @ [CHR 0x0A]"
proof -
  obtain l where l: "log_Init three_levels blank_config None = Some l" by (simp add: log_Init_def Let_def)
  have "lg_Level l = 1" using log_Init_fields(1) [OF l] by (simp add: three_levels_def blank_config_def)
  with log_line [OF l, of "\<lambda>t p. t" "closing_entry ''logpipe''" "\<lambda>n. ''3''"] l show ?thesis
    by (simp add: three_levels_def blank_config_def closing_entry_def buildFields_def field_text_def)
qed

text \<open>
  A field whose value holds a placeholder takes the text that was meant for the pattern: the message
  goes into the field and its own place shows the placeholder.
\<close>

lemma log_field_takes_message:
  "log_Format three_levels (\<lambda>t p. t) (\<lambda>n. ''3'') (lg_Formatter (the (log_Init three_levels blank_config None))) (closing_entry ''%msg'')
     = ''12:00 [info][pipe=closing 100%,size=3] - %msg'' @ [CHR 0x0A]"
  by code_simp

end
