(* ===== verification/Startup.thy ===== *)
theory Startup
  imports Config_Properties Telemetry Logger
begin

text \<open>
  From the command to the running modules: \<open>Load\<close> of \<open>internal/satellite/config/loader.go\<close>, the rest
  of \<open>internal/satellite/boot/boot.go\<close>, and that what is started is well typed. The YAML reader and
  the decoding into the configuration struct are viper, a parameter; so are the files and the
  environment.
\<close>

section \<open>loader.go\<close>

record 'f SatelliteConfig =
  cfg_Logger :: LoggerConfig
  cfg_Pipes :: "'f PipeConfig list"
  cfg_Sharing :: "'f SharingConfig"
  cfg_Telemetry :: tel_config

definition NewDefaultSatelliteConfig :: "'f SatelliteConfig" where
  "NewDefaultSatelliteConfig =
     \<lparr>cfg_Logger = \<lparr>lc_LogPattern = ''%time [%level][%field] - %msg'', lc_TimePattern = ''2006-01-02 15:04:05.000'', lc_Level = ''info''\<rparr>,
      cfg_Pipes = [],
      cfg_Sharing = \<lparr>Clients = [], Servers = [], SharingCommonConfig = \<lparr>cf_PipeName = ''sharing''\<rparr>\<rparr>,
      cfg_Telemetry = \<lparr>tc_Cluster = ''default_cluster'', tc_Service = ''default_service'', tc_Instance = ''default_instance'',
        ExportType = [], tc_MetricPrefix = [], ClientName = []\<rparr>\<rparr>"

text \<open>
  \<open>ReadConfig\<close> gives the settings of a text, \<open>Unmarshal\<close> fills a configuration from the values that
  viper holds.
\<close>

record 'f loader_env =
  filepath_Abs :: "string \<Rightarrow> string outcome"
  os_ReadFile :: "string \<Rightarrow> string outcome"
  viper_ReadConfig :: "string \<Rightarrow> (string \<times> 'f cfg_value) list outcome"
  viper_Unmarshal :: "(string \<rightharpoonup> 'f cfg_value) \<Rightarrow> 'f SatelliteConfig \<Rightarrow> 'f SatelliteConfig outcome"
  le_ParseFloat :: "string \<Rightarrow> 'f option"
  os_Getenv :: "string \<Rightarrow> string"

definition load :: "'f loader_env \<Rightarrow> string \<Rightarrow> 'f SatelliteConfig outcome" where
  "load env configPath =
     out_bind (filepath_Abs env configPath) (\<lambda>absolutePath.
     out_bind (os_ReadFile env absolutePath) (\<lambda>content.
     out_bind (viper_ReadConfig env content) (\<lambda>settings.
     out_bind (overrideConfigByEnv (le_ParseFloat env) (os_Getenv env) settings (map_of settings)) (\<lambda>v.
     out_bind (viper_Unmarshal env v NewDefaultSatelliteConfig) (\<lambda>cfg.
     out_bind (propagateCommonFieldsInPipes (cfg_Pipes cfg)) (\<lambda>pipes.
       Ok (cfg\<lparr>cfg_Sharing := propagateCommonFieldsInSharing (cfg_Sharing cfg), cfg_Pipes := pipes\<rparr>)))))))"

text \<open>An error is a panic.\<close>

definition Load :: "'f loader_env \<Rightarrow> string \<Rightarrow> 'f SatelliteConfig outcome" where
  "Load env configPath = (case load env configPath of Err e \<Rightarrow> Panic | r \<Rightarrow> r)"

section \<open>boot.go\<close>

text \<open>
  \<open>bootModules\<close> runs \<open>Boot\<close> of every module in a goroutine of its own and waits for all of them. A
  turn of a goroutine answers whether \<open>Boot\<close> has returned; a turn that is not possible changes
  nothing. The sequence of turns is arbitrary.
\<close>

record ('m, 'w) boot_ops = "('m, 'w) module_ops" +
  mo_Turn :: "'m \<Rightarrow> ('w, bool) go"

fun boot_turns :: "('m, 'w) boot_ops \<Rightarrow> ('m \<times> bool) list \<Rightarrow> nat list \<Rightarrow> ('w, unit) go" where
  "boot_turns ops ms turns w =
     (if list_all snd ms then (Ok (), w)
      else case turns of
        [] \<Rightarrow> (Hang, w)
      | i # turns \<Rightarrow>
          if i < length ms \<and> \<not> snd (ms ! i)
          then (case mo_Turn ops (fst (ms ! i)) w of
                  (Ok b, w') \<Rightarrow> boot_turns ops (ms[i := (fst (ms ! i), b)]) turns w'
                | (Panic, w') \<Rightarrow> (Panic, w')
                | (_, _) \<Rightarrow> boot_turns ops ms turns w)
          else boot_turns ops ms turns w)"

declare boot_turns.simps [simp del]

definition bootModules :: "('m, 'w) boot_ops \<Rightarrow> nat list \<Rightarrow> (string \<times> 'm list) list \<Rightarrow> ('w, unit) go" where
  "bootModules ops turns container = boot_turns ops (map (\<lambda>m. (m, False)) (concat (map snd container))) turns"

text \<open>The plugins and modules use the telemetry, which is part of what they change.\<close>

definition Start :: "('f, 's) filler \<Rightarrow> 'l logrus_lib \<Rightarrow> (go_error option \<Rightarrow> go_error \<Rightarrow> go_error) \<Rightarrow> category registry \<Rightarrow>
    ((category, 's) plugin, ('x, 'w, 'v) tel_globals \<times> 'w) sharing_ops \<Rightarrow> ('s module, ('x, 'w, 'v) tel_globals \<times> 'w) boot_ops \<Rightarrow>
    nat list \<Rightarrow> 'f SatelliteConfig \<Rightarrow> ('l logger option \<times> ('x, 'w, 'v) tel_globals \<times> 'w, unit) go" where
  "Start fill lib Append Reg sops mops turns cfg st =
     (case st of (Logger, gw) \<Rightarrow>
        (case go_bind (tel_Init Append (cfg_Telemetry cfg)) (\<lambda>_.
                Start_from fill (RegisterPlugins Reg) sops (module_ops.truncate mops) tel_AfterShardingStart
                  (bootModules mops turns) (cfg_Sharing cfg) (cfg_Pipes cfg)) gw of
           (r, gw1) \<Rightarrow> (r, log_Init lib (cfg_Logger cfg) Logger, gw1)))"

section \<open>Waiting for the modules\<close>

text \<open>A module whose \<open>Boot\<close> never returns keeps the satellite running, whatever the others do.\<close>

lemma not_all_ended: "(m, False) \<in> set ms \<Longrightarrow> \<not> list_all snd ms"
  by (force simp: list_all_iff)

lemma boot_turns_waits:
  assumes "\<forall>w w'. mo_Turn ops m w \<noteq> (Ok True, w')"
  shows "(m, False) \<in> set ms \<Longrightarrow> boot_turns ops ms turns w \<noteq> (Ok u, w')"
proof (induction turns arbitrary: ms w)
  case Nil
  then show ?case by (simp add: boot_turns.simps not_all_ended)
next
  case (Cons i turns ms w)
  have ex: "\<not> list_all snd ms" using Cons.prems by (rule not_all_ended)
  show ?case
  proof (cases "i < length ms \<and> \<not> snd (ms ! i)")
    case False
    with ex Cons.IH [OF Cons.prems] show ?thesis by (subst boot_turns.simps) auto
  next
    case True
    obtain r w1 where t: "mo_Turn ops (fst (ms ! i)) w = (r, w1)" by fastforce
    have keep: "(m, False) \<in> set (ms[i := (fst (ms ! i), b)])" if "r = Ok b" for b
    proof (cases "fst (ms ! i) = m")
      case True
      then have "b = False" using that t assms by auto
      with True \<open>i < length ms \<and> \<not> snd (ms ! i)\<close> show ?thesis by (metis set_update_memI)
    next
      case False
      obtain j where "j < length ms" "ms ! j = (m, False)" using Cons.prems by (metis in_set_conv_nth)
      with False have "j \<noteq> i" by auto
      with \<open>j < length ms\<close> \<open>ms ! j = (m, False)\<close> show ?thesis by (metis length_list_update nth_list_update_neq nth_mem)
    qed
    from t ex True Cons.IH [OF keep] Cons.IH [OF Cons.prems] show ?thesis
      by (subst boot_turns.simps) (cases r; auto)
  qed
qed

section \<open>Typing\<close>

text \<open>A plugin that the registry returns is one of the catalogue, of the asked category.\<close>

definition plugin_typed :: "category \<Rightarrow> (category, 's) plugin \<Rightarrow> bool" where
  "plugin_typed c p \<longleftrightarrow> (\<exists>n \<in> set (catalogue c). pl_type p = mk_plugin c n)"

lemma plugin_Get_typed: "plugin_Get fill (RegisterPlugins Reg) c cfg = Ok p \<Longrightarrow> plugin_typed c p"
proof -
  assume get: "plugin_Get fill (RegisterPlugins Reg) c cfg = Ok p"
  then obtain n t where "nameFinder cfg = Ok n" "reg_find (RegisterPlugins Reg) c n = Some t" and i: "Initializing fill t cfg = Ok p"
    by (auto simp: plugin_Get_def out_bind_eq_Ok reg_find_def bind_eq_Some_conv split: option.splits)
  then have "n \<in> set (catalogue c)" and "t = mk_plugin c n" by (auto simp: RegisterPlugins_find split: if_splits)
  moreover have "pl_type p = t"
    using i by (auto simp: Initializing_def split: outcome.splits if_splits option.splits cfg_value.splits)
  ultimately show ?thesis by (auto simp: plugin_typed_def)
qed

lemmas get_defs = GetClient_def GetServer_def GetReceiver_def GetFetcher_def GetForwarder_def GetFallbacker_def GetFilter_def

text \<open>A shared plugin is a client or a server under its own name.\<close>

definition manager_typed :: "'s shared \<Rightarrow> bool" where
  "manager_typed Manager \<longleftrightarrow>
     (\<forall>n p. map_of Manager n = Some p \<longrightarrow> n = pt_Name (pl_type p) \<and> (plugin_typed Client p \<or> plugin_typed Server p))"

definition shared_typed :: "category \<Rightarrow> 's shared \<Rightarrow> string \<Rightarrow> bool" where
  "shared_typed c Manager n \<longleftrightarrow> (\<exists>p. map_of Manager n = Some p \<and> plugin_typed c p)"

text \<open>The plugins of a module have the categories of its fields; a pipe is a gatherer, a sender and a processor.\<close>

fun module_typed :: "'s shared \<Rightarrow> 's module \<Rightarrow> bool" where
  "module_typed Manager (ReceiverGathererModule q r s) =
     (pl_type q = partition_type \<and> plugin_typed Receiver r \<and> shared_typed Server Manager s)"
| "module_typed Manager (FetcherGathererModule q f) = (pl_type q = partition_type \<and> plugin_typed Fetcher f)"
| "module_typed Manager (SenderModule fs fb c) =
     (list_all (plugin_typed Forwarder) fs \<and> plugin_typed Fallbacker fb \<and> shared_typed Client Manager c)"
| "module_typed Manager (ProcessorModule fs) = list_all (plugin_typed Filter) fs"

definition pipe_typed :: "'s shared \<Rightarrow> 's module list \<Rightarrow> bool" where
  "pipe_typed Manager ms \<longleftrightarrow>
     (\<exists>q r s fs fb c gs. ms = [ReceiverGathererModule q r s, SenderModule fs fb c, ProcessorModule gs]) \<and>
     list_all (module_typed Manager) ms"

lemma load_shared_typed:
  assumes "load_shared get cs M = Ok M'" and "manager_typed M"
    and "\<And>c p. get c = Ok p \<Longrightarrow> plugin_typed Client p \<or> plugin_typed Server p"
  shows "manager_typed M'"
  using assms(1,2)
proof (induction cs arbitrary: M)
  case (Cons c cs)
  then obtain p where p: "get c = Ok p" and rest: "load_shared get cs (AList.update (pt_Name (pl_type p)) p M) = Ok M'"
    by (auto simp: out_bind_eq_Ok)
  have "manager_typed (AList.update (pt_Name (pl_type p)) p M)"
    using Cons.prems(2) assms(3) [OF p] by (auto simp: manager_typed_def update_conv)
  from Cons.IH [OF rest this] show ?case .
qed simp

lemma sharing_Load_typed:
  assumes "sharing_Load fill (RegisterPlugins Reg) cfg None = Ok M" shows "manager_typed M"
proof -
  from assms obtain M1 where c: "load_shared (GetClient fill (RegisterPlugins Reg)) (Clients cfg) [] = Ok M1"
    and s: "load_shared (GetServer fill (RegisterPlugins Reg)) (Servers cfg) M1 = Ok M"
    by (auto simp: sharing_Load_def out_bind_eq_Ok)
  have "manager_typed M1" by (rule load_shared_typed [OF c]) (auto simp: manager_typed_def get_defs dest: plugin_Get_typed)
  then show ?thesis by (rule load_shared_typed [OF s]) (auto simp: get_defs dest: plugin_Get_typed)
qed

lemma shared_as_typed:
  assumes "shared_as c n M = Ok s" and "manager_typed M" and "c = Client \<or> c = Server" shows "shared_typed c M s"
proof -
  from assms(1) obtain p where p: "map_of M n = Some p" "pt_implements (pl_type p) c" and s: "s = n"
    by (auto simp: shared_as_def split: option.splits if_splits)
  from p assms(2) have "plugin_typed Client p \<or> plugin_typed Server p" by (auto simp: manager_typed_def)
  with p assms(3) s show ?thesis by (auto simp: shared_typed_def plugin_typed_def mk_plugin_def)
qed

lemma traverse_typed:
  "traverse (plugin_Get fill (RegisterPlugins Reg) c) cs = Ok ps \<Longrightarrow> list_all (plugin_typed c) ps"
  by (induction cs arbitrary: ps) (auto simp: out_bind_eq_Ok dest: plugin_Get_typed)

lemma init_pipe_typed:
  assumes "init_pipe fill (RegisterPlugins Reg) M gc sc pc = Ok ms" and M: "manager_typed M"
  shows "pipe_typed M ms"
proof -
  from assms(1) obtain g s p where g: "NewGatherer fill (RegisterPlugins Reg) M gc = Ok (Some g)"
    and s: "NewSender fill (RegisterPlugins Reg) M sc = Ok s" and p: "NewProcessor fill (RegisterPlugins Reg) pc = Ok p"
    and ms: "ms = [g, s, p]"
    by (auto simp: init_pipe_eq out_bind_eq_Ok split: option.splits)
  obtain q r sv where g': "g = ReceiverGathererModule q r sv" and "pl_type q = partition_type" and "plugin_typed Receiver r"
    and "shared_as Server (ServerName gc) M = Ok sv"
    using g fetcher_gatherer_never [of fill Reg gc]
    by (auto simp: NewGatherer_def newReceiverGatherer_def NewPartitionQueue_def Initializing_def out_bind_eq_Ok get_defs
        dest!: plugin_Get_typed split: if_splits outcome.splits option.splits cfg_value.splits)
  moreover from s obtain fs fb c where "s = SenderModule fs fb c" and "list_all (plugin_typed Forwarder) fs" and "plugin_typed Fallbacker fb"
    and "shared_as Client (SenderConfig.ClientName sc) M = Ok c"
    by (auto simp: NewSender_def out_bind_eq_Ok get_defs dest: plugin_Get_typed traverse_typed)
  moreover from p obtain gs where "p = ProcessorModule gs" and "list_all (plugin_typed Filter) gs"
    by (auto simp: NewProcessor_def out_bind_eq_Ok get_defs dest: traverse_typed)
  ultimately show ?thesis using ms shared_as_typed [OF _ M] by (auto simp: pipe_typed_def)
qed

text \<open>The modules of a pipe are those that \<open>init_pipe\<close> made of the last pipe of its name.\<close>

lemma initModules_pipe:
  assumes "initModules fill Reg M pipes = Ok container" and "map_of container n = Some ms"
  obtains pipe g s p where "pipe \<in> set pipes" and "cf_PipeName (PipeCommonConfig pipe) = n" and "GathererOf pipe = Some g"
    and "SenderOf pipe = Some s" and "ProcessorOf pipe = Some p" and "init_pipe fill Reg M g s p = Ok ms"
proof -
  from assms(1) have i: "init_pipes fill Reg M pipes [] = Ok container" by (simp add: initModules_def split: if_splits)
  show ?thesis
  proof (cases "find (\<lambda>p. cf_PipeName (PipeCommonConfig p) = n) (rev pipes)")
    case None
    with init_pipes_last [OF i, of n] assms(2) show ?thesis by simp
  next
    case (Some pipe)
    then have "pipe \<in> set (rev pipes)" and "cf_PipeName (PipeCommonConfig pipe) = n"
      unfolding find_Some_iff using nth_mem by blast+
    then have "pipe \<in> set pipes" "cf_PipeName (PipeCommonConfig pipe) = n" by simp_all
    with init_pipes_last [OF i, of n] Some assms(2) that show ?thesis by auto
  qed
qed

text \<open>
  C12. What is started is well typed: the shared plugins are clients and servers of the catalogue
  under their own names, and every pipe is a receiver gatherer, a sender and a processor whose
  plugins are registered plugins of the category that the field asks for and whose server and client
  are among the shared plugins. So no type assertion of the modules can fail later.
\<close>

theorem modules_typed:
  assumes "sharing_Load fill (RegisterPlugins Reg) sharing None = Ok Manager"
    and "initModules fill (RegisterPlugins Reg) Manager pipes = Ok container" and "map_of container n = Some ms"
  shows "manager_typed Manager \<and> pipe_typed Manager ms"
  using sharing_Load_typed [OF assms(1)] init_pipe_typed by (metis initModules_pipe [OF assms(2,3)])

abbreviation no_settings :: "(unit, unit) filler" where
  "no_settings \<equiv> \<lambda>_ _. Ok ((), [])"

definition demo_sharing :: "unit SharingConfig" where
  "demo_sharing = \<lparr>Clients = [[(''plugin_name'', VString ''grpc-client'')]], Servers = [[(''plugin_name'', VString ''grpc-server'')]],
     SharingCommonConfig = \<lparr>cf_PipeName = ''sharing''\<rparr>\<rparr>"

lemma demo_start:
  "(case sharing_Load no_settings (RegisterPlugins []) demo_sharing None of
      Ok M \<Rightarrow> (case initModules no_settings (RegisterPlugins []) M [demo_pipe ''p'' ''grpc-native-jvm-receiver''] of
          Ok c \<Rightarrow> map_of c ''p'' \<noteq> None \<and> map_of M ''grpc-client'' \<noteq> None | _ \<Rightarrow> False) | _ \<Rightarrow> False)"
  by code_simp

theorem modules_typed_witness:
  "\<exists>Manager container ms. sharing_Load no_settings (RegisterPlugins []) demo_sharing None = Ok Manager \<and>
    initModules no_settings (RegisterPlugins []) Manager [demo_pipe ''p'' ''grpc-native-jvm-receiver''] = Ok container \<and>
    map_of container ''p'' = Some ms \<and> manager_typed Manager \<and> pipe_typed Manager ms"
proof -
  obtain M c ms where "sharing_Load no_settings (RegisterPlugins []) demo_sharing None = Ok M"
    "initModules no_settings (RegisterPlugins []) M [demo_pipe ''p'' ''grpc-native-jvm-receiver''] = Ok c" "map_of c ''p'' = Some ms"
    using demo_start by (auto split: outcome.splits)
  with modules_typed [of no_settings "[]" demo_sharing M "[demo_pipe ''p'' ''grpc-native-jvm-receiver'']" c "''p''" ms] show ?thesis by blast
qed

section \<open>Names of pipes\<close>

text \<open>A configuration that the common fields of a pipe were passed into.\<close>

definition knows :: "string \<Rightarrow> 'f Config \<Rightarrow> bool" where
  "knows n cfg \<longleftrightarrow> map_of cfg common_key = Some (VString n)"

lemma propagate_knows: "knows (cf_PipeName cf) (propagateCommonFields cf pc)"
  by (simp add: knows_def propagateCommonFields_def update_conv)

lemma plugin_Get_Initializing: "plugin_Get fill Reg c cfg = Ok p \<Longrightarrow> \<exists>t. Initializing fill t cfg = Ok p"
  by (auto simp: plugin_Get_def out_bind_eq_Ok split: option.splits)

lemma plugin_Get_knows:
  assumes "plugin_Get fill Reg c cfg = Ok p" and "knows n cfg" shows "pl_PipeName p = n"
proof -
  obtain t where "Initializing fill t cfg = Ok p" using plugin_Get_Initializing [OF assms(1)] by blast
  with assms(2) show ?thesis by (cases "fill t cfg") (auto simp: Initializing_def knows_def split: if_splits)
qed

lemma traverse_knows:
  "traverse (plugin_Get fill Reg c) cs = Ok ps \<Longrightarrow> list_all (knows n) cs \<Longrightarrow> list_all (\<lambda>p. pl_PipeName p = n) ps"
  by (induction cs arbitrary: ps) (auto simp: out_bind_eq_Ok dest: plugin_Get_knows)

text \<open>The plugins of the modules, all but the queue, whose configuration may be missing.\<close>

fun module_named :: "string \<Rightarrow> 's module \<Rightarrow> bool" where
  "module_named n (ReceiverGathererModule q r s) = (pl_PipeName r = n)"
| "module_named n (FetcherGathererModule q f) = (pl_PipeName f = n)"
| "module_named n (SenderModule fs fb c) = (list_all (\<lambda>f. pl_PipeName f = n) fs \<and> pl_PipeName fb = n)"
| "module_named n (ProcessorModule fs) = list_all (\<lambda>f. pl_PipeName f = n) fs"

lemma nameFinder_nil [simp]: "plugin_Get fill Reg c [] = Panic"
  by (simp add: plugin_Get_def nameFinder_def)

lemma init_pipe_named:
  assumes "propagate_pipe pipe0 = Ok pipe" and "GathererOf pipe = Some g" "SenderOf pipe = Some s" "ProcessorOf pipe = Some p"
    and "init_pipe fill Reg M g s p = Ok ms"
  shows "list_all (module_named (cf_PipeName (PipeCommonConfig pipe))) ms"
proof -
  let ?cf = "PipeCommonConfig pipe" let ?n = "cf_PipeName ?cf"
  obtain g1 s1 p1 where "GathererOf pipe0 = Some g1" "SenderOf pipe0 = Some s1" "ProcessorOf pipe0 = Some p1"
    using assms(1) by (cases "GathererOf pipe0"; cases "SenderOf pipe0"; cases "ProcessorOf pipe0") (simp_all add: propagate_pipe_def Let_def)
  then obtain g0 s0 p0 where g: "g = propagate_gatherer ?cf g0" and s: "s = propagate_sender ?cf s0"
    and p: "p = propagate_processor ?cf p0"
    using assms(1-4) by (auto simp: propagate_pipe_def Let_def)
  from assms(5) obtain gm sm pm where m: "NewGatherer fill Reg M g = Ok (Some gm)" "NewSender fill Reg M s = Ok sm"
    "NewProcessor fill Reg p = Ok pm" "ms = [gm, sm, pm]"
    by (auto simp: init_pipe_eq out_bind_eq_Ok split: option.splits)
  have k: "pl_PipeName x = ?n" if "plugin_Get fill Reg c (propagateCommonFields ?cf pc) = Ok x" for c pc x
    using plugin_Get_knows [OF that propagate_knows] .
  have ks: "list_all (\<lambda>x. pl_PipeName x = ?n) xs" if "traverse (plugin_Get fill Reg c) (map (propagateCommonFields ?cf) pcs) = Ok xs" for c pcs xs
    using traverse_knows [OF that, of ?n] by (simp add: list_all_iff propagate_knows)
  have "module_named ?n gm"
  proof (cases "ReceiverConfig g0")
    case (Some rc)
    then show ?thesis using m(1) k [of Receiver rc]
      by (auto simp: g NewGatherer_def newReceiverGatherer_def propagate_gatherer_def cfg_of_def out_bind_eq_Ok GetReceiver_def)
  next
    case None
    then obtain fc where "FetcherConfig g0 = Some fc"
      using m(1) by (auto simp: g NewGatherer_def propagate_gatherer_def split: if_splits)
    then show ?thesis using None m(1) k [of Fetcher fc]
      by (auto simp: g NewGatherer_def newFetcherGatherer_def propagate_gatherer_def cfg_of_def out_bind_eq_Ok GetFetcher_def)
  qed
  moreover have "module_named ?n sm"
  proof -
    obtain fb c fs where "GetFallbacker fill Reg (cfg_of (FallbackerConfig s)) = Ok fb"
      and fs: "traverse (GetForwarder fill Reg) (ForwardersConfig s) = Ok fs" and sm: "sm = SenderModule fs fb c"
      using m(2) by (auto simp: NewSender_def out_bind_eq_Ok)
    then have "pl_PipeName fb = ?n" using k [of Fallbacker]
      by (cases "FallbackerConfig s0") (auto simp: s propagate_sender_def cfg_of_def GetFallbacker_def)
    with fs ks [of Forwarder] sm show ?thesis by (simp add: s propagate_sender_def GetForwarder_def)
  qed
  moreover have "module_named ?n pm"
    using m(3) ks [of Filter] by (auto simp: p NewProcessor_def propagate_processor_def out_bind_eq_Ok GetFilter_def)
  ultimately show ?thesis using m(4) by simp
qed

lemma traverse_elem: "traverse f xs = Ok ys \<Longrightarrow> y \<in> set ys \<Longrightarrow> \<exists>x \<in> set xs. f x = Ok y"
  by (induction xs arbitrary: ys) (auto simp: out_bind_eq_Ok)

text \<open>
  C13. Every plugin knows its pipe, from the file to the module: of the configuration that \<open>Load\<close>
  read, overridden and completed, every module that is created for a pipe has, in its receiver,
  forwarders, fallbacker and filters, the name of the pipe.
\<close>

theorem loaded_modules_named:
  assumes "Load env configPath = Ok cfg" and "initModules fill Reg Manager (cfg_Pipes cfg) = Ok container"
    and "map_of container n = Some ms"
  shows "list_all (module_named n) ms"
proof -
  from assms(1) have "load env configPath = Ok cfg" by (auto simp: Load_def split: outcome.splits)
  then obtain pipes where "propagateCommonFieldsInPipes pipes = Ok (cfg_Pipes cfg)" by (auto simp: load_def out_bind_eq_Ok)
  then have t: "traverse propagate_pipe pipes = Ok (cfg_Pipes cfg)" by (simp add: propagateCommonFieldsInPipes_def)
  obtain pipe g s p where pipe: "pipe \<in> set (cfg_Pipes cfg)" "cf_PipeName (PipeCommonConfig pipe) = n"
    and f: "GathererOf pipe = Some g" "SenderOf pipe = Some s" "ProcessorOf pipe = Some p" and i: "init_pipe fill Reg Manager g s p = Ok ms"
    by (rule initModules_pipe [OF assms(2,3)])
  obtain pipe0 where "propagate_pipe pipe0 = Ok pipe" using traverse_elem [OF t pipe(1)] by blast
  from init_pipe_named [OF this f i] pipe(2) show ?thesis by simp
qed

definition demo_loader :: "unit loader_env" where
  "demo_loader = \<lparr>filepath_Abs = (\<lambda>p. Ok (''/'' @ p)), os_ReadFile = (\<lambda>p. if p = ''/satellite.yaml'' then Ok ''pipes'' else Err (Errorf ''no such file'')),
     viper_ReadConfig = (\<lambda>t. Ok [(t, VString ''${PIPE_NAME:p}'')]),
     viper_Unmarshal = (\<lambda>v cfg. case v ''pipes'' of
         Some (VString n) \<Rightarrow> Ok (cfg\<lparr>cfg_Pipes := [demo_pipe n ''grpc-native-jvm-receiver'']\<rparr>) | _ \<Rightarrow> Err (Errorf ''no pipes'')),
     le_ParseFloat = (\<lambda>_. None), os_Getenv = (\<lambda>n. if n = ''PIPE_NAME'' then ''logpipe'' else [])\<rparr>"

definition demo_loaded :: "bool" where
  "demo_loaded = (case Load demo_loader ''satellite.yaml'' of
     Ok cfg \<Rightarrow> (case initModules no_settings (RegisterPlugins []) demo_manager (cfg_Pipes cfg) of
       Ok c \<Rightarrow> map_of c ''logpipe'' \<noteq> None | _ \<Rightarrow> False) | _ \<Rightarrow> False)"

theorem loaded_modules_named_witness:
  "\<exists>cfg container ms. Load demo_loader ''satellite.yaml'' = Ok cfg \<and>
    initModules no_settings (RegisterPlugins []) demo_manager (cfg_Pipes cfg) = Ok container \<and>
    map_of container ''logpipe'' = Some ms \<and> list_all (module_named ''logpipe'') ms"
proof -
  have "demo_loaded" by code_simp
  then obtain cfg c ms where "Load demo_loader ''satellite.yaml'' = Ok cfg"
    "initModules no_settings (RegisterPlugins []) demo_manager (cfg_Pipes cfg) = Ok c" "map_of c ''logpipe'' = Some ms"
    by (auto simp: demo_loaded_def split: outcome.splits)
  with loaded_modules_named [of demo_loader "''satellite.yaml''" cfg no_settings "RegisterPlugins []" demo_manager c "''logpipe''" ms]
  show ?thesis by blast
qed

text \<open>The errors of the loader.\<close>

lemma Load_missing_file: "Load demo_loader ''other.yaml'' = Panic"
  by code_simp

end
