(* ===== verification/Plugin_Docs.thy ===== *)
theory Plugin_Docs
  imports Plugin_Catalogue Logger "HOL-Library.List_Lexorder" "HOL-Library.Char_ord"
begin

text \<open>
  \<open>internal/satellite/tools\<close>: the generator of the plugin documentation. It writes one page for
  every registered plugin, a list of all pages and the part of the menu that shows them. The methods
  of a plugin that return texts are a table, an argument here; so are the YAML library, the casing of
  golang.org/x/text and the failures of the file system. A struct type is given by the fields that
  the parser of Go and the reflection show of it; a type that contains itself is not a value of this
  model. A file system is the list of its directories and of its files with their texts.
\<close>

section \<open>Text\<close>

text \<open>\<open>strings.ToLower\<close> on ASCII, and trimming by a set of characters.\<close>

definition ToLower :: "string \<Rightarrow> string" where
  "ToLower s = map (\<lambda>c. if is_upper c then char_of ((of_char c :: nat) + 32) else c) s"

definition TrimRight :: "string \<Rightarrow> string \<Rightarrow> string" where
  "TrimRight s cutset = rev (dropWhile (\<lambda>c. c \<in> set cutset) (rev s))"

definition TrimLeftSet :: "string \<Rightarrow> string \<Rightarrow> string" where
  "TrimLeftSet s cutset = dropWhile (\<lambda>c. c \<in> set cutset) s"

definition TrimPrefix :: "string \<Rightarrow> string \<Rightarrow> string" where
  "TrimPrefix s p = (if HasPrefix s p then drop (length p) s else s)"

definition lf :: string where "lf = [CHR 0x0A]"
definition tab :: string where "tab = [CHR 0x09]"
definition markdownSuffix :: string where "markdownSuffix = ''.md''"
definition yamlQuoteEnd :: string where "yamlQuoteEnd = replicate 3 (CHR 0x60)"

section \<open>Categories and plugins\<close>

text \<open>The name of the interface type, and with its package.\<close>

fun category_Name :: "category \<Rightarrow> string" where
  "category_Name Filter = ''Filter''"
| "category_Name Forwarder = ''Forwarder''"
| "category_Name Parser = ''Parser''"
| "category_Name Queue = ''Queue''"
| "category_Name Receiver = ''Receiver''"
| "category_Name Fetcher = ''Fetcher''"
| "category_Name Fallbacker = ''Fallbacker''"
| "category_Name Server = ''Server''"
| "category_Name Client = ''Client''"

definition category_String :: "category \<Rightarrow> string" where
  "category_String c = ''api.'' @ category_Name c"

definition getSortedCategories :: "category registry \<Rightarrow> category list" where
  "getSortedCategories Reg = sort_key category_String (map fst Reg)"

record pluginNames =
  defineName :: string
  showName :: string

section \<open>The configuration of a plugin\<close>

text \<open>
  A field of a struct: whether it has a tag, its names, the selector of an embedded type, the value
  of the tag \<open>mapstructure\<close>, its type with its kind and the texts of its comments.
\<close>

datatype field_kind = KStruct go_struct | KPtr "go_struct option" | KScalar
  and go_struct = GoStruct (gs_PkgPath: string) (gs_fields: "go_field list")
  and go_field = GoField (gf_Tag: bool) (gf_Names: "string list") (gf_Selector: "string option")
      (gf_mapstructure: string) (gf_Type: string) (gf_Kind: field_kind) (gf_comments: "string list")

datatype pluginConfigurationItem =
  ConfigurationItem (ci_name: string) (ci_description: string) (ci_dataType: string) (ci_children: "pluginConfigurationItem list")

record pluginChildrenFinder =
  childType :: go_struct
  squash :: bool

definition buildPluginDescription :: "go_field \<Rightarrow> string" where
  "buildPluginDescription field = concat (map (\<lambda>t. TrimLeftSet t ''/ '') (gf_comments field))"

text \<open>\<open>FieldByName\<close>: a field with several names in one declaration is several fields of the type.\<close>

definition field_names :: "go_field \<Rightarrow> string list" where
  "field_names field = gf_Names field @ (case gf_Selector field of Some n \<Rightarrow> if gf_Names field = [] then [n] else [] | None \<Rightarrow> [])"

definition FieldByName :: "go_struct \<Rightarrow> string \<Rightarrow> go_field option" where
  "FieldByName pType name = find (\<lambda>f. name \<in> set (field_names f)) (gs_fields pType)"

text \<open>The name under which the field is looked up: all names of the declaration in one text.\<close>

definition declared_name :: "go_field \<Rightarrow> string option" where
  "declared_name field = (if gf_Names field \<noteq> [] then Some (concat (gf_Names field)) else gf_Selector field)"

definition parsePluginConfigurationItem ::
    "go_field \<Rightarrow> go_struct \<Rightarrow> pluginConfigurationItem option \<times> pluginChildrenFinder option" where
  "parsePluginConfigurationItem field pType =
     (if \<not> gf_Tag field then (None, None)
      else case declared_name field of
        None \<Rightarrow> (None, None)
      | Some fieldName \<Rightarrow>
          (case FieldByName pType fieldName of
             None \<Rightarrow> (None, None)
           | Some pluginField \<Rightarrow>
               (let mapStructureValue = gf_mapstructure pluginField;
                    item = (\<lambda>confName. Some (ConfigurationItem confName (buildPluginDescription field) (gf_Type pluginField) []));
                    childrenFinder = (case gf_Kind pluginField of
                        KPtr (Some elem) \<Rightarrow> Some \<lparr>childType = elem, squash = False\<rparr> | _ \<Rightarrow> None)
                in case IndexByte mapStructureValue (CHR '','') of
                     Some index \<Rightarrow>
                       if Contains (drop (index + 1) mapStructureValue) ''squash''
                       then (case gf_Kind pluginField of
                               KStruct t \<Rightarrow> (None, Some \<lparr>childType = t, squash = True\<rparr>)
                             | _ \<Rightarrow> (None, None))
                       else (item (take index mapStructureValue), childrenFinder)
                   | None \<Rightarrow>
                       (item (if mapStructureValue \<noteq> [] then mapStructureValue else fieldName), childrenFinder))))"

definition with_children :: "pluginConfigurationItem list \<Rightarrow> pluginConfigurationItem \<Rightarrow> pluginConfigurationItem" where
  "with_children cs item = ConfigurationItem (ci_name item) (ci_description item) (ci_dataType item) cs"

lemma FieldByName_size: "FieldByName pType n = Some f \<Longrightarrow> size f < size pType"
proof (cases pType)
  case (GoStruct pkg fs)
  moreover assume "FieldByName pType n = Some f"
  ultimately have "f \<in> set fs" by (auto simp: FieldByName_def find_Some_iff)
  then have "size f \<le> size_list size fs" by (simp add: size_list_estimation')
  with GoStruct show ?thesis by simp
qed

lemma childType_size:
  assumes "parsePluginConfigurationItem field p = (item, Some finder)" shows "size (childType finder) < size p"
proof -
  from assms obtain n f where f: "FieldByName p n = Some f"
    and k: "gf_Kind f = KStruct (childType finder) \<or> gf_Kind f = KPtr (Some (childType finder))"
    by (auto simp: parsePluginConfigurationItem_def Let_def split: if_splits option.splits field_kind.splits)
  have "size (childType finder) < size f" using k by (cases f) auto
  with FieldByName_size [OF f] show ?thesis by simp
qed

text \<open>\<open>ParseDir\<close> says whether the sources of a package can be parsed; a failure is only logged.\<close>

function getConfigurations :: "(string \<Rightarrow> bool) \<Rightarrow> string \<Rightarrow> go_struct \<Rightarrow> pluginConfigurationItem list" where
  "getConfigurations ParseDir ModuleName p =
     (if \<not> ParseDir (''.'' @ TrimPrefix (gs_PkgPath p) ModuleName) then []
      else concat (map (\<lambda>field.
        case parsePluginConfigurationItem field p of
          (item, None) \<Rightarrow> (case item of None \<Rightarrow> [] | Some i \<Rightarrow> [i])
        | (item, Some childFinder) \<Rightarrow>
            (let configurations = getConfigurations ParseDir ModuleName (childType childFinder)
             in if squash childFinder then configurations @ (case item of None \<Rightarrow> [] | Some i \<Rightarrow> [i])
                else (case item of None \<Rightarrow> [] | Some i \<Rightarrow> [with_children configurations i]))) (gs_fields p)))"
  by pat_completeness auto
termination
  by (relation "measure (\<lambda>(_, _, p). size p)") (auto dest: childType_size [OF sym])

text \<open>The consumer adds a row for every item, an item before its children.\<close>

function eachConfigurationItem :: "pluginConfigurationItem list \<Rightarrow> string \<Rightarrow> (string \<times> string \<times> string) list" where
  "eachConfigurationItem [] parentName = []"
| "eachConfigurationItem (conf # items) parentName =
     (parentName @ ci_name conf, ci_dataType conf, ci_description conf) #
       eachConfigurationItem (ci_children conf) (parentName @ ci_name conf @ ''.'') @ eachConfigurationItem items parentName"
  by pat_completeness auto
termination
proof (relation "measure (\<lambda>(items, _). size_list size items)")
  show "((ci_children conf, parentName @ ci_name conf @ ''.''), conf # items, parentName) \<in> measure (\<lambda>(items, _). size_list size items)"
    for conf :: pluginConfigurationItem and items and parentName by (cases conf) simp
qed auto

definition row :: "string \<times> string \<times> string \<Rightarrow> string" where
  "row r = (case r of (name, dataType, desc) \<Rightarrow> ''| '' @ name @ '' | '' @ dataType @ '' | '' @ desc @ '' |'' @ lf)"

section \<open>The page of a plugin\<close>

text \<open>What the methods of a plugin return, and its struct type.\<close>

record plugin_info =
  pi_ShowName :: string
  pi_Description :: string
  pi_DefaultConfig :: string
  pi_SupportForwarders :: "string list"
  pi_Type :: go_struct

text \<open>
  The surroundings of the generator: the plugins and the partitioned queue, the module name in
  \<open>go.mod\<close>, which packages parse, the casing of a title, and which calls of the system fail.
\<close>

record docs_env =
  info :: "category \<Rightarrow> string \<Rightarrow> plugin_info"
  partition_info :: plugin_info
  ModuleName :: string
  ParseDir :: "string \<Rightarrow> bool"
  Title :: "string \<Rightarrow> string"
  RemoveAll_err :: "string \<Rightarrow> go_error option"
  Mkdir_err :: "string \<Rightarrow> go_error option"
  WriteFile_err :: "string \<Rightarrow> go_error option"

record docs_fs =
  fs_dirs :: "string list"
  fs_files :: "(string \<times> string) list"

definition getPluginDocFileName :: "string \<Rightarrow> string \<Rightarrow> string" where
  "getPluginDocFileName typeName pluginName = ToLower (typeName @ ''_'' @ pluginName @ markdownSuffix)"

definition getPluginsByCategory :: "docs_env \<Rightarrow> category registry \<Rightarrow> category \<Rightarrow> pluginNames list" where
  "getPluginsByCategory env Reg c =
     sort_key defineName (map (\<lambda>(k, _). \<lparr>defineName = k, showName = pi_ShowName (info env c k)\<rparr>)
       (case map_of Reg c of None \<Rightarrow> [] | Some mapping \<Rightarrow> mapping))"

definition generateDefaultConfig :: "docs_env \<Rightarrow> category \<Rightarrow> plugin_info \<Rightarrow> string" where
  "generateDefaultConfig env c p = pi_DefaultConfig p @ (if c = Queue then pi_DefaultConfig (partition_info env) else [])"

definition generateConfiguration :: "docs_env \<Rightarrow> category \<Rightarrow> plugin_info \<Rightarrow> string" where
  "generateConfiguration env c p =
     (let rows = (\<lambda>t. concat (map row (eachConfigurationItem (getConfigurations (ParseDir env) (ModuleName env) t) [])))
      in ''|Name|Type|Description|'' @ lf @ ''|----|----|-----------|'' @ lf @ rows (pi_Type p) @
         (if c = Queue then rows (pi_Type (partition_info env)) else []))"

text \<open>Every forwarder is a struct type of the name \<open>Forwarder\<close>.\<close>

definition generateSupportForwarders :: "category \<Rightarrow> plugin_info \<Rightarrow> string" where
  "generateSupportForwarders c p =
     (let forwarders = (if c = Receiver \<or> c = Fetcher then pi_SupportForwarders p else [])
      in if forwarders = [] then []
         else ''## Support Forwarders'' @ lf @
           concat (map (\<lambda>f. '' - ['' @ f @ ''](''  @ getPluginDocFileName ''Forwarder'' f @ '')'' @ lf) forwarders))"

definition writeDoc :: "docs_env \<Rightarrow> string \<Rightarrow> string \<Rightarrow> (docs_fs, unit) go" where
  "writeDoc env text docFileName fs =
     (case WriteFile_err env docFileName of
        Some e \<Rightarrow> (Err (Errorf ''cannot init the plugin doc''), fs)
      | None \<Rightarrow> (Ok (), fs\<lparr>fs_files := AList.update docFileName text (fs_files fs)\<rparr>))"

definition plugin_page :: "docs_env \<Rightarrow> category \<Rightarrow> string \<Rightarrow> plugin_info \<Rightarrow> string" where
  "plugin_page env c name p =
     ''# '' @ category_Name c @ ''/'' @ name @ lf @ ''## Description'' @ lf @ pi_Description p @ lf @ generateSupportForwarders c p @
     ''## DefaultConfig'' @ lf @ yamlQuoteEnd @ ''yaml'' @ generateDefaultConfig env c p @ yamlQuoteEnd @ lf @
     ''## Configuration'' @ lf @ generateConfiguration env c p @ lf"

definition generatePluginDoc ::
    "(category plugin_type \<Rightarrow> 'f Config \<Rightarrow> ('s \<times> string) outcome) \<Rightarrow> docs_env \<Rightarrow> category registry \<Rightarrow> string \<Rightarrow> category \<Rightarrow> pluginNames \<Rightarrow> (docs_fs, unit) go" where
  "generatePluginDoc fill env Reg docDir c pluginName fs =
     (case plugin_Get fill Reg c [(''plugin_name'', VString (defineName pluginName))] of
        Ok p \<Rightarrow> writeDoc env (plugin_page env c (defineName pluginName) (info env c (pt_Name (pl_type p))))
                  (docDir @ ''/'' @ getPluginDocFileName (category_Name c) (defineName pluginName)) fs
      | Err e \<Rightarrow> (Err e, fs) | Panic \<Rightarrow> (Panic, fs) | Hang \<Rightarrow> (Hang, fs))"

section \<open>The list of plugins\<close>

definition list_line :: "category \<Rightarrow> pluginNames \<Rightarrow> string" where
  "list_line c pluginName =
     tab @ ''- ['' @ showName pluginName @ ''](./'' @ getPluginDocFileName (category_Name c) (defineName pluginName) @ '')'' @ lf"

fun list_plugins ::
    "(category plugin_type \<Rightarrow> 'f Config \<Rightarrow> ('s \<times> string) outcome) \<Rightarrow> docs_env \<Rightarrow> category registry \<Rightarrow> string \<Rightarrow> category \<Rightarrow> pluginNames list \<Rightarrow>
     string \<Rightarrow> (docs_fs, string) go" where
  "list_plugins fill env Reg docDir c [] docStr fs = (Ok docStr, fs)"
| "list_plugins fill env Reg docDir c (pn # pns) docStr fs =
     go_bind (generatePluginDoc fill env Reg docDir c pn)
       (\<lambda>_. list_plugins fill env Reg docDir c pns (docStr @ list_line c pn)) fs"

fun list_categories ::
    "(category plugin_type \<Rightarrow> 'f Config \<Rightarrow> ('s \<times> string) outcome) \<Rightarrow> docs_env \<Rightarrow> category registry \<Rightarrow> string \<Rightarrow> category list \<Rightarrow>
     string \<Rightarrow> (docs_fs, string) go" where
  "list_categories fill env Reg docDir [] docStr fs = (Ok docStr, fs)"
| "list_categories fill env Reg docDir (c # cs) docStr fs =
     go_bind (list_plugins fill env Reg docDir c (getPluginsByCategory env Reg c) (docStr @ ''- '' @ category_Name c @ lf))
       (\<lambda>docStr. list_categories fill env Reg docDir cs docStr) fs"

definition generatePluginListDoc ::
    "(category plugin_type \<Rightarrow> 'f Config \<Rightarrow> ('s \<times> string) outcome) \<Rightarrow> docs_env \<Rightarrow> category registry \<Rightarrow> string \<Rightarrow> category list \<Rightarrow> (docs_fs, unit) go" where
  "generatePluginListDoc fill env Reg docDir categories =
     go_bind (list_categories fill env Reg docDir categories (''# Plugin List'' @ lf))
       (\<lambda>docStr. writeDoc env docStr (docDir @ ''/'' @ ''plugin-list'' @ markdownSuffix))"

end
