(* ===== verification/Docs_Menu.thy ===== *)
theory Docs_Menu
  imports Plugin_Docs
begin

text \<open>
  \<open>internal/satellite/tools/catalog.go\<close> and the rest of the generator: the menu of the
  documentation, and that every page the generator refers to has been written.
\<close>

section \<open>catalog.go\<close>

datatype Catalog = Catalog (cat_Name: string) (cat_Path: string) (cat_Catalog: "Catalog list")

record yaml_lib =
  yaml_Marshal :: "Catalog \<Rightarrow> string outcome"
  yaml_Unmarshal :: "string \<Rightarrow> Catalog outcome"

definition LoadCatalog :: "yaml_lib \<Rightarrow> string \<Rightarrow> (docs_fs, Catalog) go" where
  "LoadCatalog yaml filename fs =
     (case map_of (fs_files fs) filename of
        None \<Rightarrow> (Err (Errorf ''cannot read the menu file''), fs)
      | Some bytes \<Rightarrow>
          (case yaml_Unmarshal yaml bytes of
             Ok c \<Rightarrow> (Ok c, fs)
           | Err e \<Rightarrow> (Err (Errorf ''cannot unmarshal menu file''), fs)
           | Panic \<Rightarrow> (Panic, fs) | Hang \<Rightarrow> (Hang, fs)))"

fun Find_from :: "string list \<Rightarrow> Catalog \<Rightarrow> Catalog option" where
  "Find_from [] c = Some c"
| "Find_from (name # namePaths) c = Option.bind (find (\<lambda>cc. cat_Name cc = name) (cat_Catalog c)) (Find_from namePaths)"

definition Find :: "string list \<Rightarrow> Catalog \<Rightarrow> Catalog option" where
  "Find namePaths c = (if cat_Catalog c = [] then None else Find_from namePaths c)"

definition license_lines :: "string list" where
  "license_lines =
     [''# Licensed to the Apache Software Foundation (ASF) under one'',
      ''# or more contributor license agreements.  See the NOTICE file'',
      ''# distributed with this work for additional information'',
      ''# regarding copyright ownership.  The ASF licenses this file'',
      ''# to you under the Apache License, Version 2.0 (the'',
      ''# '' @ [CHR 0x22] @ ''License'' @ [CHR 0x22] @ ''); you may not use this file except in compliance'',
      ''# with the License.  You may obtain a copy of the License at'',
      ''#'',
      ''#     http://www.apache.org/licenses/LICENSE-2.0'',
      ''#'',
      ''# Unless required by applicable law or agreed to in writing, software'',
      ''# distributed under the License is distributed on an '' @ [CHR 0x22] @ ''AS IS'' @ [CHR 0x22] @ '' BASIS,'',
      ''# WITHOUT WARRANTIES OR CONDITIONS OF ANY KIND, either express or implied.'',
      ''# See the License for the specific language governing permissions and'',
      ''# limitations under the License.'', [], []]"

definition catalog_Save :: "docs_env \<Rightarrow> yaml_lib \<Rightarrow> string \<Rightarrow> Catalog \<Rightarrow> (docs_fs, unit) go" where
  "catalog_Save env yaml filename c fs =
     (case yaml_Marshal yaml c of
        Ok marshal \<Rightarrow>
          (case WriteFile_err env filename of
             Some e \<Rightarrow> (Err (Errorf ''cannot write catalog''), fs)
           | None \<Rightarrow> (Ok (), fs\<lparr>fs_files := AList.update filename (Join (CHR 0x0A) license_lines @ marshal) (fs_files fs)\<rparr>))
      | Err e \<Rightarrow> (Err e, fs) | Panic \<Rightarrow> (Panic, fs) | Hang \<Rightarrow> (Hang, fs))"

section \<open>The menu\<close>

text \<open>\<open>Find\<close> returns a pointer into the menu; what is assigned there changes the menu.\<close>

fun update_first :: "('a \<Rightarrow> bool) \<Rightarrow> ('a \<Rightarrow> 'a) \<Rightarrow> 'a list \<Rightarrow> 'a list" where
  "update_first P f [] = []"
| "update_first P f (x # xs) = (if P x then f x # xs else x # update_first P f xs)"

fun assign_at :: "string list \<Rightarrow> (Catalog \<Rightarrow> Catalog) \<Rightarrow> Catalog \<Rightarrow> Catalog" where
  "assign_at [] f c = f c"
| "assign_at (name # namePaths) f c =
     Catalog (cat_Name c) (cat_Path c) (update_first (\<lambda>cc. cat_Name cc = name) (assign_at namePaths f) (cat_Catalog c))"

definition menu_leaf :: "string \<Rightarrow> category \<Rightarrow> pluginNames \<Rightarrow> Catalog" where
  "menu_leaf pluginFilePath c pluginName =
     Catalog (showName pluginName)
       (TrimRight (pluginFilePath @ ''/'' @ getPluginDocFileName (category_Name c) (defineName pluginName)) markdownSuffix) []"

definition menu_category :: "docs_env \<Rightarrow> category registry \<Rightarrow> string \<Rightarrow> category \<Rightarrow> Catalog" where
  "menu_category env Reg pluginFilePath c =
     Catalog (Title env (ToLower (category_Name c))) [] (map (menu_leaf pluginFilePath c) (getPluginsByCategory env Reg c))"

definition allPlugins :: "docs_env \<Rightarrow> category registry \<Rightarrow> string \<Rightarrow> category list \<Rightarrow> Catalog list" where
  "allPlugins env Reg pluginFilePath categories =
     filter (\<lambda>c. cat_Catalog c \<noteq> []) (map (menu_category env Reg pluginFilePath) categories)"

definition updateMenuPluginListDoc ::
    "docs_env \<Rightarrow> yaml_lib \<Rightarrow> category registry \<Rightarrow> string \<Rightarrow> string \<Rightarrow> string \<Rightarrow> category list \<Rightarrow> (docs_fs, unit) go" where
  "updateMenuPluginListDoc env yaml Reg outputRootPath menuFilePath pluginFilePath categories =
     go_bind (LoadCatalog yaml (outputRootPath @ menuFilePath)) (\<lambda>menu fs.
       case Find [''Setup'', ''Plugins''] menu of
         None \<Rightarrow> (Err (Errorf ''cannot find plugins Catalog''), fs)
       | Some pluginCatalog \<Rightarrow>
           catalog_Save env yaml (outputRootPath @ menuFilePath)
             (assign_at [''Setup'', ''Plugins''] (\<lambda>c. Catalog (cat_Name c) [] (allPlugins env Reg pluginFilePath categories)) menu) fs)"

section \<open>The generator\<close>

definition inside_of :: "string \<Rightarrow> string \<Rightarrow> bool" where
  "inside_of path f \<longleftrightarrow> f = path \<or> HasPrefix f (path @ ''/'')"

text \<open>After a removal \<open>Stat\<close> does not find the path, so that the directory is made.\<close>

definition createDir :: "docs_env \<Rightarrow> string \<Rightarrow> (docs_fs, unit) go" where
  "createDir env path fs =
     (case RemoveAll_err env path of
        Some e \<Rightarrow> (Err e, fs)
      | None \<Rightarrow>
          (let fs1 = \<lparr>fs_dirs = filter (\<lambda>d. \<not> inside_of path d) (fs_dirs fs), fs_files = filter (\<lambda>f. \<not> inside_of path (fst f)) (fs_files fs)\<rparr>
           in case Mkdir_err env path of
                Some e \<Rightarrow> (Err e, fs1)
              | None \<Rightarrow> (Ok (), fs1\<lparr>fs_dirs := path # fs_dirs fs1\<rparr>)))"

definition GeneratePluginDoc ::
    "(category plugin_type \<Rightarrow> 'f Config \<Rightarrow> ('s \<times> string) outcome) \<Rightarrow> docs_env \<Rightarrow> yaml_lib \<Rightarrow> category registry \<Rightarrow> string \<Rightarrow> string \<Rightarrow> string \<Rightarrow> (docs_fs, unit) go" where
  "GeneratePluginDoc fill env yaml Reg0 outputRootPath menuFilePath pluginFilePath fs =
     (let Reg = RegisterPlugins Reg0; pluginPath = outputRootPath @ pluginFilePath
      in case createDir env pluginPath fs of
           (Ok _, fs1) \<Rightarrow>
             go_bind (generatePluginListDoc fill env Reg pluginPath (getSortedCategories Reg)) (\<lambda>_.
               updateMenuPluginListDoc env yaml Reg outputRootPath menuFilePath pluginFilePath (getSortedCategories Reg)) fs1
         | (Err e, fs1) \<Rightarrow> (Err (Errorf ''create docs dir error''), fs1)
         | (Panic, fs1) \<Rightarrow> (Panic, fs1) | (Hang, fs1) \<Rightarrow> (Hang, fs1))"

section \<open>Lookups in the menu\<close>

lemma find_update_first:
  "find P xs = Some x \<Longrightarrow> P (f x) \<Longrightarrow> find P (update_first P f xs) = Some (f x)"
  by (induction xs) (auto split: if_splits)

lemma assign_at_name: "cat_Name (f c) = cat_Name c \<or> ns \<noteq> [] \<Longrightarrow> cat_Name (assign_at ns f c) = cat_Name c"
  by (cases ns) auto

lemma Find_assign:
  assumes "Find_from ns c = Some d" and "\<And>c. cat_Name (f c) = cat_Name c"
  shows "Find_from ns (assign_at ns f c) = Some (f d)"
  using assms(1)
proof (induction ns arbitrary: c)
  case (Cons n ns)
  then obtain cc where cc: "find (\<lambda>cc. cat_Name cc = n) (cat_Catalog c) = Some cc" "Find_from ns cc = Some d"
    by (auto split: Option.bind_splits)
  then have "cat_Name cc = n" by (auto simp: find_Some_iff)
  then have "cat_Name (assign_at ns f cc) = n" by (simp add: assign_at_name assms(2))
  from find_update_first [OF cc(1), of "assign_at ns f", OF this] Cons.IH [OF cc(2)] show ?case by simp
qed simp

section \<open>Names of files\<close>

lemma ToLower_append [simp]: "ToLower (a @ b) = ToLower a @ ToLower b"
  by (simp add: ToLower_def)

lemma ToLower_underscore [simp]: "ToLower (CHR ''_'' # s) = CHR ''_'' # ToLower s"
  by (simp add: ToLower_def is_upper_def)

lemma ToLower_suffix [simp]: "ToLower markdownSuffix = markdownSuffix"
  by code_simp

lemma TrimRight_suffix: "x \<noteq> [] \<Longrightarrow> last x \<notin> set sfx \<Longrightarrow> TrimRight (x @ sfx) sfx = x"
proof -
  have drop: "dropWhile (\<lambda>c. c \<in> set sfx) (ys @ zs) = dropWhile (\<lambda>c. c \<in> set sfx) zs" if "set ys \<subseteq> set sfx" for ys zs
    using that by (induction ys) auto
  assume "x \<noteq> []" and "last x \<notin> set sfx"
  then obtain y z where "x = y @ [z]" and "z \<notin> set sfx" by (cases x rule: rev_cases) auto
  then show ?thesis by (simp add: TrimRight_def drop)
qed

text \<open>No plugin has a name that ends in a character of the suffix.\<close>

lemma catalogue_endings:
  assumes "n \<in> set (catalogue c)"
  shows "n \<noteq> [] \<and> last (ToLower n) \<notin> set markdownSuffix"
proof -
  let ?P = "\<lambda>c. list_all (\<lambda>n. n \<noteq> [] \<and> last (ToLower [last n]) \<notin> set markdownSuffix) (catalogue c)"
  have "list_all ?P [Filter, Forwarder, Parser, Queue, Receiver, Fetcher, Fallbacker, Server, Client]" by code_simp
  then have "?P c" by (cases c) (simp_all only: list.pred_inject)
  with assms have "n \<noteq> []" "last (ToLower [last n]) \<notin> set markdownSuffix" unfolding list_all_iff by blast+
  then show ?thesis by (simp add: ToLower_def last_map)
qed

lemma menu_path:
  assumes "n \<in> set (catalogue c)"
  shows "TrimRight (pre @ ''/'' @ getPluginDocFileName (category_Name c) n) markdownSuffix @ markdownSuffix
    = pre @ ''/'' @ getPluginDocFileName (category_Name c) n"
proof -
  let ?x = "pre @ ''/'' @ ToLower (category_Name c @ ''_'' @ n)"
  have "last ?x = last (ToLower n)" using catalogue_endings [OF assms] by (simp add: ToLower_def)
  then have "TrimRight (?x @ markdownSuffix) markdownSuffix = ?x"
    using catalogue_endings [OF assms] by (intro TrimRight_suffix) auto
  then show ?thesis by (simp add: getPluginDocFileName_def)
qed

section \<open>Registered plugins\<close>

lemma plugins_by_category:
  "n \<in> set (map defineName (getPluginsByCategory env (RegisterPlugins Reg) c)) \<longleftrightarrow> n \<in> set (catalogue c)"
proof (cases "map_of (RegisterPlugins Reg) c")
  case None
  then show ?thesis using RegisterPlugins_find [of Reg c n] by (auto simp: getPluginsByCategory_def reg_find_def)
next
  case (Some mapping)
  have "n \<in> fst ` set mapping \<longleftrightarrow> map_of mapping n \<noteq> None" by (metis map_of_eq_None_iff)
  also have "\<dots> \<longleftrightarrow> n \<in> set (catalogue c)" using RegisterPlugins_find [of Reg c n] Some by (simp add: reg_find_def)
  finally show ?thesis using Some by (force simp: getPluginsByCategory_def)
qed

lemma sorted_categories: "n \<in> set (catalogue c) \<Longrightarrow> c \<in> set (getSortedCategories (RegisterPlugins Reg))"
  using RegisterPlugins_find [of Reg c n]
  by (auto simp: getSortedCategories_def reg_find_def bind_eq_Some_conv dest!: map_of_SomeD intro: rev_image_eqI)

section \<open>What is written\<close>

definition written :: "docs_fs \<Rightarrow> string \<Rightarrow> bool" where
  "written fs f \<longleftrightarrow> map_of (fs_files fs) f \<noteq> None"

definition page_of :: "string \<Rightarrow> category \<Rightarrow> string \<Rightarrow> string" where
  "page_of docDir c n = docDir @ ''/'' @ getPluginDocFileName (category_Name c) n"

lemma writeDoc_written:
  "writeDoc env text name fs = (Ok u, fs') \<Longrightarrow> written fs' name \<and> (\<forall>f. written fs f \<longrightarrow> written fs' f)"
  by (auto simp: writeDoc_def written_def update_conv split: option.splits)

lemma generatePluginDoc_written:
  assumes "generatePluginDoc fill env Reg docDir c pn fs = (Ok u, fs')"
  shows "written fs' (page_of docDir c (defineName pn)) \<and> (\<forall>f. written fs f \<longrightarrow> written fs' f)"
  using assms writeDoc_written
  by (auto simp: generatePluginDoc_def page_of_def split: outcome.splits)

lemma list_plugins_written:
  "list_plugins fill env Reg docDir c pns docStr fs = (Ok u, fs') \<Longrightarrow>
   (\<forall>pn \<in> set pns. written fs' (page_of docDir c (defineName pn))) \<and> (\<forall>f. written fs f \<longrightarrow> written fs' f)"
proof (induction pns arbitrary: docStr fs)
  case (Cons pn pns docStr fs)
  then obtain fs1 where g: "generatePluginDoc fill env Reg docDir c pn fs = (Ok (), fs1)"
    and r: "list_plugins fill env Reg docDir c pns (docStr @ list_line c pn) fs1 = (Ok u, fs')"
    by (auto elim!: go_bind_OkE)
  from generatePluginDoc_written [OF g] Cons.IH [OF r] show ?case by auto
qed simp

lemma list_categories_written:
  "list_categories fill env Reg docDir cs docStr fs = (Ok u, fs') \<Longrightarrow>
   (\<forall>c \<in> set cs. \<forall>pn \<in> set (getPluginsByCategory env Reg c). written fs' (page_of docDir c (defineName pn))) \<and>
   (\<forall>f. written fs f \<longrightarrow> written fs' f)"
proof (induction cs arbitrary: docStr fs)
  case (Cons c cs docStr fs)
  then obtain fs1 docStr1 where
    g: "list_plugins fill env Reg docDir c (getPluginsByCategory env Reg c) (docStr @ ''- '' @ category_Name c @ lf) fs = (Ok docStr1, fs1)"
    and r: "list_categories fill env Reg docDir cs docStr1 fs1 = (Ok u, fs')"
    by (auto elim!: go_bind_OkE)
  from list_plugins_written [OF g] Cons.IH [OF r] show ?case by auto
qed simp

text \<open>The list has, in the order of the categories and of the names, a line with a link for every plugin.\<close>

definition plugin_list :: "docs_env \<Rightarrow> category registry \<Rightarrow> category list \<Rightarrow> string" where
  "plugin_list env Reg cs =
     concat (map (\<lambda>c. ''- '' @ category_Name c @ lf @ concat (map (list_line c) (getPluginsByCategory env Reg c))) cs)"

lemma list_plugins_text:
  "list_plugins fill env Reg docDir c pns docStr fs = (Ok text, fs') \<Longrightarrow> text = docStr @ concat (map (list_line c) pns)"
  by (induction pns arbitrary: docStr fs) (fastforce elim!: go_bind_OkE)+

lemma list_categories_text:
  "list_categories fill env Reg docDir cs docStr fs = (Ok text, fs') \<Longrightarrow> text = docStr @ plugin_list env Reg cs"
  by (induction cs arbitrary: docStr fs) (fastforce simp: plugin_list_def elim!: go_bind_OkE dest!: list_plugins_text)+

lemma generatePluginListDoc_written:
  assumes "generatePluginListDoc fill env Reg docDir cs fs = (Ok u, fs')"
  shows "\<forall>c \<in> set cs. \<forall>pn \<in> set (getPluginsByCategory env Reg c). written fs' (page_of docDir c (defineName pn))"
    and "map_of (fs_files fs') (docDir @ ''/'' @ ''plugin-list'' @ markdownSuffix) = Some (''# Plugin List'' @ lf @ plugin_list env Reg cs)"
proof -
  from assms obtain t fs1 where l: "list_categories fill env Reg docDir cs (''# Plugin List'' @ lf) fs = (Ok t, fs1)"
    and w: "writeDoc env t (docDir @ ''/'' @ ''plugin-list'' @ markdownSuffix) fs1 = (Ok u, fs')"
    by (auto simp: generatePluginListDoc_def elim!: go_bind_OkE)
  show "\<forall>c \<in> set cs. \<forall>pn \<in> set (getPluginsByCategory env Reg c). written fs' (page_of docDir c (defineName pn))"
    using list_categories_written [OF l] writeDoc_written [OF w] by blast
  show "map_of (fs_files fs') (docDir @ ''/'' @ ''plugin-list'' @ markdownSuffix) = Some (''# Plugin List'' @ lf @ plugin_list env Reg cs)"
    using w list_categories_text [OF l] by (auto simp: writeDoc_def update_conv split: option.splits)
qed

lemma updateMenu_written:
  assumes "updateMenuPluginListDoc env yaml Reg root menuPath pluginPath cs fs = (Ok u, fs')"
  shows "(\<exists>menu marshal node. yaml_Marshal yaml menu = Ok marshal \<and>
      map_of (fs_files fs') (root @ menuPath) = Some (Join (CHR 0x0A) license_lines @ marshal) \<and>
      Find [''Setup'', ''Plugins''] menu = Some node \<and> cat_Catalog node = allPlugins env Reg pluginPath cs)"
    and "\<forall>f. written fs f \<longrightarrow> written fs' f"
    and "f \<noteq> root @ menuPath \<Longrightarrow> map_of (fs_files fs') f = map_of (fs_files fs) f"
proof -
  let ?set = "\<lambda>c. Catalog (cat_Name c) [] (allPlugins env Reg pluginPath cs)" and ?path = "[''Setup'', ''Plugins'']"
  from assms obtain menu node where f: "Find ?path menu = Some node"
    and s: "catalog_Save env yaml (root @ menuPath) (assign_at ?path ?set menu) fs = (Ok u, fs')"
    by (auto simp: updateMenuPluginListDoc_def LoadCatalog_def elim!: go_bind_OkE split: option.splits outcome.splits)
  obtain marshal where m: "yaml_Marshal yaml (assign_at ?path ?set menu) = Ok marshal"
    and fs': "fs' = fs\<lparr>fs_files := AList.update (root @ menuPath) (Join (CHR 0x0A) license_lines @ marshal) (fs_files fs)\<rparr>"
    using s by (auto simp: catalog_Save_def split: outcome.splits option.splits)
  have "Find_from ?path menu = Some node" using f by (simp add: Find_def split: if_splits)
  then have a: "Find_from ?path (assign_at ?path ?set menu) = Some (?set node)" by (rule Find_assign) simp
  then have "cat_Catalog (assign_at ?path ?set menu) \<noteq> []" by (auto split: Option.bind_splits)
  with a m fs' show "\<exists>menu marshal node. yaml_Marshal yaml menu = Ok marshal \<and>
      map_of (fs_files fs') (root @ menuPath) = Some (Join (CHR 0x0A) license_lines @ marshal) \<and>
      Find ?path menu = Some node \<and> cat_Catalog node = allPlugins env Reg pluginPath cs"
    by (intro exI [of _ "assign_at ?path ?set menu"] exI [of _ marshal] exI [of _ "?set node"])
      (simp add: Find_def update_conv del: assign_at.simps Find_from.simps)
  show "\<forall>f. written fs f \<longrightarrow> written fs' f" by (simp add: fs' written_def update_conv)
  show "f \<noteq> root @ menuPath \<Longrightarrow> map_of (fs_files fs') f = map_of (fs_files fs) f" by (simp add: fs' update_conv)
qed

lemma menu_leaves:
  assumes "sub \<in> set (allPlugins env (RegisterPlugins Reg0) pluginPath cs)" and "leaf \<in> set (cat_Catalog sub)"
  shows "\<exists>c \<in> set cs. \<exists>n \<in> set (catalogue c). cat_Path leaf @ markdownSuffix = page_of pluginPath c n"
proof -
  from assms obtain c pn where c: "c \<in> set cs" and pn: "pn \<in> set (getPluginsByCategory env (RegisterPlugins Reg0) c)"
    and leaf: "leaf = menu_leaf pluginPath c pn"
    by (auto simp: allPlugins_def menu_category_def)
  then have "defineName pn \<in> set (catalogue c)"
    using plugins_by_category [of "defineName pn" env Reg0 c] by auto
  with menu_path [OF this, of pluginPath] c leaf show ?thesis by (auto simp: menu_leaf_def page_of_def)
qed

section \<open>The generator ends well\<close>

lemma generatePluginDoc_Ok:
  assumes "\<forall>p cfg. \<exists>s. fill p cfg = Ok s" and "\<forall>f. WriteFile_err env f = None" and "defineName pn \<in> set (catalogue c)"
  shows "\<exists>fs'. generatePluginDoc fill env (RegisterPlugins Reg0) docDir c pn fs = (Ok (), fs')"
proof -
  let ?cfg = "[(''plugin_name'', VString (defineName pn))]"
  obtain st n where f: "fill (mk_plugin c (defineName pn)) ?cfg = Ok (st, n)" using assms(1) by fastforce
  have "common_key \<noteq> ''plugin_name''" by (simp add: common_key_def)
  then have "Initializing fill (mk_plugin c (defineName pn)) ?cfg = Ok \<lparr>pl_type = mk_plugin c (defineName pn), pl_settings = st, pl_PipeName = n\<rparr>"
    using f by (simp add: Initializing_def mk_plugin_def)
  moreover have "reg_find (RegisterPlugins Reg0) c (defineName pn) = Some (mk_plugin c (defineName pn))"
    using assms(3) by (simp add: RegisterPlugins_find)
  ultimately have "\<exists>p. plugin_Get fill (RegisterPlugins Reg0) c ?cfg = Ok p"
    by (auto simp: plugin_Get_def nameFinder_def out_bind_def reg_find_def bind_eq_Some_conv)
  then show ?thesis using assms(2) by (auto simp: generatePluginDoc_def writeDoc_def)
qed

lemma list_plugins_Ok:
  assumes "\<forall>p cfg. \<exists>s. fill p cfg = Ok s" and "\<forall>f. WriteFile_err env f = None" and "\<forall>pn \<in> set pns. defineName pn \<in> set (catalogue c)"
  shows "\<exists>t fs'. list_plugins fill env (RegisterPlugins Reg0) docDir c pns docStr fs = (Ok t, fs')"
  using assms(3)
proof (induction pns arbitrary: docStr fs)
  case (Cons pn pns docStr fs)
  obtain fs1 where "generatePluginDoc fill env (RegisterPlugins Reg0) docDir c pn fs = (Ok (), fs1)"
    using generatePluginDoc_Ok [OF assms(1,2), of pn c Reg0 docDir fs] Cons.prems by auto
  with Cons show ?case by (simp add: go_bind_def)
qed simp

lemma list_categories_Ok:
  assumes "\<forall>p cfg. \<exists>s. fill p cfg = Ok s" and "\<forall>f. WriteFile_err env f = None"
  shows "\<exists>t fs'. list_categories fill env (RegisterPlugins Reg0) docDir cs docStr fs = (Ok t, fs')"
proof (induction cs arbitrary: docStr fs)
  case (Cons c cs docStr fs)
  have "\<forall>pn \<in> set (getPluginsByCategory env (RegisterPlugins Reg0) c). defineName pn \<in> set (catalogue c)"
    using plugins_by_category [of _ env Reg0 c] by auto
  from list_plugins_Ok [OF assms this, of Reg0 docDir "docStr @ ''- '' @ category_Name c @ lf" fs] obtain t fs1 where
    "list_plugins fill env (RegisterPlugins Reg0) docDir c (getPluginsByCategory env (RegisterPlugins Reg0) c)
      (docStr @ ''- '' @ category_Name c @ lf) fs = (Ok t, fs1)" by blast
  with Cons show ?case by (simp add: go_bind_def)
qed simp

lemma GeneratePluginDoc_Ok:
  assumes fill: "\<forall>p cfg. \<exists>s. fill p cfg = Ok s" and w: "\<forall>f. WriteFile_err env f = None"
    and dir: "RemoveAll_err env (root @ pluginPath) = None" "Mkdir_err env (root @ pluginPath) = None"
    and there: "\<not> inside_of (root @ pluginPath) (root @ menuPath)" "written fs (root @ menuPath)"
    and yaml: "\<forall>b. \<exists>c node. yaml_Unmarshal yaml b = Ok c \<and> Find [''Setup'', ''Plugins''] c = Some node" "\<forall>c. \<exists>s. yaml_Marshal yaml c = Ok s"
  shows "fst (GeneratePluginDoc fill env yaml Reg0 root menuPath pluginPath fs) = Ok ()"
proof -
  let ?Reg = "RegisterPlugins Reg0" and ?cs = "getSortedCategories (RegisterPlugins Reg0)"
  obtain fs1 where c: "createDir env (root @ pluginPath) fs = (Ok (), fs1)"
    and m1: "written fs1 (root @ menuPath)"
    using dir there by (force simp: createDir_def Let_def written_def map_of_eq_None_iff)
  obtain t fs2 where l: "list_categories fill env ?Reg (root @ pluginPath) ?cs (''# Plugin List'' @ lf) fs1 = (Ok t, fs2)"
    using list_categories_Ok [OF fill w] by metis
  have m2: "written fs2 (root @ menuPath)" using list_categories_written [OF l] m1 by blast
  obtain fs3 where d: "writeDoc env t ((root @ pluginPath) @ ''/'' @ ''plugin-list'' @ markdownSuffix) fs2 = (Ok (), fs3)"
    using w by (simp add: writeDoc_def)
  obtain b where m3: "map_of (fs_files fs3) (root @ menuPath) = Some b"
    using writeDoc_written [OF d] m2 unfolding written_def by blast
  obtain mn node where mn: "yaml_Unmarshal yaml b = Ok mn" "Find [''Setup'', ''Plugins''] mn = Some node" using yaml(1) by blast
  obtain s where s: "yaml_Marshal yaml (assign_at [''Setup'', ''Plugins'']
      (\<lambda>c. Catalog (cat_Name c) [] (allPlugins env ?Reg pluginPath ?cs)) mn) = Ok s" using yaml(2) by blast
  have "fst (updateMenuPluginListDoc env yaml ?Reg root menuPath pluginPath ?cs fs3) = Ok ()"
    using m3 mn s w
    by (simp add: updateMenuPluginListDoc_def LoadCatalog_def go_bind_def catalog_Save_def del: assign_at.simps)
  moreover have "generatePluginListDoc fill env ?Reg (root @ pluginPath) ?cs fs1 = (Ok (), fs3)"
    using l d by (simp add: generatePluginListDoc_def go_bind_def)
  ultimately show ?thesis using c by (simp add: GeneratePluginDoc_def Let_def go_bind_def)
qed

lemma pages_written:
  assumes "GeneratePluginDoc fill env yaml Reg0 root menuPath pluginPath fs = (Ok u, fs')" and n: "n \<in> set (catalogue c)"
  shows "written fs' (page_of (root @ pluginPath) c n)"
proof -
  let ?Reg = "RegisterPlugins Reg0" and ?cs = "getSortedCategories (RegisterPlugins Reg0)"
  from assms(1) obtain fs1 fs2 where
    g: "generatePluginListDoc fill env ?Reg (root @ pluginPath) ?cs fs1 = (Ok (), fs2)"
    and m: "updateMenuPluginListDoc env yaml ?Reg root menuPath pluginPath ?cs fs2 = (Ok u, fs')"
    by (auto simp: GeneratePluginDoc_def Let_def elim!: go_bind_OkE split: prod.splits outcome.splits)
  obtain pn where "pn \<in> set (getPluginsByCategory env ?Reg c)" "defineName pn = n"
    using plugins_by_category [of n env Reg0 c] n by auto
  with generatePluginListDoc_written(1) [OF g] sorted_categories [OF n, of Reg0] updateMenu_written(2) [OF m] show ?thesis by blast
qed

text \<open>
  C27. When the documentation was generated, every registered plugin has its page; the list of
  plugins has, category by category, a line with a link for every plugin, unless the menu was saved
  over it; and in the menu that was saved every entry below Setup and Plugins is, with the suffix,
  a page that was written.
\<close>

theorem docs_complete:
  assumes "GeneratePluginDoc fill env yaml Reg0 root menuPath pluginPath fs = (Ok u, fs')"
  shows "(\<forall>c. \<forall>n \<in> set (catalogue c). written fs' (page_of (root @ pluginPath) c n)) \<and>
    (menuPath \<noteq> pluginPath @ ''/plugin-list.md'' \<longrightarrow> map_of (fs_files fs') (root @ pluginPath @ ''/plugin-list.md'') =
      Some (''# Plugin List'' @ lf @ plugin_list env (RegisterPlugins Reg0) (getSortedCategories (RegisterPlugins Reg0)))) \<and>
    (\<exists>menu marshal node. yaml_Marshal yaml menu = Ok marshal \<and>
      map_of (fs_files fs') (root @ menuPath) = Some (Join (CHR 0x0A) license_lines @ marshal) \<and>
      Find [''Setup'', ''Plugins''] menu = Some node \<and>
      (\<forall>sub \<in> set (cat_Catalog node). \<forall>leaf \<in> set (cat_Catalog sub).
         written fs' (root @ cat_Path leaf @ markdownSuffix)))"
proof -
  let ?Reg = "RegisterPlugins Reg0" and ?cs = "getSortedCategories (RegisterPlugins Reg0)"
  from assms obtain fs1 fs2 where
    g: "generatePluginListDoc fill env ?Reg (root @ pluginPath) ?cs fs1 = (Ok (), fs2)"
    and m: "updateMenuPluginListDoc env yaml ?Reg root menuPath pluginPath ?cs fs2 = (Ok u, fs')"
    by (auto simp: GeneratePluginDoc_def Let_def elim!: go_bind_OkE split: prod.splits outcome.splits)
  note menu = updateMenu_written [OF m]
  have pages: "written fs' (page_of (root @ pluginPath) c n)" if "n \<in> set (catalogue c)" for c n
    using pages_written [OF assms that] .
  obtain mn marshal node where mn: "yaml_Marshal yaml mn = Ok marshal"
    "map_of (fs_files fs') (root @ menuPath) = Some (Join (CHR 0x0A) license_lines @ marshal)"
    "Find [''Setup'', ''Plugins''] mn = Some node" and node: "cat_Catalog node = allPlugins env ?Reg pluginPath ?cs"
    using menu(1) by blast
  have "written fs' (root @ cat_Path leaf @ markdownSuffix)" if "sub \<in> set (cat_Catalog node)" "leaf \<in> set (cat_Catalog sub)" for sub leaf
  proof -
    from menu_leaves [of sub env Reg0 pluginPath ?cs leaf] that node obtain c n where
      "n \<in> set (catalogue c)" "cat_Path leaf @ markdownSuffix = page_of pluginPath c n" by auto
    with pages [of n c] show ?thesis by (simp add: page_of_def)
  qed
  moreover have "map_of (fs_files fs') (root @ pluginPath @ ''/plugin-list.md'') = Some (''# Plugin List'' @ lf @ plugin_list env ?Reg ?cs)"
    if "menuPath \<noteq> pluginPath @ ''/plugin-list.md''"
    using generatePluginListDoc_written(2) [OF g] menu(3) [of "root @ pluginPath @ ''/plugin-list.md''"] that
    by (simp add: markdownSuffix_def)
  ultimately show ?thesis using pages mn by blast
qed

definition blank_info :: plugin_info where
  "blank_info = \<lparr>pi_ShowName = ''plugin'', pi_Description = [], pi_DefaultConfig = [], pi_SupportForwarders = [], pi_Type = GoStruct [] []\<rparr>"

definition blank_env :: docs_env where
  "blank_env = \<lparr>info = (\<lambda>_ _. blank_info), partition_info = blank_info, ModuleName = [], ParseDir = (\<lambda>_. True), Title = (\<lambda>s. s),
     RemoveAll_err = (\<lambda>_. None), Mkdir_err = (\<lambda>_. None), WriteFile_err = (\<lambda>_. None)\<rparr>"

definition fixed_menu :: yaml_lib where
  "fixed_menu = \<lparr>yaml_Marshal = (\<lambda>c. Ok (cat_Name c)),
     yaml_Unmarshal = (\<lambda>_. Ok (Catalog ''menu'' [] [Catalog ''Setup'' [] [Catalog ''Examples'' [] [], Catalog ''Plugins'' ''/old'' []]]))\<rparr>"

abbreviation run_docs :: "unit outcome \<times> docs_fs" where
  "run_docs \<equiv> GeneratePluginDoc (\<lambda>_ (_ :: unit Config). Ok ((), [])) blank_env fixed_menu [] ''docs'' ''/menu.yml'' ''/plugins''
     \<lparr>fs_dirs = [''docs''], fs_files = [(''docs/menu.yml'', [])]\<rparr>"

lemma run_docs_Ok: "fst run_docs = Ok ()"
  by (rule GeneratePluginDoc_Ok) (simp_all add: blank_env_def fixed_menu_def inside_of_def HasPrefix_def written_def Find_def)

theorem docs_complete_witness:
  "\<exists>fs'. run_docs = (Ok (), fs') \<and> written fs' ''docs/plugins/queue_mmap-queue.md''"
proof -
  have run: "run_docs = (Ok (), snd run_docs)" using run_docs_Ok by (metis prod.collapse)
  have "page_of (''docs'' @ ''/plugins'') Queue ''mmap-queue'' = ''docs/plugins/queue_mmap-queue.md''" by code_simp
  moreover have "''mmap-queue'' \<in> set (catalogue Queue)" by (simp add: queues_def)
  ultimately have "written (snd run_docs) ''docs/plugins/queue_mmap-queue.md''"
    using docs_complete [OF run] by metis
  with run show ?thesis by blast
qed

text \<open>The suffix is trimmed as a set of characters: a name that ends in one of them loses it.\<close>

lemma menu_path_trimmed_too_far:
  "TrimRight (''/plugins/'' @ getPluginDocFileName (category_Name Queue) ''prom'') markdownSuffix = ''/plugins/queue_pro''"
  by code_simp

end
