(* ===== verification/Command_Line.thy ===== *)
theory Command_Line
  imports Startup Docs_Menu
begin

text \<open>
  \<open>cmd/command.go\<close> and \<open>cmd/main.go\<close>: the two commands, \<open>start\<close> and \<open>docs\<close>. The command line library is a
  parameter: \<open>c_String\<close> is the value of a flag. What it documents is \<open>cli_laws\<close>: a value that is given
  on the command line under the name or an alias of the flag comes first, then the first
  environment variable of the flag that is set, then its default. The hook time of the shutdown is a
  duration; how long things take is not modelled.
\<close>

record cli_flag =
  fl_Name :: string
  fl_Aliases :: "string list"
  fl_EnvVars :: "string list"
  fl_Value :: string

definition start_flags :: "cli_flag list" where
  "start_flags =
     [\<lparr>fl_Name = ''config'', fl_Aliases = [''c''], fl_EnvVars = [''SATELLITE_CONFIG''], fl_Value = ''configs/satellite_config.yaml''\<rparr>,
      \<lparr>fl_Name = ''shutdown_hook_time'', fl_Aliases = [''t''], fl_EnvVars = [''SATELLITE_SHUTDOWN_HOOK_TIME''], fl_Value = ''5''\<rparr>]"

definition docs_flags :: "cli_flag list" where
  "docs_flags =
     [\<lparr>fl_Name = ''output'', fl_Aliases = [''o''], fl_EnvVars = [''SATELLITE_DOC_PATH''], fl_Value = ''docs''\<rparr>,
      \<lparr>fl_Name = ''menu'', fl_Aliases = [''m''], fl_EnvVars = [''SATELLITE_MENU_PATH''], fl_Value = ''/menu.yml''\<rparr>,
      \<lparr>fl_Name = ''plugins'', fl_Aliases = [''p''], fl_EnvVars = [''SATELLITE_PLUGIN_PATH''], fl_Value = ''/plugins''\<rparr>]"

definition commands :: "(string \<times> cli_flag list) list" where
  "commands = [(''start'', start_flags), (''docs'', docs_flags)]"

record cli_context =
  c_String :: "string \<Rightarrow> string"

section \<open>What the library does\<close>

definition first_set :: "(string \<Rightarrow> string option) \<Rightarrow> string list \<Rightarrow> string option" where
  "first_set f ns = (case List.map_filter f ns of [] \<Rightarrow> None | v # _ \<Rightarrow> Some v)"

definition flag_value :: "(string \<Rightarrow> string option) \<Rightarrow> (string \<Rightarrow> string option) \<Rightarrow> cli_flag \<Rightarrow> string" where
  "flag_value arg getenv f =
     (case first_set arg (fl_Name f # fl_Aliases f) of
        Some v \<Rightarrow> v
      | None \<Rightarrow> (case first_set getenv (fl_EnvVars f) of Some v \<Rightarrow> v | None \<Rightarrow> fl_Value f))"

definition cli_laws :: "(string \<Rightarrow> string option) \<Rightarrow> (string \<Rightarrow> string option) \<Rightarrow> cli_flag list \<Rightarrow> cli_context \<Rightarrow> bool" where
  "cli_laws arg getenv flags c \<longleftrightarrow> list_all (\<lambda>f. c_String c (fl_Name f) = flag_value arg getenv f) flags"

section \<open>The actions\<close>

definition cmdStart :: "'f loader_env \<Rightarrow> ('f, 's) filler \<Rightarrow> 'l logrus_lib \<Rightarrow> (go_error option \<Rightarrow> go_error \<Rightarrow> go_error) \<Rightarrow>
    category registry \<Rightarrow> ((category, 's) plugin, ('x, 'w, 'v) tel_globals \<times> 'w) sharing_ops \<Rightarrow>
    ('s module, ('x, 'w, 'v) tel_globals \<times> 'w) boot_ops \<Rightarrow> nat list \<Rightarrow> cli_context \<Rightarrow>
    ('l logger option \<times> ('x, 'w, 'v) tel_globals \<times> 'w, unit) go" where
  "cmdStart env fill lib Append Reg sops mops turns c st =
     (case Load env (c_String c ''config'') of
        Ok cfg \<Rightarrow> Start fill lib Append Reg sops mops turns cfg st
      | Err e \<Rightarrow> (Err e, st)
      | Panic \<Rightarrow> (Panic, st)
      | Hang \<Rightarrow> (Hang, st))"

definition cmdDocs :: "('f, 's) filler \<Rightarrow> docs_env \<Rightarrow> yaml_lib \<Rightarrow> category registry \<Rightarrow> cli_context \<Rightarrow> (docs_fs, unit) go" where
  "cmdDocs fill env yaml Reg c =
     GeneratePluginDoc fill env yaml Reg (c_String c ''output'') (c_String c ''menu'') (c_String c ''plugins'')"

text \<open>\<open>main\<close>: the process ends with an error when the command failed or panicked.\<close>

definition main_exit :: "unit outcome \<Rightarrow> bool option" where
  "main_exit r = (case r of Ok _ \<Rightarrow> Some True | Err e \<Rightarrow> Some False | Panic \<Rightarrow> Some False | Hang \<Rightarrow> None)"

section \<open>From the command line to the files\<close>

lemma first_set_none: "list_all (\<lambda>n. f n = None) ns \<Longrightarrow> first_set f ns = None"
  by (induction ns) (simp_all add: first_set_def List.map_filter_simps)

lemma flag_default:
  assumes "cli_laws (\<lambda>_. None) (\<lambda>_. None) flags c" and "f \<in> set flags"
  shows "c_String c (fl_Name f) = fl_Value f"
  using assms by (auto simp: cli_laws_def list_all_iff flag_value_def first_set_none)

text \<open>Without arguments and environment variables the pages are written below \<open>docs/plugins\<close>.\<close>

lemma docs_default_pages:
  assumes "cli_laws (\<lambda>_. None) (\<lambda>_. None) docs_flags c" and "cmdDocs fill env yaml Reg c fs = (Ok u, fs')" and "n \<in> set (catalogue cat)"
  shows "written fs' (page_of ''docs/plugins'' cat n)"
proof -
  have "c_String c ''output'' = ''docs''" "c_String c ''plugins'' = ''/plugins''"
    using flag_default [OF assms(1), of "docs_flags ! 0"] flag_default [OF assms(1), of "docs_flags ! 2"] by (simp_all add: docs_flags_def)
  with pages_written [OF assms(2) [unfolded cmdDocs_def] assms(3)] show ?thesis by simp
qed

text \<open>A configuration that cannot be loaded ends the process, before anything is started.\<close>

lemma start_without_config:
  assumes "cli_laws (\<lambda>_. None) (\<lambda>_. None) start_flags c" and "load env ''configs/satellite_config.yaml'' = Err e"
  shows "cmdStart env fill lib Append Reg sops mops turns c st = (Panic, st) \<and> main_exit (fst (cmdStart env fill lib Append Reg sops mops turns c st)) = Some False"
proof -
  have "c_String c ''config'' = ''configs/satellite_config.yaml''"
    using flag_default [OF assms(1), of "start_flags ! 0"] by (simp add: start_flags_def)
  with assms(2) show ?thesis by (simp add: cmdStart_def Load_def main_exit_def)
qed

end
