(* ===== verification/Plugin_Table.thy ===== *)
theory Plugin_Table
  imports Plugin_Catalogue
begin

text \<open>
  What the plugins say of themselves: the methods \<open>Name\<close>, \<open>ShowName\<close>, \<open>Description\<close> and
  \<open>DefaultConfig\<close> of every plugin of the satellite, and the keys under which its struct takes
  settings (the tags \<open>mapstructure\<close>, those of a squashed struct included). A default configuration is
  the list of its lines. The registry reads the
  default configuration before the given one; the documentation shows all of them.
\<close>

record plugin_meta =
  pm_Category :: category
  pm_Name :: string
  pm_ShowName :: string
  pm_Description :: string
  pm_DefaultConfig :: "string list"
  pm_tags :: "string list"

definition Lines :: "string list \<Rightarrow> string" where
  "Lines ls = Join (CHR 0x0A) ls"

definition meta_grpc_client :: plugin_meta where
  "meta_grpc_client = \<lparr>pm_Category = Client, pm_Name = ''grpc-client'', pm_ShowName = ''GRPC Client'',
     pm_Description = ''The gRPC client is a sharing plugin to keep connection with the gRPC server and delivery the data to it.'',
     pm_DefaultConfig = [[],
       ''# The gRPC client finder type'',
       ''finder_type: '' @ [CHR 0x22] @ ''static'' @ [CHR 0x22],
       [],
       ''# The gRPC server address (default localhost:11800), multiple addresses are split by '' @ [CHR 0x22] @ '','' @ [CHR 0x22] @ ''.'',
       ''server_addr: localhost:11800'',
       [],
       ''# The gRPC kubernetes server address finder'',
       ''kubernetes_config:'',
       ''  # The kind of resource'',
       ''  kind: pod'',
       ''  # The resource namespaces'',
       ''  namespaces:'',
       ''    - default'',
       ''  # How to get the address exported port'',
       ''  extra_port:'',
       ''    # Resource target port'',
       ''    port: 11800'',
       [],
       ''# The TLS switch (default false).'',
       ''enable_tls: false'',
       [],
       ''# The file path of client.pem. The config only works when opening the TLS switch.'',
       ''client_pem_path: '' @ [CHR 0x22] @ [CHR 0x22],
       [],
       ''# The file path of client.key. The config only works when opening the TLS switch.'',
       ''client_key_path: '' @ [CHR 0x22] @ [CHR 0x22],
       [],
       ''# The file path oca.pem. The config only works when opening the TLS switch.'',
       ''ca_pem_path: '' @ [CHR 0x22] @ [CHR 0x22],
       [],
       ''# InsecureSkipVerify controls whether a client verifies the server's certificate chain and host name.'',
       ''insecure_skip_verify: true'',
       [],
       ''# The auth value when send request'',
       ''authentication: '' @ [CHR 0x22] @ [CHR 0x22],
       [],
       ''# How frequently to check the connection(second)'',
       ''check_period: 5'',
       [],
       ''# The gRPC send request timeout'',
       ''timeout:'',
       ''  # The timeout for unary single request'',
       ''  unary: 5s'',
       ''  # The timeout for unary stream request'',
       ''  stream: 20s'',
       []],
     pm_tags = [''finder_type'', ''server_addr'', ''kubernetes_config'', ''enable_tls'', ''client_pem_path'', ''client_key_path'', ''ca_pem_path'', ''insecure_skip_verify'', ''authentication'', ''check_period'', ''timeout'']\<rparr>"

definition meta_kafka_client :: plugin_meta where
  "meta_kafka_client = \<lparr>pm_Category = Client, pm_Name = ''kafka-client'', pm_ShowName = ''Kafka Client'',
     pm_Description = ''The Kafka client is a sharing plugin to keep connection with the Kafka brokers and delivery the data to it.'',
     pm_DefaultConfig = [[],
       ''# The Kafka broker addresses (default localhost:9092). Multiple values are separated by commas.'',
       ''brokers: localhost:9092'',
       [],
       ''# The Kafka version should follow this pattern, which is major_minor_veryMinor_patch (default 1.0.0.0).'',
       ''version: 1.0.0.0'',
       [],
       ''# The TLS switch (default false).'',
       ''enable_tls: false'',
       [],
       ''# The file path of client.pem. The config only works when opening the TLS switch.'',
       ''client_pem_path: '' @ [CHR 0x22] @ [CHR 0x22],
       [],
       ''# The file path of client.key. The config only works when opening the TLS switch.'',
       ''client_key_path: '' @ [CHR 0x22] @ [CHR 0x22],
       [],
       ''# The file path oca.pem. The config only works when opening the TLS switch.'',
       ''ca_pem_path: '' @ [CHR 0x22] @ [CHR 0x22],
       [],
       ''# 0 means NoResponse, 1 means WaitForLocal and -1 means WaitForAll (default 1).'',
       ''required_acks: 1'',
       [],
       ''# The producer max retry times (default 3).'',
       ''producer_max_retry: 3'',
       [],
       ''# The meta max retry times (default 3).'',
       ''meta_max_retry: 3'',
       [],
       ''# How long to wait for the cluster to settle between retries (default 100ms). Time unit is ms.'',
       ''retry_backoff: 100'',
       [],
       ''# The max message bytes.'',
       ''max_message_bytes: 1000000'',
       [],
       ''# If enabled, the producer will ensure that exactly one copy of each message is written (default false).'',
       ''idempotent_writes: false'',
       [],
       ''# A user-provided string sent with every request to the brokers for logging, debugging, and auditing purposes (default Satellite).'',
       ''client_id: Satellite'',
       [],
       ''# Compression codec represents the various compression codecs recognized by Kafka in messages. 0 : None, 1 : Gzip, 2 : Snappy, 3 : LZ4, 4 : ZSTD'',
       ''compression_codec: 0'',
       [],
       ''# How frequently to refresh the cluster metadata in the background. Defaults to 10 minutes. The unit is minute.'',
       ''refresh_period: 10'',
       [],
       ''# InsecureSkipVerify controls whether a client verifies the server's certificate chain and host name.'',
       ''insecure_skip_verify: true'',
       []],
     pm_tags = [''brokers'', ''version'', ''enable_tls'', ''client_pem_path'', ''client_key_path'', ''ca_pem_path'', ''required_acks'', ''producer_max_retry'', ''meta_max_retry'', ''retry_backoff'', ''max_message_bytes'', ''idempotent_writes'', ''client_id'', ''compression_codec'', ''refresh_period'', ''insecure_skip_verify'']\<rparr>"

definition meta_none_fallbacker :: plugin_meta where
  "meta_none_fallbacker = \<lparr>pm_Category = Fallbacker, pm_Name = ''none-fallbacker'', pm_ShowName = ''None Fallbacker'',
     pm_Description = ''The fallbacker would do nothing when facing failure data.'',
     pm_DefaultConfig = [[]],
     pm_tags = []\<rparr>"

definition meta_timer_fallbacker :: plugin_meta where
  "meta_timer_fallbacker = \<lparr>pm_Category = Fallbacker, pm_Name = ''timer-fallbacker'', pm_ShowName = ''Timer Fallbacker'',
     pm_Description = ''This is a timer fallback trigger to process the forward failure data.'',
     pm_DefaultConfig = [[],
       ''# The forwarder max attempt times.'',
       ''max_attempts: 3'',
       ''# The exponential_backoff is the standard retry duration, and the time for each retry is expanded'',
       ''# by 2 times until the number of retries reaches the maximum.(Time unit is millisecond.)'',
       ''exponential_backoff: 2000'',
       ''# The max backoff time used in retrying, which would override the latency time when the latency time'',
       ''# with exponential increasing larger than it.(Time unit is millisecond.)'',
       ''max_backoff: 5000'',
       []],
     pm_tags = [''max_attempts'', ''exponential_backoff'', ''max_backoff'']\<rparr>"

definition meta_envoy_als_v2_grpc_forwarder :: plugin_meta where
  "meta_envoy_als_v2_grpc_forwarder = \<lparr>pm_Category = Forwarder, pm_Name = ''envoy-als-v2-grpc-forwarder'', pm_ShowName = ''Envoy ALS v2 GRPC Forwarder'',
     pm_Description = ''This is a synchronization ALS v2 grpc forwarder with the Envoy ALS protocol.'',
     pm_DefaultConfig = [[]],
     pm_tags = []\<rparr>"

definition meta_envoy_als_v3_grpc_forwarder :: plugin_meta where
  "meta_envoy_als_v3_grpc_forwarder = \<lparr>pm_Category = Forwarder, pm_Name = ''envoy-als-v3-grpc-forwarder'', pm_ShowName = ''Envoy ALS v3 GRPC Forwarder'',
     pm_Description = ''This is a synchronization ALS v3 grpc forwarder with the Envoy ALS protocol.'',
     pm_DefaultConfig = [[]],
     pm_tags = []\<rparr>"

definition meta_envoy_metrics_v2_grpc_forwarder :: plugin_meta where
  "meta_envoy_metrics_v2_grpc_forwarder = \<lparr>pm_Category = Forwarder, pm_Name = ''envoy-metrics-v2-grpc-forwarder'', pm_ShowName = ''Envoy Metrics v2 GRPC Forwarder'',
     pm_Description = ''This is a synchronization Metrics v2 grpc forwarder with the Envoy metrics protocol.'',
     pm_DefaultConfig = [[]],
     pm_tags = []\<rparr>"

definition meta_envoy_metrics_v3_grpc_forwarder :: plugin_meta where
  "meta_envoy_metrics_v3_grpc_forwarder = \<lparr>pm_Category = Forwarder, pm_Name = ''envoy-metrics-v3-grpc-forwarder'', pm_ShowName = ''Envoy Metrics v3 GRPC Forwarder'',
     pm_Description = ''This is a synchronization Metrics v3 grpc forwarder with the Envoy metrics protocol.'',
     pm_DefaultConfig = [[]],
     pm_tags = []\<rparr>"

definition meta_native_async_profiler_grpc_forwarder :: plugin_meta where
  "meta_native_async_profiler_grpc_forwarder = \<lparr>pm_Category = Forwarder, pm_Name = ''native-async-profiler-grpc-forwarder'', pm_ShowName = ''Native Async Profiler GRPC Forwarder'',
     pm_Description = ''This is a grpc forwarder with the SkyWalking native async profiler protocol.'',
     pm_DefaultConfig = [[]],
     pm_tags = []\<rparr>"

definition meta_native_cds_grpc_forwarder :: plugin_meta where
  "meta_native_cds_grpc_forwarder = \<lparr>pm_Category = Forwarder, pm_Name = ''native-cds-grpc-forwarder'', pm_ShowName = ''Native CDS GRPC Forwarder'',
     pm_Description = ''This is a synchronization grpc forwarder with the SkyWalking native Configuration Discovery Service protocol.'',
     pm_DefaultConfig = [[]],
     pm_tags = []\<rparr>"

definition meta_native_clr_grpc_forwarder :: plugin_meta where
  "meta_native_clr_grpc_forwarder = \<lparr>pm_Category = Forwarder, pm_Name = ''native-clr-grpc-forwarder'', pm_ShowName = ''Native CLR GRPC Forwarder'',
     pm_Description = ''This is a synchronization grpc forwarder with the SkyWalking native Configuration Discovery Service protocol.'',
     pm_DefaultConfig = [[]],
     pm_tags = []\<rparr>"

definition meta_native_ebpf_accesslog_grpc_forwarder :: plugin_meta where
  "meta_native_ebpf_accesslog_grpc_forwarder = \<lparr>pm_Category = Forwarder, pm_Name = ''native-ebpf-accesslog-grpc-forwarder'', pm_ShowName = ''GRPC Native EBFP Access Log Forwarder'',
     pm_Description = ''This is a synchronization grpc forwarder with the SkyWalking native eBPF access log protocol.'',
     pm_DefaultConfig = [[]],
     pm_tags = []\<rparr>"

definition meta_native_ebpf_profiling_grpc_forwarder :: plugin_meta where
  "meta_native_ebpf_profiling_grpc_forwarder = \<lparr>pm_Category = Forwarder, pm_Name = ''native-ebpf-profiling-grpc-forwarder'', pm_ShowName = ''Native EBPF Profiling GRPC Forwarder'',
     pm_Description = ''This is a synchronization grpc forwarder with the SkyWalking native process protocol.'',
     pm_DefaultConfig = [[]],
     pm_tags = []\<rparr>"

definition meta_native_event_grpc_forwarder :: plugin_meta where
  "meta_native_event_grpc_forwarder = \<lparr>pm_Category = Forwarder, pm_Name = ''native-event-grpc-forwarder'', pm_ShowName = ''Native Event GRPC Forwarder'',
     pm_Description = ''This is a synchronization grpc forwarder with the SkyWalking native event protocol.'',
     pm_DefaultConfig = [[]],
     pm_tags = []\<rparr>"

definition meta_native_jvm_grpc_forwarder :: plugin_meta where
  "meta_native_jvm_grpc_forwarder = \<lparr>pm_Category = Forwarder, pm_Name = ''native-jvm-grpc-forwarder'', pm_ShowName = ''Native JVM GRPC Forwarder'',
     pm_Description = ''This is a synchronization grpc forwarder with the SkyWalking native Configuration Discovery Service protocol.'',
     pm_DefaultConfig = [[]],
     pm_tags = []\<rparr>"

definition meta_native_log_grpc_forwarder :: plugin_meta where
  "meta_native_log_grpc_forwarder = \<lparr>pm_Category = Forwarder, pm_Name = ''native-log-grpc-forwarder'', pm_ShowName = ''Native Log GRPC Forwarder'',
     pm_Description = ''This is a synchronization grpc forwarder with the SkyWalking native log protocol.'',
     pm_DefaultConfig = [[]],
     pm_tags = []\<rparr>"

definition meta_native_management_grpc_forwarder :: plugin_meta where
  "meta_native_management_grpc_forwarder = \<lparr>pm_Category = Forwarder, pm_Name = ''native-management-grpc-forwarder'', pm_ShowName = ''Native Management GRPC Forwarder'',
     pm_Description = ''This is a synchronization grpc forwarder with the SkyWalking native management protocol.'',
     pm_DefaultConfig = [[]],
     pm_tags = []\<rparr>"

definition meta_native_meter_grpc_forwarder :: plugin_meta where
  "meta_native_meter_grpc_forwarder = \<lparr>pm_Category = Forwarder, pm_Name = ''native-meter-grpc-forwarder'', pm_ShowName = ''Native Meter GRPC Forwarder'',
     pm_Description = ''This is a synchronization meter grpc forwarder with the SkyWalking meter protocol.'',
     pm_DefaultConfig = [[],
       ''# The LRU policy cache size for hosting routine rules of service instance.'',
       ''routing_rule_lru_cache_size: 5000'',
       ''# The TTL of the LRU cache size for hosting routine rules of service instance.'',
       ''routing_rule_lru_cache_ttl: 180'',
       []],
     pm_tags = [''routing_rule_lru_cache_size'', ''routing_rule_lru_cache_ttl'']\<rparr>"

definition meta_native_process_grpc_forwarder :: plugin_meta where
  "meta_native_process_grpc_forwarder = \<lparr>pm_Category = Forwarder, pm_Name = ''native-process-grpc-forwarder'', pm_ShowName = ''Native Process GRPC Forwarder'',
     pm_Description = ''This is a synchronization grpc forwarder with the SkyWalking native process protocol.'',
     pm_DefaultConfig = [[]],
     pm_tags = []\<rparr>"

definition meta_native_profile_grpc_forwarder :: plugin_meta where
  "meta_native_profile_grpc_forwarder = \<lparr>pm_Category = Forwarder, pm_Name = ''native-profile-grpc-forwarder'', pm_ShowName = ''Native Profile GRPC Forwarder'',
     pm_Description = ''This is a synchronization grpc forwarder with the SkyWalking native log protocol.'',
     pm_DefaultConfig = [[]],
     pm_tags = []\<rparr>"

definition meta_native_tracing_grpc_forwarder :: plugin_meta where
  "meta_native_tracing_grpc_forwarder = \<lparr>pm_Category = Forwarder, pm_Name = ''native-tracing-grpc-forwarder'', pm_ShowName = ''Native Tracing GRPC Forwarder'',
     pm_Description = ''This is a synchronization grpc forwarder with the SkyWalking native tracing protocol.'',
     pm_DefaultConfig = [[]],
     pm_tags = []\<rparr>"

definition meta_otlp_metrics_v1_grpc_forwarder :: plugin_meta where
  "meta_otlp_metrics_v1_grpc_forwarder = \<lparr>pm_Category = Forwarder, pm_Name = ''otlp-metrics-v1-grpc-forwarder'', pm_ShowName = ''OpenTelemetry Metrics v1 GRPC Forwarder'',
     pm_Description = ''This is a synchronization grpc forwarder with the OpenTelemetry metrics v1 protocol.'',
     pm_DefaultConfig = [[],
       ''# The LRU policy cache size for hosting routine rules of service instance.'',
       ''routing_rule_lru_cache_size: 5000'',
       ''# The TTL of the LRU cache size for hosting routine rules of service instance.'',
       ''routing_rule_lru_cache_ttl: 180'',
       ''# The label key of the routing data, multiple keys are split by '' @ [CHR 0x22] @ '','' @ [CHR 0x22],
       ''routing_label_keys: net.host.name,host.name,job,service.name'',
       []],
     pm_tags = [''routing_label_keys'', ''routing_rule_lru_cache_size'', ''routing_rule_lru_cache_ttl'']\<rparr>"

definition meta_native_log_kafka_forwarder :: plugin_meta where
  "meta_native_log_kafka_forwarder = \<lparr>pm_Category = Forwarder, pm_Name = ''native-log-kafka-forwarder'', pm_ShowName = ''Native Log Kafka Forwarder'',
     pm_Description = ''This is a synchronization Kafka forwarder with the SkyWalking native log protocol.'',
     pm_DefaultConfig = [[],
       ''# The remote topic. '',
       ''topic: '' @ [CHR 0x22] @ ''log-topic'' @ [CHR 0x22],
       []],
     pm_tags = [''topic'']\<rparr>"

definition meta_memory_queue :: plugin_meta where
  "meta_memory_queue = \<lparr>pm_Category = Queue, pm_Name = ''memory-queue'', pm_ShowName = ''Memory Queue'',
     pm_Description = ''This is a memory queue to buffer the input event.'',
     pm_DefaultConfig = [[],
       ''# The maximum buffer event size.'',
       ''event_buffer_size: 5000'',
       []],
     pm_tags = [''event_buffer_size'']\<rparr>"

definition meta_mmap_queue :: plugin_meta where
  "meta_mmap_queue = \<lparr>pm_Category = Queue, pm_Name = ''mmap-queue'', pm_ShowName = ''Mmap Queue'',
     pm_Description = ''This is a memory mapped queue to provide the persistent storage for the input event. Please note that this plugin does not support Windows platform.'',
     pm_DefaultConfig = [[],
       ''# The size of each segment. Default value is 256K. The unit is Byte.'',
       ''segment_size: 262114'',
       ''# The max num of segments in memory. Default value is 10.'',
       ''max_in_mem_segments: 10'',
       ''# The capacity of Queue = segment_size * queue_capacity_segments.'',
       ''queue_capacity_segments: 2000'',
       ''# The period flush time. The unit is ms. Default value is 1 second.'',
       ''flush_period: 1000'',
       ''# The max number in one flush time.  Default value is 10000.'',
       ''flush_ceiling_num: 10000'',
       ''# The max size of the input event. Default value is 20k.'',
       ''max_event_size: 20480'',
       []],
     pm_tags = [''segment_size'', ''max_in_mem_segments'', ''queue_capacity_segments'', ''flush_period'', ''flush_ceiling_num'', ''max_event_size'']\<rparr>"

definition meta_none_queue :: plugin_meta where
  "meta_none_queue = \<lparr>pm_Category = Queue, pm_Name = ''none-queue'', pm_ShowName = ''None Queue'',
     pm_Description = ''This is an empty queue for direct connection protocols, such as SkyWalking native configuration discovery service protocol.'',
     pm_DefaultConfig = [[]],
     pm_tags = []\<rparr>"

definition meta_grpc_envoy_als_v2_receiver :: plugin_meta where
  "meta_grpc_envoy_als_v2_receiver = \<lparr>pm_Category = Receiver, pm_Name = ''grpc-envoy-als-v2-receiver'', pm_ShowName = ''GRPC Envoy ALS v2 Receiver'',
     pm_Description = ''This is a receiver for Envoy ALS format, which is defined at https://github.com/envoyproxy/envoy/blob/v1.17.4/api/envoy/service/accesslog/v2/als.proto.'',
     pm_DefaultConfig = [[],
       ''# The time interval between two flush operations. And the time unit is millisecond.'',
       ''flush_time: 1000'',
       ''# The max cache count when receive the message'',
       ''limit_count: 500'',
       []],
     pm_tags = [''flush_time'', ''limit_count'']\<rparr>"

definition meta_grpc_envoy_als_v3_receiver :: plugin_meta where
  "meta_grpc_envoy_als_v3_receiver = \<lparr>pm_Category = Receiver, pm_Name = ''grpc-envoy-als-v3-receiver'', pm_ShowName = ''GRPC Envoy ALS v3 Receiver'',
     pm_Description = ''This is a receiver for Envoy ALS format, which is defined at https://github.com/envoyproxy/envoy/blob/3791753e94edbac8a90c5485c68136886c40e719/api/envoy/config/accesslog/v3/accesslog.proto.'',
     pm_DefaultConfig = [[],
       ''# The time interval between two flush operations. And the time unit is millisecond.'',
       ''flush_time: 1000'',
       ''# The max cache count when receive the message'',
       ''limit_count: 500'',
       []],
     pm_tags = [''flush_time'', ''limit_count'']\<rparr>"

definition meta_grpc_envoy_metrics_v2_receiver :: plugin_meta where
  "meta_grpc_envoy_metrics_v2_receiver = \<lparr>pm_Category = Receiver, pm_Name = ''grpc-envoy-metrics-v2-receiver'', pm_ShowName = ''GRPC Envoy Metrics v2 Receiver'',
     pm_Description = ''This is a receiver for Envoy Metrics format, which is defined at https://github.com/envoyproxy/envoy/blob/v1.17.4/api/envoy/service/metrics/v2/metrics_service.proto.'',
     pm_DefaultConfig = [[],
       ''# The time interval between two flush operations. And the time unit is millisecond.'',
       ''flush_time: 1000'',
       ''# The max cache count when receive the message'',
       ''limit_count: 500'',
       []],
     pm_tags = [''flush_time'', ''limit_count'']\<rparr>"

definition meta_grpc_envoy_metrics_v3_receiver :: plugin_meta where
  "meta_grpc_envoy_metrics_v3_receiver = \<lparr>pm_Category = Receiver, pm_Name = ''grpc-envoy-metrics-v3-receiver'', pm_ShowName = ''GRPC Envoy Metrics v3 Receiver'',
     pm_Description = ''This is a receiver for Envoy Metrics format, which is defined at https://github.com/envoyproxy/envoy/blob/5f7d6efb5786ee3de31b1fb37c78fa281718b704/api/envoy/service/metrics/v3/metrics_service.proto.'',
     pm_DefaultConfig = [[],
       ''# The time interval between two flush operations. And the time unit is millisecond.'',
       ''flush_time: 1000'',
       ''# The max cache count when receive the message'',
       ''limit_count: 500'',
       []],
     pm_tags = [''flush_time'', ''limit_count'']\<rparr>"

definition meta_grpc_native_async_profiler_receiver :: plugin_meta where
  "meta_grpc_native_async_profiler_receiver = \<lparr>pm_Category = Receiver, pm_Name = ''grpc-native-async-profiler-receiver'', pm_ShowName = ''GRPC Native Async Profiler Receiver'',
     pm_Description = ''This is a receiver for SkyWalking native async-profiler format, which is defined at https://github.com/apache/skywalking-data-collect-protocol/blob/master/asyncprofiler/AsyncProfiler.proto.'',
     pm_DefaultConfig = [[]],
     pm_tags = []\<rparr>"

definition meta_grpc_native_cds_receiver :: plugin_meta where
  "meta_grpc_native_cds_receiver = \<lparr>pm_Category = Receiver, pm_Name = ''grpc-native-cds-receiver'', pm_ShowName = ''GRPC Native CDS Receiver'',
     pm_Description = ''This is a receiver for SkyWalking native Configuration Discovery Service format, which is defined at https://github.com/apache/skywalking-data-collect-protocol/blob/master/language-agent/ConfigurationDiscoveryService.proto.'',
     pm_DefaultConfig = [[]],
     pm_tags = []\<rparr>"

definition meta_grpc_native_clr_receiver :: plugin_meta where
  "meta_grpc_native_clr_receiver = \<lparr>pm_Category = Receiver, pm_Name = ''grpc-native-clr-receiver'', pm_ShowName = ''GRPC Native CLR Receiver'',
     pm_Description = ''This is a receiver for SkyWalking native clr format, which is defined at https://github.com/apache/skywalking-data-collect-protocol/blob/master/language-agent/CLRMetric.proto.'',
     pm_DefaultConfig = [[]],
     pm_tags = []\<rparr>"

definition meta_grpc_native_ebpf_accesslog_receiver :: plugin_meta where
  "meta_grpc_native_ebpf_accesslog_receiver = \<lparr>pm_Category = Receiver, pm_Name = ''grpc-native-ebpf-accesslog-receiver'', pm_ShowName = ''GRPC Native EBFP Accesslog Receiver'',
     pm_Description = ''This is a receiver for SkyWalking native accesslog format, which is defined at https://github.com/apache/skywalking-data-collect-protocol/blob/master/ebpf/accesslog.proto.'',
     pm_DefaultConfig = [[]],
     pm_tags = []\<rparr>"

definition meta_grpc_native_ebpf_profiling_receiver :: plugin_meta where
  "meta_grpc_native_ebpf_profiling_receiver = \<lparr>pm_Category = Receiver, pm_Name = ''grpc-native-ebpf-profiling-receiver'', pm_ShowName = ''GRPC Native EBFP Profiling Receiver'',
     pm_Description = ''This is a receiver for SkyWalking native process format, which is defined at https://github.com/apache/skywalking-data-collect-protocol/blob/master/ebpf/profiling/Process.proto.'',
     pm_DefaultConfig = [[]],
     pm_tags = []\<rparr>"

definition meta_grpc_native_event_receiver :: plugin_meta where
  "meta_grpc_native_event_receiver = \<lparr>pm_Category = Receiver, pm_Name = ''grpc-native-event-receiver'', pm_ShowName = ''GRPC Native Event Receiver'',
     pm_Description = ''This is a receiver for SkyWalking native meter format, which is defined at https://github.com/apache/skywalking-data-collect-protocol/blob/master/event/Event.proto.'',
     pm_DefaultConfig = [[]],
     pm_tags = []\<rparr>"

definition meta_grpc_native_jvm_receiver :: plugin_meta where
  "meta_grpc_native_jvm_receiver = \<lparr>pm_Category = Receiver, pm_Name = ''grpc-native-jvm-receiver'', pm_ShowName = ''GRPC Native JVM Receiver'',
     pm_Description = ''This is a receiver for SkyWalking native jvm format, which is defined at https://github.com/apache/skywalking-data-collect-protocol/blob/master/language-agent/JVMMetric.proto.'',
     pm_DefaultConfig = [[]],
     pm_tags = []\<rparr>"

definition meta_grpc_native_log_receiver :: plugin_meta where
  "meta_grpc_native_log_receiver = \<lparr>pm_Category = Receiver, pm_Name = ''grpc-native-log-receiver'', pm_ShowName = ''GRPC Native Log Receiver'',
     pm_Description = ''This is a receiver for SkyWalking native logging format, which is defined at https://github.com/apache/skywalking-data-collect-protocol/blob/master/logging/Logging.proto.'',
     pm_DefaultConfig = [[]],
     pm_tags = []\<rparr>"

definition meta_grpc_native_management_receiver :: plugin_meta where
  "meta_grpc_native_management_receiver = \<lparr>pm_Category = Receiver, pm_Name = ''grpc-native-management-receiver'', pm_ShowName = ''GRPC Native Management Receiver'',
     pm_Description = ''This is a receiver for SkyWalking native management format, which is defined at https://github.com/apache/skywalking-data-collect-protocol/blob/master/management/Management.proto.'',
     pm_DefaultConfig = [[]],
     pm_tags = []\<rparr>"

definition meta_grpc_native_meter_receiver :: plugin_meta where
  "meta_grpc_native_meter_receiver = \<lparr>pm_Category = Receiver, pm_Name = ''grpc-native-meter-receiver'', pm_ShowName = ''GRPC Native Meter Receiver'',
     pm_Description = ''This is a receiver for SkyWalking native meter format, which is defined at https://github.com/apache/skywalking-data-collect-protocol/blob/master/event/Event.proto.'',
     pm_DefaultConfig = [[]],
     pm_tags = []\<rparr>"

definition meta_grpc_native_process_receiver :: plugin_meta where
  "meta_grpc_native_process_receiver = \<lparr>pm_Category = Receiver, pm_Name = ''grpc-native-process-receiver'', pm_ShowName = ''GRPC Native Process Receiver'',
     pm_Description = ''This is a receiver for SkyWalking native process format, which is defined at https://github.com/apache/skywalking-data-collect-protocol/blob/master/ebpf/profiling/Process.proto.'',
     pm_DefaultConfig = [[]],
     pm_tags = []\<rparr>"

definition meta_grpc_native_profile_receiver :: plugin_meta where
  "meta_grpc_native_profile_receiver = \<lparr>pm_Category = Receiver, pm_Name = ''grpc-native-profile-receiver'', pm_ShowName = ''GRPC Native Profile Receiver'',
     pm_Description = ''This is a receiver for SkyWalking native profile format, which is defined at https://github.com/apache/skywalking-data-collect-protocol/blob/master/profile/Profile.proto.'',
     pm_DefaultConfig = [[]],
     pm_tags = []\<rparr>"

definition meta_grpc_native_tracing_receiver :: plugin_meta where
  "meta_grpc_native_tracing_receiver = \<lparr>pm_Category = Receiver, pm_Name = ''grpc-native-tracing-receiver'', pm_ShowName = ''GRPC Native Tracing Receiver'',
     pm_Description = ''This is a receiver for SkyWalking native tracing and span attached event format, which is defined at https://github.com/apache/skywalking-data-collect-protocol/blob/master/language-agent/Tracing.proto.'',
     pm_DefaultConfig = [[]],
     pm_tags = []\<rparr>"

definition meta_grpc_otlp_metrics_v1_receiver :: plugin_meta where
  "meta_grpc_otlp_metrics_v1_receiver = \<lparr>pm_Category = Receiver, pm_Name = ''grpc-otlp-metrics-v1-receiver'', pm_ShowName = ''GRPC OpenTelemetry Metrics v1 Receiver'',
     pm_Description = ''This is a receiver for OpenTelemetry Metrics v1 format, which is defined at https://github.com/open-telemetry/opentelemetry-proto/blob/724e427879e3d2bae2edc0218fff06e37b9eb46e/opentelemetry/proto/collector/metrics/v1/metrics_service.proto.'',
     pm_DefaultConfig = ['' ''],
     pm_tags = []\<rparr>"

definition meta_http_native_log_receiver :: plugin_meta where
  "meta_http_native_log_receiver = \<lparr>pm_Category = Receiver, pm_Name = ''http-native-log-receiver'', pm_ShowName = ''HTTP Native Log Receiver'',
     pm_Description = ''This is a receiver for SkyWalking http logging format, which is defined at https://github.com/apache/skywalking-data-collect-protocol/blob/master/logging/Logging.proto.'',
     pm_DefaultConfig = [[],
       ''# The native log request URI.'',
       ''uri: '' @ [CHR 0x22] @ ''/logging'' @ [CHR 0x22],
       ''# The request timeout seconds.'',
       ''timeout: 5'',
       []],
     pm_tags = [''uri'', ''timeout'']\<rparr>"

definition meta_grpc_server :: plugin_meta where
  "meta_grpc_server = \<lparr>pm_Category = Server, pm_Name = ''grpc-server'', pm_ShowName = ''GRPC Server'',
     pm_Description = ''This is a sharing plugin, which would start a gRPC server.'',
     pm_DefaultConfig = [[],
       ''# The address of grpc server. Default value is :11800'',
       ''address: :11800'',
       ''# The network of grpc. Default value is :tcp'',
       ''network: tcp'',
       ''# The max size of receiving log. Default value is 2M. The unit is Byte.'',
       ''max_recv_msg_size: 2097152'',
       ''# The max concurrent stream channels.'',
       ''max_concurrent_streams: 32'',
       ''# The TLS cert file path.'',
       ''tls_cert_file: '' @ [CHR 0x22] @ [CHR 0x22],
       ''# The TLS key file path.'',
       ''tls_key_file: '' @ [CHR 0x22] @ [CHR 0x22],
       ''# To Accept Connection Limiter when reach the resource'',
       ''accept_limit:'',
       ''  # The max CPU utilization limit'',
       ''  cpu_utilization: 75'',
       ''  # The max connection count'',
       ''  connection_count: 4000'',
       []],
     pm_tags = [''address'', ''network'', ''max_recv_msg_size'', ''max_concurrent_streams'', ''tls_cert_file'', ''tls_key_file'', ''accept_limit'']\<rparr>"

definition meta_http_server :: plugin_meta where
  "meta_http_server = \<lparr>pm_Category = Server, pm_Name = ''http-server'', pm_ShowName = ''HTTP Server'',
     pm_Description = ''This is a sharing plugin, which would start a http server.'',
     pm_DefaultConfig = [[],
       ''# The http server address.'',
       ''address: '' @ [CHR 0x22] @ '':12800'' @ [CHR 0x22],
       []],
     pm_tags = [''address'']\<rparr>"

definition plugin_table :: "plugin_meta list" where
  "plugin_table =
     [meta_native_log_kafka_forwarder,
      meta_native_log_grpc_forwarder,
      meta_native_meter_grpc_forwarder,
      meta_native_management_grpc_forwarder,
      meta_native_tracing_grpc_forwarder,
      meta_native_profile_grpc_forwarder,
      meta_native_cds_grpc_forwarder,
      meta_native_event_grpc_forwarder,
      meta_native_jvm_grpc_forwarder,
      meta_native_clr_grpc_forwarder,
      meta_native_process_grpc_forwarder,
      meta_native_ebpf_profiling_grpc_forwarder,
      meta_envoy_als_v2_grpc_forwarder,
      meta_envoy_als_v3_grpc_forwarder,
      meta_envoy_metrics_v2_grpc_forwarder,
      meta_envoy_metrics_v3_grpc_forwarder,
      meta_otlp_metrics_v1_grpc_forwarder,
      meta_native_ebpf_accesslog_grpc_forwarder,
      meta_native_async_profiler_grpc_forwarder,
      meta_memory_queue,
      meta_mmap_queue,
      meta_none_queue,
      meta_grpc_native_log_receiver,
      meta_grpc_native_management_receiver,
      meta_grpc_native_tracing_receiver,
      meta_grpc_native_profile_receiver,
      meta_grpc_native_cds_receiver,
      meta_http_native_log_receiver,
      meta_grpc_native_jvm_receiver,
      meta_grpc_native_clr_receiver,
      meta_grpc_native_event_receiver,
      meta_grpc_native_meter_receiver,
      meta_grpc_native_process_receiver,
      meta_grpc_native_ebpf_profiling_receiver,
      meta_grpc_envoy_als_v2_receiver,
      meta_grpc_envoy_als_v3_receiver,
      meta_grpc_envoy_metrics_v2_receiver,
      meta_grpc_envoy_metrics_v3_receiver,
      meta_grpc_otlp_metrics_v1_receiver,
      meta_grpc_native_ebpf_accesslog_receiver,
      meta_grpc_native_async_profiler_receiver,
      meta_none_fallbacker,
      meta_timer_fallbacker,
      meta_grpc_server,
      meta_http_server,
      meta_kafka_client,
      meta_grpc_client]"

text \<open>The configuration of the partitioned queue, which every queue has.\<close>

definition partition_DefaultConfig :: "string list" where
  "partition_DefaultConfig = [[], ''# The partition count of queue.'', ''partition: 1'', []]"

section \<open>Reading a default configuration\<close>

text \<open>The keys of the outermost level, and the value behind a key, of a configuration in this form.\<close>

definition line_key :: "string \<Rightarrow> string option" where
  "line_key l =
     (case l of
        [] \<Rightarrow> None
      | c # _ \<Rightarrow> if c = CHR ''#'' \<or> c = CHR '' '' then None else map_option (\<lambda>i. take i l) (IndexByte l (CHR '':'')))"

definition top_keys :: "string list \<Rightarrow> string list" where
  "top_keys ls = List.map_filter line_key ls"

definition value_of :: "string \<Rightarrow> string list \<Rightarrow> string option" where
  "value_of key ls =
     map_option (\<lambda>l. TrimLeft (CHR '' '') (drop (length key + 1) l)) (find (\<lambda>l. line_key l = Some key) ls)"

definition int_of :: "string \<Rightarrow> string list \<Rightarrow> int option" where
  "int_of key ls = (case value_of key ls of None \<Rightarrow> None | Some v \<Rightarrow> (case ParseInt v of Ok i \<Rightarrow> Some i | _ \<Rightarrow> None))"

end
