(* ===== verification/Receivers.thy ===== *)
theory Receivers
  imports Event
begin

text \<open>
  \<open>plugins/receiver\<close>: the services that turn what agents send into events. A handler puts events
  on the unbuffered output channel; the channel is the list of the events that were put on it, and
  \<open>now\<close> gives the time of each. An incoming stream is the list of the messages that \<open>RecvMsg\<close>
  gives, the error that ends them (\<open>EOF\<close> for a stream that the agent has closed), and the result
  of \<open>SendAndClose\<close>. (With the codec of the server, \<open>RecvMsg\<close> gives fresh bytes for each message.)
\<close>

record 'm in_stream =
  in_messages :: "'m list"
  in_end :: go_error
  in_SendAndClose :: "go_error option"

type_synonym channel = "sniff_data list"
type_synonym clock = "channel \<Rightarrow> int"
type_synonym 'a handler = "(channel, 'a) go"

definition emit :: "string \<Rightarrow> SniffType \<Rightarrow> payload \<Rightarrow> clock \<Rightarrow> channel \<Rightarrow> channel" where
  "emit eventName t p now ch = ch @ [\<lparr>Name = eventName, Timestamp = now ch, Type = t, Remote = True, Data = Some p\<rparr>]"

definition close_stream :: "'m in_stream \<Rightarrow> unit handler" where
  "close_stream st ch = (case in_SendAndClose st of None \<Rightarrow> (Ok (), ch) | Some e \<Rightarrow> (Err e, ch))"

section \<open>Streams with one event per message\<close>

fun collect_each :: "('m \<Rightarrow> channel \<Rightarrow> channel) \<Rightarrow> 'm in_stream \<Rightarrow> 'm list \<Rightarrow> unit handler" where
  "collect_each put st [] ch = (if in_end st = EOF then close_stream st ch else (Err (in_end st), ch))"
| "collect_each put st (m # ms) ch = collect_each put st ms (put m ch)"

definition TraceSegmentReportService_Collect :: "clock \<Rightarrow> msg in_stream \<Rightarrow> unit handler" where
  "TraceSegmentReportService_Collect now st =
     collect_each (\<lambda>m. emit ''grpc-tracing-event'' TracingType (Segment m) now) st (in_messages st)"

text \<open>A segment that cannot be marshalled becomes an event without bytes.\<close>

fun TraceSegmentReportService_CollectInSync :: "('s \<Rightarrow> go_error + msg) \<Rightarrow> clock \<Rightarrow> 's list \<Rightarrow> unit handler" where
  "TraceSegmentReportService_CollectInSync marshal now [] ch = (Ok (), ch)"
| "TraceSegmentReportService_CollectInSync marshal now (segment # segments) ch =
     TraceSegmentReportService_CollectInSync marshal now segments
       (emit ''grpc-tracing-event'' TracingType (Segment (case marshal segment of Inl _ \<Rightarrow> [] | Inr b \<Rightarrow> b)) now ch)"

definition SpanAttachedEventReportService_Collect :: "clock \<Rightarrow> msg in_stream \<Rightarrow> unit handler" where
  "SpanAttachedEventReportService_Collect now st =
     collect_each (\<lambda>m. emit ''grpc-tracing-event'' TracingType (SpanAttachedEvent m) now) st (in_messages st)"

definition ProfileService_CollectSnapshot :: "clock \<Rightarrow> msg in_stream \<Rightarrow> unit handler" where
  "ProfileService_CollectSnapshot now st =
     collect_each (\<lambda>m. emit ''grpc-profile-event'' ProfileType (Profile m) now) st (in_messages st)"

definition EventService_Collect :: "clock \<Rightarrow> msg in_stream \<Rightarrow> unit handler" where
  "EventService_Collect now st =
     collect_each (\<lambda>m. emit ''grpc-nativeevent-event'' EventType (NativeEvent m) now) st (in_messages st)"

definition MeterService_CollectBatch :: "clock \<Rightarrow> meter_data list in_stream \<Rightarrow> unit handler" where
  "MeterService_CollectBatch now st =
     collect_each (\<lambda>ms. emit ''grpc-nativemeter-event'' MeterType (MeterCollection ms) now) st (in_messages st)"

section \<open>Streams with one event per stream\<close>

text \<open>The messages are collected; the end of the stream and every other error flush them.\<close>

fun collect_list :: "('m list \<Rightarrow> channel \<Rightarrow> channel) \<Rightarrow> 'm in_stream \<Rightarrow> 'm list \<Rightarrow> 'm list \<Rightarrow> unit handler" where
  "collect_list flush st [] dataList ch =
     (if in_end st = EOF then close_stream st (flush dataList ch) else (Err (in_end st), flush dataList ch))"
| "collect_list flush st (m # ms) dataList ch = collect_list flush st ms (dataList @ [m]) ch"

definition flushLogs :: "clock \<Rightarrow> msg list \<Rightarrow> channel \<Rightarrow> channel" where
  "flushLogs now dataList ch = (if dataList = [] then ch else emit ''grpc-log-event'' Logging (LogList dataList) now ch)"

definition LogReportService_Collect :: "clock \<Rightarrow> msg in_stream \<Rightarrow> unit handler" where
  "LogReportService_Collect now st = collect_list (flushLogs now) st (in_messages st) []"

definition flushMeter :: "clock \<Rightarrow> meter_data list \<Rightarrow> channel \<Rightarrow> channel" where
  "flushMeter now dataList ch =
     (if dataList = [] then ch else emit ''grpc-nativemeter-event'' MeterType (MeterCollection dataList) now ch)"

definition MeterService_Collect :: "clock \<Rightarrow> meter_data in_stream \<Rightarrow> unit handler" where
  "MeterService_Collect now st = collect_list (flushMeter now) st (in_messages st) []"

text \<open>Access logs and profiling data are sent even when the list is empty.\<close>

definition AccessLogService_sendData :: "clock \<Rightarrow> msg list \<Rightarrow> channel \<Rightarrow> channel" where
  "AccessLogService_sendData now dataList = emit ''grpc-accesslog-event'' EBPFAccessLogType (EBPFAccessLogList dataList) now"

definition AccessLogService_Collect :: "clock \<Rightarrow> msg in_stream \<Rightarrow> unit handler" where
  "AccessLogService_Collect now st = collect_list (AccessLogService_sendData now) st (in_messages st) []"

definition ProfilingReportService_sendData :: "clock \<Rightarrow> msg list \<Rightarrow> msg in_stream \<Rightarrow> unit handler" where
  "ProfilingReportService_sendData now dataList st ch =
     close_stream st (emit ''grpc-ebpfebpfprofiling-event'' EBPFProfilingType (EBPFProfilingDataList dataList) now ch)"

text \<open>Here an error other than \<open>EOF\<close> drops what was collected.\<close>

fun profiling_loop :: "clock \<Rightarrow> msg in_stream \<Rightarrow> msg list \<Rightarrow> msg list \<Rightarrow> unit handler" where
  "profiling_loop now st [] dataList ch =
     (if in_end st = EOF then ProfilingReportService_sendData now dataList st ch else (Err (in_end st), ch))"
| "profiling_loop now st (m # ms) dataList ch = profiling_loop now st ms (dataList @ [m]) ch"

definition ProfilingReportService_CollectProfilingData :: "clock \<Rightarrow> msg in_stream \<Rightarrow> unit handler" where
  "ProfilingReportService_CollectProfilingData now st = profiling_loop now st (in_messages st) []"

section \<open>Single calls\<close>

definition JVMReportService_Collect :: "clock \<Rightarrow> msg \<Rightarrow> unit handler" where
  "JVMReportService_Collect now jvm ch = (Ok (), emit ''grpc-jvm-event'' JVMMetricType (Jvm jvm) now ch)"

definition CLRReportService_Collect :: "clock \<Rightarrow> msg \<Rightarrow> unit handler" where
  "CLRReportService_Collect now clr ch = (Ok (), emit ''grpc-clr-event'' CLRMetricType (Clr clr) now ch)"

definition ManagementReportService_ReportInstanceProperties :: "clock \<Rightarrow> msg \<Rightarrow> unit handler" where
  "ManagementReportService_ReportInstanceProperties now p ch =
     (Ok (), emit ''grpc-management-event'' ManagementType (Instance p) now ch)"

definition ManagementReportService_KeepAlive :: "clock \<Rightarrow> instance_ping \<Rightarrow> unit handler" where
  "ManagementReportService_KeepAlive now p ch =
     (Ok (), emit ''grpc-management-event'' ManagementType (InstancePing p) now ch)"

definition ProcessReportService_KeepAlive :: "clock \<Rightarrow> msg \<Rightarrow> unit handler" where
  "ProcessReportService_KeepAlive now d ch =
     (Ok (), emit ''grpc-ebpfprocess-event'' EBPFProcessType (EBPFProcessPingPkgList d) now ch)"

definition MetricsService_Export :: "clock \<Rightarrow> otlp_request \<Rightarrow> unit handler" where
  "MetricsService_Export now req ch =
     (Ok (), emit ''grpc-envoy-metrics-v3-event'' OpenTelementryMetricsV1Type (OpenTelementryMetricsV1Request req) now ch)"

text \<open>
  The HTTP receiver: the result of reading the body, and whether it is a log message; the answer
  is a status code with a status word. (The timeout of the library around the handler is not
  modelled.)
\<close>

record http_Response =
  resp_code :: int
  resp_Status :: string
  resp_Msg :: string

definition httpHandler :: "(msg \<Rightarrow> go_error option) \<Rightarrow> (go_error \<Rightarrow> string) \<Rightarrow> clock \<Rightarrow> go_error + msg \<Rightarrow> http_Response handler" where
  "httpHandler Unmarshal text now body ch =
     (case body of
        Inl err \<Rightarrow> (Ok \<lparr>resp_code = 400, resp_Status = ''failing'', resp_Msg = text err\<rparr>, ch)
      | Inr b \<Rightarrow>
          (case Unmarshal b of
             Some err \<Rightarrow> (Ok \<lparr>resp_code = 500, resp_Status = ''failing'', resp_Msg = text err\<rparr>, ch)
           | None \<Rightarrow> (Ok \<lparr>resp_code = 200, resp_Status = ''success'', resp_Msg = ''success''\<rparr>,
               emit ''http-nativelog-event'' Logging (LogList [b]) now ch)))"

section \<open>Synchronous calls\<close>

text \<open>
  These services ask the \<open>SyncInvoker\<close> of the pipe, the sender. An answer of another kind than the
  expected one is read as nil.
\<close>

type_synonym 'w SyncInvoker = "sniff_data \<Rightarrow> ('w, sniff_data \<times> nat option) go"

text \<open>The invoker that a receiver is given is the gatherer, which asks the processor, which asks the sender.\<close>

definition processor_SyncInvoke :: "'w SyncInvoker \<Rightarrow> 'w SyncInvoker" where
  "processor_SyncInvoke sender d = sender d"

definition gatherer_SyncInvoke :: "'w SyncInvoker \<Rightarrow> 'w SyncInvoker" where
  "gatherer_SyncInvoke processor d = processor d"

definition sync_event :: "payload \<Rightarrow> sniff_data" where
  "sync_event p = \<lparr>Name = [], Timestamp = 0, Type = Logging, Remote = False, Data = Some p\<rparr>"

definition GetCommands :: "sniff_data \<Rightarrow> msg option" where
  "GetCommands d = (case Data d of Some (Commands m) \<Rightarrow> Some m | _ \<Rightarrow> None)"

definition sync_query :: "'w SyncInvoker \<Rightarrow> payload \<Rightarrow> ('w, msg option) go" where
  "sync_query SyncInvoke p = go_bind (SyncInvoke (sync_event p)) (\<lambda>r. go_return (GetCommands (fst r)))"

definition ProfileService_GetProfileTaskCommands :: "'w SyncInvoker \<Rightarrow> msg \<Rightarrow> ('w, msg option) go" where
  "ProfileService_GetProfileTaskCommands invoker q = sync_query invoker (ProfileTaskQuery q)"

definition ProfileService_ReportTaskFinish :: "'w SyncInvoker \<Rightarrow> msg \<Rightarrow> ('w, msg option) go" where
  "ProfileService_ReportTaskFinish invoker report = sync_query invoker (ProfileTaskFinish report)"

definition CDSService_FetchConfigurations :: "'w SyncInvoker \<Rightarrow> msg \<Rightarrow> ('w, msg option) go" where
  "CDSService_FetchConfigurations invoker req = sync_query invoker (ConfigurationSyncRequest req)"

definition ProfilingReportService_QueryTasks :: "'w SyncInvoker \<Rightarrow> msg \<Rightarrow> ('w, msg option) go" where
  "ProfilingReportService_QueryTasks invoker d = sync_query invoker (EBPFProfilingTaskQuery d)"

definition ContinuousProfiling_QueryPolicies :: "'w SyncInvoker \<Rightarrow> msg \<Rightarrow> ('w, msg option) go" where
  "ContinuousProfiling_QueryPolicies invoker query = sync_query invoker (ContinuousProfilingPolicyQuery query)"

definition ContinuousProfiling_ReportProfilingTask :: "'w SyncInvoker \<Rightarrow> msg \<Rightarrow> ('w, msg option) go" where
  "ContinuousProfiling_ReportProfilingTask invoker report = sync_query invoker (ContinuousProfilingReport report)"

definition GetEBPFReportProcessDownstream :: "sniff_data \<Rightarrow> msg option" where
  "GetEBPFReportProcessDownstream d = (case Data d of Some (EBPFReportProcessDownstream m) \<Rightarrow> Some m | _ \<Rightarrow> None)"

definition ProcessReportService_ReportProcesses :: "'w SyncInvoker \<Rightarrow> msg \<Rightarrow> ('w, msg option) go" where
  "ProcessReportService_ReportProcesses SyncInvoke d =
     go_bind (SyncInvoke (sync_event (EBPFProcessReportList d))) (\<lambda>r. go_return (GetEBPFReportProcessDownstream (fst r)))"

definition AsyncProfilerService_GetAsyncProfilerTaskCommands :: "'w SyncInvoker \<Rightarrow> msg \<Rightarrow> ('w, msg option) go" where
  "AsyncProfilerService_GetAsyncProfilerTaskCommands invoker query = sync_query invoker (AsyncProfilerTaskCommandQuery query)"

text \<open>
  The collection of a profile: the first message goes through the invoker, which answers with a
  stream to the server; the rest is passed on to that stream. Sending on a stream that is nil
  panics.
\<close>

record 'w server_stream =
  ss_SendMsg :: "nat \<Rightarrow> msg \<Rightarrow> ('w, unit) go"
  ss_CloseSend :: "nat \<Rightarrow> ('w, unit) go"

fun jfr_loop :: "'w server_stream \<Rightarrow> msg in_stream \<Rightarrow> nat option \<Rightarrow> msg list \<Rightarrow> ('w, unit) go" where
  "jfr_loop ss st serverStream [] w =
     (if in_end st = EOF
      then case serverStream of
          None \<Rightarrow> (Panic, w)
        | Some s \<Rightarrow> (case ss_CloseSend ss s w of (Panic, w') \<Rightarrow> (Panic, w') | (Hang, w') \<Rightarrow> (Hang, w') | (_, w') \<Rightarrow> (Ok (), w'))
      else (Err (in_end st), w))"
| "jfr_loop ss st serverStream (m # ms) w =
     (case serverStream of
        None \<Rightarrow> (Panic, w)
      | Some s \<Rightarrow>
          (case ss_SendMsg ss s m w of
             (Ok _, w') \<Rightarrow> jfr_loop ss st serverStream ms w'
           | (Err e, w') \<Rightarrow> (Err (Errorf ''satellite send jfr content to server but get err''), w')
           | (Panic, w') \<Rightarrow> (Panic, w')
           | (Hang, w') \<Rightarrow> (Hang, w')))"

definition AsyncProfilerService_Collect ::
    "'w SyncInvoker \<Rightarrow> 'w server_stream \<Rightarrow> (msg \<Rightarrow> go_error option) \<Rightarrow> msg in_stream \<Rightarrow> ('w, unit) go" where
  "AsyncProfilerService_Collect SyncInvoke ss client_Send st w =
     (case in_messages st of
        [] \<Rightarrow> (if in_end st = EOF then (Ok (), w) else (Err (in_end st), w))
      | metaData # rest \<Rightarrow>
          (case SyncInvoke (sync_event (AsyncProfilerData metaData)) w of
             (Ok (d, serverStream), w') \<Rightarrow>
               (case Data d of
                  Some (AsyncProfilerCollectionResponse r) \<Rightarrow>
                    (case client_Send r of
                       Some e \<Rightarrow> if e = EOF then (Ok (), w') else (Err e, w')
                     | None \<Rightarrow> jfr_loop ss st serverStream rest w')
                | _ \<Rightarrow> (Panic, w'))
           | (Err e, w') \<Rightarrow> (Err (Errorf ''satellite send metadata to server but get err''), w')
           | (Panic, w') \<Rightarrow> (Panic, w')
           | (Hang, w') \<Rightarrow> (Hang, w')))"

section \<open>What the streams emit\<close>

lemma emit_payload: "map Data (emit n t p now ch) = map Data ch @ [Some p]"
  by (simp add: emit_def)

text \<open>The result of a handler that ends a stream.\<close>

definition stream_result :: "'m in_stream \<Rightarrow> unit outcome" where
  "stream_result st = (if in_end st = EOF then case in_SendAndClose st of None \<Rightarrow> Ok () | Some e \<Rightarrow> Err e else Err (in_end st))"

lemma collect_each_run: "collect_each put st ms ch = (stream_result st, fold put ms ch)"
  by (induction ms arbitrary: ch) (auto simp: stream_result_def close_stream_def split: option.splits)

lemma collect_list_run: "collect_list flush st ms dataList ch = (stream_result st, flush (dataList @ ms) ch)"
  by (induction ms arbitrary: dataList) (auto simp: stream_result_def close_stream_def split: option.splits)

lemma profiling_loop_run:
  "profiling_loop now st ms dataList ch =
     (stream_result st, if in_end st = EOF then emit ''grpc-ebpfebpfprofiling-event'' EBPFProfilingType (EBPFProfilingDataList (dataList @ ms)) now ch else ch)"
  by (induction ms arbitrary: dataList)
    (auto simp: stream_result_def close_stream_def ProfilingReportService_sendData_def split: option.splits)

text \<open>Events in sequence, each with its time.\<close>

fun emit_all :: "string \<Rightarrow> SniffType \<Rightarrow> clock \<Rightarrow> payload list \<Rightarrow> channel \<Rightarrow> channel" where
  "emit_all n t now [] ch = ch"
| "emit_all n t now (p # ps) ch = emit_all n t now ps (emit n t p now ch)"

lemma fold_emit: "fold (\<lambda>m. emit n t (f m) now) ms ch = emit_all n t now (map f ms) ch"
  by (induction ms arbitrary: ch) simp_all

text \<open>The events that a handler added to the channel: their payloads, and that they are remote events of one type.\<close>

definition added :: "SniffType \<Rightarrow> payload list \<Rightarrow> channel \<Rightarrow> channel \<Rightarrow> bool" where
  "added t ps ch ch' \<longleftrightarrow> (\<exists>es. ch' = ch @ es \<and> map Data es = map Some ps \<and> list_all (\<lambda>e. Type e = t \<and> Remote e) es)"

lemma added_Nil [simp]: "added t [] ch ch"
  by (simp add: added_def)

lemma added_emit [simp]: "added t [p] ch (emit n t p now ch)"
  by (simp add: added_def emit_def)

lemma added_trans: "added t ps ch ch1 \<Longrightarrow> added t qs ch1 ch2 \<Longrightarrow> added t (ps @ qs) ch ch2"
  unfolding added_def by (elim exE conjE, rename_tac es fs, rule_tac x = "es @ fs" in exI) simp

lemma added_emit_all: "added t ps ch (emit_all n t now ps ch)"
proof (induction ps arbitrary: ch)
  case (Cons p ps)
  from added_trans [OF added_emit [of t p ch n now] Cons.IH] show ?case by simp
qed simp

lemma added_each: "added t (map f ms) ch (snd (collect_each (\<lambda>m. emit n t (f m) now) st ms ch))"
  by (simp add: collect_each_run fold_emit added_emit_all)

end
