(* ===== verification/Receiver_Table.thy ===== *)
theory Receiver_Table
  imports Receivers Plugin_Catalogue "HOL-Library.Sublist"
begin

text \<open>
  The methods by which a receiver is set up: \<open>RegisterHandler\<close> checks the type of the server, makes
  the output channel and registers the services; \<open>RegisterSyncInvoker\<close> keeps the invoker or not;
  \<open>SupportForwarders\<close> names the forwarders for its events. A service of the old protocol is a
  wrapper that calls the new one; it is registered under a name of its own. Each receiver is a
  table of these. The services of a gRPC server are a list of names; registering one is a call of
  the gRPC library, which ends the process when there is one of this name already.
  Besides, \<open>plugins/server/http/server.go\<close>.
\<close>

section \<open>The HTTP server\<close>

text \<open>
  The multiplexer of the standard library is the list of its patterns; a pattern that is empty or
  registered already is a panic. There is none before \<open>Prepare\<close>. \<open>Start\<close> only leaves the listening to a
  goroutine, \<open>Close\<close> only writes a line of log.
\<close>

record http_server =
  hs_Address :: string
  hs_Server :: "string list option"

definition http_Prepare :: "(http_server, unit) go" where
  "http_Prepare s = (Ok (), s\<lparr>hs_Server := Some []\<rparr>)"

definition http_Start :: "(http_server, unit) go" where
  "http_Start s = (Ok (), s)"

definition http_Close :: "(http_server, unit) go" where
  "http_Close s = (Ok (), s)"

datatype server_handle = GrpcServer "string list" | HttpServer http_server | OtherServer

definition http_GetServer :: "http_server \<Rightarrow> server_handle" where
  "http_GetServer s = HttpServer s"

section \<open>Registering receivers\<close>

text \<open>The cast and the new, empty channel.\<close>

definition InitCommonGRPCReceiverFields :: "server_handle \<Rightarrow> (string list \<times> channel) outcome" where
  "InitCommonGRPCReceiverFields server = (case server of GrpcServer reg \<Rightarrow> Ok (reg, []) | _ \<Rightarrow> Panic)"

record receiver_table =
  rc_Name :: string
  rc_services :: "string list"
  rc_SyncInvoker :: bool
  rc_SupportForwarders :: "string list"

text \<open>\<open>RegisterService\<close> of the gRPC library, with what it does to the names.\<close>

type_synonym grpc_registrar = "string \<Rightarrow> string list \<Rightarrow> string list outcome"

definition registrar_laws :: "grpc_registrar \<Rightarrow> bool" where
  "registrar_laws RegisterService \<longleftrightarrow>
     (\<forall>s reg. s \<notin> set reg \<longrightarrow> RegisterService s reg = Ok (reg @ [s])) \<and> (\<forall>s reg. s \<in> set reg \<longrightarrow> RegisterService s reg = Panic)"

fun register_services :: "grpc_registrar \<Rightarrow> string list \<Rightarrow> string list \<Rightarrow> string list outcome" where
  "register_services RegisterService [] reg = Ok reg"
| "register_services RegisterService (s # ss) reg = out_bind (RegisterService s reg) (register_services RegisterService ss)"

definition grpc_RegisterHandler :: "grpc_registrar \<Rightarrow> receiver_table \<Rightarrow> server_handle \<Rightarrow> (server_handle \<times> channel) outcome" where
  "grpc_RegisterHandler RegisterService r server =
     out_bind (InitCommonGRPCReceiverFields server) (\<lambda>(reg, OutputChannel).
     out_bind (register_services RegisterService (rc_services r) reg) (\<lambda>reg'. Ok (GrpcServer reg', OutputChannel)))"

definition mux_Handle :: "string \<Rightarrow> string list \<Rightarrow> string list outcome" where
  "mux_Handle pattern mux = (if pattern = [] \<or> pattern \<in> set mux then Panic else Ok (mux @ [pattern]))"

definition http_RegisterHandler :: "string \<Rightarrow> server_handle \<Rightarrow> (server_handle \<times> channel) outcome" where
  "http_RegisterHandler URI server =
     (case server of
        HttpServer s \<Rightarrow>
          (case hs_Server s of
             None \<Rightarrow> Panic
           | Some mux \<Rightarrow> out_bind (mux_Handle URI mux) (\<lambda>mux'. Ok (HttpServer (s\<lparr>hs_Server := Some mux'\<rparr>), [])))
      | _ \<Rightarrow> Panic)"

definition nativelog_receiver :: receiver_table where
  "nativelog_receiver = \<lparr>rc_Name = ''grpc-native-log-receiver'', rc_services = [''LogReportService''], rc_SyncInvoker = False,
     rc_SupportForwarders = [''native-log-grpc-forwarder'']\<rparr>"

definition nativemanagement_receiver :: receiver_table where
  "nativemanagement_receiver = \<lparr>rc_Name = ''grpc-native-management-receiver'',
     rc_services = [''ManagementService'', ''compat.ManagementService''], rc_SyncInvoker = False,
     rc_SupportForwarders = [''native-management-grpc-forwarder'']\<rparr>"

definition nativetracing_receiver :: receiver_table where
  "nativetracing_receiver = \<lparr>rc_Name = ''grpc-native-tracing-receiver'',
     rc_services = [''TraceSegmentReportService'', ''SpanAttachedEventReportService'', ''compat.TraceSegmentReportService''],
     rc_SyncInvoker = False, rc_SupportForwarders = [''native-tracing-grpc-forwarder'']\<rparr>"

definition nativeprofile_receiver :: receiver_table where
  "nativeprofile_receiver = \<lparr>rc_Name = ''grpc-native-profile-receiver'', rc_services = [''ProfileTask'', ''compat.ProfileTask''],
     rc_SyncInvoker = True, rc_SupportForwarders = [''native-profile-grpc-forwarder'']\<rparr>"

definition nativecds_receiver :: receiver_table where
  "nativecds_receiver = \<lparr>rc_Name = ''grpc-native-cds-receiver'', rc_services = [''ConfigurationDiscoveryService''],
     rc_SyncInvoker = True, rc_SupportForwarders = [''native-cds-grpc-forwarder'']\<rparr>"

definition http_nativelog_receiver :: receiver_table where
  "http_nativelog_receiver = \<lparr>rc_Name = ''http-native-log-receiver'', rc_services = [], rc_SyncInvoker = False,
     rc_SupportForwarders = [''native-log-grpc-forwarder'']\<rparr>"

definition nativejvm_receiver :: receiver_table where
  "nativejvm_receiver = \<lparr>rc_Name = ''grpc-native-jvm-receiver'', rc_services = [''JVMMetricReportService'', ''compat.JVMMetricReportService''],
     rc_SyncInvoker = False, rc_SupportForwarders = [''native-jvm-grpc-forwarder'']\<rparr>"

definition nativeclr_receiver :: receiver_table where
  "nativeclr_receiver = \<lparr>rc_Name = ''grpc-native-clr-receiver'', rc_services = [''CLRMetricReportService'', ''compat.CLRMetricReportService''],
     rc_SyncInvoker = False, rc_SupportForwarders = [''native-clr-grpc-forwarder'']\<rparr>"

definition nativeevent_receiver :: receiver_table where
  "nativeevent_receiver = \<lparr>rc_Name = ''grpc-native-event-receiver'', rc_services = [''EventService''], rc_SyncInvoker = False,
     rc_SupportForwarders = [''native-event-grpc-forwarder'']\<rparr>"

definition nativemeter_receiver :: receiver_table where
  "nativemeter_receiver = \<lparr>rc_Name = ''grpc-native-meter-receiver'', rc_services = [''MeterReportService'', ''compat.MeterReportService''],
     rc_SyncInvoker = False, rc_SupportForwarders = [''native-meter-grpc-forwarder'']\<rparr>"

definition nativeprocess_receiver :: receiver_table where
  "nativeprocess_receiver = \<lparr>rc_Name = ''grpc-native-process-receiver'', rc_services = [''EBPFProcessService''],
     rc_SyncInvoker = True, rc_SupportForwarders = [''native-process-grpc-forwarder'']\<rparr>"

definition ebpfprofiling_receiver :: receiver_table where
  "ebpfprofiling_receiver = \<lparr>rc_Name = ''grpc-native-ebpf-profiling-receiver'',
     rc_services = [''EBPFProfilingService'', ''ContinuousProfilingService''], rc_SyncInvoker = True,
     rc_SupportForwarders = [''native-ebpf-profiling-grpc-forwarder'']\<rparr>"

definition envoyalsv2_receiver :: receiver_table where
  "envoyalsv2_receiver = \<lparr>rc_Name = ''grpc-envoy-als-v2-receiver'', rc_services = [''v2.AccessLogService''], rc_SyncInvoker = False,
     rc_SupportForwarders = [''envoy-als-v2-grpc-forwarder'']\<rparr>"

definition envoyalsv3_receiver :: receiver_table where
  "envoyalsv3_receiver = \<lparr>rc_Name = ''grpc-envoy-als-v3-receiver'', rc_services = [''v3.AccessLogService''], rc_SyncInvoker = False,
     rc_SupportForwarders = [''envoy-als-v3-grpc-forwarder'']\<rparr>"

definition envoymetricsv2_receiver :: receiver_table where
  "envoymetricsv2_receiver = \<lparr>rc_Name = ''grpc-envoy-metrics-v2-receiver'', rc_services = [''v2.MetricsService''], rc_SyncInvoker = False,
     rc_SupportForwarders = [''envoy-metrics-v2-grpc-forwarder'']\<rparr>"

definition envoymetricsv3_receiver :: receiver_table where
  "envoymetricsv3_receiver = \<lparr>rc_Name = ''grpc-envoy-metrics-v3-receiver'', rc_services = [''v3.MetricsService''], rc_SyncInvoker = False,
     rc_SupportForwarders = [''envoy-metrics-v3-grpc-forwarder'']\<rparr>"

definition otlp_receiver :: receiver_table where
  "otlp_receiver = \<lparr>rc_Name = ''grpc-otlp-metrics-v1-receiver'', rc_services = [''otlp.MetricsService''], rc_SyncInvoker = False,
     rc_SupportForwarders = [''otlp-metrics-v1-grpc-forwarder'']\<rparr>"

definition ebpfaccesslog_receiver :: receiver_table where
  "ebpfaccesslog_receiver = \<lparr>rc_Name = ''grpc-native-ebpf-accesslog-receiver'', rc_services = [''EBPFAccessLogService''],
     rc_SyncInvoker = False, rc_SupportForwarders = [''native-ebpf-accesslog-grpc-forwarder'']\<rparr>"

definition asyncprofiler_receiver :: receiver_table where
  "asyncprofiler_receiver = \<lparr>rc_Name = ''grpc-native-async-profiler-receiver'', rc_services = [''AsyncProfilerTask''],
     rc_SyncInvoker = True, rc_SupportForwarders = [''native-async-profiler-grpc-forwarder'']\<rparr>"

definition receivers :: "receiver_table list" where
  "receivers = [nativelog_receiver, nativemanagement_receiver, nativetracing_receiver, nativeprofile_receiver, nativecds_receiver,
     http_nativelog_receiver, nativejvm_receiver, nativeclr_receiver, nativeevent_receiver, nativemeter_receiver, nativeprocess_receiver,
     ebpfprofiling_receiver, envoyalsv2_receiver, envoyalsv3_receiver, envoymetricsv2_receiver, envoymetricsv3_receiver, otlp_receiver,
     ebpfaccesslog_receiver, asyncprofiler_receiver]"

lemmas receiver_defs = nativelog_receiver_def nativemanagement_receiver_def nativetracing_receiver_def nativeprofile_receiver_def
  nativecds_receiver_def http_nativelog_receiver_def nativejvm_receiver_def nativeclr_receiver_def nativeevent_receiver_def
  nativemeter_receiver_def nativeprocess_receiver_def ebpfprofiling_receiver_def envoyalsv2_receiver_def envoyalsv3_receiver_def
  envoymetricsv2_receiver_def envoymetricsv3_receiver_def otlp_receiver_def ebpfaccesslog_receiver_def asyncprofiler_receiver_def

lemma receivers_names: "map rc_Name receivers = receiver_names"
  by (simp add: receivers_def receiver_defs receiver_names_def)

section \<open>Receivers on one server\<close>

text \<open>All receivers on one server register different services.\<close>

lemma receivers_services: "distinct (concat (map rc_services receivers))"
  by (simp add: receivers_def receiver_defs)

text \<open>The receivers of several pipes on the same shared server, one after the other.\<close>

fun register_receivers :: "grpc_registrar \<Rightarrow> receiver_table list \<Rightarrow> server_handle \<Rightarrow> server_handle outcome" where
  "register_receivers RegisterService [] server = Ok server"
| "register_receivers RegisterService (r # rs) server =
     out_bind (grpc_RegisterHandler RegisterService r server) (\<lambda>x. register_receivers RegisterService rs (fst x))"

lemma register_services_new:
  assumes "registrar_laws R" and "distinct ss" and "set ss \<inter> set reg = {}"
  shows "register_services R ss reg = Ok (reg @ ss)"
  using assms(2,3)
proof (induction ss arbitrary: reg)
  case (Cons s ss)
  then have "R s reg = Ok (reg @ [s])" using assms(1) by (simp add: registrar_laws_def)
  with Cons show ?case by simp
qed simp

lemma register_services_again:
  assumes "registrar_laws R" and "s \<in> set ss" and "s \<in> set reg"
  shows "register_services R ss reg = Panic"
  using assms(2,3)
proof (induction ss arbitrary: reg)
  case (Cons t ss)
  show ?case
  proof (cases "t \<in> set reg")
    case True
    then show ?thesis using assms(1) by (simp add: registrar_laws_def)
  next
    case False
    then have "R t reg = Ok (reg @ [t])" using assms(1) by (simp add: registrar_laws_def)
    moreover have "s \<in> set ss" using Cons.prems False by auto
    ultimately show ?thesis using Cons.IH [of "reg @ [t]"] Cons.prems by simp
  qed
qed simp

lemma register_receivers_new:
  assumes "registrar_laws R" and "distinct (concat (map rc_services rs))" and "set (concat (map rc_services rs)) \<inter> set reg = {}"
  shows "register_receivers R rs (GrpcServer reg) = Ok (GrpcServer (reg @ concat (map rc_services rs)))"
  using assms(2,3)
proof (induction rs arbitrary: reg)
  case (Cons r rs)
  then have "register_services R (rc_services r) reg = Ok (reg @ rc_services r)"
    by (intro register_services_new [OF assms(1)]) auto
  moreover have "register_receivers R rs (GrpcServer (reg @ rc_services r)) = Ok (GrpcServer ((reg @ rc_services r) @ concat (map rc_services rs)))"
    using Cons.prems by (intro Cons.IH) auto
  ultimately show ?case by (simp add: grpc_RegisterHandler_def InitCommonGRPCReceiverFields_def)
qed simp

text \<open>
  Every choice of different receivers can share one gRPC server; the same receiver in a second
  pipe ends the process.
\<close>

lemma receivers_share_server:
  assumes "registrar_laws R" and "subseq rs receivers"
  shows "register_receivers R rs (GrpcServer []) = Ok (GrpcServer (concat (map rc_services rs)))"
proof -
  have "subseq (concat (map rc_services rs)) (concat (map rc_services receivers))"
    using assms(2) by (induction rule: list_emb.induct) (auto intro: list_emb_append_mono list_emb_append2)
  then have "distinct (concat (map rc_services rs))" using receivers_services by (auto simp: subseq_conv_nths)
  from register_receivers_new [OF assms(1) this, of "[]"] show ?thesis by simp
qed

lemma receiver_twice_panics:
  assumes "registrar_laws R" and "rc_services r \<noteq> []" and "set (rc_services r) \<subseteq> set reg"
  shows "grpc_RegisterHandler R r (GrpcServer reg) = Panic"
  using register_services_again [OF assms(1), of "hd (rc_services r)" "rc_services r" reg] assms(2,3)
  by (auto simp: grpc_RegisterHandler_def InitCommonGRPCReceiverFields_def hd_in_set subset_iff)

lemma http_twice_panics:
  "URI \<noteq> [] \<Longrightarrow> http_RegisterHandler URI (http_GetServer (snd (http_Prepare s)))
     = Ok (HttpServer (s\<lparr>hs_Server := Some [URI]\<rparr>), []) \<and> http_RegisterHandler URI (HttpServer (s\<lparr>hs_Server := Some [URI]\<rparr>)) = Panic"
  by (simp add: http_RegisterHandler_def http_GetServer_def http_Prepare_def mux_Handle_def)

lemma receivers_forwarders: "list_all (\<lambda>r. rc_SupportForwarders r \<noteq> [] \<and> set (rc_SupportForwarders r) \<subseteq> set (catalogue Forwarder)) receivers"
  by (simp add: receivers_def receiver_defs forwarder_names_def)

end
