(* ===== verification/Default_Configs.thy ===== *)
theory Default_Configs
  imports Plugin_Table Docs_Menu Receiver_Table Mmap_Properties
begin

text \<open>
  The settings that the plugins come with: they fit the structs that take them, and those of the
  memory mapped queue satisfy what its correctness needs. Besides, the documentation of the
  satellite's own plugins.
\<close>

section \<open>Keys\<close>

definition meta_ok :: "plugin_meta \<Rightarrow> bool" where
  "meta_ok p \<longleftrightarrow> pm_Name p \<in> set (catalogue (pm_Category p)) \<and> distinct (top_keys (pm_DefaultConfig p)) \<and>
     list_all (\<lambda>k. k \<in> set (pm_tags p)) (top_keys (pm_DefaultConfig p))"

lemma table_ok: "list_all meta_ok plugin_table"
  by code_simp

lemma table_names: "map (\<lambda>p. (pm_Category p, pm_Name p)) plugin_table =
    concat (map (\<lambda>c. map (Pair c) (catalogue c)) [Forwarder, Queue, Receiver, Fallbacker, Server, Client])"
  by code_simp


section \<open>The memory mapped queue\<close>

text \<open>A queue that was created with its default configuration.\<close>

definition by_default :: "'f mmap_queue \<Rightarrow> bool" where
  "by_default q \<longleftrightarrow>
     (let ls = pm_DefaultConfig meta_mmap_queue in
      Some (SegmentSize q) = int_of ''segment_size'' ls \<and> Some (MaxInMemSegments q) = int_of ''max_in_mem_segments'' ls \<and>
      Some (QueueCapacitySegments q) = int_of ''queue_capacity_segments'' ls \<and> Some (MaxEventSize q) = int_of ''max_event_size'' ls)"

lemma default_texts:
  "value_of ''segment_size'' (pm_DefaultConfig meta_mmap_queue) = Some ''262114''"
  "value_of ''max_in_mem_segments'' (pm_DefaultConfig meta_mmap_queue) = Some ''10''"
  "value_of ''queue_capacity_segments'' (pm_DefaultConfig meta_mmap_queue) = Some ''2000''"
  "value_of ''max_event_size'' (pm_DefaultConfig meta_mmap_queue) = Some ''20480''"
  by code_simp+

lemma by_default_values:
  "by_default q \<longleftrightarrow> SegmentSize q = 262114 \<and> MaxInMemSegments q = 10 \<and> QueueCapacitySegments q = 2000 \<and> MaxEventSize q = 20480"
  by (simp add: by_default_def Let_def int_of_def default_texts ParseInt_def digits_val_def digit_val_def is_digit_def MaxInt64_def)


definition shipped_queue :: "byte list mmap_queue" where
  "shipped_queue = (new_queue 2000)\<lparr>SegmentSize := 262114, MaxInMemSegments := 10, MaxEventSize := 20480\<rparr>"

definition paged_os :: os_env where
  "paged_os = quiet_os\<lparr>os_pagesize := 4096\<rparr>"


section \<open>The documentation of the satellite\<close>

definition meta_of :: "category \<Rightarrow> string \<Rightarrow> plugin_meta option" where
  "meta_of c n = find (\<lambda>p. pm_Category p = c \<and> pm_Name p = n) plugin_table"

definition forwarders_of :: "string \<Rightarrow> string list" where
  "forwarders_of n = (case find (\<lambda>r. rc_Name r = n) receivers of None \<Rightarrow> [] | Some r \<Rightarrow> rc_SupportForwarders r)"

text \<open>What the methods of the plugins return; the struct types come from the parser.\<close>

definition satellite_info :: "(category \<Rightarrow> string \<Rightarrow> go_struct) \<Rightarrow> category \<Rightarrow> string \<Rightarrow> plugin_info" where
  "satellite_info types c n =
     (case meta_of c n of
        None \<Rightarrow> \<lparr>pi_ShowName = [], pi_Description = [], pi_DefaultConfig = [], pi_SupportForwarders = [], pi_Type = types c n\<rparr>
      | Some p \<Rightarrow> \<lparr>pi_ShowName = pm_ShowName p, pi_Description = pm_Description p, pi_DefaultConfig = Lines (pm_DefaultConfig p),
                  pi_SupportForwarders = (if c = Receiver then forwarders_of n else []), pi_Type = types c n\<rparr>)"

lemma forwarders_of_known: "f \<in> set (forwarders_of n) \<Longrightarrow> f \<in> set forwarder_names"
proof (cases "find (\<lambda>r. rc_Name r = n) receivers")
  case (Some r)
  assume "f \<in> set (forwarders_of n)"
  moreover have "r \<in> set receivers" using Some by (auto simp: find_Some_iff)
  ultimately show ?thesis using receivers_forwarders Some by (auto simp: forwarders_of_def list_all_iff)
qed (simp add: forwarders_of_def)

lemma satellite_forwarders: "f \<in> set (pi_SupportForwarders (satellite_info types c n)) \<Longrightarrow> f \<in> set (catalogue Forwarder)"
  by (auto simp: satellite_info_def forwarders_of_known split: option.splits if_splits)

text \<open>On the page of a receiver every link to a forwarder leads to a page that was written.\<close>

lemma support_links:
  assumes "GeneratePluginDoc fill (env\<lparr>info := satellite_info types\<rparr>) yaml Reg0 root menuPath pluginPath fs = (Ok u, fs')"
    and "f \<in> set (pi_SupportForwarders (satellite_info types c n))"
  shows "written fs' (root @ pluginPath @ ''/'' @ getPluginDocFileName ''Forwarder'' f)"
  using pages_written [OF assms(1), of f Forwarder] satellite_forwarders [OF assms(2)] by (simp add: page_of_def)

end
