(* ===== verification/Prometheus.thy ===== *)
theory Prometheus
  imports Telemetry_Properties
begin

text \<open>
  \<open>internal/satellite/telemetry/prometheus\<close> and \<open>pprof\<close>: the exporters beside the metrics service. The
  Prometheus library is a parameter: its registry, the registration of a collector, which panics
  when the library refuses it, and the calls on the vectors of a registry, which are named here by the
  collector. The HTTP endpoint that serves the registry is not modelled.
\<close>

section \<open>The library\<close>

datatype ('x, 'v) collector =
    CounterVec string "string list"
  | GaugeVec string "string list"
  | GaugeFunc string "(string \<times> string) list" "'x \<Rightarrow> 'v"
  | ProcessCollector
  | GoCollector

text \<open>
  \<open>accepts\<close>, \<open>vec_labels\<close>, \<open>vec_reads\<close> and \<open>addable\<close> say what the library documents: which collectors can
  be registered, the labels of a registered counter vector, what is read of it, and that a counter
  takes no negative values.
\<close>

record ('r, 'x, 'v) prom_lib =
  NewRegistry :: "(string \<times> string) list \<Rightarrow> 'r"
  MustRegister :: "('x, 'v) collector \<Rightarrow> ('r, unit) go"
  CounterVec_Add :: "string \<Rightarrow> 'v \<Rightarrow> string list \<Rightarrow> ('r, unit) go"
  CounterVec_Inc :: "string \<Rightarrow> string list \<Rightarrow> ('r, unit) go"
  GaugeVec_Inc :: "string \<Rightarrow> string list \<Rightarrow> ('r, unit) go"
  GaugeVec_Dec :: "string \<Rightarrow> string list \<Rightarrow> ('r, unit) go"
  accepts :: "'r \<Rightarrow> ('x, 'v) collector \<Rightarrow> bool"
  vec_labels :: "'r \<Rightarrow> string \<Rightarrow> string list option"
  vec_reads :: "'r \<Rightarrow> string \<Rightarrow> string list \<Rightarrow> 'v option"
  addable :: "'v \<Rightarrow> bool"

definition prom_laws :: "('r, 'x, 'v :: {plus, zero, one}) prom_lib \<Rightarrow> bool" where
  "prom_laws lib \<longleftrightarrow>
     (\<forall>r name labels. accepts lib r (CounterVec name labels) \<longrightarrow>
        (\<exists>r'. MustRegister lib (CounterVec name labels) r = (Ok (), r') \<and> vec_labels lib r' name = Some labels \<and>
           vec_reads lib r' name = Map.empty)) \<and>
     (\<forall>r name labels ls v. vec_labels lib r name = Some labels \<longrightarrow> labels_valid labels ls \<longrightarrow> addable lib v \<longrightarrow>
        (\<exists>r'. CounterVec_Add lib name v ls r = (Ok (), r') \<and> vec_labels lib r' name = Some labels \<and>
           vec_reads lib r' name = (vec_reads lib r name)(ls \<mapsto> (case vec_reads lib r name ls of None \<Rightarrow> 0 | Some x \<Rightarrow> x) + v))) \<and>
     (\<forall>r name ls. CounterVec_Inc lib name ls r = CounterVec_Add lib name 1 ls r)"

section \<open>server.go\<close>

text \<open>What the container holds: the timer has the names of its two counters.\<close>

datatype prom_metric = PCounter string | PGauge string | PDynamicGauge string | PTimer string string

record 'r prom_server =
  prom_registry :: 'r
  collectorContainer :: "(string \<times> prom_metric) list"

type_synonym ('r, 'a) prom = "('r prom_server, 'a) go"

definition on_prom :: "('r, 'a) go \<Rightarrow> ('r, 'a) prom" where
  "on_prom call s = (case call (prom_registry s) of (r, reg) \<Rightarrow> (r, s\<lparr>prom_registry := reg\<rparr>))"

text \<open>The collectors come with a name for the log.\<close>

fun prom_Register :: "('r, 'x, 'v) prom_lib \<Rightarrow> (string \<times> ('x, 'v) collector) list \<Rightarrow> ('r, unit) prom" where
  "prom_Register lib [] s = (Ok (), s)"
| "prom_Register lib ((name, c) # ms) s = go_bind (on_prom (MustRegister lib c)) (\<lambda>_. prom_Register lib ms) s"

definition meta_labels :: "tel_config \<Rightarrow> (string \<times> string) list" where
  "meta_labels config =
     (if tc_Cluster config \<noteq> [] then [(''cluster'', tc_Cluster config)] else []) @
     (if tc_Service config \<noteq> [] then [(''service'', tc_Service config)] else []) @
     (if tc_Instance config \<noteq> [] then [(''instance'', tc_Instance config)] else [])"

definition prom_Start :: "('r, 'x, 'v) prom_lib \<Rightarrow> tel_config \<Rightarrow> ('r, unit) prom" where
  "prom_Start lib config s =
     prom_Register lib [(''processor_collector'', ProcessCollector), (''go_collector'', GoCollector)]
       \<lparr>prom_registry = NewRegistry lib (meta_labels config), collectorContainer = []\<rparr>"

definition hold :: "string \<Rightarrow> prom_metric \<Rightarrow> ('r, prom_metric) prom" where
  "hold name metric s = (Ok metric, s\<lparr>collectorContainer := AList.update name metric (collectorContainer s)\<rparr>)"

section \<open>counter.go\<close>

text \<open>The last step is the type assertion.\<close>

definition prom_NewCounter :: "('r, 'x, 'v) prom_lib \<Rightarrow> string \<Rightarrow> string list \<Rightarrow> ('r, string) prom" where
  "prom_NewCounter lib name labels =
     go_bind (\<lambda>s. case map_of (collectorContainer s) name of
         Some collector \<Rightarrow> (Ok collector, s)
       | None \<Rightarrow> go_bind (prom_Register lib [(name, CounterVec name labels)]) (\<lambda>_. hold name (PCounter name)) s)
     (\<lambda>collector s. case collector of PCounter n \<Rightarrow> (Ok n, s) | _ \<Rightarrow> (Panic, s))"

definition prom_counter :: "('r, 'x, 'v) prom_lib \<Rightarrow> string \<Rightarrow> ('r prom_server, 'v) counter" where
  "prom_counter lib name = \<lparr>c_Inc = (\<lambda>ls. on_prom (CounterVec_Inc lib name ls)), c_Add = (\<lambda>v ls. on_prom (CounterVec_Add lib name v ls))\<rparr>"

section \<open>gauge.go\<close>

definition prom_rebuildGaugeName :: "string \<Rightarrow> string list \<Rightarrow> string" where
  "prom_rebuildGaugeName name labels = name @ concat (map (\<lambda>l. ''_'' @ l) labels)"

text \<open>The labels are pairs; a last one without a value is out of range.\<close>

fun constLabels :: "string list \<Rightarrow> (string \<times> string) list \<Rightarrow> (string \<times> string) list outcome" where
  "constLabels [] m = Ok m"
| "constLabels [l] m = Panic"
| "constLabels (l # v # ls) m = constLabels ls (AList.update l v m)"

definition prom_NewGauge :: "('r, 'x, 'v) prom_lib \<Rightarrow> string \<Rightarrow> ('x \<Rightarrow> 'v) \<Rightarrow> string list \<Rightarrow> ('r, unit) prom" where
  "prom_NewGauge lib name getter labels s =
     (case constLabels labels [] of
        Ok m \<Rightarrow>
          (let rebuildName = prom_rebuildGaugeName name labels
           in case map_of (collectorContainer s) rebuildName of
                Some collector \<Rightarrow> (Ok (), s)
              | None \<Rightarrow>
                  go_bind (prom_Register lib [(rebuildName, GaugeFunc name m getter)])
                    (\<lambda>_. go_bind (hold rebuildName (PGauge name)) (\<lambda>_. go_return ())) s)
      | _ \<Rightarrow> (Panic, s))"

definition prom_NewDynamicGauge :: "('r, 'x, 'v) prom_lib \<Rightarrow> string \<Rightarrow> string list \<Rightarrow> ('r, string) prom" where
  "prom_NewDynamicGauge lib name labels =
     go_bind (\<lambda>s. let rebuildName = prom_rebuildGaugeName name labels
       in case map_of (collectorContainer s) rebuildName of
            Some collector \<Rightarrow> (Ok collector, s)
          | None \<Rightarrow> go_bind (prom_Register lib [(rebuildName, GaugeVec name labels)]) (\<lambda>_. hold rebuildName (PDynamicGauge name)) s)
     (\<lambda>collector s. case collector of PDynamicGauge n \<Rightarrow> (Ok n, s) | _ \<Rightarrow> (Panic, s))"

definition prom_gauge :: "('r, 'x, 'v) prom_lib \<Rightarrow> string \<Rightarrow> 'r prom_server dynamic_gauge" where
  "prom_gauge lib name = \<lparr>g_Inc = (\<lambda>ls. on_prom (GaugeVec_Inc lib name ls)), g_Dec = (\<lambda>ls. on_prom (GaugeVec_Dec lib name ls))\<rparr>"

section \<open>timer.go\<close>

definition prom_NewTimer :: "('r, 'x, 'v) prom_lib \<Rightarrow> string \<Rightarrow> string list \<Rightarrow> ('r, string \<times> string) prom" where
  "prom_NewTimer lib name labels =
     go_bind (\<lambda>s. case map_of (collectorContainer s) name of
         Some collector \<Rightarrow> (Ok collector, s)
       | None \<Rightarrow>
           go_bind (prom_NewCounter lib (name @ ''_sum'') labels) (\<lambda>sumCounter.
           go_bind (prom_NewCounter lib (name @ ''_count'') labels) (\<lambda>countCounter.
             hold name (PTimer sumCounter countCounter))) s)
     (\<lambda>collector s. case collector of PTimer a b \<Rightarrow> (Ok (a, b), s) | _ \<Rightarrow> (Panic, s))"

definition prom_AddTime :: "('r, 'x, 'v) prom_lib \<Rightarrow> (int \<Rightarrow> 'v) \<Rightarrow> string \<times> string \<Rightarrow> int \<Rightarrow> string list \<Rightarrow> ('r, unit) prom" where
  "prom_AddTime lib f64 t d ls =
     go_bind (c_Add (prom_counter lib (fst t)) (f64 (sgn d * (\<bar>d\<bar> div 1000000))) ls) (\<lambda>_. c_Inc (prom_counter lib (snd t)) ls)"

definition prom_timer :: "('r, 'x, 'v) prom_lib \<Rightarrow> (int \<Rightarrow> 'v) \<Rightarrow> string \<times> string \<Rightarrow> 'r prom_server timer" where
  "prom_timer lib f64 t =
     \<lparr>t_Start = (\<lambda>startTime ls. go_return (\<lambda>now. prom_AddTime lib f64 t (now - startTime) ls)), t_AddTime = prom_AddTime lib f64 t\<rparr>"

definition prometheus_server :: "('r, 'x, 'v) prom_lib \<Rightarrow> (int \<Rightarrow> 'v) \<Rightarrow> ('x, 'r prom_server, 'v) tel_server" where
  "prometheus_server lib f64 =
     \<lparr>ts_Start = prom_Start lib, ts_AfterSharingStart = go_return (), ts_Close = go_return (),
      ts_NewCounter = (\<lambda>name labels. go_bind (prom_NewCounter lib name labels) (\<lambda>n. go_return (prom_counter lib n))),
      ts_NewGauge = prom_NewGauge lib,
      ts_NewDynamicGauge = (\<lambda>name labels. go_bind (prom_NewDynamicGauge lib name labels) (\<lambda>n. go_return (prom_gauge lib n))),
      ts_NewTimer = (\<lambda>name labels. go_bind (prom_NewTimer lib name labels) (\<lambda>t. go_return (prom_timer lib f64 t)))\<rparr>"

section \<open>pprof\<close>

text \<open>A server of profiles that counts nothing; closing it is closing its HTTP server.\<close>

definition pprof_server :: "('w, unit) go \<Rightarrow> ('x, 'w, 'f) tel_server" where
  "pprof_server http_Close = none_server\<lparr>ts_Close := http_Close\<rparr>"

end
