(* ===== verification/Exporters.thy ===== *)
theory Exporters
  imports Prometheus
begin

text \<open>
  Several exporters at once. The state of an exporter is a part of the state of the process: \<open>get\<close>
  and \<open>put\<close> say which. Counters that keep the contract of counters keep it together, so that all
  exporters report the same sums.
\<close>

section \<open>An exporter in the process\<close>

definition via :: "('w \<Rightarrow> 'a) \<Rightarrow> ('a \<Rightarrow> 'w \<Rightarrow> 'w) \<Rightarrow> ('a, 'r) go \<Rightarrow> ('w, 'r) go" where
  "via get put call w = (case call (get w) of (r, a) \<Rightarrow> (r, put a w))"

definition via_counter :: "('w \<Rightarrow> 'a) \<Rightarrow> ('a \<Rightarrow> 'w \<Rightarrow> 'w) \<Rightarrow> ('a, 'f) counter \<Rightarrow> ('w, 'f) counter" where
  "via_counter get put c = \<lparr>c_Inc = (\<lambda>ls. via get put (c_Inc c ls)), c_Add = (\<lambda>v ls. via get put (c_Add c v ls))\<rparr>"

definition via_gauge :: "('w \<Rightarrow> 'a) \<Rightarrow> ('a \<Rightarrow> 'w \<Rightarrow> 'w) \<Rightarrow> 'a dynamic_gauge \<Rightarrow> 'w dynamic_gauge" where
  "via_gauge get put g = \<lparr>g_Inc = (\<lambda>ls. via get put (g_Inc g ls)), g_Dec = (\<lambda>ls. via get put (g_Dec g ls))\<rparr>"

definition via_timer :: "('w \<Rightarrow> 'a) \<Rightarrow> ('a \<Rightarrow> 'w \<Rightarrow> 'w) \<Rightarrow> 'a timer \<Rightarrow> 'w timer" where
  "via_timer get put t =
     \<lparr>t_Start = (\<lambda>now ls. go_bind (via get put (t_Start t now ls)) (\<lambda>rec. go_return (\<lambda>now. via get put (rec now)))),
      t_AddTime = (\<lambda>d ls. via get put (t_AddTime t d ls))\<rparr>"

definition via_server :: "('w \<Rightarrow> 'a) \<Rightarrow> ('a \<Rightarrow> 'w \<Rightarrow> 'w) \<Rightarrow> ('x, 'a, 'f) tel_server \<Rightarrow> ('x, 'w, 'f) tel_server" where
  "via_server get put s =
     \<lparr>ts_Start = (\<lambda>c. via get put (ts_Start s c)), ts_AfterSharingStart = via get put (ts_AfterSharingStart s),
      ts_Close = via get put (ts_Close s),
      ts_NewCounter = (\<lambda>name labels. go_bind (via get put (ts_NewCounter s name labels)) (\<lambda>c. go_return (via_counter get put c))),
      ts_NewGauge = (\<lambda>name getter labels. via get put (ts_NewGauge s name getter labels)),
      ts_NewDynamicGauge = (\<lambda>name labels. go_bind (via get put (ts_NewDynamicGauge s name labels)) (\<lambda>g. go_return (via_gauge get put g))),
      ts_NewTimer = (\<lambda>name labels. go_bind (via get put (ts_NewTimer s name labels)) (\<lambda>t. go_return (via_timer get put t)))\<rparr>"

abbreviation put_fst :: "'a \<Rightarrow> 'a \<times> 'b \<Rightarrow> 'a \<times> 'b" where "put_fst a w \<equiv> (a, snd w)"
abbreviation put_snd :: "'b \<Rightarrow> 'a \<times> 'b \<Rightarrow> 'a \<times> 'b" where "put_snd b w \<equiv> (fst w, b)"

section \<open>Two counters\<close>

definition both :: "('a, 'f) counter \<Rightarrow> ('b, 'f) counter \<Rightarrow> ('a \<times> 'b, 'f) counter" where
  "both obj1 obj2 = MultipleCounter [via_counter fst put_fst obj1, via_counter snd put_snd obj2]"

locale counter_pair =
  a: counter_object_laws obj1 usable1 valid1 reads1 fits1 + b: counter_object_laws obj2 usable2 valid2 reads2 fits2
  for obj1 :: "('a, 'f :: {plus, zero, one}) counter" and usable1 valid1 reads1 fits1
    and obj2 :: "('b, 'f) counter" and usable2 valid2 reads2 fits2
begin

lemma both_adds:
  assumes "usable1 (fst w)" "usable2 (snd w)" "valid1 ls" "valid2 ls" "fits1 v" "fits2 v"
  shows "\<exists>w'. c_Add (both obj1 obj2) v ls w = (Ok (), w') \<and> usable1 (fst w') \<and> usable2 (snd w') \<and>
    reads1 (fst w') = (reads1 (fst w))(ls \<mapsto> (case reads1 (fst w) ls of None \<Rightarrow> 0 | Some x \<Rightarrow> x) + v) \<and>
    reads2 (snd w') = (reads2 (snd w))(ls \<mapsto> (case reads2 (snd w) ls of None \<Rightarrow> 0 | Some x \<Rightarrow> x) + v)"
proof -
  from a.adds [OF assms(1,3,5)] obtain w1 where w1: "c_Add obj1 v ls (fst w) = (Ok (), w1)" "usable1 w1"
    "reads1 w1 = (reads1 (fst w))(ls \<mapsto> (case reads1 (fst w) ls of None \<Rightarrow> 0 | Some x \<Rightarrow> x) + v)" by blast
  from b.adds [OF assms(2,4,6)] obtain w2 where w2: "c_Add obj2 v ls (snd w) = (Ok (), w2)" "usable2 w2"
    "reads2 w2 = (reads2 (snd w))(ls \<mapsto> (case reads2 (snd w) ls of None \<Rightarrow> 0 | Some x \<Rightarrow> x) + v)" by blast
  have "c_Add (both obj1 obj2) v ls w = (Ok (), w1, w2)"
    using w1(1) w2(1) by (simp add: both_def MultipleCounter_def via_counter_def via_def go_bind_def)
  with w1 w2 show ?thesis by auto
qed

lemma both_incs: "usable1 (fst w) \<Longrightarrow> usable2 (snd w) \<Longrightarrow> c_Inc (both obj1 obj2) ls w = c_Add (both obj1 obj2) 1 ls w"
  by (simp add: both_def MultipleCounter_def via_counter_def via_def go_bind_def a.incs b.incs split: prod.splits outcome.splits)

end

sublocale counter_pair \<subseteq> first: counter_object_laws "both obj1 obj2" "\<lambda>w. usable1 (fst w) \<and> usable2 (snd w)"
  "\<lambda>ls. valid1 ls \<and> valid2 ls" "\<lambda>w. reads1 (fst w)" "\<lambda>v. fits1 v \<and> fits2 v"
  using both_adds both_incs by unfold_locales blast+

sublocale counter_pair \<subseteq> second: counter_object_laws "both obj1 obj2" "\<lambda>w. usable1 (fst w) \<and> usable2 (snd w)"
  "\<lambda>ls. valid1 ls \<and> valid2 ls" "\<lambda>w. reads2 (snd w)" "\<lambda>v. fits1 v \<and> fits2 v"
  using both_adds both_incs by unfold_locales blast+

text \<open>A counter of Prometheus, under the laws of its library.\<close>

definition prom_ready :: "('r, 'x, 'v :: {plus, zero, one}) prom_lib \<Rightarrow> string \<Rightarrow> string list \<Rightarrow> 'r prom_server \<Rightarrow> bool" where
  "prom_ready lib name keys s \<longleftrightarrow> prom_laws lib \<and> vec_labels lib (prom_registry s) name = Some keys"

definition prom_reads :: "('r, 'x, 'v) prom_lib \<Rightarrow> string \<Rightarrow> 'r prom_server \<Rightarrow> string list \<Rightarrow> 'v option" where
  "prom_reads lib name s = vec_reads lib (prom_registry s) name"

interpretation prom_counter: counter_object_laws "prom_counter lib name" "prom_ready lib name keys" "labels_valid keys"
  "prom_reads lib name" "addable lib"
  for lib :: "('r, 'x, 'v :: {plus, zero, one}) prom_lib" and name keys
proof
  fix w :: "'r prom_server" and ls and v :: 'v
  assume w: "prom_ready lib name keys w" and ls: "labels_valid keys ls" and v: "addable lib v"
  then have laws: "prom_laws lib" and l: "vec_labels lib (prom_registry w) name = Some keys" by (auto simp: prom_ready_def)
  from laws l ls v obtain r' where "CounterVec_Add lib name v ls (prom_registry w) = (Ok (), r')" "vec_labels lib r' name = Some keys"
    "vec_reads lib r' name = (vec_reads lib (prom_registry w) name)(ls \<mapsto> (case vec_reads lib (prom_registry w) name ls of None \<Rightarrow> 0 | Some x \<Rightarrow> x) + v)"
    unfolding prom_laws_def by blast
  with laws show "\<exists>w'. c_Add (prom_counter lib name) v ls w = (Ok (), w') \<and> prom_ready lib name keys w' \<and>
      prom_reads lib name w' = (prom_reads lib name w)(ls \<mapsto> (case prom_reads lib name w ls of None \<Rightarrow> 0 | Some x \<Rightarrow> x) + v)"
    by (simp add: prom_counter_def on_prom_def prom_ready_def prom_reads_def)
next
  show "c_Inc (prom_counter lib name) ls w = c_Add (prom_counter lib name) 1 ls w" if "prom_ready lib name keys w" for ls and w :: "'r prom_server"
    using that by (simp add: prom_ready_def prom_laws_def prom_counter_def on_prom_def)
qed

interpretation exporter_pair: counter_pair "counter_object key" "counter_ready key keys" "labels_valid keys" "counter_reads key" "\<lambda>_. True"
  "prom_counter lib name" "prom_ready lib name keys" "labels_valid keys" "prom_reads lib name" "addable lib"
  for key keys name and lib :: "('r, 'x, 'v :: {plus, zero, one}) prom_lib"
  by intro_locales

section \<open>All exporters report the same\<close>

lemma pair_sequence:
  fixes lib :: "('r, 'x, 'v :: {plus, zero, one}) prom_lib" and w :: "('y, 'v, 'c) ms_world \<times> 'r prom_server"
  assumes "counter_ready name keys (fst w)" and "prom_ready lib name keys (snd w)"
    and "list_all (\<lambda>a. labels_valid keys (fst a) \<and> addable lib (snd a)) as"
  shows "\<exists>w'. for_each (\<lambda>a. c_Add (both (counter_object name) (prom_counter lib name)) (snd a) (fst a)) as w = (Ok (), w') \<and>
    (\<forall>ls. counter_reads name (fst w') ls = total (counter_reads name (fst w) ls) (added_to ls as)) \<and>
    (\<forall>ls. prom_reads lib name (snd w') ls = total (prom_reads lib name (snd w) ls) (added_to ls as))"
proof -
  have u: "counter_ready name keys (fst w) \<and> prom_ready lib name keys (snd w)" using assms(1,2) by blast
  have v: "list_all (\<lambda>a. (labels_valid keys (fst a) \<and> labels_valid keys (fst a)) \<and> True \<and> addable lib (snd a)) as"
    using assms(3) by (simp add: list_all_iff)
  from exporter_pair.first.add_sequence [OF u v] exporter_pair.second.add_sequence [OF u v] show ?thesis by force
qed

text \<open>
  C14. Two exporters agree. With the metrics service and Prometheus both exported, the telemetry
  starts, a counter can be created and used, and after any sequence of additions both exporters read,
  for every list of labels, the sum of the additions, given that the Prometheus library keeps its
  documented contract, accepts the collectors and that the values are such that a counter takes them.
\<close>

theorem exporters_agree:
  fixes env :: "'c grpc_env" and lib :: "('r, 'x, 'f :: {plus, zero, one, uminus}) prom_lib"
    and g :: "('x, ('x, 'f, 'c) ms_world \<times> 'r prom_server, 'f) tel_globals"
  assumes "map_of (servers g) ''metrics_service'' = Some (via_server fst put_fst (metric_service_server env Manager f64))"
    and "map_of (servers g) ''prometheus'' = Some (via_server snd put_snd (prometheus_server lib f64))"
    and "ExportType c = ''metrics_service,prometheus''" and "prom_laws lib"
    and "MustRegister lib ProcessCollector (NewRegistry lib (meta_labels c)) = (Ok (), r1)" and "MustRegister lib GoCollector r1 = (Ok (), r2)"
    and "accepts lib r2 (CounterVec name keys)"
    and "list_all (\<lambda>a. labels_valid keys (fst a) \<and> addable lib (snd a)) as"
  shows "\<exists>g1 w1 obj w2 w3. tel_Init Append c (g, w) = (Ok (), g1, w1) \<and> tel_NewCounter name keys (g1, w1) = (Ok obj, g1, w2) \<and>
    for_each (\<lambda>a. c_Add obj (snd a) (fst a)) as w2 = (Ok (), w3) \<and>
    (\<forall>ls. counter_reads name (fst w3) ls = total None (added_to ls as) \<and> prom_reads lib name (snd w3) ls = total None (added_to ls as))"
proof -
  let ?ms = "via_server fst put_fst (metric_service_server env Manager f64)" and ?pr = "via_server snd put_snd (prometheus_server lib f64)"
  define m1 where "m1 = (metric_Start (tc_Service c) (tc_Instance c) (tc_MetricPrefix c) (ClientName c) (fst (fst w)), snd (fst w))"
  define m2 where "m2 = (metric_Register name (CounterMetric (NewBaseMetric name keys (\<lambda>_. 0))) (fst m1), snd m1)"
  from assms(4,7) obtain r3 where r3: "MustRegister lib (CounterVec name keys) r2 = (Ok (), r3)" "vec_labels lib r3 name = Some keys"
    "vec_reads lib r3 name = Map.empty" unfolding prom_laws_def by blast
  define p1 where "p1 = \<lparr>prom_registry = r2, collectorContainer = []\<rparr>"
  define p2 where "p2 = \<lparr>prom_registry = r3, collectorContainer = [(name, PCounter name)]\<rparr>"
  have start: "ts_Start ?ms c w = (Ok (), m1, snd w)" "ts_Start ?pr c (m1, snd w) = (Ok (), m1, p1)"
    using assms(5,6)
    by (simp_all add: via_server_def via_def metric_service_server_def on_registry_def m1_def prometheus_server_def prom_Start_def
        on_prom_def go_bind_def p1_def)
  have new: "ts_NewCounter ?ms name keys (m1, p1) = (Ok (via_counter fst put_fst (counter_object name)), m2, p1)"
    "ts_NewCounter ?pr name keys (m2, p1) = (Ok (via_counter snd put_snd (prom_counter lib name)), m2, p2)"
    using r3(1)
    by (simp_all add: via_server_def via_def metric_service_server_def on_registry_def m1_def m2_def NewCounter_def metric_Start_def
        go_bind_def prometheus_server_def prom_NewCounter_def on_prom_def hold_def p1_def p2_def)
  let ?obj = "both (counter_object name) (prom_counter lib name)" and ?g = "g\<lparr>currentServer := Some (MultipleServer Append [?ms, ?pr])\<rparr>"
  have "Split (CHR '','') ''metrics_service,prometheus'' = [''metrics_service'', ''prometheus'']" by simp
  then have init: "tel_Init Append c (g, w) = (Ok (), ?g, m1, p1)" using assms(1-3) start by (simp add: tel_Init_def go_bind_def)
  have counter: "tel_NewCounter name keys (?g, m1, p1) = (Ok ?obj, ?g, m2, p2)"
    using new by (simp add: tel_NewCounter_def at_server_def getServer_def MultipleServer_def go_bind_def both_def)
  have "counter_ready name keys (fst (m2, p2))" and none: "counter_reads name m2 ls = None" for ls
    using fresh_metric [of name keys "\<lambda>_. 0 :: 'f"]
    by (simp_all add: m2_def counter_ready_def counter_reads_def counter_of_def metric_Register_def AList.update_conv)
  moreover have "prom_ready lib name keys (snd (m2, p2))" and none2: "prom_reads lib name p2 ls = None" for ls
    using assms(4) r3(2,3) by (simp_all add: prom_ready_def prom_reads_def p2_def)
  ultimately obtain w3 where "for_each (\<lambda>a. c_Add ?obj (snd a) (fst a)) as (m2, p2) = (Ok (), w3)"
    "\<forall>ls. counter_reads name (fst w3) ls = total (counter_reads name (fst (m2, p2)) ls) (added_to ls as)"
    "\<forall>ls. prom_reads lib name (snd w3) ls = total (prom_reads lib name (snd (m2, p2)) ls) (added_to ls as)"
    using pair_sequence [of name keys "(m2, p2)" lib as] assms(8) by blast
  then show ?thesis using init counter none none2
    by (intro exI [of _ ?g] exI [of _ "(m1, p1)"] exI [of _ ?obj] exI [of _ "(m2, p2)"] exI [of _ w3]) simp
qed

text \<open>A registry as a list of counter vectors.\<close>

type_synonym vec_list = "(string \<times> string list \<times> (string list \<rightharpoonup> int)) list"

definition list_prom :: "(vec_list, unit, int) prom_lib" where
  "list_prom = \<lparr>
     NewRegistry = (\<lambda>_. []),
     MustRegister = (\<lambda>c r. case c of
         CounterVec n ls \<Rightarrow> if map_of r n \<noteq> None then (Panic, r) else (Ok (), (n, ls, Map.empty) # r) | _ \<Rightarrow> (Ok (), r)),
     CounterVec_Add = (\<lambda>n v ls r. case map_of r n of
         None \<Rightarrow> (Panic, r)
       | Some (labels, m) \<Rightarrow>
           if labels_valid labels ls \<and> 0 \<le> v
           then (Ok (), AList.update n (labels, m(ls \<mapsto> (case m ls of None \<Rightarrow> 0 | Some x \<Rightarrow> x) + v)) r) else (Panic, r)),
     CounterVec_Inc = (\<lambda>n ls r. case map_of r n of
         None \<Rightarrow> (Panic, r)
       | Some (labels, m) \<Rightarrow>
           if labels_valid labels ls
           then (Ok (), AList.update n (labels, m(ls \<mapsto> (case m ls of None \<Rightarrow> 0 | Some x \<Rightarrow> x) + 1)) r) else (Panic, r)),
     GaugeVec_Inc = (\<lambda>_ _ r. (Ok (), r)), GaugeVec_Dec = (\<lambda>_ _ r. (Ok (), r)),
     accepts = (\<lambda>r c. case c of CounterVec n _ \<Rightarrow> map_of r n = None | _ \<Rightarrow> True),
     vec_labels = (\<lambda>r n. map_option fst (map_of r n)),
     vec_reads = (\<lambda>r n ls. Option.bind (map_of r n) (\<lambda>v. snd v ls)),
     addable = (\<lambda>v. 0 \<le> v)\<rparr>"

lemma list_prom_laws: "prom_laws list_prom"
  unfolding prom_laws_def
  by (auto simp: list_prom_def update_conv intro!: ext split: option.splits)

definition two_exporters :: "(unit, (unit, int, unit) ms_world \<times> vec_list prom_server, int) tel_globals" where
  "two_exporters = tel_Register ''prometheus'' (via_server snd put_snd (prometheus_server list_prom (\<lambda>i. i))) False
     (tel_Register ''metrics_service'' (via_server fst put_fst (metric_service_server silent_env (\<lambda>_. Some True) (\<lambda>i. i))) False
       \<lparr>servers = [], currentServer = None, defaultServer = None\<rparr>)"

theorem exporters_agree_witness:
  "\<forall>w. \<exists>g1 w1 obj w2 w3. tel_Init (\<lambda>_ e. e) (test_config\<lparr>ExportType := ''metrics_service,prometheus''\<rparr>) (two_exporters, w) = (Ok (), g1, w1) \<and>
    tel_NewCounter ''n'' [''k''] (g1, w1) = (Ok obj, g1, w2) \<and>
    for_each (\<lambda>a. c_Add obj (snd a) (fst a)) [([''x''], 2), ([''y''], 1), ([''x''], 3)] w2 = (Ok (), w3) \<and>
    counter_reads ''n'' (fst w3) [''x''] = Some 5 \<and> prom_reads list_prom ''n'' (snd w3) [''x''] = Some 5"
proof
  fix w :: "(unit, int, unit) ms_world \<times> vec_list prom_server"
  let ?c = "test_config\<lparr>ExportType := ''metrics_service,prometheus''\<rparr>"
  have s: "map_of (servers two_exporters) ''metrics_service'' = Some (via_server fst put_fst (metric_service_server silent_env (\<lambda>_. Some True) (\<lambda>i. i)))"
    "map_of (servers two_exporters) ''prometheus'' = Some (via_server snd put_snd (prometheus_server list_prom (\<lambda>i. i)))"
    by (simp_all add: two_exporters_def tel_Register_def)
  have r: "MustRegister list_prom ProcessCollector (NewRegistry list_prom (meta_labels ?c)) = (Ok (), [])"
    "MustRegister list_prom GoCollector [] = (Ok (), [])" "accepts list_prom [] (CounterVec ''n'' [''k''])"
    by (simp_all add: list_prom_def)
  have v: "list_all (\<lambda>a. labels_valid [''k''] (fst a) \<and> addable list_prom (snd a)) [([''x''], 2), ([''y''], 1), ([''x''], 3)]"
    by code_simp
  have e: "ExportType ?c = ''metrics_service,prometheus''" by simp
  from exporters_agree [OF s e list_prom_laws r v, of "\<lambda>_ e. e" w]
  show "\<exists>g1 w1 obj w2 w3. tel_Init (\<lambda>_ e. e) ?c (two_exporters, w) = (Ok (), g1, w1) \<and>
    tel_NewCounter ''n'' [''k''] (g1, w1) = (Ok obj, g1, w2) \<and>
    for_each (\<lambda>a. c_Add obj (snd a) (fst a)) [([''x''], 2), ([''y''], 1), ([''x''], 3)] w2 = (Ok (), w3) \<and>
    counter_reads ''n'' (fst w3) [''x''] = Some 5 \<and> prom_reads list_prom ''n'' (snd w3) [''x''] = Some 5"
    by (fastforce simp: total_def added_to_def)
qed

section \<open>Names\<close>

text \<open>A name that is taken by a metric of another kind makes the type assertion panic.\<close>

lemma prom_name_clash:
  assumes "map_of (collectorContainer s) name = Some m" and "\<forall>n. m \<noteq> PCounter n"
  shows "prom_NewCounter lib name labels s = (Panic, s)"
  using assms by (cases m) (simp_all add: prom_NewCounter_def go_bind_def)

text \<open>
  Gauges are kept under their name and labels joined by underscores, so that a gauge can hide
  another one, which is then never registered.
\<close>

lemma gauge_hidden:
  assumes "prom_rebuildGaugeName name labels = prom_rebuildGaugeName name' labels'" and "constLabels labels' [] = Ok cl"
    and "prom_NewDynamicGauge lib name labels s = (Ok n, s')"
  shows "prom_NewGauge lib name' getter labels' s' = (Ok (), s')"
proof -
  have "map_of (collectorContainer s') (prom_rebuildGaugeName name labels) \<noteq> None"
    using assms(3)
    by (auto simp: prom_NewDynamicGauge_def go_bind_def hold_def Let_def update_conv split: prod.splits outcome.splits option.splits prom_metric.splits)
  with assms(1,2) show ?thesis by (auto simp: prom_NewGauge_def Let_def)
qed

lemma gauge_names_join: "prom_rebuildGaugeName ''queue'' [''size'', ''1''] = prom_rebuildGaugeName ''queue_size'' [''1'']"
  by (simp add: prom_rebuildGaugeName_def)

end
