(* ===== verification/Envoy_Receivers.thy ===== *)
theory Envoy_Receivers
  imports Receivers Batch_Buffer
begin

text \<open>
  The streaming services for Envoy access logs and metrics: the messages of a stream wait in a
  channel until the limiter flushes them into one event. Flushes come from the timer, from
  \<open>Check\<close> when enough messages wait, and from the deferred \<open>Stop\<close>; an input of a stream is a
  message or a tick of the timer. The four services have the same loop; they differ in how a
  message identifies the stream and how a batch becomes an event. The telemetry counters of the
  access log services are left out. Unmarshalling and marshalling are parameters.
\<close>

datatype 'm stream_input = SMsg 'm | STick

text \<open>
  A kind of stream: \<open>sk_identify\<close> is the code between the receive and the send to the channel, it
  gives the identity after the message or the error that ends the stream; \<open>sk_ready\<close> is the
  check of the identity at the start of a flush; \<open>sk_pack\<close> makes the data of the event, or nothing
  when the batch is given up.
\<close>

record ('m, 'i) stream_kind =
  sk_eventName :: string
  sk_Type :: SniffType
  sk_identify :: "'i option \<Rightarrow> 'm \<Rightarrow> go_error + 'i option"
  sk_ready :: "'i option \<Rightarrow> bool"
  sk_pack :: "'i option \<Rightarrow> 'm list \<Rightarrow> payload option"

record ('m, 'i) stream_state =
  messages :: "'m list"
  identity :: "'i option"
  receiveChannel :: channel

section \<open>The service\<close>

definition stream_flush :: "('m, 'i) stream_kind \<Rightarrow> clock \<Rightarrow> ('m, 'i) stream_state \<Rightarrow> ('m, 'i) stream_state" where
  "stream_flush k now s =
     (if \<not> sk_ready k (identity s) then s
      else if messages s = [] then s
      else case sk_pack k (identity s) (messages s) of
        None \<Rightarrow> s\<lparr>messages := []\<rparr>
      | Some p \<Rightarrow> s\<lparr>messages := [], receiveChannel := emit (sk_eventName k) (sk_Type k) p now (receiveChannel s)\<rparr>)"

text \<open>
  The channel holds twice the limit. It is full only for the limit 0, when it is unbuffered: then
  nobody ever receives from it, because \<open>len\<close> of an unbuffered channel is 0.
\<close>

definition stream_receive :: "('m, 'i) stream_kind \<Rightarrow> LimiterConfig \<Rightarrow> clock \<Rightarrow> 'm \<Rightarrow> (('m, 'i) stream_state, unit) go" where
  "stream_receive k cfg now m s =
     (case sk_identify k (identity s) m of
        Inl e \<Rightarrow> (Err e, s)
      | Inr i \<Rightarrow>
          let s1 = s\<lparr>identity := i\<rparr> in
          if int (length (messages s1)) \<ge> LimitCount cfg * 2 then (Hang, s1)
          else limiter_Check cfg (\<lambda>s. int (length (messages s))) (stream_flush k now) True (s1\<lparr>messages := messages s1 @ [m]\<rparr>))"

fun stream_loop :: "('m, 'i) stream_kind \<Rightarrow> LimiterConfig \<Rightarrow> clock \<Rightarrow> 'm stream_input in_stream \<Rightarrow> 'm stream_input list
    \<Rightarrow> (('m, 'i) stream_state, unit) go" where
  "stream_loop k cfg now st [] s =
     (if in_end st \<noteq> EOF then (Err (in_end st), s)
      else case in_SendAndClose st of None \<Rightarrow> (Ok (), s) | Some e \<Rightarrow> (Err e, s))"
| "stream_loop k cfg now st (STick # is) s = stream_loop k cfg now st is (snd (limiter_loop (stream_flush k now) [LTimer] s))"
| "stream_loop k cfg now st (SMsg m # is) s = go_bind (stream_receive k cfg now m) (\<lambda>_. stream_loop k cfg now st is) s"

text \<open>The whole call, with the deferred \<open>Stop\<close>; a negative limit is a panic of \<open>make\<close>.\<close>

definition stream_service :: "('m, 'i) stream_kind \<Rightarrow> LimiterConfig \<Rightarrow> clock \<Rightarrow> 'm stream_input in_stream \<Rightarrow> unit handler" where
  "stream_service k cfg now st ch =
     (if LimitCount cfg * 2 < 0 then (Panic, ch)
      else case stream_loop k cfg now st (in_messages st) \<lparr>messages = [], identity = None, receiveChannel = ch\<rparr> of
        (Hang, s) \<Rightarrow> (Hang, receiveChannel s)
      | (r, s) \<Rightarrow> (r, receiveChannel (snd (limiter_Stop (stream_flush k now) True s))))"

section \<open>The four kinds\<close>

record ('i, 'b) als_proto =
  als_Unmarshal :: "msg \<Rightarrow> ('i option \<times> 'b) option"
  als_Marshal :: "'i option \<times> 'b \<Rightarrow> msg"

definition als_identify :: "('i, 'b) als_proto \<Rightarrow> 'i option \<Rightarrow> msg \<Rightarrow> go_error + 'i option" where
  "als_identify proto i m =
     (if i = None
      then case als_Unmarshal proto m of
          None \<Rightarrow> Inl (Errorf ''could not umarshal first message'')
        | Some (None, _) \<Rightarrow> Inl (Errorf ''could not found identity in message'')
        | Some (Some j, _) \<Rightarrow> Inr (Some j)
      else Inr i)"

text \<open>The first message of a batch gets the identity; a batch whose first message cannot be read is given up.\<close>

definition als_pack :: "('i, 'b) als_proto \<Rightarrow> (msg list \<Rightarrow> payload) \<Rightarrow> 'i option \<Rightarrow> msg list \<Rightarrow> payload option" where
  "als_pack proto mk i logsMessages =
     (case als_Unmarshal proto (hd logsMessages) of
        None \<Rightarrow> None
      | Some (_, body) \<Rightarrow> Some (mk (als_Marshal proto (i, body) # tl logsMessages)))"

definition alsv2_kind :: "('i, 'b) als_proto \<Rightarrow> (msg, 'i) stream_kind" where
  "alsv2_kind proto = \<lparr>sk_eventName = ''grpc-envoy-als-v2-event'', sk_Type = EnvoyALSV2Type,
     sk_identify = als_identify proto, sk_ready = (\<lambda>i. i \<noteq> None), sk_pack = als_pack proto EnvoyALSV2List\<rparr>"

definition alsv3_kind :: "('i, 'b) als_proto \<Rightarrow> (msg, 'i) stream_kind" where
  "alsv3_kind proto = \<lparr>sk_eventName = ''grpc-envoy-als-v3-event'', sk_Type = EnvoyALSV3Type,
     sk_identify = als_identify proto, sk_ready = (\<lambda>i. i \<noteq> None), sk_pack = als_pack proto EnvoyALSV3List\<rparr>"

definition metrics_identify :: "string option \<Rightarrow> metrics_message \<Rightarrow> go_error + string option" where
  "metrics_identify i item = Inr (if msg_identifier item \<noteq> None then msg_identifier item else i)"

definition metrics_pack :: "(metrics_message list \<Rightarrow> payload) \<Rightarrow> string option \<Rightarrow> metrics_message list \<Rightarrow> payload option" where
  "metrics_pack mk i metricsMessages = Some (mk ((hd metricsMessages)\<lparr>msg_identifier := i\<rparr> # tl metricsMessages))"

definition metricsv2_kind :: "(metrics_message, string) stream_kind" where
  "metricsv2_kind = \<lparr>sk_eventName = ''grpc-envoy-metrics-v2-event'', sk_Type = EnvoyMetricsV2Type,
     sk_identify = metrics_identify, sk_ready = (\<lambda>_. True), sk_pack = metrics_pack EnvoyMetricsV2List\<rparr>"

definition metricsv3_kind :: "(metrics_message, string) stream_kind" where
  "metricsv3_kind = \<lparr>sk_eventName = ''grpc-envoy-metrics-v3-event'', sk_Type = EnvoyMetricsV3Type,
     sk_identify = metrics_identify, sk_ready = (\<lambda>_. True), sk_pack = metrics_pack EnvoyMetricsV3List\<rparr>"

definition alsv2_StreamAccessLogs :: "('i, 'b) als_proto \<Rightarrow> LimiterConfig \<Rightarrow> clock \<Rightarrow> msg stream_input in_stream \<Rightarrow> unit handler" where
  "alsv2_StreamAccessLogs proto = stream_service (alsv2_kind proto)"

definition alsv3_StreamAccessLogs :: "('i, 'b) als_proto \<Rightarrow> LimiterConfig \<Rightarrow> clock \<Rightarrow> msg stream_input in_stream \<Rightarrow> unit handler" where
  "alsv3_StreamAccessLogs proto = stream_service (alsv3_kind proto)"

definition metricsv2_StreamMetrics :: "LimiterConfig \<Rightarrow> clock \<Rightarrow> metrics_message stream_input in_stream \<Rightarrow> unit handler" where
  "metricsv2_StreamMetrics = stream_service metricsv2_kind"

definition metricsv3_StreamMetrics :: "LimiterConfig \<Rightarrow> clock \<Rightarrow> metrics_message stream_input in_stream \<Rightarrow> unit handler" where
  "metricsv3_StreamMetrics = stream_service metricsv3_kind"

section \<open>A stream is cut into batches\<close>

fun input_messages :: "'m stream_input list \<Rightarrow> 'm list" where
  "input_messages [] = []"
| "input_messages (SMsg m # is) = m # input_messages is"
| "input_messages (STick # is) = input_messages is"

text \<open>The identity after some messages, when they are all accepted.\<close>

fun identified :: "('m, 'i) stream_kind \<Rightarrow> 'i option \<Rightarrow> 'm list \<Rightarrow> 'i option option" where
  "identified k i [] = Some i"
| "identified k i (m # ms) = (case sk_identify k i m of Inl _ \<Rightarrow> None | Inr j \<Rightarrow> identified k j ms)"

text \<open>The events of a cut of the messages into parts, each packed with the identity at its end.\<close>

fun packed :: "('m, 'i) stream_kind \<Rightarrow> 'i option \<Rightarrow> 'm list list \<Rightarrow> payload list" where
  "packed k i [] = []"
| "packed k i (p # ps) =
     (case identified k i p of
        None \<Rightarrow> []
      | Some j \<Rightarrow> (case sk_pack k j p of None \<Rightarrow> [] | Some x \<Rightarrow> [x]) @ packed k j ps)"

lemma identified_append: "identified k i (ms @ ns) = Option.bind (identified k i ms) (\<lambda>j. identified k j ns)"
  by (induction ms arbitrary: i) (simp_all split: sum.splits)

lemma packed_snoc:
  "identified k i (concat ps @ p) = Some j \<Longrightarrow>
   packed k i (ps @ [p]) = packed k i ps @ (case sk_pack k j p of None \<Rightarrow> [] | Some x \<Rightarrow> [x])"
proof (induction ps arbitrary: i)
  case (Cons q ps)
  from Cons.prems obtain j1 where j1: "identified k i q = Some j1" "identified k j1 (concat ps @ p) = Some j"
    by (auto simp: identified_append bind_eq_Some_conv)
  with Cons.IH [OF j1(2)] show ?case by simp
qed simp

definition small_parts :: "LimiterConfig \<Rightarrow> 'm list list \<Rightarrow> bool" where
  "small_parts cfg parts \<longleftrightarrow> list_all (\<lambda>p. p \<noteq> [] \<and> int (length p) \<le> LimitCount cfg) parts"

definition stream_inv :: "('m, 'i) stream_kind \<Rightarrow> LimiterConfig \<Rightarrow> channel \<Rightarrow> 'm list \<Rightarrow> ('m, 'i) stream_state \<Rightarrow> bool" where
  "stream_inv k cfg ch ms s \<longleftrightarrow>
     (\<exists>parts. concat parts @ messages s = ms \<and> small_parts cfg parts \<and>
        added (sk_Type k) (packed k None parts) ch (receiveChannel s)) \<and>
     identified k None ms = Some (identity s) \<and> (messages s \<noteq> [] \<longrightarrow> sk_ready k (identity s))"

lemma stream_flush_empty: "sk_ready k (identity s) \<or> messages s = [] \<Longrightarrow> messages (stream_flush k now s) = []"
  by (auto simp: stream_flush_def split: option.splits)

lemma stream_flush_identity [simp]: "identity (stream_flush k now s) = identity s"
  by (simp add: stream_flush_def split: option.splits)

lemma stream_flush_inv:
  assumes inv: "stream_inv k cfg ch ms s" and small: "int (length (messages s)) \<le> LimitCount cfg"
  shows "stream_inv k cfg ch ms (stream_flush k now s) \<and> messages (stream_flush k now s) = []"
proof (cases "messages s = []")
  case True
  then have "stream_flush k now s = s" by (simp add: stream_flush_def)
  with inv True show ?thesis by simp
next
  case False
  from inv obtain parts where parts: "concat parts @ messages s = ms" "small_parts cfg parts"
      "added (sk_Type k) (packed k None parts) ch (receiveChannel s)"
    and i: "identified k None ms = Some (identity s)" and ready: "sk_ready k (identity s)"
    using False unfolding stream_inv_def by blast
  let ?parts = "parts @ [messages s]"
  have p: "packed k None ?parts = packed k None parts @ (case sk_pack k (identity s) (messages s) of None \<Rightarrow> [] | Some x \<Rightarrow> [x])"
    by (rule packed_snoc) (simp add: parts i)
  have "added (sk_Type k) (packed k None ?parts) ch (receiveChannel (stream_flush k now s))"
    unfolding p using added_trans [OF parts(3) added_emit] parts(3) ready False
    by (simp add: stream_flush_def split: option.splits)
  moreover have "concat ?parts = ms" "small_parts cfg ?parts"
    using parts False small by (simp_all add: small_parts_def)
  moreover have "messages (stream_flush k now s) = []" by (simp add: stream_flush_empty ready)
  ultimately show ?thesis using i by (auto simp: stream_inv_def intro!: exI [of _ ?parts])
qed

text \<open>Receiving keeps the invariant, and fewer messages than the limit wait afterwards.\<close>

definition ready_kind :: "('m, 'i) stream_kind \<Rightarrow> bool" where
  "ready_kind k \<longleftrightarrow> (\<forall>i m j. sk_identify k i m = Inr j \<longrightarrow> sk_ready k j)"

lemma stream_receive_inv:
  assumes inv: "stream_inv k cfg ch ms s" and small: "int (length (messages s)) < LimitCount cfg"
    and k: "ready_kind k" and j: "sk_identify k (identity s) m = Inr j"
  shows "\<exists>s'. stream_receive k cfg now m s = (Ok (), s') \<and> stream_inv k cfg ch (ms @ [m]) s' \<and>
    int (length (messages s')) < LimitCount cfg"
proof -
  let ?s = "s\<lparr>identity := j, messages := messages s @ [m]\<rparr>"
  have ready: "sk_ready k j" using k j by (simp add: ready_kind_def)
  have i: "identified k None (ms @ [m]) = Some j"
    using inv j by (simp add: stream_inv_def identified_append)
  have inv1: "stream_inv k cfg ch (ms @ [m]) ?s"
    using inv i ready unfolding stream_inv_def by auto
  have recv: "stream_receive k cfg now m s = limiter_Check cfg (\<lambda>s. int (length (messages s))) (stream_flush k now) True ?s"
    using j small by (simp add: stream_receive_def Let_def)
  show ?thesis
  proof (cases "int (length (messages ?s)) \<ge> LimitCount cfg")
    case True
    have "stream_inv k cfg ch (ms @ [m]) (stream_flush k now ?s) \<and> messages (stream_flush k now ?s) = []"
      by (rule stream_flush_inv [OF inv1]) (use small in simp)
    with True small show ?thesis unfolding recv by (simp add: limiter_Check_def)
  next
    case False
    with inv1 show ?thesis unfolding recv by (simp add: limiter_Check_def)
  qed
qed

lemma stream_loop_inv:
  assumes "stream_inv k cfg ch ms s" and "int (length (messages s)) < LimitCount cfg"
    and "ready_kind k" and "identified k (identity s) (input_messages is) \<noteq> None"
  shows "\<exists>s'. stream_loop k cfg now st is s = (stream_result st, s') \<and> stream_inv k cfg ch (ms @ input_messages is) s' \<and>
    int (length (messages s')) < LimitCount cfg"
  using assms
proof (induction k cfg now st "is" s arbitrary: ms rule: stream_loop.induct)
  case (1 k cfg now st s)
  then show ?case by (auto simp: stream_result_def split: option.splits)
next
  case (2 k cfg now st "is" s)
  let ?s = "stream_flush k now s"
  have f: "stream_inv k cfg ch ms ?s" "messages ?s = []"
    using stream_flush_inv [OF "2.prems"(1), of now] "2.prems"(2) by simp_all
  have "0 < LimitCount cfg" using "2.prems"(2) by linarith
  then show ?case using "2.IH" [of ms] f "2.prems" by simp
next
  case (3 k cfg now st m "is" s)
  from "3.prems"(4) obtain j where j: "sk_identify k (identity s) m = Inr j" "identified k j (input_messages is) \<noteq> None"
    by (auto split: sum.splits)
  from stream_receive_inv [OF "3.prems"(1-3) j(1), of now] obtain s1 where s1: "stream_receive k cfg now m s = (Ok (), s1)"
      "stream_inv k cfg ch (ms @ [m]) s1" "int (length (messages s1)) < LimitCount cfg" by blast
  have "identified k None (ms @ [m]) = Some (identity s1)" using s1(2) by (simp add: stream_inv_def)
  moreover have "identified k None (ms @ [m]) = Some j"
    using "3.prems"(1) j(1) by (simp add: stream_inv_def identified_append)
  ultimately have id: "identity s1 = j" by simp
  from "3.IH" [OF s1(2,3) "3.prems"(3)] j(2) id s1(1) show ?case by (simp add: go_bind_def)
qed

lemma stream_service_parts:
  assumes limit: "1 \<le> LimitCount cfg" and k: "ready_kind k" and acc: "identified k None (input_messages (in_messages st)) \<noteq> None"
  shows "\<exists>parts ch'. stream_service k cfg now st ch = (stream_result st, ch') \<and>
    concat parts = input_messages (in_messages st) \<and> small_parts cfg parts \<and> added (sk_Type k) (packed k None parts) ch ch'"
proof -
  let ?s = "\<lparr>messages = [], identity = None, receiveChannel = ch\<rparr>"
  have "stream_inv k cfg ch [] ?s" by (auto simp: stream_inv_def small_parts_def intro!: exI [of _ "[]"])
  from stream_loop_inv [OF this _ k, of "in_messages st" now st] limit acc obtain s1 where
    s1: "stream_loop k cfg now st (in_messages st) ?s = (stream_result st, s1)"
      "stream_inv k cfg ch (input_messages (in_messages st)) s1" "int (length (messages s1)) < LimitCount cfg"
    by auto
  have f: "stream_inv k cfg ch (input_messages (in_messages st)) (stream_flush k now s1)" "messages (stream_flush k now s1) = []"
    using stream_flush_inv [OF s1(2), of now] s1(3) by simp_all
  have "stream_service k cfg now st ch = (stream_result st, receiveChannel (stream_flush k now s1))"
    using s1(1) limit by (auto simp: stream_service_def limiter_Stop_def stream_result_def split: option.splits)
  with f show ?thesis unfolding stream_inv_def by auto
qed

lemma als_ready: "ready_kind (alsv2_kind proto)" "ready_kind (alsv3_kind proto)"
  by (auto simp: ready_kind_def alsv2_kind_def alsv3_kind_def als_identify_def split: option.splits prod.splits if_splits)

lemma metrics_ready: "ready_kind metricsv2_kind" "ready_kind metricsv3_kind"
  by (auto simp: ready_kind_def metricsv2_kind_def metricsv3_kind_def)

end
