(* ===== verification/Forwarders.thy ===== *)
theory Forwarders
  imports Grpc_Env
begin

text \<open>
  \<open>plugins/forwarder\<close>: the nineteen forwarders, each with its \<open>Prepare\<close>, its \<open>Forward\<close> and the
  table of its methods. The methods of a generated client are calls of the environment, named by
  service and method. Log lines are left out; timers are not modelled.
\<close>

datatype connection = GrpcConn | KafkaConn | OtherConn

text \<open>The cast at the start of every \<open>Prepare\<close> of a gRPC forwarder.\<close>

definition grpc_Prepare :: "string \<Rightarrow> connection \<Rightarrow> ('c, unit) netgo" where
  "grpc_Prepare name conn n =
     (if conn = GrpcConn then (Ok (), n) else (Err (Errorf (''the '' @ name @ '' only accepts a grpc client'')), n))"

definition unsupport_sync :: "sniff_data \<Rightarrow> ('c, sniff_data \<times> nat option) netgo" where
  "unsupport_sync d n = (Err (Errorf ''unsupport sync forward''), n)"

text \<open>The answer of a synchronous call: \<open>SniffData\<close> with nothing but its data.\<close>

definition reply_data :: "payload \<Rightarrow> sniff_data" where
  "reply_data p = \<lparr>Name = [], Timestamp = 0, Type = Logging, Remote = False, Data = Some p\<rparr>"

definition sync_call :: "'c grpc_env \<Rightarrow> string \<Rightarrow> msg \<Rightarrow> (msg \<Rightarrow> payload) \<Rightarrow> ('c, sniff_data \<times> nat option) netgo" where
  "sync_call env meth q reply =
     go_bind (do_rpc env (Call meth Background (Raw q))) (\<lambda>m. go_return (reply_data (reply m), None))"

section \<open>Logs and access logs: one stream per event\<close>

text \<open>The inner loop: \<open>True\<close> when a failed send has closed the stream.\<close>

fun send_or_close :: "'c grpc_env \<Rightarrow> nat \<Rightarrow> wire list \<Rightarrow> ('c, bool) netgo" where
  "send_or_close env s [] n = (Ok False, n)"
| "send_or_close env s (w # ws) n =
     go_bind (try_rpc env (SendMsg s w)) (\<lambda>r.
       if r \<noteq> None then go_bind (close_and_recv env s) (\<lambda>_. go_return True) else send_or_close env s ws) n"

fun nativelog_Forward :: "'c grpc_env \<Rightarrow> BatchEvents \<Rightarrow> ('c, unit) netgo" where
  "nativelog_Forward env [] n = (Ok (), n)"
| "nativelog_Forward env (e # batch) n =
     (case Data e of
        Some (LogList logs) \<Rightarrow>
          go_bind (open_stream env ''LogReportService.Collect'' Background) (\<lambda>stream.
          go_bind (send_or_close env stream (map Raw logs)) (\<lambda>streamClosed.
          go_bind (if streamClosed then go_return None else close_and_recv env stream) (\<lambda>_.
            nativelog_Forward env batch))) n
      | _ \<Rightarrow> nativelog_Forward env batch n)"

definition nativelog_Prepare :: "connection \<Rightarrow> ('c, unit) netgo" where
  "nativelog_Prepare = grpc_Prepare ''native-log-grpc-forwarder''"

definition nativelog_forwarder :: "'c grpc_env \<Rightarrow> connection \<Rightarrow> 'c net forwarder" where
  "nativelog_forwarder env conn = \<lparr>fw_Prepare = nativelog_Prepare conn, ForwardType = Logging,
     Forward = nativelog_Forward env, SupportedSyncInvoke = False, SyncForward = unsupport_sync\<rparr>"

fun ebpfaccesslog_Forward :: "'c grpc_env \<Rightarrow> BatchEvents \<Rightarrow> ('c, unit) netgo" where
  "ebpfaccesslog_Forward env [] n = (Ok (), n)"
| "ebpfaccesslog_Forward env (e # batch) n =
     (case Data e of
        Some (EBPFAccessLogList messages) \<Rightarrow>
          go_bind (open_stream env ''EBPFAccessLogService.Collect'' Background) (\<lambda>stream.
          go_bind (send_or_close env stream (map Raw messages)) (\<lambda>streamClosed.
          go_bind (if streamClosed then go_return None else close_and_recv env stream) (\<lambda>_.
            ebpfaccesslog_Forward env batch))) n
      | _ \<Rightarrow> ebpfaccesslog_Forward env batch n)"

definition ebpfaccesslog_Prepare :: "connection \<Rightarrow> ('c, unit) netgo" where
  "ebpfaccesslog_Prepare = grpc_Prepare ''native-ebpf-accesslog-grpc-forwarder''"

definition ebpfaccesslog_forwarder :: "'c grpc_env \<Rightarrow> connection \<Rightarrow> 'c net forwarder" where
  "ebpfaccesslog_forwarder env conn = \<lparr>fw_Prepare = ebpfaccesslog_Prepare conn, ForwardType = EBPFAccessLogType,
     Forward = ebpfaccesslog_Forward env, SupportedSyncInvoke = False, SyncForward = unsupport_sync\<rparr>"

section \<open>Tracing: two streams, opened when needed\<close>

text \<open>\<open>closeStream\<close>: every stream that is open; the errors are collected into one.\<close>

fun tracing_closeStream :: "'c grpc_env \<Rightarrow> nat option list \<Rightarrow> ('c, go_error option) netgo" where
  "tracing_closeStream env [] n = (Ok None, n)"
| "tracing_closeStream env (None # ss) n = tracing_closeStream env ss n"
| "tracing_closeStream env (Some s # ss) n =
     go_bind (close_and_recv env s) (\<lambda>e. go_bind (tracing_closeStream env ss) (\<lambda>es.
       go_return (if e = None then es else Some (Errorf ''multierror'')))) n"

definition stream_for :: "'c grpc_env \<Rightarrow> string \<Rightarrow> nat option \<Rightarrow> ('c, nat) netgo" where
  "stream_for env meth s = (case s of Some i \<Rightarrow> go_return i | None \<Rightarrow> open_stream env meth Background)"

text \<open>The loop: the error it returns with, if any, and the streams at that point.\<close>

fun tracing_loop :: "'c grpc_env \<Rightarrow> BatchEvents \<Rightarrow> nat option \<Rightarrow> nat option \<Rightarrow> ('c, go_error option \<times> nat option \<times> nat option) netgo" where
  "tracing_loop env [] ts ss n = (Ok (None, ts, ss), n)"
| "tracing_loop env (e # batch) ts ss n =
     (case Data e of
        Some (Segment d) \<Rightarrow>
          (case stream_for env ''TraceSegmentReportService.Collect'' ts n of
             (Ok s, n1) \<Rightarrow> go_bind (try_rpc env (SendMsg s (Raw d)))
                (\<lambda>r. if r \<noteq> None then go_return (r, Some s, ss) else tracing_loop env batch (Some s) ss) n1
           | (Err x, n1) \<Rightarrow> (Ok (Some x, ts, ss), n1)
           | (Panic, n1) \<Rightarrow> (Panic, n1)
           | (Hang, n1) \<Rightarrow> (Hang, n1))
      | Some (SpanAttachedEvent d) \<Rightarrow>
          (case stream_for env ''SpanAttachedEventReportService.Collect'' ss n of
             (Ok s, n1) \<Rightarrow> go_bind (try_rpc env (SendMsg s (Raw d)))
                (\<lambda>r. if r \<noteq> None then go_return (r, ts, Some s) else tracing_loop env batch ts (Some s)) n1
           | (Err x, n1) \<Rightarrow> (Ok (Some x, ts, ss), n1)
           | (Panic, n1) \<Rightarrow> (Panic, n1)
           | (Hang, n1) \<Rightarrow> (Hang, n1))
      | _ \<Rightarrow> tracing_loop env batch ts ss n)"

text \<open>The streams are closed at the end and once more by the deferred call.\<close>

definition nativetracing_Forward :: "'c grpc_env \<Rightarrow> BatchEvents \<Rightarrow> ('c, unit) netgo" where
  "nativetracing_Forward env batch =
     go_bind (tracing_loop env batch None None) (\<lambda>(err, ts, ss).
     go_bind (case err of Some e \<Rightarrow> go_return (Some e) | None \<Rightarrow> tracing_closeStream env [ts, ss]) (\<lambda>r.
     go_bind (tracing_closeStream env [ts, ss]) (\<lambda>_ n.
       case r of None \<Rightarrow> (Ok (), n) | Some e \<Rightarrow> (Err e, n))))"

definition nativetracing_Prepare :: "connection \<Rightarrow> ('c, unit) netgo" where
  "nativetracing_Prepare = grpc_Prepare ''native-tracing-grpc-forwarder''"

definition nativetracing_forwarder :: "'c grpc_env \<Rightarrow> connection \<Rightarrow> 'c net forwarder" where
  "nativetracing_forwarder env conn = \<lparr>fw_Prepare = nativetracing_Prepare conn, ForwardType = TracingType,
     Forward = nativetracing_Forward env, SupportedSyncInvoke = False, SyncForward = unsupport_sync\<rparr>"

section \<open>Meters: one stream per service instance\<close>

definition loadCachedPeer :: "'c grpc_env \<Rightarrow> string \<Rightarrow> ('c, string) netgo" where
  "loadCachedPeer env inst n =
     (case lru_Get env (cache n) inst of (r, c) \<Rightarrow> (Ok (case r of Some a \<Rightarrow> a | None \<Rightarrow> []), n\<lparr>cache := c\<rparr>))"

definition save_peer :: "'c grpc_env \<Rightarrow> string \<Rightarrow> string \<Rightarrow> ('c, unit) netgo" where
  "save_peer env inst upstream n =
     (Ok (), if upstream = [] then n else n\<lparr>cache := lru_Add env (cache n) inst upstream\<rparr>)"

definition meter_savePeerInstanceFromStream :: "'c grpc_env \<Rightarrow> nat \<Rightarrow> string \<Rightarrow> ('c, unit) netgo" where
  "meter_savePeerInstanceFromStream env stream inst n = save_peer env inst (peer_address env (hist n) stream) n"

definition meter_stream_name :: "meter_data \<Rightarrow> string" where
  "meter_stream_name m = ''batch-stream-'' @ m_service m @ ''-'' @ m_instance m"

definition meter_stream :: "'c grpc_env \<Rightarrow> meter_data \<Rightarrow> (string \<times> nat) list \<Rightarrow> ('c, nat \<times> (string \<times> nat) list) netgo" where
  "meter_stream env firstMeter streamMap =
     (case map_of streamMap (meter_stream_name firstMeter) of
        Some stream \<Rightarrow> go_return (stream, streamMap)
      | None \<Rightarrow>
          go_bind (loadCachedPeer env (m_instance firstMeter)) (\<lambda>peer.
          go_bind (open_stream env ''MeterReportService.CollectBatch'' (Routed (m_instance firstMeter) peer)) (\<lambda>stream.
          go_bind (meter_savePeerInstanceFromStream env stream (m_instance firstMeter)) (\<lambda>_.
            go_return (stream, AList.update (meter_stream_name firstMeter) stream streamMap)))))"

text \<open>The error with which \<open>Forward\<close> returns, if any, and the open streams at that point.\<close>

fun meter_loop :: "'c grpc_env \<Rightarrow> BatchEvents \<Rightarrow> (string \<times> nat) list \<Rightarrow> ('c, go_error option \<times> (string \<times> nat) list) netgo" where
  "meter_loop env [] streamMap n = (Ok (None, streamMap), n)"
| "meter_loop env (e # batch) streamMap n =
     (case Data e of
        Some (MeterCollection (m # ms)) \<Rightarrow>
          (case meter_stream env m streamMap n of
             (Ok (stream, streamMap'), n1) \<Rightarrow>
               go_bind (try_rpc env (SendMsg stream (Meters (m # ms))))
                 (\<lambda>r. if r \<noteq> None then go_return (r, streamMap') else meter_loop env batch streamMap') n1
           | (Err x, n1) \<Rightarrow> (Ok (Some x, streamMap), n1)
           | (Panic, n1) \<Rightarrow> (Panic, n1)
           | (Hang, n1) \<Rightarrow> (Hang, n1))
      | _ \<Rightarrow> meter_loop env batch streamMap n)"

definition meter_closeStream :: "'c grpc_env \<Rightarrow> nat \<Rightarrow> ('c, go_error option) netgo" where
  "meter_closeStream env s =
     go_bind (try_rpc env (CloseSend s)) (\<lambda>r.
       if r \<noteq> None \<and> r \<noteq> Some EOF then go_return r else try_rpc env (RecvMsg s))"

fun meter_close_all :: "'c grpc_env \<Rightarrow> (string \<times> nat) list \<Rightarrow> ('c, unit) netgo" where
  "meter_close_all env [] n = (Ok (), n)"
| "meter_close_all env ((k, s) # ss) n = go_bind (meter_closeStream env s) (\<lambda>_. meter_close_all env ss) n"

definition nativemeter_Forward :: "'c grpc_env \<Rightarrow> BatchEvents \<Rightarrow> ('c, unit) netgo" where
  "nativemeter_Forward env batch =
     go_bind (meter_loop env batch []) (\<lambda>(err, streamMap).
     go_bind (meter_close_all env streamMap) (\<lambda>_ n.
       case err of None \<Rightarrow> (Ok (), n) | Some e \<Rightarrow> (Err e, n)))"

definition nativemeter_Prepare :: "'c grpc_env \<Rightarrow> int \<Rightarrow> connection \<Rightarrow> ('c, unit) netgo" where
  "nativemeter_Prepare env RoutingRuleLRUCacheSize conn =
     go_bind (grpc_Prepare ''native-meter-grpc-forwarder'' conn)
       (\<lambda>_ n. (Ok (), n\<lparr>cache := lru_New env RoutingRuleLRUCacheSize\<rparr>))"

definition nativemeter_forwarder :: "'c grpc_env \<Rightarrow> int \<Rightarrow> connection \<Rightarrow> 'c net forwarder" where
  "nativemeter_forwarder env cacheSize conn = \<lparr>fw_Prepare = nativemeter_Prepare env cacheSize conn, ForwardType = MeterType,
     Forward = nativemeter_Forward env, SupportedSyncInvoke = False, SyncForward = unsupport_sync\<rparr>"

section \<open>Management: one call per event, pings once\<close>

definition ping_key :: "instance_ping \<Rightarrow> string" where
  "ping_key p = p_service p @ ''_'' @ p_instance p"

fun management_loop :: "'c grpc_env \<Rightarrow> BatchEvents \<Rightarrow> string list \<Rightarrow> ('c, unit) netgo" where
  "management_loop env [] pingOnce n = (Ok (), n)"
| "management_loop env (e # batch) pingOnce n =
     (case Data e of
        Some (Instance p) \<Rightarrow>
          go_bind (do_rpc env (Call ''ManagementService.ReportInstanceProperties'' Background (Raw p)))
            (\<lambda>_. management_loop env batch pingOnce) n
      | Some (InstancePing p) \<Rightarrow>
          if ping_key p \<in> set pingOnce then management_loop env batch pingOnce n
          else go_bind (do_rpc env (Call ''ManagementService.KeepAlive'' Background (Ping p)))
                 (\<lambda>_. management_loop env batch (pingOnce @ [ping_key p])) n
      | _ \<Rightarrow> management_loop env batch pingOnce n)"

definition nativemanagement_Forward :: "'c grpc_env \<Rightarrow> BatchEvents \<Rightarrow> ('c, unit) netgo" where
  "nativemanagement_Forward env batch = management_loop env batch []"

definition nativemanagement_Prepare :: "connection \<Rightarrow> ('c, unit) netgo" where
  "nativemanagement_Prepare = grpc_Prepare ''native-management-grpc-forwarder''"

definition nativemanagement_forwarder :: "'c grpc_env \<Rightarrow> connection \<Rightarrow> 'c net forwarder" where
  "nativemanagement_forwarder env conn = \<lparr>fw_Prepare = nativemanagement_Prepare conn, ForwardType = ManagementType,
     Forward = nativemanagement_Forward env, SupportedSyncInvoke = False, SyncForward = unsupport_sync\<rparr>"

section \<open>Profiles, events, eBPF profiling: one stream per batch\<close>

text \<open>
  The loop of these three: the first failed send closes the stream, and what \<open>Forward\<close> returns is
  the error of closing, not the error of sending. Without a failure the stream is closed behind
  the loop, and the error of closing is returned, too.
\<close>

fun send_batch :: "'c grpc_env \<Rightarrow> nat \<Rightarrow> wire list \<Rightarrow> ('c, unit) netgo" where
  "send_batch env s [] n =
     go_bind (close_and_recv env s) (\<lambda>r n. case r of None \<Rightarrow> (Ok (), n) | Some e \<Rightarrow> (Err e, n)) n"
| "send_batch env s (w # ws) n =
     go_bind (try_rpc env (SendMsg s w)) (\<lambda>r.
       if r \<noteq> None
       then go_bind (close_and_recv env s) (\<lambda>r n. case r of None \<Rightarrow> (Ok (), n) | Some e \<Rightarrow> (Err e, n))
       else send_batch env s ws) n"

definition nativeprofile_messages :: "sniff_data \<Rightarrow> wire list" where
  "nativeprofile_messages e = (case Data e of Some (Profile p) \<Rightarrow> [Raw p] | _ \<Rightarrow> [])"

definition nativeprofile_Forward :: "'c grpc_env \<Rightarrow> BatchEvents \<Rightarrow> ('c, unit) netgo" where
  "nativeprofile_Forward env batch =
     go_bind (open_stream env ''ProfileTask.CollectSnapshot'' Background)
       (\<lambda>stream. send_batch env stream (concat (map nativeprofile_messages batch)))"

definition nativeprofile_SyncForward :: "'c grpc_env \<Rightarrow> sniff_data \<Rightarrow> ('c, sniff_data \<times> nat option) netgo" where
  "nativeprofile_SyncForward env e =
     (case Data e of
        Some (ProfileTaskQuery q) \<Rightarrow> sync_call env ''ProfileTask.GetProfileTaskCommands'' q Commands
      | Some (ProfileTaskFinish q) \<Rightarrow> sync_call env ''ProfileTask.ReportTaskFinish'' q Commands
      | _ \<Rightarrow> (\<lambda>n. (Err (Errorf ''unsupport data''), n)))"

definition nativeprofile_Prepare :: "connection \<Rightarrow> ('c, unit) netgo" where
  "nativeprofile_Prepare = grpc_Prepare ''native-profile-grpc-forwarder''"

definition nativeprofile_forwarder :: "'c grpc_env \<Rightarrow> connection \<Rightarrow> 'c net forwarder" where
  "nativeprofile_forwarder env conn = \<lparr>fw_Prepare = nativeprofile_Prepare conn, ForwardType = ProfileType,
     Forward = nativeprofile_Forward env, SupportedSyncInvoke = True, SyncForward = nativeprofile_SyncForward env\<rparr>"

definition nativeevent_messages :: "sniff_data \<Rightarrow> wire list" where
  "nativeevent_messages e = (case Data e of Some (NativeEvent p) \<Rightarrow> [Raw p] | _ \<Rightarrow> [])"

definition nativeevent_Forward :: "'c grpc_env \<Rightarrow> BatchEvents \<Rightarrow> ('c, unit) netgo" where
  "nativeevent_Forward env batch =
     go_bind (open_stream env ''EventService.Collect'' Background)
       (\<lambda>stream. send_batch env stream (concat (map nativeevent_messages batch)))"

definition nativeevent_Prepare :: "connection \<Rightarrow> ('c, unit) netgo" where
  "nativeevent_Prepare = grpc_Prepare ''native-event-grpc-forwarder''"

definition nativeevent_forwarder :: "'c grpc_env \<Rightarrow> connection \<Rightarrow> 'c net forwarder" where
  "nativeevent_forwarder env conn = \<lparr>fw_Prepare = nativeevent_Prepare conn, ForwardType = EventType,
     Forward = nativeevent_Forward env, SupportedSyncInvoke = False, SyncForward = unsupport_sync\<rparr>"

definition ebpfprofiling_messages :: "sniff_data \<Rightarrow> wire list" where
  "ebpfprofiling_messages e = (case Data e of Some (EBPFProfilingDataList ds) \<Rightarrow> map Raw ds | _ \<Rightarrow> [])"

definition ebpfprofiling_Forward :: "'c grpc_env \<Rightarrow> BatchEvents \<Rightarrow> ('c, unit) netgo" where
  "ebpfprofiling_Forward env batch =
     go_bind (open_stream env ''EBPFProfilingService.CollectProfilingData'' Background)
       (\<lambda>stream. send_batch env stream (concat (map ebpfprofiling_messages batch)))"

definition ebpfprofiling_SyncForward :: "'c grpc_env \<Rightarrow> sniff_data \<Rightarrow> ('c, sniff_data \<times> nat option) netgo" where
  "ebpfprofiling_SyncForward env e =
     (case Data e of
        Some (EBPFProfilingTaskQuery q) \<Rightarrow> sync_call env ''EBPFProfilingService.QueryTasks'' q Commands
      | Some (ContinuousProfilingPolicyQuery q) \<Rightarrow> sync_call env ''ContinuousProfilingService.QueryPolicies'' q Commands
      | Some (ContinuousProfilingReport q) \<Rightarrow> sync_call env ''ContinuousProfilingService.ReportProfilingTask'' q Commands
      | _ \<Rightarrow> (\<lambda>n. (Err (Errorf ''unsupported data type''), n)))"

definition ebpfprofiling_Prepare :: "connection \<Rightarrow> ('c, unit) netgo" where
  "ebpfprofiling_Prepare = grpc_Prepare ''native-ebpf-profiling-grpc-forwarder''"

definition ebpfprofiling_forwarder :: "'c grpc_env \<Rightarrow> connection \<Rightarrow> 'c net forwarder" where
  "ebpfprofiling_forwarder env conn = \<lparr>fw_Prepare = ebpfprofiling_Prepare conn, ForwardType = EBPFProfilingType,
     Forward = ebpfprofiling_Forward env, SupportedSyncInvoke = True, SyncForward = ebpfprofiling_SyncForward env\<rparr>"

section \<open>JVM, CLR, process: one call per event\<close>

fun nativejvm_Forward :: "'c grpc_env \<Rightarrow> BatchEvents \<Rightarrow> ('c, unit) netgo" where
  "nativejvm_Forward env [] n = (Ok (), n)"
| "nativejvm_Forward env (e # batch) n =
     go_bind (do_rpc env (Call ''JVMMetricReportService.Collect'' Background
         (case Data e of Some (Jvm m) \<Rightarrow> Raw m | _ \<Rightarrow> NilMsg)))
       (\<lambda>_. nativejvm_Forward env batch) n"

definition nativejvm_Prepare :: "connection \<Rightarrow> ('c, unit) netgo" where
  "nativejvm_Prepare = grpc_Prepare ''native-jvm-grpc-forwarder''"

definition nativejvm_forwarder :: "'c grpc_env \<Rightarrow> connection \<Rightarrow> 'c net forwarder" where
  "nativejvm_forwarder env conn = \<lparr>fw_Prepare = nativejvm_Prepare conn, ForwardType = JVMMetricType,
     Forward = nativejvm_Forward env, SupportedSyncInvoke = False, SyncForward = unsupport_sync\<rparr>"

fun nativeclr_Forward :: "'c grpc_env \<Rightarrow> BatchEvents \<Rightarrow> ('c, unit) netgo" where
  "nativeclr_Forward env [] n = (Ok (), n)"
| "nativeclr_Forward env (e # batch) n =
     go_bind (do_rpc env (Call ''CLRMetricReportService.Collect'' Background
         (case Data e of Some (Clr m) \<Rightarrow> Raw m | _ \<Rightarrow> NilMsg)))
       (\<lambda>_. nativeclr_Forward env batch) n"

definition nativeclr_Prepare :: "connection \<Rightarrow> ('c, unit) netgo" where
  "nativeclr_Prepare = grpc_Prepare ''native-clr-grpc-forwarder''"

definition nativeclr_forwarder :: "'c grpc_env \<Rightarrow> connection \<Rightarrow> 'c net forwarder" where
  "nativeclr_forwarder env conn = \<lparr>fw_Prepare = nativeclr_Prepare conn, ForwardType = CLRMetricType,
     Forward = nativeclr_Forward env, SupportedSyncInvoke = False, SyncForward = unsupport_sync\<rparr>"

fun nativeprocess_Forward :: "'c grpc_env \<Rightarrow> BatchEvents \<Rightarrow> ('c, unit) netgo" where
  "nativeprocess_Forward env [] n = (Ok (), n)"
| "nativeprocess_Forward env (e # batch) n =
     (case Data e of
        Some (EBPFProcessPingPkgList m) \<Rightarrow>
          go_bind (do_rpc env (Call ''EBPFProcessService.KeepAlive'' Background (Raw m)))
            (\<lambda>_. nativeprocess_Forward env batch) n
      | _ \<Rightarrow> nativeprocess_Forward env batch n)"

definition nativeprocess_SyncForward :: "'c grpc_env \<Rightarrow> sniff_data \<Rightarrow> ('c, sniff_data \<times> nat option) netgo" where
  "nativeprocess_SyncForward env e =
     (case Data e of
        Some (EBPFProcessReportList q) \<Rightarrow> sync_call env ''EBPFProcessService.ReportProcesses'' q EBPFReportProcessDownstream
      | _ \<Rightarrow> (\<lambda>n. (Err (Errorf ''unsupport data''), n)))"

definition nativeprocess_Prepare :: "connection \<Rightarrow> ('c, unit) netgo" where
  "nativeprocess_Prepare = grpc_Prepare ''native-process-grpc-forwarder''"

definition nativeprocess_forwarder :: "'c grpc_env \<Rightarrow> connection \<Rightarrow> 'c net forwarder" where
  "nativeprocess_forwarder env conn = \<lparr>fw_Prepare = nativeprocess_Prepare conn, ForwardType = EBPFProcessType,
     Forward = nativeprocess_Forward env, SupportedSyncInvoke = True, SyncForward = nativeprocess_SyncForward env\<rparr>"

section \<open>Configuration discovery and async profiler: synchronous only\<close>

definition nativecds_Forward :: "BatchEvents \<Rightarrow> ('c, unit) netgo" where
  "nativecds_Forward batch n =
     (Err (Errorf ''the SkyWalking native Configuration Discovery Service protocol is not support async forward''), n)"

definition nativecds_SyncForward :: "'c grpc_env \<Rightarrow> sniff_data \<Rightarrow> ('c, sniff_data \<times> nat option) netgo" where
  "nativecds_SyncForward env e =
     (case Data e of
        Some (ConfigurationSyncRequest q) \<Rightarrow> sync_call env ''ConfigurationDiscoveryService.FetchConfigurations'' q Commands
      | _ \<Rightarrow> (\<lambda>n. (Err (Errorf ''unsupport data''), n)))"

definition nativecds_Prepare :: "connection \<Rightarrow> ('c, unit) netgo" where
  "nativecds_Prepare = grpc_Prepare ''native-cds-grpc-forwarder''"

definition nativecds_forwarder :: "'c grpc_env \<Rightarrow> connection \<Rightarrow> 'c net forwarder" where
  "nativecds_forwarder env conn = \<lparr>fw_Prepare = nativecds_Prepare conn, ForwardType = ConfigurationDiscoveryServiceType,
     Forward = nativecds_Forward, SupportedSyncInvoke = True, SyncForward = nativecds_SyncForward env\<rparr>"

definition asyncprofiler_Forward :: "BatchEvents \<Rightarrow> ('c, unit) netgo" where
  "asyncprofiler_Forward batch n = (Err (Errorf ''unsupport forward''), n)"

text \<open>The collection opens a two way stream, sends the metadata and waits for the answer.\<close>

definition asyncprofiler_SyncForward :: "'c grpc_env \<Rightarrow> sniff_data \<Rightarrow> ('c, sniff_data \<times> nat option) netgo" where
  "asyncprofiler_SyncForward env e =
     (case Data e of
        Some (AsyncProfilerTaskCommandQuery q) \<Rightarrow> sync_call env ''AsyncProfilerTask.GetAsyncProfilerTaskCommands'' q Commands
      | Some (AsyncProfilerData d) \<Rightarrow>
          go_bind (open_stream env ''AsyncProfilerTask.Collect'' Bidirectional) (\<lambda>stream n.
            case do_rpc env (SendMsg stream (Raw d)) n of
              (Err x, n1) \<Rightarrow> go_bind (try_rpc env (CloseSend stream)) (\<lambda>_ n. (Err x, n)) n1
            | (Ok _, n1) \<Rightarrow>
                (case do_rpc env (RecvMsg stream) n1 of
                   (Err x, n2) \<Rightarrow> go_bind (try_rpc env (CloseSend stream)) (\<lambda>_ n. (Err x, n)) n2
                 | (Ok m, n2) \<Rightarrow> (Ok (reply_data (AsyncProfilerCollectionResponse m), Some stream), n2)
                 | (Panic, n2) \<Rightarrow> (Panic, n2)
                 | (Hang, n2) \<Rightarrow> (Hang, n2))
            | (Panic, n1) \<Rightarrow> (Panic, n1)
            | (Hang, n1) \<Rightarrow> (Hang, n1))
      | _ \<Rightarrow> (\<lambda>n. (Err (Errorf ''unsupport data''), n)))"

definition asyncprofiler_Prepare :: "connection \<Rightarrow> ('c, unit) netgo" where
  "asyncprofiler_Prepare = grpc_Prepare ''native-async-profiler-grpc-forwarder''"

definition asyncprofiler_forwarder :: "'c grpc_env \<Rightarrow> connection \<Rightarrow> 'c net forwarder" where
  "asyncprofiler_forwarder env conn = \<lparr>fw_Prepare = asyncprofiler_Prepare conn, ForwardType = AsyncProfilerType,
     Forward = asyncprofiler_Forward, SupportedSyncInvoke = True, SyncForward = asyncprofiler_SyncForward env\<rparr>"

end
