(* ===== verification/Envoy_Forwarders.thy ===== *)
theory Envoy_Forwarders
  imports Forwarders
begin

text \<open>
  The forwarders of Envoy access logs and metrics, of OpenTelemetry metrics, and of logs to Kafka.
\<close>

section \<open>Envoy access logs: one stream per batch\<close>

text \<open>\<open>server_telementry.go\<close>: the host part of an address.\<close>

definition peer_host :: "string \<Rightarrow> string" where
  "peer_host addr = (case IndexByte addr (CHR '':'') of Some (Suc i) \<Rightarrow> take (Suc i) addr | _ \<Rightarrow> addr)"

definition als_messages :: "(payload \<Rightarrow> msg list option) \<Rightarrow> sniff_data \<Rightarrow> msg list option" where
  "als_messages get e = Option.bind (Data e) get"

definition get_als_v2 :: "payload \<Rightarrow> msg list option" where
  "get_als_v2 p = (case p of EnvoyALSV2List ms \<Rightarrow> Some ms | _ \<Rightarrow> None)"

definition get_als_v3 :: "payload \<Rightarrow> msg list option" where
  "get_als_v3 p = (case p of EnvoyALSV3List ms \<Rightarrow> Some ms | _ \<Rightarrow> None)"

text \<open>The first loop only counts; data of another kind is a nil dereference.\<close>

fun als_count_ready :: "(payload \<Rightarrow> msg list option) \<Rightarrow> BatchEvents \<Rightarrow> ('c, unit) netgo" where
  "als_count_ready get [] n = (Ok (), n)"
| "als_count_ready get (e # batch) n =
     (case als_messages get e of
        None \<Rightarrow> (Panic, n)
      | Some ms \<Rightarrow> go_bind (count_by ''als_streaming_ready_send'' (int (length ms))) (\<lambda>_. als_count_ready get batch) n)"

text \<open>All messages of one event; a failed send is an error.\<close>

fun send_each :: "'c grpc_env \<Rightarrow> nat \<Rightarrow> wire list \<Rightarrow> ('c, go_error option) netgo" where
  "send_each env s [] n = (Ok None, n)"
| "send_each env s (w # ws) n =
     go_bind (try_rpc env (SendMsg s w)) (\<lambda>r. if r \<noteq> None then go_return r else send_each env s ws) n"

fun als_send_loop :: "'c grpc_env \<Rightarrow> (payload \<Rightarrow> msg list option) \<Rightarrow> string \<Rightarrow> nat \<Rightarrow> BatchEvents \<Rightarrow> ('c, unit) netgo" where
  "als_send_loop env get peer stream [] n = (Ok (), n)"
| "als_send_loop env get peer stream (e # batch) n =
     (case als_messages get e of
        None \<Rightarrow> als_send_loop env get peer stream batch n
      | Some ms \<Rightarrow>
          go_bind (send_each env stream (map Raw ms)) (\<lambda>r.
            case r of
              Some x \<Rightarrow> go_bind (close_and_recv env stream) (\<lambda>_ n. (Err x, n))
            | None \<Rightarrow> go_bind (count_by (''als_event_send_finished '' @ peer) 1) (\<lambda>_.
                als_send_loop env get peer stream batch)) n)"

definition als_Forward :: "'c grpc_env \<Rightarrow> (payload \<Rightarrow> msg list option) \<Rightarrow> BatchEvents \<Rightarrow> ('c, unit) netgo" where
  "als_Forward env get batch =
     go_bind (count_by ''als_event_ready_send'' (int (length batch))) (\<lambda>_.
     go_bind (als_count_ready get batch) (\<lambda>_.
     go_bind (open_stream env ''SatelliteAccessLogService.StreamAccessLogs'' Background) (\<lambda>stream n.
       let peer = peer_host (peer_address env (hist n) stream) in
       go_bind (als_send_loop env get peer stream batch) (\<lambda>_.
       go_bind (close_and_recv env stream) (\<lambda>_. go_return ())) n)))"

definition envoyalsv2_Forward :: "'c grpc_env \<Rightarrow> BatchEvents \<Rightarrow> ('c, unit) netgo" where
  "envoyalsv2_Forward env = als_Forward env get_als_v2"

definition envoyalsv3_Forward :: "'c grpc_env \<Rightarrow> BatchEvents \<Rightarrow> ('c, unit) netgo" where
  "envoyalsv3_Forward env = als_Forward env get_als_v3"

definition envoyalsv2_Prepare :: "connection \<Rightarrow> ('c, unit) netgo" where
  "envoyalsv2_Prepare = grpc_Prepare ''envoy-als-v2-grpc-forwarder''"

definition envoyalsv3_Prepare :: "connection \<Rightarrow> ('c, unit) netgo" where
  "envoyalsv3_Prepare = grpc_Prepare ''envoy-als-v3-grpc-forwarder''"

definition envoyalsv2_forwarder :: "'c grpc_env \<Rightarrow> connection \<Rightarrow> 'c net forwarder" where
  "envoyalsv2_forwarder env conn = \<lparr>fw_Prepare = envoyalsv2_Prepare conn, ForwardType = EnvoyALSV2Type,
     Forward = envoyalsv2_Forward env, SupportedSyncInvoke = False, SyncForward = unsupport_sync\<rparr>"

definition envoyalsv3_forwarder :: "'c grpc_env \<Rightarrow> connection \<Rightarrow> 'c net forwarder" where
  "envoyalsv3_forwarder env conn = \<lparr>fw_Prepare = envoyalsv3_Prepare conn, ForwardType = EnvoyALSV3Type,
     Forward = envoyalsv3_Forward env, SupportedSyncInvoke = False, SyncForward = unsupport_sync\<rparr>"

section \<open>Envoy metrics: one stream per event\<close>

fun metrics_Forward :: "'c grpc_env \<Rightarrow> (payload \<Rightarrow> metrics_message list option) \<Rightarrow> BatchEvents \<Rightarrow> ('c, unit) netgo" where
  "metrics_Forward env get [] n = (Ok (), n)"
| "metrics_Forward env get (e # batch) n =
     (case Option.bind (Data e) get of
        None \<Rightarrow> metrics_Forward env get batch n
      | Some ms \<Rightarrow>
          go_bind (open_stream env ''MetricsService.StreamMetrics'' Background) (\<lambda>stream.
          go_bind (send_each env stream (map Metrics ms)) (\<lambda>r.
          go_bind (close_and_recv env stream) (\<lambda>_.
            case r of Some x \<Rightarrow> (\<lambda>n. (Err x, n)) | None \<Rightarrow> metrics_Forward env get batch))) n)"

definition get_metrics_v2 :: "payload \<Rightarrow> metrics_message list option" where
  "get_metrics_v2 p = (case p of EnvoyMetricsV2List ms \<Rightarrow> Some ms | _ \<Rightarrow> None)"

definition get_metrics_v3 :: "payload \<Rightarrow> metrics_message list option" where
  "get_metrics_v3 p = (case p of EnvoyMetricsV3List ms \<Rightarrow> Some ms | _ \<Rightarrow> None)"

definition envoymetricsv2_Forward :: "'c grpc_env \<Rightarrow> BatchEvents \<Rightarrow> ('c, unit) netgo" where
  "envoymetricsv2_Forward env = metrics_Forward env get_metrics_v2"

definition envoymetricsv3_Forward :: "'c grpc_env \<Rightarrow> BatchEvents \<Rightarrow> ('c, unit) netgo" where
  "envoymetricsv3_Forward env = metrics_Forward env get_metrics_v3"

definition envoymetricsv2_Prepare :: "connection \<Rightarrow> ('c, unit) netgo" where
  "envoymetricsv2_Prepare = grpc_Prepare ''envoy-metrics-v2-grpc-forwarder''"

definition envoymetricsv3_Prepare :: "connection \<Rightarrow> ('c, unit) netgo" where
  "envoymetricsv3_Prepare = grpc_Prepare ''envoy-metrics-v3-grpc-forwarder''"

definition envoymetricsv2_forwarder :: "'c grpc_env \<Rightarrow> connection \<Rightarrow> 'c net forwarder" where
  "envoymetricsv2_forwarder env conn = \<lparr>fw_Prepare = envoymetricsv2_Prepare conn, ForwardType = EnvoyMetricsV2Type,
     Forward = envoymetricsv2_Forward env, SupportedSyncInvoke = False, SyncForward = unsupport_sync\<rparr>"

definition envoymetricsv3_forwarder :: "'c grpc_env \<Rightarrow> connection \<Rightarrow> 'c net forwarder" where
  "envoymetricsv3_forwarder env conn = \<lparr>fw_Prepare = envoymetricsv3_Prepare conn, ForwardType = EnvoyMetricsV3Type,
     Forward = envoymetricsv3_Forward env, SupportedSyncInvoke = False, SyncForward = unsupport_sync\<rparr>"

section \<open>OpenTelemetry metrics: routed by labels\<close>

text \<open>The values of one resource under the routing keys, each behind a comma.\<close>

definition routing_values :: "string list \<Rightarrow> otlp_attributes \<Rightarrow> string" where
  "routing_values metadataKeys attrs =
     concat (map (\<lambda>kv. concat (map (\<lambda>key. if fst kv = key then CHR '','' # snd kv else []) metadataKeys)) attrs)"

text \<open>The loop over the resources: the first routing key, or the attributes of the last resource that has any.\<close>

fun routing_loop :: "string list \<Rightarrow> otlp_attributes option list \<Rightarrow> otlp_attributes \<Rightarrow> string + otlp_attributes" where
  "routing_loop keys [] lastKVs = Inr lastKVs"
| "routing_loop keys (r # rs) lastKVs =
     (case r of
        None \<Rightarrow> routing_loop keys rs lastKVs
      | Some attrs \<Rightarrow>
          if attrs = [] then routing_loop keys rs lastKVs
          else if routing_values keys attrs \<noteq> [] then Inl (routing_values keys attrs)
          else routing_loop keys rs attrs)"

definition generateRoutingKey :: "string list \<Rightarrow> otlp_request \<Rightarrow> string outcome" where
  "generateRoutingKey metadataKeys data =
     (if data = [] then Err (Errorf ''no resources'')
      else case routing_loop metadataKeys data [] of
        Inl key \<Rightarrow> Ok key
      | Inr [] \<Rightarrow> Err (Errorf ''could not found any attributes'')
      | Inr lastKVs \<Rightarrow> Err (Errorf (''could not found anly routing key, existing keys sample: '' @ Join (CHR '','') (map fst lastKVs))))"

text \<open>A request that is absent is read as one without resources.\<close>

definition otlp_request_of :: "sniff_data \<Rightarrow> otlp_request" where
  "otlp_request_of d = (case Data d of Some (OpenTelementryMetricsV1Request r) \<Rightarrow> r | _ \<Rightarrow> [])"

definition otlp_savePeerInstanceFromStream :: "'c grpc_env \<Rightarrow> string \<Rightarrow> ('c, unit) netgo" where
  "otlp_savePeerInstanceFromStream env key n = save_peer env key (appointed env (hist n)) n"

fun otlp_Forward :: "'c grpc_env \<Rightarrow> string list \<Rightarrow> BatchEvents \<Rightarrow> ('c, unit) netgo" where
  "otlp_Forward env metadataKeys [] n = (Ok (), n)"
| "otlp_Forward env metadataKeys (d # batch) n =
     (case generateRoutingKey metadataKeys (otlp_request_of d) of
        Ok key \<Rightarrow>
          go_bind (loadCachedPeer env key) (\<lambda>peer.
          go_bind (do_rpc env (Call ''MetricsService.Export'' (Routed key peer) (Otlp (otlp_request_of d)))) (\<lambda>_.
          go_bind (otlp_savePeerInstanceFromStream env key) (\<lambda>_. otlp_Forward env metadataKeys batch))) n
      | _ \<Rightarrow> otlp_Forward env metadataKeys batch n)"

definition otlp_Prepare :: "'c grpc_env \<Rightarrow> string \<Rightarrow> int \<Rightarrow> connection \<Rightarrow> ('c, string list) netgo" where
  "otlp_Prepare env RoutingLabelKeys RoutingRuleLRUCacheSize conn =
     go_bind (grpc_Prepare ''otlp-metrics-v1-grpc-forwarder'' conn) (\<lambda>_ n.
       if RoutingLabelKeys = [] then (Err (Errorf ''please provide metadata keys''), n)
       else (Ok (Split (CHR '','') RoutingLabelKeys), n\<lparr>cache := lru_New env RoutingRuleLRUCacheSize\<rparr>))"

definition otlp_forwarder :: "'c grpc_env \<Rightarrow> string \<Rightarrow> int \<Rightarrow> connection \<Rightarrow> 'c net forwarder" where
  "otlp_forwarder env labelKeys cacheSize conn = \<lparr>fw_Prepare = go_bind (otlp_Prepare env labelKeys cacheSize conn) (\<lambda>_. go_return ()),
     ForwardType = OpenTelementryMetricsV1Type, Forward = otlp_Forward env (Split (CHR '','') labelKeys),
     SupportedSyncInvoke = False, SyncForward = unsupport_sync\<rparr>"

section \<open>Logs to Kafka\<close>

definition kafka_messages :: "string \<Rightarrow> BatchEvents \<Rightarrow> (string \<times> msg) list" where
  "kafka_messages topic batch =
     concat (map (\<lambda>e. case Data e of Some (LogList logs) \<Rightarrow> map (Pair topic) logs | _ \<Rightarrow> []) batch)"

definition kafkalog_Forward :: "'c grpc_env \<Rightarrow> string \<Rightarrow> BatchEvents \<Rightarrow> ('c, unit) netgo" where
  "kafkalog_Forward env topic batch = go_bind (do_rpc env (Produce (kafka_messages topic batch))) (\<lambda>_. go_return ())"

text \<open>\<open>producer\<close> is the result of creating a producer from the client.\<close>

definition kafkalog_Prepare :: "go_error option \<Rightarrow> connection \<Rightarrow> ('c, unit) netgo" where
  "kafkalog_Prepare producer conn n =
     (if conn \<noteq> KafkaConn then (Err (Errorf ''the native-log-kafka-forwarder is only accepet the kafka client''), n)
      else case producer of Some e \<Rightarrow> (Err e, n) | None \<Rightarrow> (Ok (), n))"

definition kafkalog_forwarder :: "'c grpc_env \<Rightarrow> string \<Rightarrow> go_error option \<Rightarrow> connection \<Rightarrow> 'c net forwarder" where
  "kafkalog_forwarder env topic producer conn = \<lparr>fw_Prepare = kafkalog_Prepare producer conn, ForwardType = Logging,
     Forward = kafkalog_Forward env topic, SupportedSyncInvoke = False, SyncForward = unsupport_sync\<rparr>"

end
