(* ===== verification/Forwarder_Contract.thy ===== *)
theory Forwarder_Contract
  imports Envoy_Forwarders
begin

text \<open>
  What a forwarder promises to the sender and the fallbacker: when \<open>Forward\<close> returns without an
  error, all messages of the batch were accepted by the other side, in order; when it returns an
  error, a prefix of them was. The contract is a locale; the forwarders that keep it are its
  interpretations. Five forwarders do not keep it.
\<close>

definition adds :: "'c net \<Rightarrow> 'c net \<Rightarrow> wire list \<Rightarrow> bool" where
  "adds n n' ws \<longleftrightarrow> delivered (hist n') = delivered (hist n) @ ws"

text \<open>A prefix of the messages was sent.\<close>

definition partly :: "'c net \<Rightarrow> 'c net \<Rightarrow> wire list \<Rightarrow> bool" where
  "partly n n' ws \<longleftrightarrow> (\<exists>k. adds n n' (take k ws))"

definition delivers :: "('c, 'a) netgo \<Rightarrow> wire list \<Rightarrow> 'c net \<Rightarrow> bool" where
  "delivers m ws n \<longleftrightarrow> wp False m (\<lambda>_ n'. adds n n' ws) (\<lambda>_ n'. partly n n' ws) n"

text \<open>The same for calls that give their error as a value.\<close>

definition tries :: "('a \<Rightarrow> go_error option) \<Rightarrow> ('c, 'a) netgo \<Rightarrow> wire list \<Rightarrow> 'c net \<Rightarrow> bool" where
  "tries err m ws n \<longleftrightarrow>
     wp False m (\<lambda>x n'. if err x = None then adds n n' ws else partly n n' ws) (\<lambda>_ _. False) n"

lemma adds_refl [simp]: "adds n n []"
  by (simp add: adds_def)

lemma adds_trans: "adds n n1 ws \<Longrightarrow> adds n1 n' vs \<Longrightarrow> adds n n' (ws @ vs)"
  by (simp add: adds_def)

lemma adds_none: "adds n n1 [] \<Longrightarrow> adds n1 n' ws \<Longrightarrow> adds n n' ws"
  by (simp add: adds_def)

lemma adds_none_right: "adds n n1 ws \<Longrightarrow> adds n1 n' [] \<Longrightarrow> adds n n' ws"
  by (simp add: adds_def)

lemma partly_trans: "adds n n1 ws \<Longrightarrow> partly n1 n' vs \<Longrightarrow> partly n n' (ws @ vs)"
  unfolding partly_def
proof (elim exE)
  fix k assume "adds n n1 ws" "adds n1 n' (take k vs)"
  then show "\<exists>k. adds n n' (take k (ws @ vs))" by (intro exI [of _ "length ws + k"]) (simp add: adds_def)
qed

lemma partly_append: "partly n n' ws \<Longrightarrow> partly n n' (ws @ vs)"
  unfolding partly_def
proof (elim exE)
  fix k assume "adds n n' (take k ws)"
  then show "\<exists>k. adds n n' (take k (ws @ vs))" by (intro exI [of _ "min k (length ws)"]) (simp add: adds_def min_def)
qed

lemma partly_none [simp]: "adds n n' [] \<Longrightarrow> partly n n' ws"
  unfolding partly_def by (intro exI [of _ 0]) simp

lemma partly_none_right: "partly n n1 ws \<Longrightarrow> adds n1 n' [] \<Longrightarrow> partly n n' ws"
  unfolding partly_def by (auto intro: adds_none_right)

lemma partly_Nil: "partly n n' [] \<longleftrightarrow> adds n n' []"
  by (simp add: partly_def)

lemma adds_fields [simp]: "adds n (n'\<lparr>cache := c\<rparr>) ws = adds n n' ws" "adds (n\<lparr>cache := c\<rparr>) n' ws = adds n n' ws"
  "adds n (n'\<lparr>counters := d\<rparr>) ws = adds n n' ws" "adds (n\<lparr>counters := d\<rparr>) n' ws = adds n n' ws"
  by (simp_all add: adds_def)

lemma adds_call [simp]: "adds n (n\<lparr>hist := hist n @ [(c, ok)]\<rparr>) ws \<longleftrightarrow> ws = (if ok then sent_by c else [])"
  by (auto simp: adds_def)

section \<open>Sequences\<close>

lemma delivers_bind:
  assumes m: "wp False m (\<lambda>x n1. adds n n1 ws \<and> delivers (k x) vs n1) (\<lambda>_ n'. partly n n' ws) n"
  shows "delivers (go_bind m k) (ws @ vs) n"
  unfolding delivers_def wp_bind
proof (rule wp_conseq [OF m])
  fix x n1 assume x: "adds n n1 ws \<and> delivers (k x) vs n1"
  show "wp False (k x) (\<lambda>_ n'. adds n n' (ws @ vs)) (\<lambda>_ n'. partly n n' (ws @ vs)) n1"
    by (rule wp_conseq [OF x [THEN conjunct2, unfolded delivers_def]])
      (auto intro: adds_trans [OF x [THEN conjunct1]] partly_trans [OF x [THEN conjunct1]] simp del: take_append)
qed (rule partly_append)

lemma tries_bind:
  assumes m: "tries err m ws n"
    and ok: "\<And>x n1. err x = None \<Longrightarrow> tries err' (k x) vs n1"
    and bad: "\<And>x n1. err x \<noteq> None \<Longrightarrow> wp False (k x) (\<lambda>y n'. err' y \<noteq> None \<and> adds n1 n' []) (\<lambda>_ _. False) n1"
  shows "tries err' (go_bind m k) (ws @ vs) n"
  unfolding tries_def wp_bind
proof (rule wp_conseq [OF m [unfolded tries_def]])
  fix x n1 assume x: "if err x = None then adds n n1 ws else partly n n1 ws"
  show "wp False (k x) (\<lambda>y n'. if err' y = None then adds n n' (ws @ vs) else partly n n' (ws @ vs)) (\<lambda>_ _. False) n1"
  proof (cases "err x = None")
    case True
    with x have a: "adds n n1 ws" by simp
    show ?thesis
      by (rule wp_conseq [OF ok [OF True, unfolded tries_def]])
        (auto intro: adds_trans [OF a] partly_trans [OF a] split: if_splits)
  next
    case False
    with x have a: "partly n n1 ws" by simp
    show ?thesis
      by (rule wp_conseq [OF bad [OF False]]) (auto intro: partly_append [OF partly_none_right [OF a]])
  qed
qed simp

lemma tries_return: "err x = None \<Longrightarrow> tries err (go_return x) [] n"
  by (simp add: tries_def)

lemma tries_send: "tries (\<lambda>r. r) (try_rpc env (SendMsg s w)) [w] n"
  unfolding tries_def by (rule wp_try_rpc) simp_all

text \<open>An error that is kept until the end: the rest of the call sends nothing and returns it.\<close>

lemma delivers_tries:
  assumes m: "tries err m ws n"
    and k: "\<And>x n1. wp False (k x) (\<lambda>_ n'. err x = None \<and> adds n1 n' []) (\<lambda>_ n'. adds n1 n' []) n1"
  shows "delivers (go_bind m k) ws n"
  unfolding delivers_def wp_bind
proof (rule wp_conseq [OF m [unfolded tries_def]])
  fix x n1 assume x: "if err x = None then adds n n1 ws else partly n n1 ws"
  have a: "partly n n1 ws" using x partly_trans [of n n1 ws n1 "[]"] by (auto split: if_splits)
  show "wp False (k x) (\<lambda>_ n'. adds n n' ws) (\<lambda>_ n'. partly n n' ws) n1"
    by (rule wp_conseq [OF k]) (use x in \<open>auto intro: adds_none_right partly_none_right [OF a] split: if_splits\<close>)
qed simp

text \<open>Calls that send nothing.\<close>

definition silent :: "('c, 'a) netgo \<Rightarrow> bool" where
  "silent m \<longleftrightarrow> (\<forall>n. wp False m (\<lambda>_ n'. adds n n' []) (\<lambda>_ n'. adds n n' []) n)"

lemma silent_wp:
  assumes "silent m" and "\<And>x n'. adds n n' [] \<Longrightarrow> Q x n'" and "\<And>e n'. adds n n' [] \<Longrightarrow> E e n'"
  shows "wp False m Q E n"
  by (rule wp_conseq [OF spec [OF assms(1) [unfolded silent_def]]]) (rule assms(2,3), assumption)+

lemma silent_bind:
  assumes m: "silent m" and k: "\<And>x. silent (k x)" shows "silent (go_bind m k)"
  unfolding silent_def wp_bind
proof
  fix n show "wp False m (\<lambda>x. wp False (k x) (\<lambda>_ n'. adds n n' []) (\<lambda>_ n'. adds n n' [])) (\<lambda>_ n'. adds n n' []) n"
  proof (rule silent_wp [OF m])
    fix x n1 assume a: "adds n n1 []"
    show "wp False (k x) (\<lambda>_ n'. adds n n' []) (\<lambda>_ n'. adds n n' []) n1"
      by (rule silent_wp [OF k]) (auto intro: adds_none [OF a])
  qed
qed

lemma silent_return [simp]: "silent (go_return x)"
  by (simp add: silent_def)

lemma silent_value [simp]: "silent (\<lambda>n. (Ok x, n))" "silent (\<lambda>n. (Err e, n))"
  by (simp_all add: silent_def wp_def)

lemma silent_rpc: "sent_by c = [] \<Longrightarrow> silent (do_rpc env c)" "sent_by c = [] \<Longrightarrow> silent (try_rpc env c)"
  unfolding silent_def by (auto intro!: wp_do_rpc wp_try_rpc)

lemma silent_open: "silent (open_stream env m c)"
  unfolding silent_def by (auto intro!: wp_open_stream)

lemma silent_close: "silent (close_and_recv env s)"
  unfolding silent_def by (auto intro!: wp_close_and_recv)

lemma silent_cache: "silent (loadCachedPeer env i)" "silent (save_peer env i u)"
  by (auto simp: silent_def wp_def loadCachedPeer_def save_peer_def split: prod.splits)

lemma silent_count: "silent (count_by c d)"
  by (auto simp: silent_def wp_def count_by_def)

lemma delivers_silent:
  assumes "silent m" and "\<And>x n1. delivers (k x) ws n1" shows "delivers (go_bind m k) ws n"
proof -
  have "delivers (go_bind m k) ([] @ ws) n"
    by (rule delivers_bind, rule silent_wp [OF assms(1)]) (simp_all add: assms(2))
  then show ?thesis by simp
qed

lemma delivers_call:
  assumes "\<And>x n1. delivers (k x) ws n1" shows "delivers (go_bind (do_rpc env (Call m c w)) k) (w # ws) n"
proof -
  have "delivers (go_bind (do_rpc env (Call m c w)) k) ([w] @ ws) n"
    by (rule delivers_bind, rule wp_do_rpc) (simp_all add: assms)
  then show ?thesis by simp
qed

lemma delivers_ret [simp]: "delivers (go_return x) [] n" "delivers (\<lambda>n. (Ok x, n)) [] n"
  by (simp_all add: delivers_def wp_def)

lemma delivers_cong: "m n = m' n \<Longrightarrow> delivers m' ws n \<Longrightarrow> delivers m ws n"
  unfolding delivers_def by (rule wp_cong)

section \<open>The contract\<close>

locale reliable_forwarder =
  fixes forward :: "'c grpc_env \<Rightarrow> BatchEvents \<Rightarrow> ('c, unit) netgo"
    and accepts :: "BatchEvents \<Rightarrow> bool" and payloads :: "BatchEvents \<Rightarrow> wire list"
  assumes reliable: "accepts batch \<Longrightarrow> delivers (forward env batch) (payloads batch) n"
begin

lemma returns: "accepts batch \<Longrightarrow> \<exists>r n'. forward env batch n = (r, n') \<and> r \<noteq> Panic \<and> r \<noteq> Hang"
  using reliable [of batch env n] unfolding delivers_def by (auto dest: wp_returns)

lemma success: "accepts batch \<Longrightarrow> forward env batch n = (Ok u, n') \<Longrightarrow> delivered (hist n') = delivered (hist n) @ payloads batch"
  using reliable [of batch env n] wp_Ok unfolding delivers_def partly_def adds_def by fastforce

lemma failure: "accepts batch \<Longrightarrow> forward env batch n = (Err e, n') \<Longrightarrow>
    \<exists>k. delivered (hist n') = delivered (hist n) @ take k (payloads batch)"
  using reliable [of batch env n] wp_Err unfolding delivers_def partly_def adds_def by fastforce

text \<open>
  Retries: whatever the fallbacker tried, what was delivered is a sequence of prefixes of the
  batch, and of the whole batch at the end when it reports success.
\<close>

lemma fallback_delivers:
  assumes "accepts batch" and "fallback_loop a t lat batch (forward env) n = (Ok (ok, sleeps), n')"
  shows "\<exists>ks. delivered (hist n') = delivered (hist n) @ concat (map (\<lambda>k. take k (payloads batch)) ks) @
      (if ok then payloads batch else [])"
  using assms(2)
proof (induction a arbitrary: lat n sleeps)
  case 0
  then show ?case by (intro exI [of _ "[]"]) simp
next
  case (Suc a)
  obtain r n1 where r: "forward env batch n = (r, n1)" "r \<noteq> Panic" "r \<noteq> Hang"
    using returns [OF assms(1)] by blast
  show ?case
  proof (cases r)
    case (Ok u)
    with Suc.prems r success [OF assms(1)] show ?thesis by (intro exI [of _ "[]"]) auto
  next
    case (Err e)
    then obtain k where k: "delivered (hist n1) = delivered (hist n) @ take k (payloads batch)"
      using failure [OF assms(1)] r by blast
    from Suc.prems r Err obtain lat' sl where "fallback_loop a t lat' batch (forward env) n1 = (Ok (ok, sl), n')"
      by (auto elim!: go_bind_OkE)
    from Suc.IH [OF this] obtain ks where "delivered (hist n') = delivered (hist n1) @
        concat (map (\<lambda>k. take k (payloads batch)) ks) @ (if ok then payloads batch else [])" by blast
    with k show ?thesis by (intro exI [of _ "k # ks"]) simp
  qed (use r in auto)
qed

lemma fallback_returns:
  assumes "accepts batch"
  shows "\<exists>ok sleeps n'. fallback_loop a t lat batch (forward env) n = (Ok (ok, sleeps), n')"
proof (induction a arbitrary: lat n)
  case (Suc a lat n)
  obtain r n1 where r: "forward env batch n = (r, n1)" "r \<noteq> Panic" "r \<noteq> Hang"
    using returns [OF assms] by blast
  obtain ok sl n2 where "fallback_loop a t (if lat * 2 > MaxBackoff t then MaxBackoff t else lat * 2) batch (forward env) n1 = (Ok (ok, sl), n2)"
    using Suc.IH by blast
  with r show ?case by (cases r) (auto simp: go_bind_def)
qed (auto intro: exI [of _ False])

text \<open>
  A batch in the sender with the timer fallbacker: it was delivered whole, behind a copy cut off
  by each failed attempt, or it is counted as a failure.
\<close>

lemma batch_accounted:
  assumes "accepts batch" and f: "Forward f = forward env" and fb: "runningFallbacker s = timer_FallBack t"
  shows "\<exists>s' ks done. forward_batch f batch s = (Ok (), s') \<and>
    delivered (hist (world s')) = delivered (hist (world s)) @ concat (map (\<lambda>k. take k (payloads batch)) ks) @
      (if done then payloads batch else []) \<and>
    sendCounter s' (s_PipeName s, ''failure'', ForwardType f) =
      sendCounter s (s_PipeName s, ''failure'', ForwardType f) + (if done then 0 else int (length batch))"
proof -
  obtain r n1 where r: "forward env batch (world s) = (r, n1)" "r \<noteq> Panic" "r \<noteq> Hang"
    using returns [OF assms(1)] by blast
  show ?thesis
  proof (cases r)
    case (Ok u)
    then have "delivered (hist n1) = delivered (hist (world s)) @ payloads batch" using success [OF assms(1)] r by blast
    with r Ok f show ?thesis
      by (intro exI [of _ "snd (forward_batch f batch s)"] exI [of _ "[]"] exI [of _ True]) (simp add: forward_batch_def count_def)
  next
    case (Err e)
    then obtain k where k: "delivered (hist n1) = delivered (hist (world s)) @ take k (payloads batch)"
      using failure [OF assms(1)] r by blast
    obtain ok sl n2 where fl: "fallback_loop (nat (MaxAttempts t - 1)) t (ExponentialBackoff t) batch (forward env) n1 = (Ok (ok, sl), n2)"
      using fallback_returns [OF assms(1)] by blast
    from fallback_delivers [OF assms(1) fl] obtain ks where ks: "delivered (hist n2) = delivered (hist n1) @
        concat (map (\<lambda>k. take k (payloads batch)) ks) @ (if ok then payloads batch else [])" by blast
    from r Err f fb fl k ks show ?thesis
      by (intro exI [of _ "snd (forward_batch f batch s)"] exI [of _ "k # ks"] exI [of _ ok])
        (simp add: forward_batch_def count_def on_world_def timer_FallBack_def go_bind_def)
  qed (use r in auto)
qed

end

end
