(* ===== verification/Reliable_Forwarders.thy ===== *)
theory Reliable_Forwarders
  imports Forwarder_Contract
begin

text \<open>
  The forwarders that keep the contract: tracing, meters, management, JVM, CLR, process, Envoy
  access logs and metrics, and OpenTelemetry metrics. For each, the messages of a batch and the
  interpretation of the contract. (Kafka is left out: a producer that fails may have sent any
  part of the messages.)
\<close>

section \<open>Shared steps\<close>

lemma silentE:
  assumes "silent m" and "m n = (r, n1)" shows "adds n n1 []" and "r \<noteq> Panic" and "r \<noteq> Hang"
  using spec [OF assms(1) [unfolded silent_def], of n] assms(2) by (auto simp: wp_def split: outcome.splits)

lemma adds_shift: "adds n n1 [] \<Longrightarrow> adds n1 n' ws = adds n n' ws"
  by (simp add: adds_def)

lemma partly_shift: "adds n n1 [] \<Longrightarrow> partly n1 n' ws = partly n n' ws"
  by (simp add: partly_def adds_shift)

lemma tries_shift: "adds n n1 [] \<Longrightarrow> m n = m' n1 \<Longrightarrow> tries err m' ws n1 \<Longrightarrow> tries err m ws n"
  by (auto simp: tries_def wp_def adds_shift partly_shift split: prod.splits outcome.splits if_splits)

lemma tries_stop: "adds n n1 [] \<Longrightarrow> m n = (Ok x, n1) \<Longrightarrow> err x \<noteq> None \<Longrightarrow> tries err m ws n"
  by (auto simp: tries_def wp_def)

lemma tries_cong: "m n = m' n \<Longrightarrow> tries err m' ws n \<Longrightarrow> tries err m ws n"
  unfolding tries_def by (rule wp_cong)

text \<open>One send, then the rest of a loop.\<close>

lemma tries_send_bind:
  assumes "\<And>n. tries err rest ws n" and "\<And>r. err (g r) = r"
  shows "tries err (go_bind (try_rpc env (SendMsg s w)) (\<lambda>r. if r \<noteq> None then go_return (g r) else rest)) (w # ws) n"
proof -
  have "tries err (go_bind (try_rpc env (SendMsg s w)) (\<lambda>r. if r \<noteq> None then go_return (g r) else rest)) ([w] @ ws) n"
    by (rule tries_bind [OF tries_send]) (auto simp: assms)
  then show ?thesis by simp
qed

section \<open>Tracing\<close>

definition tracing_payloads :: "BatchEvents \<Rightarrow> wire list" where
  "tracing_payloads batch =
     concat (map (\<lambda>e. case Data e of Some (Segment d) \<Rightarrow> [Raw d] | Some (SpanAttachedEvent d) \<Rightarrow> [Raw d] | _ \<Rightarrow> []) batch)"

lemma silent_stream_for: "silent (stream_for env m s)"
  by (cases s) (simp_all add: stream_for_def silent_open)

lemma silent_tracing_close: "silent (tracing_closeStream env ss)"
proof (induction ss)
  case Nil
  have "tracing_closeStream env [] = (\<lambda>n. (Ok None, n))" by (simp add: fun_eq_iff)
  then show ?case by simp
next
  case (Cons s ss)
  show ?case
  proof (cases s)
    case None
    then have "tracing_closeStream env (s # ss) = tracing_closeStream env ss" by (simp add: fun_eq_iff)
    with Cons show ?thesis by simp
  next
    case (Some i)
    then have "tracing_closeStream env (s # ss) = go_bind (close_and_recv env i) (\<lambda>e. go_bind (tracing_closeStream env ss) (\<lambda>es.
       go_return (if e = None then es else Some (Errorf ''multierror''))))" by (simp add: fun_eq_iff)
    then show ?thesis by (simp add: silent_bind silent_close Cons)
  qed
qed

lemma tracing_loop_tries: "tries fst (tracing_loop env batch ts ss) (tracing_payloads batch) n"
proof (induction batch arbitrary: ts ss n)
  case Nil
  show ?case by (simp add: tries_def wp_def tracing_payloads_def)
next
  case (Cons e batch ts ss n)
  have send: "tries fst (tracing_loop env (e # batch) ts ss) (Raw d # tracing_payloads batch) n"
    if st: "stream_for env meth so n = (x, n1)"
      and ok: "\<And>s. x = Ok s \<Longrightarrow> tracing_loop env (e # batch) ts ss n = go_bind (try_rpc env (SendMsg s (Raw d)))
          (\<lambda>r. if r \<noteq> None then go_return (r, f s, g s) else tracing_loop env batch (f s) (g s)) n1"
      and err: "\<And>y. x = Err y \<Longrightarrow> tracing_loop env (e # batch) ts ss n = (Ok (Some y, ts, ss), n1)"
    for meth so x n1 f g d
  proof (cases x)
    case (Ok s)
    show ?thesis
      by (rule tries_shift [of n n1 "tracing_loop env (e # batch) ts ss" "go_bind (try_rpc env (SendMsg s (Raw d)))
            (\<lambda>r. if r \<noteq> None then go_return (r, f s, g s) else tracing_loop env batch (f s) (g s))"])
        (rule silentE(1) [OF silent_stream_for st] ok [OF Ok] tries_send_bind Cons.IH fst_conv)+
  next
    case (Err y)
    show ?thesis
      by (rule tries_stop [of n n1 "tracing_loop env (e # batch) ts ss" "(Some y, ts, ss)"])
        (use silentE(1) [OF silent_stream_for st] err [OF Err] in simp_all)
  qed (use silentE(2,3) [OF silent_stream_for st] in auto)
  consider (seg) d where "Data e = Some (Segment d)" | (span) d where "Data e = Some (SpanAttachedEvent d)"
    | (other) "\<nexists>d. Data e = Some (Segment d)" "\<nexists>d. Data e = Some (SpanAttachedEvent d)" by blast
  then show ?case
  proof cases
    case seg
    obtain x n1 where st: "stream_for env ''TraceSegmentReportService.Collect'' ts n = (x, n1)" by fastforce
    have p: "tracing_payloads (e # batch) = Raw d # tracing_payloads batch" by (simp add: tracing_payloads_def seg)
    show ?thesis unfolding p by (rule send [OF st, of d Some "\<lambda>_. ss"]) (use seg st in simp_all)
  next
    case span
    obtain x n1 where st: "stream_for env ''SpanAttachedEventReportService.Collect'' ss n = (x, n1)" by fastforce
    have p: "tracing_payloads (e # batch) = Raw d # tracing_payloads batch" by (simp add: tracing_payloads_def span)
    show ?thesis unfolding p by (rule send [OF st, of d "\<lambda>_. ts" Some]) (use span st in simp_all)
  next
    case other
    then have "tracing_loop env (e # batch) ts ss n = tracing_loop env batch ts ss n" "tracing_payloads (e # batch) = tracing_payloads batch"
      by (auto simp: tracing_payloads_def split: option.splits payload.splits)
    with Cons.IH show ?thesis by (metis tries_cong)
  qed
qed

lemma nativetracing_delivers: "delivers (nativetracing_Forward env batch) (tracing_payloads batch) n"
  unfolding nativetracing_Forward_def
proof (rule delivers_tries [OF tracing_loop_tries])
  fix x :: "go_error option \<times> nat option \<times> nat option" and n1 :: "'a net"
  obtain err ts ss where x: "x = (err, ts, ss)" using prod_cases3 by blast
  have last: "wp False (go_bind (tracing_closeStream env [ts, ss]) (\<lambda>_ n. case r of None \<Rightarrow> (Ok (), n) | Some e \<Rightarrow> (Err e, n)))
      (\<lambda>_ n'. err = None \<and> adds n1 n' []) (\<lambda>_ n'. adds n1 n' []) n2"
    if "adds n1 n2 []" and "r = None \<Longrightarrow> err = None" for r and n2
    unfolding wp_bind
    by (rule silent_wp [OF silent_tracing_close]) (use that in \<open>auto simp: wp_def intro: adds_none split: option.splits\<close>)
  show "wp False (case x of (err, ts, ss) \<Rightarrow>
          go_bind (case err of Some e \<Rightarrow> go_return (Some e) | None \<Rightarrow> tracing_closeStream env [ts, ss]) (\<lambda>r.
            go_bind (tracing_closeStream env [ts, ss]) (\<lambda>_ n. case r of None \<Rightarrow> (Ok (), n) | Some e \<Rightarrow> (Err e, n))))
      (\<lambda>_ n'. fst x = None \<and> adds n1 n' []) (\<lambda>_ n'. adds n1 n' []) n1"
  proof (cases err)
    case None
    show ?thesis unfolding x prod.case None option.case wp_bind
      by (rule silent_wp [OF silent_tracing_close]) (use last None in \<open>simp_all add: wp_bind\<close>)
  next
    case (Some y)
    show ?thesis unfolding x prod.case Some option.case wp_bind wp_return
      using last [of n1 "Some y"] Some by (simp add: wp_bind)
  qed
qed

interpretation tracing: reliable_forwarder nativetracing_Forward "\<lambda>_. True" tracing_payloads
  by unfold_locales (rule nativetracing_delivers)

section \<open>Meters\<close>

definition meter_payloads :: "BatchEvents \<Rightarrow> wire list" where
  "meter_payloads batch =
     concat (map (\<lambda>e. case Data e of Some (MeterCollection (m # ms)) \<Rightarrow> [Meters (m # ms)] | _ \<Rightarrow> []) batch)"

lemma silent_meter_stream: "silent (meter_stream env m streamMap)"
proof -
  have "silent (meter_savePeerInstanceFromStream env s i)" for s i
    by (auto simp: silent_def wp_def meter_savePeerInstanceFromStream_def save_peer_def)
  then show ?thesis
    by (auto simp: meter_stream_def split: option.splits intro!: silent_bind silent_cache silent_open)
qed

lemma meter_loop_tries: "tries fst (meter_loop env batch streamMap) (meter_payloads batch) n"
proof (induction batch arbitrary: streamMap n)
  case Nil
  show ?case by (simp add: tries_def wp_def meter_payloads_def)
next
  case (Cons e batch streamMap n)
  consider (meter) m ms where "Data e = Some (MeterCollection (m # ms))"
    | (other) "\<nexists>m ms. Data e = Some (MeterCollection (m # ms))" by blast
  then show ?case
  proof cases
    case meter
    obtain x n1 where st: "meter_stream env m streamMap n = (x, n1)" by fastforce
    note quiet = silentE [OF silent_meter_stream st]
    have p: "meter_payloads (e # batch) = Meters (m # ms) # meter_payloads batch" by (simp add: meter_payloads_def meter)
    show ?thesis
    proof (cases x)
      case (Ok y)
      obtain s streamMap' where y: "y = (s, streamMap')" by fastforce
      have eq: "meter_loop env (e # batch) streamMap n = go_bind (try_rpc env (SendMsg s (Meters (m # ms))))
          (\<lambda>r. if r \<noteq> None then go_return (r, streamMap') else meter_loop env batch streamMap') n1"
        using meter st Ok y by simp
      show ?thesis unfolding p
        by (rule tries_shift [of n n1 "meter_loop env (e # batch) streamMap" "go_bind (try_rpc env (SendMsg s (Meters (m # ms))))
            (\<lambda>r. if r \<noteq> None then go_return (r, streamMap') else meter_loop env batch streamMap')"])
          (rule quiet(1) eq tries_send_bind Cons.IH fst_conv)+
    next
      case (Err y)
      show ?thesis
        by (rule tries_stop [of n n1 "meter_loop env (e # batch) streamMap" "(Some y, streamMap)"])
          (use quiet(1) meter st Err in simp_all)
    qed (use quiet in auto)
  next
    case other
    then have "meter_loop env (e # batch) streamMap n = meter_loop env batch streamMap n" "meter_payloads (e # batch) = meter_payloads batch"
      by (auto simp: meter_payloads_def split: option.splits payload.splits list.splits)
    with Cons.IH show ?thesis by (metis tries_cong)
  qed
qed

lemma silent_meter_close: "silent (meter_closeStream env s)"
  by (auto simp: meter_closeStream_def intro!: silent_bind silent_rpc)

lemma silent_meter_close_all: "silent (meter_close_all env ss)"
proof (induction ss)
  case Nil
  have "meter_close_all env [] = (\<lambda>n. (Ok (), n))" by (simp add: fun_eq_iff)
  then show ?case by simp
next
  case (Cons p ss)
  have "meter_close_all env (p # ss) = go_bind (meter_closeStream env (snd p)) (\<lambda>_. meter_close_all env ss)"
    by (cases p) (simp add: fun_eq_iff)
  then show ?case by (simp add: silent_bind silent_meter_close Cons)
qed

lemma nativemeter_delivers: "delivers (nativemeter_Forward env batch) (meter_payloads batch) n"
  unfolding nativemeter_Forward_def
proof (rule delivers_tries [OF meter_loop_tries])
  fix x :: "go_error option \<times> (string \<times> nat) list" and n1 :: "'a net"
  show "wp False (case x of (err, streamMap) \<Rightarrow> go_bind (meter_close_all env streamMap)
        (\<lambda>_ n. case err of None \<Rightarrow> (Ok (), n) | Some e \<Rightarrow> (Err e, n)))
      (\<lambda>_ n'. fst x = None \<and> adds n1 n' []) (\<lambda>_ n'. adds n1 n' []) n1"
    unfolding split_def wp_bind
    by (rule silent_wp [OF silent_meter_close_all]) (auto simp: wp_def split: option.splits)
qed

interpretation meter: reliable_forwarder nativemeter_Forward "\<lambda>_. True" meter_payloads
  by unfold_locales (rule nativemeter_delivers)

section \<open>One call per event\<close>

fun management_payloads :: "BatchEvents \<Rightarrow> string list \<Rightarrow> wire list" where
  "management_payloads [] seen = []"
| "management_payloads (e # batch) seen =
     (case Data e of
        Some (Instance p) \<Rightarrow> Raw p # management_payloads batch seen
      | Some (InstancePing p) \<Rightarrow>
          if ping_key p \<in> set seen then management_payloads batch seen
          else Ping p # management_payloads batch (seen @ [ping_key p])
      | _ \<Rightarrow> management_payloads batch seen)"

lemma management_loop_delivers: "delivers (management_loop env batch seen) (management_payloads batch seen) n"
proof (induction batch arbitrary: seen n)
  case Nil
  show ?case by (rule delivers_cong [of _ _ "go_return ()"]) simp_all
next
  case (Cons e batch seen n)
  consider (inst) p where "Data e = Some (Instance p)" | (ping) p where "Data e = Some (InstancePing p)" "ping_key p \<notin> set seen"
    | (skip) "\<nexists>p. Data e = Some (Instance p)" "\<nexists>p. Data e = Some (InstancePing p) \<and> ping_key p \<notin> set seen" by blast
  then show ?case
  proof cases
    case inst
    show ?thesis
      by (rule delivers_cong [of _ _ "go_bind (do_rpc env (Call ''ManagementService.ReportInstanceProperties'' Background (Raw p)))
            (\<lambda>_. management_loop env batch seen)"]) (use inst in \<open>simp_all add: delivers_call [OF Cons.IH]\<close>)
  next
    case ping
    show ?thesis
      by (rule delivers_cong [of _ _ "go_bind (do_rpc env (Call ''ManagementService.KeepAlive'' Background (Ping p)))
            (\<lambda>_. management_loop env batch (seen @ [ping_key p]))"]) (use ping in \<open>simp_all add: delivers_call [OF Cons.IH]\<close>)
  next
    case skip
    then have eq: "management_loop env (e # batch) seen n = management_loop env batch seen n"
        "management_payloads (e # batch) seen = management_payloads batch seen"
      by (cases "Data e"; cases "the (Data e)"; simp)+
    show ?thesis unfolding eq(2) by (rule delivers_cong [of "management_loop env (e # batch) seen", OF eq(1) Cons.IH])
  qed
qed

interpretation management: reliable_forwarder nativemanagement_Forward "\<lambda>_. True" "\<lambda>batch. management_payloads batch []"
  by unfold_locales (simp add: nativemanagement_Forward_def management_loop_delivers)

definition jvm_payload :: "sniff_data \<Rightarrow> wire" where
  "jvm_payload e = (case Data e of Some (Jvm m) \<Rightarrow> Raw m | _ \<Rightarrow> NilMsg)"

lemma nativejvm_delivers: "delivers (nativejvm_Forward env batch) (map jvm_payload batch) n"
proof (induction batch arbitrary: n)
  case Nil
  show ?case by (rule delivers_cong [of _ _ "go_return ()"]) simp_all
next
  case (Cons e batch)
  show ?case
    by (rule delivers_cong [of _ _ "go_bind (do_rpc env (Call ''JVMMetricReportService.Collect'' Background (jvm_payload e)))
          (\<lambda>_. nativejvm_Forward env batch)"]) (simp add: jvm_payload_def, simp add: delivers_call [OF Cons.IH])
qed

interpretation jvm: reliable_forwarder nativejvm_Forward "\<lambda>_. True" "map jvm_payload"
  by unfold_locales (rule nativejvm_delivers)

definition clr_payload :: "sniff_data \<Rightarrow> wire" where
  "clr_payload e = (case Data e of Some (Clr m) \<Rightarrow> Raw m | _ \<Rightarrow> NilMsg)"

lemma nativeclr_delivers: "delivers (nativeclr_Forward env batch) (map clr_payload batch) n"
proof (induction batch arbitrary: n)
  case Nil
  show ?case by (rule delivers_cong [of _ _ "go_return ()"]) simp_all
next
  case (Cons e batch)
  show ?case
    by (rule delivers_cong [of _ _ "go_bind (do_rpc env (Call ''CLRMetricReportService.Collect'' Background (clr_payload e)))
          (\<lambda>_. nativeclr_Forward env batch)"]) (simp add: clr_payload_def, simp add: delivers_call [OF Cons.IH])
qed

interpretation clr: reliable_forwarder nativeclr_Forward "\<lambda>_. True" "map clr_payload"
  by unfold_locales (rule nativeclr_delivers)

definition process_payloads :: "BatchEvents \<Rightarrow> wire list" where
  "process_payloads batch = concat (map (\<lambda>e. case Data e of Some (EBPFProcessPingPkgList m) \<Rightarrow> [Raw m] | _ \<Rightarrow> []) batch)"

lemma nativeprocess_delivers: "delivers (nativeprocess_Forward env batch) (process_payloads batch) n"
proof (induction batch arbitrary: n)
  case Nil
  show ?case by (rule delivers_cong [of _ _ "go_return ()"]) (simp_all add: process_payloads_def)
next
  case (Cons e batch)
  consider (ping) m where "Data e = Some (EBPFProcessPingPkgList m)"
    | (skip) "\<nexists>m. Data e = Some (EBPFProcessPingPkgList m)" by blast
  then show ?case
  proof cases
    case ping
    then have p: "process_payloads (e # batch) = Raw m # process_payloads batch" by (simp add: process_payloads_def)
    show ?thesis unfolding p
      by (rule delivers_cong [of _ _ "go_bind (do_rpc env (Call ''EBPFProcessService.KeepAlive'' Background (Raw m)))
            (\<lambda>_. nativeprocess_Forward env batch)"]) (use ping in \<open>simp_all add: delivers_call [OF Cons.IH]\<close>)
  next
    case skip
    then have "nativeprocess_Forward env (e # batch) n = nativeprocess_Forward env batch n" "process_payloads (e # batch) = process_payloads batch"
      by (auto simp: process_payloads_def split: option.splits payload.splits)
    with Cons.IH show ?thesis by (metis delivers_cong)
  qed
qed

interpretation process: reliable_forwarder nativeprocess_Forward "\<lambda>_. True" process_payloads
  by unfold_locales (rule nativeprocess_delivers)

section \<open>Envoy: streams of lists\<close>

lemma send_each_tries: "tries (\<lambda>r. r) (send_each env s ws) ws n"
proof (induction ws arbitrary: n)
  case Nil
  show ?case by (simp add: tries_def wp_def)
next
  case (Cons w ws n)
  have "tries (\<lambda>r. r) (go_bind (try_rpc env (SendMsg s w)) (\<lambda>r. if r \<noteq> None then go_return r else send_each env s ws)) (w # ws) n"
    by (rule tries_send_bind) (rule Cons.IH refl)+
  then show ?case by (rule tries_cong [rotated]) simp
qed

lemma delivers_tries_bind:
  assumes m: "tries err m ws n"
    and ok: "\<And>x n1. err x = None \<Longrightarrow> delivers (k x) vs n1"
    and bad: "\<And>x n1. err x \<noteq> None \<Longrightarrow> wp False (k x) (\<lambda>_ _. False) (\<lambda>_ n'. adds n1 n' []) n1"
  shows "delivers (go_bind m k) (ws @ vs) n"
  unfolding delivers_def wp_bind
proof (rule wp_conseq [OF m [unfolded tries_def]])
  fix x n1 assume x: "if err x = None then adds n n1 ws else partly n n1 ws"
  show "wp False (k x) (\<lambda>_ n'. adds n n' (ws @ vs)) (\<lambda>_ n'. partly n n' (ws @ vs)) n1"
  proof (cases "err x = None")
    case True
    with x have a: "adds n n1 ws" by simp
    show ?thesis
      by (rule wp_conseq [OF ok [OF True, unfolded delivers_def]]) (auto intro: adds_trans [OF a] partly_trans [OF a])
  next
    case False
    with x have a: "partly n n1 ws" by simp
    show ?thesis by (rule wp_conseq [OF bad [OF False]]) (auto intro: partly_append [OF partly_none_right [OF a]])
  qed
qed simp

lemma close_with_error: "wp False (go_bind (close_and_recv env s) (\<lambda>_ n. (Err x, n))) (\<lambda>_ _. False) (\<lambda>_ n'. adds n n' []) n"
  unfolding wp_bind by (rule silent_wp [OF silent_close]) (simp_all add: wp_def)

lemma delivers_then_silent:
  assumes m: "delivers m ws n" and k: "\<And>x. silent (k x)"
  shows "delivers (go_bind m k) ws n"
proof -
  have "delivers (go_bind m k) (ws @ []) n"
  proof (rule delivers_bind, rule wp_conseq [OF m [unfolded delivers_def]])
    fix x n' assume "adds n n' ws"
    moreover have "delivers (k x) [] n'" unfolding delivers_def by (rule silent_wp [OF k]) simp_all
    ultimately show "adds n n' ws \<and> delivers (k x) [] n'" by simp
  qed simp
  then show ?thesis by simp
qed

definition metrics_payloads :: "(payload \<Rightarrow> metrics_message list option) \<Rightarrow> BatchEvents \<Rightarrow> wire list" where
  "metrics_payloads get batch = concat (map (\<lambda>e. case Option.bind (Data e) get of None \<Rightarrow> [] | Some ms \<Rightarrow> map Metrics ms) batch)"

lemma metrics_delivers: "delivers (metrics_Forward env get batch) (metrics_payloads get batch) n"
proof (induction batch arbitrary: n)
  case Nil
  show ?case by (rule delivers_cong [of _ _ "go_return ()"]) (simp_all add: metrics_payloads_def)
next
  case (Cons e batch n)
  show ?case
  proof (cases "Option.bind (Data e) get")
    case None
    then have p: "metrics_payloads get (e # batch) = metrics_payloads get batch" by (simp add: metrics_payloads_def)
    show ?thesis unfolding p by (rule delivers_cong [OF _ Cons.IH]) (simp add: None)
  next
    case (Some ms)
    then have p: "metrics_payloads get (e # batch) = map Metrics ms @ metrics_payloads get batch" by (simp add: metrics_payloads_def)
    let ?k = "\<lambda>stream r. go_bind (close_and_recv env stream) (\<lambda>_. case r of Some x \<Rightarrow> (\<lambda>n. (Err x, n)) | None \<Rightarrow> metrics_Forward env get batch)"
    have "delivers (go_bind (send_each env stream (map Metrics ms)) (?k stream)) (map Metrics ms @ metrics_payloads get batch) n1" for stream n1
    proof (rule delivers_tries_bind [OF send_each_tries])
      fix x :: "go_error option" and n1 :: "'a net"
      show "x = None \<Longrightarrow> delivers (?k stream x) (metrics_payloads get batch) n1"
        by (auto intro: delivers_silent [OF silent_close] Cons.IH)
      show "x \<noteq> None \<Longrightarrow> wp False (?k stream x) (\<lambda>_ _. False) (\<lambda>_ n'. adds n1 n' []) n1"
        using close_with_error by auto
    qed
    then have "delivers (go_bind (open_stream env ''MetricsService.StreamMetrics'' Background)
        (\<lambda>stream. go_bind (send_each env stream (map Metrics ms)) (?k stream))) (metrics_payloads get (e # batch)) n"
      unfolding p by (rule delivers_silent [OF silent_open])
    then show ?thesis by (rule delivers_cong [rotated]) (simp add: Some)
  qed
qed

interpretation metricsv2: reliable_forwarder envoymetricsv2_Forward "\<lambda>_. True" "metrics_payloads get_metrics_v2"
  by unfold_locales (simp add: envoymetricsv2_Forward_def metrics_delivers)

interpretation metricsv3: reliable_forwarder envoymetricsv3_Forward "\<lambda>_. True" "metrics_payloads get_metrics_v3"
  by unfold_locales (simp add: envoymetricsv3_Forward_def metrics_delivers)

text \<open>Access logs: every event has to carry a list.\<close>

definition als_accepts :: "(payload \<Rightarrow> msg list option) \<Rightarrow> BatchEvents \<Rightarrow> bool" where
  "als_accepts get batch \<longleftrightarrow> list_all (\<lambda>e. als_messages get e \<noteq> None) batch"

definition als_payloads :: "(payload \<Rightarrow> msg list option) \<Rightarrow> BatchEvents \<Rightarrow> wire list" where
  "als_payloads get batch = concat (map (\<lambda>e. case als_messages get e of None \<Rightarrow> [] | Some ms \<Rightarrow> map Raw ms) batch)"

lemma silent_als_count: "als_accepts get batch \<Longrightarrow> silent (als_count_ready get batch :: ('c, unit) netgo)"
proof (induction batch)
  case Nil
  have "als_count_ready get [] = (\<lambda>n. (Ok (), n))" by (simp add: fun_eq_iff)
  then show ?case by simp
next
  case (Cons e batch)
  then obtain ms where ms: "als_messages get e = Some ms" by (auto simp: als_accepts_def)
  have "(als_count_ready get (e # batch) :: ('c, unit) netgo) = go_bind (count_by ''als_streaming_ready_send'' (int (length ms))) (\<lambda>_. als_count_ready get batch)"
    by (simp add: fun_eq_iff ms)
  moreover have "als_accepts get batch" using Cons.prems by (simp add: als_accepts_def)
  ultimately show ?case by (simp add: silent_bind silent_count Cons.IH)
qed

lemma als_loop_delivers: "delivers (als_send_loop env get peer stream batch) (als_payloads get batch) n"
proof (induction batch arbitrary: n)
  case Nil
  show ?case by (rule delivers_cong [of _ _ "go_return ()"]) (simp_all add: als_payloads_def)
next
  case (Cons e batch n)
  show ?case
  proof (cases "als_messages get e")
    case None
    then have p: "als_payloads get (e # batch) = als_payloads get batch" by (simp add: als_payloads_def)
    show ?thesis unfolding p by (rule delivers_cong [OF _ Cons.IH]) (simp add: None)
  next
    case (Some ms)
    then have p: "als_payloads get (e # batch) = map Raw ms @ als_payloads get batch" by (simp add: als_payloads_def)
    let ?k = "\<lambda>r. case r of Some x \<Rightarrow> go_bind (close_and_recv env stream) (\<lambda>_ n. (Err x, n))
        | None \<Rightarrow> go_bind (count_by (''als_event_send_finished '' @ peer) 1) (\<lambda>_. als_send_loop env get peer stream batch)"
    have "delivers (go_bind (send_each env stream (map Raw ms)) ?k) (map Raw ms @ als_payloads get batch) n"
    proof (rule delivers_tries_bind [OF send_each_tries])
      fix x :: "go_error option" and n1 :: "'a net"
      show "x = None \<Longrightarrow> delivers (?k x) (als_payloads get batch) n1"
        by (auto intro: delivers_silent [OF silent_count] Cons.IH)
      show "x \<noteq> None \<Longrightarrow> wp False (?k x) (\<lambda>_ _. False) (\<lambda>_ n'. adds n1 n' []) n1"
        using close_with_error by auto
    qed
    then show ?thesis unfolding p by (rule delivers_cong [rotated]) (simp add: Some del: append_Cons)
  qed
qed

lemma als_delivers:
  assumes "als_accepts get batch" shows "delivers (als_Forward env get batch) (als_payloads get batch) n"
proof -
  have "delivers (\<lambda>n. let peer = peer_host (peer_address env (hist n) stream) in
       go_bind (als_send_loop env get peer stream batch) (\<lambda>_. go_bind (close_and_recv env stream) (\<lambda>_. go_return ())) n)
     (als_payloads get batch) n1" for stream n1
    by (rule delivers_cong [of _ _ "go_bind (als_send_loop env get (peer_host (peer_address env (hist n1) stream)) stream batch)
          (\<lambda>_. go_bind (close_and_recv env stream) (\<lambda>_. go_return ()))"])
      (simp_all add: Let_def delivers_then_silent als_loop_delivers silent_bind silent_close)
  then show ?thesis unfolding als_Forward_def
    by (intro delivers_silent silent_count silent_als_count silent_open assms)
qed

interpretation alsv2: reliable_forwarder envoyalsv2_Forward "als_accepts get_als_v2" "als_payloads get_als_v2"
  by unfold_locales (simp add: envoyalsv2_Forward_def als_delivers)

interpretation alsv3: reliable_forwarder envoyalsv3_Forward "als_accepts get_als_v3" "als_payloads get_als_v3"
  by unfold_locales (simp add: envoyalsv3_Forward_def als_delivers)

section \<open>OpenTelemetry: one routed call per event\<close>

text \<open>Events without a routing key are skipped.\<close>

definition otlp_payloads :: "string list \<Rightarrow> BatchEvents \<Rightarrow> wire list" where
  "otlp_payloads keys batch =
     concat (map (\<lambda>d. case generateRoutingKey keys (otlp_request_of d) of Ok key \<Rightarrow> [Otlp (otlp_request_of d)] | _ \<Rightarrow> []) batch)"

lemma otlp_delivers: "delivers (otlp_Forward env keys batch) (otlp_payloads keys batch) n"
proof (induction batch arbitrary: n)
  case Nil
  show ?case by (rule delivers_cong [of _ _ "go_return ()"]) (simp_all add: otlp_payloads_def)
next
  case (Cons d batch n)
  have save: "silent (otlp_savePeerInstanceFromStream env key)" for key
    by (auto simp: silent_def wp_def otlp_savePeerInstanceFromStream_def save_peer_def)
  consider (key) key where "generateRoutingKey keys (otlp_request_of d) = Ok key"
    | (none) "\<nexists>key. generateRoutingKey keys (otlp_request_of d) = Ok key" by blast
  then show ?case
  proof cases
    case key
    then have p: "otlp_payloads keys (d # batch) = Otlp (otlp_request_of d) # otlp_payloads keys batch" by (simp add: otlp_payloads_def)
    have "delivers (go_bind (loadCachedPeer env key) (\<lambda>peer.
          go_bind (do_rpc env (Call ''MetricsService.Export'' (Routed key peer) (Otlp (otlp_request_of d)))) (\<lambda>_.
          go_bind (otlp_savePeerInstanceFromStream env key) (\<lambda>_. otlp_Forward env keys batch))))
        (Otlp (otlp_request_of d) # otlp_payloads keys batch) n"
      by (intro delivers_silent [OF silent_cache(1)] delivers_call delivers_silent [OF save] Cons.IH)
    then show ?thesis unfolding p by (rule delivers_cong [rotated]) (simp add: key)
  next
    case none
    then have p: "otlp_payloads keys (d # batch) = otlp_payloads keys batch"
      and f: "otlp_Forward env keys (d # batch) n = otlp_Forward env keys batch n"
      by (auto simp: otlp_payloads_def split: outcome.splits)
    show ?thesis unfolding p by (rule delivers_cong [of "otlp_Forward env keys (d # batch)", OF f Cons.IH])
  qed
qed

interpretation otlp: reliable_forwarder "\<lambda>env. otlp_Forward env keys" "\<lambda>_. True" "otlp_payloads keys" for keys
  by unfold_locales (rule otlp_delivers)

end
