(* ===== verification/Forwarder_Properties.thy ===== *)
theory Forwarder_Properties
  imports Reliable_Forwarders Module_Properties
begin

text \<open>
  The properties of the forwarders, with their witnesses.
\<close>

section \<open>The contract\<close>

definition keeps_contract :: "('c grpc_env \<Rightarrow> BatchEvents \<Rightarrow> ('c, unit) netgo) \<Rightarrow> (BatchEvents \<Rightarrow> bool) \<Rightarrow> (BatchEvents \<Rightarrow> wire list) \<Rightarrow> bool" where
  "keeps_contract forward accepts payloads \<longleftrightarrow>
     (\<forall>env batch n. accepts batch \<longrightarrow>
        (case forward env batch n of
           (Ok _, n') \<Rightarrow> delivered (hist n') = delivered (hist n) @ payloads batch
         | (Err _, n') \<Rightarrow> \<exists>k. delivered (hist n') = delivered (hist n) @ take k (payloads batch)
         | (Panic, n') \<Rightarrow> False
         | (Hang, n') \<Rightarrow> False))"

context reliable_forwarder
begin

lemma contract: "keeps_contract forward accepts payloads"
  unfolding keeps_contract_def
proof (intro allI impI)
  fix env :: "'c grpc_env" and batch and n :: "'c net" assume acc: "accepts batch"
  obtain r n' where r: "forward env batch n = (r, n')" "r \<noteq> Panic" "r \<noteq> Hang" using returns [OF acc] by blast
  then show "case forward env batch n of
           (Ok _, n') \<Rightarrow> delivered (hist n') = delivered (hist n) @ payloads batch
         | (Err _, n') \<Rightarrow> \<exists>k. delivered (hist n') = delivered (hist n) @ take k (payloads batch)
         | (Panic, n') \<Rightarrow> False | (Hang, n') \<Rightarrow> False"
    by (cases r) (auto dest: success [OF acc] failure [OF acc])
qed

end


section \<open>With the sender and the timer fallbacker\<close>


text \<open>A network that is down, and one that accepts calls but no messages on streams.\<close>

definition env_with :: "(calls \<Rightarrow> rpc \<Rightarrow> go_error + msg) \<Rightarrow> unit grpc_env" where
  "env_with a = \<lparr>answer = a, peer_address = (\<lambda>_ _. []), appointed = (\<lambda>_. []), lru_New = (\<lambda>_. ()),
     lru_Add = (\<lambda>c _ _. c), lru_Get = (\<lambda>c _. (None, c))\<rparr>"

definition down_env :: "unit grpc_env" where
  "down_env = env_with (\<lambda>_ _. Inl EOF)"

definition deaf_env :: "unit grpc_env" where
  "deaf_env = env_with (\<lambda>_ c. case c of SendMsg s w \<Rightarrow> Inl (Errorf ''broken'') | _ \<Rightarrow> Inr [])"

definition idle_net :: "unit net" where
  "idle_net = \<lparr>hist = [], cache = (), counters = (\<lambda>_. 0)\<rparr>"

definition net_sender :: "unit net sender" where
  "net_sender = \<lparr>s_PipeName = ''p'', MaxBufferSize = 2, MinFlushEvents = 1, runningForwarders = [],
     runningFallbacker = timer_FallBack \<lparr>MaxAttempts = 3, ExponentialBackoff = 2, MaxBackoff = 5\<rparr>,
     gatherer_Ack = (\<lambda>o1 w. (Ok (), w)), buffers = [], blocking = False, inputsClosed = False, shutdownDone = False,
     sendCounter = (\<lambda>_. 0), flushLog = [], world = idle_net\<rparr>"

definition data_event :: "SniffType \<Rightarrow> payload \<Rightarrow> sniff_data" where
  "data_event t p = \<lparr>Name = ''e'', Timestamp = 0, Type = t, Remote = True, Data = Some p\<rparr>"


section \<open>Losses that are not reported\<close>

lemma try_answer: "answer env (hist n) c = Inl e \<Longrightarrow> try_rpc env c n = (Ok (Some e), n\<lparr>hist := hist n @ [(c, False)]\<rparr>)"
  "answer env (hist n) c = Inr m \<Longrightarrow> try_rpc env c n = (Ok None, n\<lparr>hist := hist n @ [(c, True)]\<rparr>)"
  by (simp_all add: try_rpc_def do_rpc_def)

text \<open>The hypothesis of the next property: streams open and close, but accept nothing.\<close>

definition deaf :: "'c grpc_env \<Rightarrow> bool" where
  "deaf env \<longleftrightarrow> (\<forall>h c. case c of SendMsg s w \<Rightarrow> \<exists>e. answer env h c = Inl e
     | Open m x \<Rightarrow> \<exists>m. answer env h c = Inr m | CloseAndRecv s \<Rightarrow> \<exists>m. answer env h c = Inr m | _ \<Rightarrow> True)"

lemma deaf_answers:
  assumes "deaf env"
  shows "\<exists>e. answer env h (SendMsg s w) = Inl e" "\<exists>m. answer env h (Open me x) = Inr m" "\<exists>m. answer env h (CloseAndRecv s) = Inr m"
  using spec [OF spec [OF assms [unfolded deaf_def], of h], of "SendMsg s w"]
    spec [OF spec [OF assms [unfolded deaf_def], of h], of "Open me x"]
    spec [OF spec [OF assms [unfolded deaf_def], of h], of "CloseAndRecv s"] by simp_all

lemma deaf_calls:
  assumes "deaf env"
  shows "\<exists>e. try_rpc env (SendMsg s w) n = (Ok (Some e), n\<lparr>hist := hist n @ [(SendMsg s w, False)]\<rparr>)"
    and "open_stream env me x n = (Ok (length (hist n)), n\<lparr>hist := hist n @ [(Open me x, True)]\<rparr>)"
    and "close_and_recv env s n = (Ok None, n\<lparr>hist := hist n @ [(CloseAndRecv s, True)]\<rparr>)"
proof -
  show "\<exists>e. try_rpc env (SendMsg s w) n = (Ok (Some e), n\<lparr>hist := hist n @ [(SendMsg s w, False)]\<rparr>)"
    using deaf_answers(1) [OF assms] try_answer(1) by blast
  obtain m where "answer env (hist n) (Open me x) = Inr m" using deaf_answers(2) [OF assms] by blast
  then show "open_stream env me x n = (Ok (length (hist n)), n\<lparr>hist := hist n @ [(Open me x, True)]\<rparr>)"
    by (simp add: open_stream_def do_rpc_def go_bind_def)
  obtain m' where "answer env (hist n) (CloseAndRecv s) = Inr m'" using deaf_answers(3) [OF assms] by blast
  then show "close_and_recv env s n = (Ok None, n\<lparr>hist := hist n @ [(CloseAndRecv s, True)]\<rparr>)"
    by (simp add: close_and_recv_def go_bind_def try_answer)
qed

definition nothing :: "('c, unit) netgo \<Rightarrow> bool" where
  "nothing m \<longleftrightarrow> (\<forall>n. \<exists>n'. m n = (Ok (), n') \<and> delivered (hist n') = delivered (hist n))"

lemma deaf_send_or_close:
  assumes "deaf env"
  shows "\<exists>n' b. send_or_close env s ws n = (Ok b, n') \<and> delivered (hist n') = delivered (hist n)"
proof (cases ws)
  case (Cons w vs)
  obtain e where "try_rpc env (SendMsg s w) n = (Ok (Some e), n\<lparr>hist := hist n @ [(SendMsg s w, False)]\<rparr>)"
    using deaf_calls(1) [OF assms] by blast
  with Cons have "send_or_close env s ws n = (Ok True, n\<lparr>hist := hist n @ [(SendMsg s w, False), (CloseAndRecv s, True)]\<rparr>)"
    by (simp add: go_bind_def deaf_calls(3) [OF assms])
  then show ?thesis by (simp add: exI [of _ True])
next
  case Nil
  then show ?thesis by (simp add: exI [of _ False])
qed

lemma deaf_send_batch:
  assumes "deaf env" shows "\<exists>n'. send_batch env s ws n = (Ok (), n') \<and> delivered (hist n') = delivered (hist n)"
proof (cases ws)
  case (Cons w vs)
  obtain e where "try_rpc env (SendMsg s w) n = (Ok (Some e), n\<lparr>hist := hist n @ [(SendMsg s w, False)]\<rparr>)"
    using deaf_calls(1) [OF assms] by blast
  with Cons show ?thesis by (simp add: go_bind_def deaf_calls(3) [OF assms])
qed (simp add: go_bind_def deaf_calls(3) [OF assms])

lemma deaf_stream_batch:
  assumes "deaf env" shows "nothing (go_bind (open_stream env me x) (\<lambda>s. send_batch env s ws))"
  unfolding nothing_def
proof
  fix n
  obtain n' where "send_batch env (length (hist n)) ws (n\<lparr>hist := hist n @ [(Open me x, True)]\<rparr>) = (Ok (), n')"
      "delivered (hist n') = delivered (hist n)"
    using deaf_send_batch [OF assms, of "length (hist n)" ws "n\<lparr>hist := hist n @ [(Open me x, True)]\<rparr>"] by auto
  then show "\<exists>n'. go_bind (open_stream env me x) (\<lambda>s. send_batch env s ws) n = (Ok (), n') \<and> delivered (hist n') = delivered (hist n)"
    by (simp add: go_bind_def deaf_calls(2) [OF assms])
qed

lemma deaf_stream_each:
  assumes "deaf env" and "nothing rest"
  shows "nothing (go_bind (open_stream env me x) (\<lambda>s. go_bind (send_or_close env s ws) (\<lambda>closed.
      go_bind (if closed then go_return None else close_and_recv env s) (\<lambda>_. rest))))" (is "nothing ?m")
  unfolding nothing_def
proof
  fix n :: "'a net"
  let ?s = "length (hist n)"
  obtain n1 b where n1: "send_or_close env ?s ws (n\<lparr>hist := hist n @ [(Open me x, True)]\<rparr>) = (Ok b, n1)"
      "delivered (hist n1) = delivered (hist n)"
    using deaf_send_or_close [OF assms(1), of ?s ws "n\<lparr>hist := hist n @ [(Open me x, True)]\<rparr>"] by auto
  obtain n2 where n2: "rest (if b then n1 else n1\<lparr>hist := hist n1 @ [(CloseAndRecv ?s, True)]\<rparr>) = (Ok (), n2)"
      "delivered (hist n2) = delivered (hist n1)"
    using assms(2) [unfolded nothing_def, rule_format, of "if b then n1 else n1\<lparr>hist := hist n1 @ [(CloseAndRecv ?s, True)]\<rparr>"]
    by (auto split: if_splits)
  have "?m n = (Ok (), n2)" using n1 n2 by (simp add: go_bind_def deaf_calls(2,3) [OF assms(1)] split: if_splits)
  with n1 n2 show "\<exists>n'. ?m n = (Ok (), n') \<and> delivered (hist n') = delivered (hist n)" by simp
qed

lemma nothing_cong: "(\<And>n. m n = m' n) \<Longrightarrow> nothing m' \<Longrightarrow> nothing m"
  by (simp add: nothing_def)

lemma nothing_return: "nothing (\<lambda>n. (Ok (), n))"
  by (simp add: nothing_def)

lemma deaf_nativelog: "deaf env \<Longrightarrow> nothing (nativelog_Forward env batch)"
proof (induction batch)
  case Nil
  show ?case by (rule nothing_cong [OF _ nothing_return]) simp
next
  case (Cons e batch)
  show ?case
  proof (cases "\<exists>logs. Data e = Some (LogList logs)")
    case True
    then obtain logs where "Data e = Some (LogList logs)" by blast
    then show ?thesis by (intro nothing_cong [OF _ deaf_stream_each [OF Cons.prems Cons.IH [OF Cons.prems]]]) simp
  next
    case False
    then have "nativelog_Forward env (e # batch) n = nativelog_Forward env batch n" for n
      by (auto split: option.splits payload.splits)
    then show ?thesis by (rule nothing_cong [OF _ Cons.IH [OF Cons.prems]])
  qed
qed

lemma deaf_ebpfaccesslog: "deaf env \<Longrightarrow> nothing (ebpfaccesslog_Forward env batch)"
proof (induction batch)
  case Nil
  show ?case by (rule nothing_cong [OF _ nothing_return]) simp
next
  case (Cons e batch)
  show ?case
  proof (cases "\<exists>logs. Data e = Some (EBPFAccessLogList logs)")
    case True
    then obtain logs where "Data e = Some (EBPFAccessLogList logs)" by blast
    then show ?thesis by (intro nothing_cong [OF _ deaf_stream_each [OF Cons.prems Cons.IH [OF Cons.prems]]]) simp
  next
    case False
    then have "ebpfaccesslog_Forward env (e # batch) n = ebpfaccesslog_Forward env batch n" for n
      by (auto split: option.splits payload.splits)
    then show ?thesis by (rule nothing_cong [OF _ Cons.IH [OF Cons.prems]])
  qed
qed



section \<open>Management\<close>

definition ping_keys :: "wire list \<Rightarrow> string list" where
  "ping_keys ws = concat (map (\<lambda>w. case w of Ping p \<Rightarrow> [ping_key p] | _ \<Rightarrow> []) ws)"

definition batch_ping_keys :: "BatchEvents \<Rightarrow> string list" where
  "batch_ping_keys batch = concat (map (\<lambda>e. case Data e of Some (InstancePing p) \<Rightarrow> [ping_key p] | _ \<Rightarrow> []) batch)"

lemma ping_keys_simps [simp]: "ping_keys [] = []" "ping_keys (Ping p # ws) = ping_key p # ping_keys ws" "ping_keys (Raw m # ws) = ping_keys ws"
  by (simp_all add: ping_keys_def)

lemma management_payloads_pings:
  "distinct (ping_keys (management_payloads batch seen)) \<and>
   set (ping_keys (management_payloads batch seen)) = set (batch_ping_keys batch) - set seen"
proof (induction batch arbitrary: seen)
  case (Cons e batch seen)
  note IH = Cons.IH [of seen]
  consider (ping) p where "Data e = Some (InstancePing p)" | (inst) p where "Data e = Some (Instance p)"
    | (other) "\<nexists>p. Data e = Some (InstancePing p)" "\<nexists>p. Data e = Some (Instance p)" by blast
  then show ?case
  proof cases
    case ping
    then show ?thesis using IH Cons.IH [of "seen @ [ping_key p]"] by (auto simp: batch_ping_keys_def)
  next
    case inst
    then show ?thesis using IH by (simp add: batch_ping_keys_def)
  next
    case other
    then have "management_payloads (e # batch) seen = management_payloads batch seen" "batch_ping_keys (e # batch) = batch_ping_keys batch"
      by (cases "Data e"; cases "the (Data e)"; simp add: batch_ping_keys_def)+
    then show ?thesis using IH by presburger
  qed
qed (simp add: batch_ping_keys_def)

text \<open>
  Pings are sent once. When the management forwarder returns without an error, the messages
  it delivered hold, for every key \<open>service_instance\<close> among the pings of the batch, exactly one
  ping, and none for any other key.
\<close>

theorem management_ping_once:
  assumes "nativemanagement_Forward env batch n = (Ok u, n')"
  shows "\<exists>ws. delivered (hist n') = delivered (hist n) @ ws \<and> distinct (ping_keys ws) \<and>
    set (ping_keys ws) = set (batch_ping_keys batch)"
  using management.success [OF TrueI assms] management_payloads_pings [of batch "[]"] by auto

definition ping_event :: "string \<Rightarrow> string \<Rightarrow> sniff_data" where
  "ping_event s i = data_event ManagementType (InstancePing \<lparr>p_service = s, p_instance = i\<rparr>)"

text \<open>The second and the third ping have the same key, although they are of different services.\<close>

theorem management_ping_once_witness:
  "\<exists>ws. delivered (hist (snd (nativemanagement_Forward deaf_env [ping_event ''s'' ''i'', ping_event ''a_b'' ''c'', ping_event ''a'' ''b_c''] idle_net))) = ws \<and>
    distinct (ping_keys ws) \<and> set (ping_keys ws) = {''s_i'', ''a_b_c''}"
proof -
  let ?batch = "[ping_event ''s'' ''i'', ping_event ''a_b'' ''c'', ping_event ''a'' ''b_c'']"
  have "nativemanagement_Forward deaf_env ?batch idle_net = (Ok (), snd (nativemanagement_Forward deaf_env ?batch idle_net))"
    by (simp add: nativemanagement_Forward_def ping_event_def data_event_def ping_key_def go_bind_def do_rpc_def deaf_env_def env_with_def idle_net_def)
  from management_ping_once [OF this] show ?thesis
    by (simp add: idle_net_def batch_ping_keys_def ping_event_def data_event_def ping_key_def)
qed

section \<open>Routing of OpenTelemetry metrics\<close>

definition has_routing_key :: "string list \<Rightarrow> otlp_attributes \<Rightarrow> bool" where
  "has_routing_key keys attrs \<longleftrightarrow> list_ex (\<lambda>kv. fst kv \<in> set keys) attrs"

lemma routing_values_empty: "routing_values keys attrs = [] \<longleftrightarrow> \<not> has_routing_key keys attrs"
  by (force simp: routing_values_def has_routing_key_def list_ex_iff)

lemma routing_loop_find:
  "(routing_loop keys rs kvs = Inl k) = (\<exists>attrs. find (has_routing_key keys) (List.map_filter (\<lambda>r. r) rs) = Some attrs \<and> k = routing_values keys attrs)"
proof (induction rs arbitrary: kvs)
  case (Cons r rs)
  then show ?case
    by (cases r) (auto simp: List.map_filter_simps routing_values_empty, auto simp: has_routing_key_def)
qed (simp add: List.map_filter_simps)


section \<open>Access logs of another kind\<close>

lemma als_count_panics: "\<not> als_accepts get batch \<Longrightarrow> \<exists>n'. als_count_ready get batch n = (Panic, n') \<and> hist n' = hist n"
proof (induction batch arbitrary: n)
  case (Cons e batch n)
  show ?case
  proof (cases "als_messages get e")
    case (Some ms)
    with Cons.prems have "\<not> als_accepts get batch" by (simp add: als_accepts_def)
    from Cons.IH [OF this, of "snd (count_by ''als_streaming_ready_send'' (int (length ms)) n)"] Some show ?thesis
      by (auto simp: go_bind_def count_by_def split: prod.splits)
  qed simp
qed (simp add: als_accepts_def)

text \<open>
  Access log forwarders panic on other data. When an event of the batch carries no access
  log list of the forwarder's version, \<open>Forward\<close> dereferences nil while it counts, before
  anything is sent.
\<close>

theorem als_other_data_panics:
  assumes "\<not> als_accepts get_als_v3 batch"
  shows "\<exists>n'. envoyalsv3_Forward env batch n = (Panic, n') \<and> hist n' = hist n"
proof -
  let ?n = "snd (count_by ''als_event_ready_send'' (int (length batch)) n)"
  obtain n' where "als_count_ready get_als_v3 batch ?n = (Panic, n')" "hist n' = hist ?n"
    using als_count_panics [OF assms] by blast
  then show ?thesis by (simp add: envoyalsv3_Forward_def als_Forward_def go_bind_def count_by_def)
qed

theorem als_other_data_panics_witness:
  "\<exists>n'. envoyalsv3_Forward deaf_env [data_event EnvoyALSV3Type (EnvoyALSV2List [[1]])] idle_net = (Panic, n') \<and> hist n' = []"
  using als_other_data_panics [of "[data_event EnvoyALSV3Type (EnvoyALSV2List [[1]])]" deaf_env idle_net]
  by (simp add: als_accepts_def als_messages_def get_als_v3_def data_event_def idle_net_def)

end
