(* ===== verification/Receiver_Properties.thy ===== *)
theory Receiver_Properties
  imports Envoy_Receivers Receiver_Table Forwarder_Properties
begin

text \<open>
  The properties of the receivers, alone and with the forwarders and the sender.
\<close>

section \<open>From receiver to forwarder\<close>

text \<open>What a forwarder finds in a batch depends on the data of its events only.\<close>

lemma payloads_of_data:
  "map Data es = map Some ps \<Longrightarrow> concat (map (\<lambda>e. h (Data e)) es) = concat (map (\<lambda>p. h (Some p)) ps)"
proof -
  have "concat (map (\<lambda>e. h (Data e)) es) = concat (map h (map Data es))" by (simp add: comp_def)
  also assume "map Data es = map Some ps"
  finally show ?thesis by (simp add: comp_def)
qed

lemma added_payloads: "added t ps [] ch \<Longrightarrow> concat (map (\<lambda>e. h (Data e)) ch) = concat (map (\<lambda>p. h (Some p)) ps)"
  by (auto simp: added_def intro: payloads_of_data)

lemma concat_singletons: "concat (map (\<lambda>x. [f x]) xs) = map f xs"
  by (induction xs) simp_all

definition log_payloads :: "BatchEvents \<Rightarrow> wire list" where
  "log_payloads batch = concat (map (\<lambda>e. case Data e of Some (LogList logs) \<Rightarrow> map Raw logs | _ \<Rightarrow> []) batch)"

definition accesslog_payloads :: "BatchEvents \<Rightarrow> wire list" where
  "accesslog_payloads batch = concat (map (\<lambda>e. case Data e of Some (EBPFAccessLogList ms) \<Rightarrow> map Raw ms | _ \<Rightarrow> []) batch)"

lemma collected_payloads:
  "concat (map (\<lambda>e. h (Data e)) (snd (collect_each (\<lambda>m. emit n t (f m) now) st ms []))) = concat (map (\<lambda>m. h (Some (f m))) ms)"
  using added_payloads [OF added_each [of t f ms "[]" n now st], of h] by (simp add: comp_def)


section \<open>Synchronous calls through the pipe\<close>

text \<open>
  One call to the backend with the given message; its answer is the answer of the service. Nothing
  else changes.
\<close>

definition asks :: "(('c net sender, msg option) go) \<Rightarrow> 'c grpc_env \<Rightarrow> string \<Rightarrow> msg \<Rightarrow> 'c net sender \<Rightarrow> bool" where
  "asks m env meth q s \<longleftrightarrow>
     m s = (case answer env (hist (world s)) (Call meth Background (Raw q)) of
        Inl e \<Rightarrow> (Err e, s\<lparr>world := (world s)\<lparr>hist := hist (world s) @ [(Call meth Background (Raw q), False)]\<rparr>\<rparr>)
      | Inr r \<Rightarrow> (Ok (Some r), s\<lparr>world := (world s)\<lparr>hist := hist (world s) @ [(Call meth Background (Raw q), True)]\<rparr>\<rparr>))"

lemma asks_sync_call:
  assumes f: "filter SupportedSyncInvoke (runningForwarders s) = [f]" and g: "\<And>d. g (reply_data (reply d)) = Some d"
    and sf: "SyncForward f d = sync_call env meth q reply"
  shows "asks (go_bind (sender_SyncInvoke d) (\<lambda>r. go_return (g (fst r)))) env meth q s"
  using f g by (simp add: asks_def sender_SyncInvoke_def on_world_def sf sync_call_def go_bind_def do_rpc_def split: sum.splits)

lemma asks_query:
  assumes "SupportedSyncInvoke f" and "SyncForward f (sync_event p) = sync_call env meth q Commands"
  shows "asks (sync_query sender_SyncInvoke p) env meth q (s\<lparr>runningForwarders := [f]\<rparr>)"
  unfolding sync_query_def
  by (rule asks_sync_call [where f = f and reply = Commands]) (simp_all add: assms GetCommands_def reply_data_def)

lemma asks_processes:
  "asks (ProcessReportService_ReportProcesses sender_SyncInvoke q) env ''EBPFProcessService.ReportProcesses'' q
     (s\<lparr>runningForwarders := [nativeprocess_forwarder env conn]\<rparr>)"
  unfolding ProcessReportService_ReportProcesses_def
  by (rule asks_sync_call [where f = "nativeprocess_forwarder env conn" and reply = EBPFReportProcessDownstream])
    (simp_all add: GetEBPFReportProcessDownstream_def reply_data_def nativeprocess_forwarder_def nativeprocess_SyncForward_def sync_event_def)

definition pipe_SyncInvoke :: "'w sender SyncInvoker" where
  "pipe_SyncInvoke = gatherer_SyncInvoke (processor_SyncInvoke sender_SyncInvoke)"

lemma pipe_SyncInvoke_sender: "pipe_SyncInvoke = sender_SyncInvoke"
  by (simp add: pipe_SyncInvoke_def gatherer_SyncInvoke_def processor_SyncInvoke_def fun_eq_iff)

text \<open>
  C25. Synchronous calls reach the backend. In a pipe whose only forwarder with synchronous calls
  is the one of the protocol, a query for profile tasks, the end of a profile task, a request for
  configurations, a query for eBPF profiling tasks or continuous profiling policies, a continuous
  profiling report, a report of processes, and a query for async profiler tasks each make exactly
  one call to the backend with the received message, and return its answer or its error.
\<close>

theorem sync_calls_reach_backend:
  "asks (ProfileService_GetProfileTaskCommands pipe_SyncInvoke q) env ''ProfileTask.GetProfileTaskCommands'' q
     (s\<lparr>runningForwarders := [nativeprofile_forwarder env conn]\<rparr>) \<and>
   asks (ProfileService_ReportTaskFinish pipe_SyncInvoke q) env ''ProfileTask.ReportTaskFinish'' q
     (s\<lparr>runningForwarders := [nativeprofile_forwarder env conn]\<rparr>) \<and>
   asks (CDSService_FetchConfigurations pipe_SyncInvoke q) env ''ConfigurationDiscoveryService.FetchConfigurations'' q
     (s\<lparr>runningForwarders := [nativecds_forwarder env conn]\<rparr>) \<and>
   asks (ProfilingReportService_QueryTasks pipe_SyncInvoke q) env ''EBPFProfilingService.QueryTasks'' q
     (s\<lparr>runningForwarders := [ebpfprofiling_forwarder env conn]\<rparr>) \<and>
   asks (ContinuousProfiling_QueryPolicies pipe_SyncInvoke q) env ''ContinuousProfilingService.QueryPolicies'' q
     (s\<lparr>runningForwarders := [ebpfprofiling_forwarder env conn]\<rparr>) \<and>
   asks (ContinuousProfiling_ReportProfilingTask pipe_SyncInvoke q) env ''ContinuousProfilingService.ReportProfilingTask'' q
     (s\<lparr>runningForwarders := [ebpfprofiling_forwarder env conn]\<rparr>) \<and>
   asks (ProcessReportService_ReportProcesses pipe_SyncInvoke q) env ''EBPFProcessService.ReportProcesses'' q
     (s\<lparr>runningForwarders := [nativeprocess_forwarder env conn]\<rparr>) \<and>
   asks (AsyncProfilerService_GetAsyncProfilerTaskCommands pipe_SyncInvoke q) env ''AsyncProfilerTask.GetAsyncProfilerTaskCommands'' q
     (s\<lparr>runningForwarders := [asyncprofiler_forwarder env conn]\<rparr>)"
  unfolding pipe_SyncInvoke_sender ProfileService_GetProfileTaskCommands_def ProfileService_ReportTaskFinish_def CDSService_FetchConfigurations_def
    ProfilingReportService_QueryTasks_def ContinuousProfiling_QueryPolicies_def ContinuousProfiling_ReportProfilingTask_def
    AsyncProfilerService_GetAsyncProfilerTaskCommands_def
  by (intro conjI; (rule asks_query | rule asks_processes))
    (simp_all add: nativeprofile_forwarder_def nativeprofile_SyncForward_def nativecds_forwarder_def nativecds_SyncForward_def
      ebpfprofiling_forwarder_def ebpfprofiling_SyncForward_def nativeprocess_forwarder_def
      asyncprofiler_forwarder_def asyncprofiler_SyncForward_def sync_event_def)

section \<open>Access log streams\<close>

lemma als_identified: "identified (alsv3_kind proto) (Some i) ms = Some (Some i)"
  by (induction ms) (simp_all add: alsv3_kind_def als_identify_def)

lemma als_packed_some: "packed (alsv3_kind proto) (Some i) parts = List.map_filter (als_pack proto EnvoyALSV3List (Some i)) parts"
proof (induction parts)
  case (Cons p parts)
  have "sk_pack (alsv3_kind proto) = als_pack proto EnvoyALSV3List" by (simp add: alsv3_kind_def)
  with Cons show ?case by (simp add: als_identified List.map_filter_simps split: option.splits)
qed (simp add: List.map_filter_simps)

lemma als_packed:
  assumes parts: "concat parts = m # ms" "small_parts cfg parts" and m: "als_Unmarshal proto m = Some (Some i, b)"
  shows "packed (alsv3_kind proto) None parts = List.map_filter (als_pack proto EnvoyALSV3List (Some i)) parts"
proof (cases parts)
  case (Cons p ps)
  then obtain p' where p: "p = m # p'" using parts by (cases p) (auto simp: small_parts_def)
  have first: "sk_identify (alsv3_kind proto) None m = Inr (Some i)" by (simp add: alsv3_kind_def als_identify_def m)
  have "sk_pack (alsv3_kind proto) = als_pack proto EnvoyALSV3List" by (simp add: alsv3_kind_def)
  with Cons p first show ?thesis
    by (simp add: als_identified als_packed_some List.map_filter_simps split: option.splits)
qed (use parts in simp)


text \<open>A format for the witness: the first byte is the identity, 0 for none.\<close>

definition byte_proto :: "(byte, msg) als_proto" where
  "byte_proto = \<lparr>als_Unmarshal = (\<lambda>m. case m of [] \<Rightarrow> None | b # r \<Rightarrow> Some (if b = 0 then None else Some b, r)),
     als_Marshal = (\<lambda>(i, r). (case i of None \<Rightarrow> 0 | Some b \<Rightarrow> b) # r)\<rparr>"

definition als_stream :: "msg stream_input in_stream" where
  "als_stream = \<lparr>in_messages = [SMsg [7, 1], STick, SMsg [0, 2], SMsg [0, 3], SMsg [0, 4]], in_end = EOF, in_SendAndClose = None\<rparr>"


end
