(* ===== verification/Resolvers.thy ===== *)
theory Resolvers
  imports Go_Strings "HOL-Library.AList"
begin

text \<open>
  \<open>plugins/client/grpc/resolvers\<close>: where the client finds its servers. The static resolver reads
  the addresses from the target. The resolver for Kubernetes keeps a cache of the target groups
  that the discovery sends, and passes the addresses found in them to the connection.

  The state passed to the connection is the list of its addresses; every \<open>UpdateState\<close> is kept
  in order in \<open>published\<close>. The iteration over the map of groups follows the list. Marshalling to
  JSON, parsing of URLs, the configuration of HTTP and the creation of the discovery are given as
  arguments.
\<close>

section \<open>Targets\<close>

record KubernetesConfig =
  APIServer :: string
  HTTPClient :: string
  Namespaces :: "string list"
  Kind :: string
  SelectorLabel :: string
  SelectorField :: string
  ExtraPort :: int

record ServerFinderConfig =
  FinderType :: string
  ServerAddr :: string
  Kubernetes :: KubernetesConfig

definition static_BuildTarget :: "ServerFinderConfig \<Rightarrow> string outcome" where
  "static_BuildTarget c = Ok (''static'' @ '':///'' @ ServerAddr c)"

definition kubernetes_BuildTarget :: "(KubernetesConfig \<Rightarrow> string outcome) \<Rightarrow> ServerFinderConfig \<Rightarrow> string outcome" where
  "kubernetes_BuildTarget marshal c =
     (case marshal (Kubernetes c) of
        Ok s \<Rightarrow> Ok (''kubernetes'' @ '':///'' @ s)
      | Panic \<Rightarrow> Panic | Hang \<Rightarrow> Hang
      | Err e \<Rightarrow> Err (Errorf ''convert kubernetes config error''))"

text \<open>The resolvers of the table \<open>rs\<close>, by their type, in order.\<close>

definition rs :: "(KubernetesConfig \<Rightarrow> string outcome) \<Rightarrow> (string \<times> (ServerFinderConfig \<Rightarrow> string outcome)) list" where
  "rs marshal = [(''static'', static_BuildTarget), (''kubernetes'', kubernetes_BuildTarget marshal)]"

definition BuildTarget :: "(KubernetesConfig \<Rightarrow> string outcome) \<Rightarrow> ServerFinderConfig \<Rightarrow> string outcome" where
  "BuildTarget marshal c =
     (case find (\<lambda>r. FinderType c = fst r) (rs marshal) of
        Some r \<Rightarrow> snd r c
      | None \<Rightarrow> Err (Errorf (''could not find client finder: '' @ FinderType c)))"

text \<open>
  The path of a parsed target \<open>scheme://authority/path\<close>: what follows the authority. Escapes,
  queries and fragments are not treated.
\<close>

fun url_path :: "string \<Rightarrow> string" where
  "url_path [] = []"
| "url_path (c # rest) =
     (if HasPrefix (c # rest) ''://'' then dropWhile (\<lambda>c. c \<noteq> CHR ''/'') (drop 2 rest) else url_path rest)"

definition analyzeClients :: "string \<Rightarrow> string list" where
  "analyzeClients path = Split (CHR '','') (TrimLeft (CHR ''/'') path)"

section \<open>Addresses in Kubernetes\<close>

type_synonym label_set = "(string \<times> string) list"

record group =
  Source :: string
  Targets :: "label_set list"

text \<open>A missing label reads as the empty string.\<close>

definition label_value :: "label_set \<Rightarrow> string \<Rightarrow> string" where
  "label_value target name = (case map_of target name of Some v \<Rightarrow> v | None \<Rightarrow> [])"

type_synonym group_cache = "(string \<times> group) list"

definition pod_address :: "KubernetesConfig \<Rightarrow> label_set \<Rightarrow> string list" where
  "pod_address config target =
     (case map_of target ''__meta_kubernetes_pod_container_port_number'' of
        Some val \<Rightarrow> if val = FormatInt (ExtraPort config) then [label_value target ''__address__''] else []
      | None \<Rightarrow> [])"

definition pod_GetAddresses :: "group_cache \<Rightarrow> KubernetesConfig \<Rightarrow> string list" where
  "pod_GetAddresses cache config =
     fold (\<lambda>(_, group) result. fold (\<lambda>target result. result @ pod_address config target) (Targets group) result) cache []"

definition suffix_address :: "KubernetesConfig \<Rightarrow> label_set \<Rightarrow> string list" where
  "suffix_address config target =
     (let address = label_value target ''__address__'' in
      if HasSuffix address (CHR '':'' # FormatInt (ExtraPort config)) then [address] else [])"

definition service_GetAddresses :: "group_cache \<Rightarrow> KubernetesConfig \<Rightarrow> string list" where
  "service_GetAddresses cache config =
     fold (\<lambda>(_, group) result. fold (\<lambda>target result. result @ suffix_address config target) (Targets group) result) cache []"

definition endpoints_GetAddresses :: "group_cache \<Rightarrow> KubernetesConfig \<Rightarrow> string list" where
  "endpoints_GetAddresses cache config =
     fold (\<lambda>(_, group) result. fold (\<lambda>target result. result @ suffix_address config target) (Targets group) result) cache []"

type_synonym analyzer = "group_cache \<Rightarrow> KubernetesConfig \<Rightarrow> string list"

definition analyzers :: "(string \<times> analyzer) list" where
  "analyzers = [(''pod'', pod_GetAddresses), (''service'', service_GetAddresses), (''endpoints'', endpoints_GetAddresses)]"

section \<open>The cache\<close>

record KindCache =
  kc_config :: KubernetesConfig
  kc_cache :: group_cache
  kc_analyzer :: analyzer
  published :: "string list list"

record sd_config =
  sd_APIServer :: "string option"
  sd_HTTPClientConfig :: "string option"
  sd_Role :: string
  sd_Names :: "string list"
  sd_Selectors :: "(string \<times> string \<times> string) list"

record kube_env =
  url_Parse :: "string \<Rightarrow> string outcome"
  convertHTTPConfig :: "string \<Rightarrow> string outcome"
  http_Validate :: "string \<Rightarrow> unit outcome"
  kubernetes_New :: "sd_config \<Rightarrow> unit outcome"
  json_Unmarshal :: "string \<Rightarrow> KubernetesConfig outcome"

definition sd_conf :: "kube_env \<Rightarrow> KubernetesConfig \<Rightarrow> sd_config outcome" where
  "sd_conf env c =
     (let conf = \<lparr>sd_APIServer = None, sd_HTTPClientConfig = None, sd_Role = Kind c, sd_Names = Namespaces c,
            sd_Selectors = [(Kind c, SelectorLabel c, SelectorField c)]\<rparr> in
      if APIServer c \<noteq> []
      then out_bind (url_Parse env (APIServer c)) (\<lambda>parsed.
           out_bind (convertHTTPConfig env (HTTPClient c)) (\<lambda>httpConfig.
             Ok (conf\<lparr>sd_APIServer := Some parsed, sd_HTTPClientConfig := Some httpConfig\<rparr>)))
      else Ok conf)"

text \<open>The last analyzer of the kind is taken.\<close>

definition find_analyzer :: "string \<Rightarrow> analyzer option" where
  "find_analyzer kind = fold (\<lambda>a r. if fst a = kind then Some (snd a) else r) analyzers None"

definition NewKindCache :: "kube_env \<Rightarrow> KubernetesConfig \<Rightarrow> KindCache outcome" where
  "NewKindCache env c =
     out_bind (sd_conf env c) (\<lambda>conf.
     out_bind (kubernetes_New env conf) (\<lambda>_.
       case find_analyzer (Kind c) of
         None \<Rightarrow> Err (Errorf (''could not kind analyzer: '' @ Kind c))
       | Some a \<Rightarrow> Ok \<lparr>kc_config = c, kc_cache = [], kc_analyzer = a, published = []\<rparr>))"

definition kubernetes_Build :: "kube_env \<Rightarrow> string \<Rightarrow> KindCache outcome" where
  "kubernetes_Build env path =
     (case json_Unmarshal env (TrimLeft (CHR ''/'') path) of
        Ok c \<Rightarrow>
          out_bind (if APIServer c \<noteq> []
                    then out_bind (convertHTTPConfig env (HTTPClient c)) (\<lambda>h.
                      case http_Validate env h of Err e \<Rightarrow> Err (Errorf ''http config validate error'') | r \<Rightarrow> r)
                    else Ok ())
            (\<lambda>_. NewKindCache env c)
      | Err e \<Rightarrow> Err (Errorf ''could not analyze the address'')
      | Panic \<Rightarrow> Panic
      | Hang \<Rightarrow> Hang)"

definition UpdateAddresses :: "KindCache \<Rightarrow> KindCache" where
  "UpdateAddresses w = w\<lparr>published := published w @ [kc_analyzer w (kc_cache w) (kc_config w)]\<rparr>"

definition kubernetes_ResolveNow :: "KindCache \<Rightarrow> KindCache" where
  "kubernetes_ResolveNow w = UpdateAddresses w"

definition receive_group :: "group \<Rightarrow> KindCache \<Rightarrow> KindCache" where
  "receive_group tg w =
     (if Targets tg = [] then w\<lparr>kc_cache := AList.delete (Source tg) (kc_cache w)\<rparr>
      else UpdateAddresses (w\<lparr>kc_cache := AList.update (Source tg) tg (kc_cache w)\<rparr>))"

definition receive_groups :: "group list \<Rightarrow> KindCache \<Rightarrow> KindCache" where
  "receive_groups tgs w = fold receive_group tgs w"

text \<open>
  The loop of the watching goroutine. The choices of \<open>select\<close> are given: a list of groups or the
  end of the context, after which \<open>break\<close> leaves the \<open>select\<close> and not the loop.
\<close>

datatype watch_event = Received "group list" | CtxDone

partial_function (option) watch_loop :: "(nat \<Rightarrow> watch_event) \<Rightarrow> nat \<Rightarrow> KindCache \<Rightarrow> KindCache option" where
  "watch_loop ev i w =
     (case ev i of
        Received tgs \<Rightarrow> watch_loop ev (Suc i) (receive_groups tgs w)
      | CtxDone \<Rightarrow> watch_loop ev (Suc i) w)"

section \<open>Facts about targets and addresses\<close>

lemma TrimLeft_other: "(s = [] \<or> hd s \<noteq> c) \<Longrightarrow> TrimLeft c s = s"
  by (cases s) auto

lemma Split_Join: "ws \<noteq> [] \<Longrightarrow> \<forall>w \<in> set ws. c \<notin> set w \<Longrightarrow> Split c (Join c ws) = ws"
proof (induction ws)
  case (Cons w ws)
  then show ?case by (cases ws) (simp_all add: Split_no_sep Split_append_sep)
qed simp

lemma Join_empty_or_hd:
  "ws \<noteq> [] \<Longrightarrow> hd ws \<noteq> [] \<Longrightarrow> Join c ws \<noteq> [] \<and> hd (Join c ws) = hd (hd ws)"
  by (cases ws; cases "tl ws") auto

definition matching :: "(label_set \<Rightarrow> string list) \<Rightarrow> group_cache \<Rightarrow> string list" where
  "matching f cache = concat (map (\<lambda>g. concat (map f (Targets (snd g)))) cache)"

lemma fold_append: "fold (\<lambda>x r. r @ f x) xs acc = acc @ concat (map f xs)"
  by (induction xs arbitrary: acc) simp_all

lemma fold_groups:
  "fold (\<lambda>(_, group) result. fold (\<lambda>target result. result @ f target) (Targets group) result) cache acc = acc @ matching f cache"
  by (induction cache arbitrary: acc) (simp_all add: fold_append matching_def split_def)

lemmas GetAddresses_matching =
  pod_GetAddresses_def [unfolded fold_groups append_Nil] service_GetAddresses_def [unfolded fold_groups append_Nil]
  endpoints_GetAddresses_def [unfolded fold_groups append_Nil]

definition address_of_kind :: "string \<Rightarrow> KubernetesConfig \<Rightarrow> label_set \<Rightarrow> string list" where
  "address_of_kind kind = (if kind = ''pod'' then pod_address else suffix_address)"

lemma find_analyzer_matching:
  "find_analyzer kind = Some a \<longleftrightarrow> kind \<in> {''pod'', ''service'', ''endpoints''} \<and>
     a = (\<lambda>cache config. matching (address_of_kind kind config) cache)"
  by (auto simp: find_analyzer_def analyzers_def address_of_kind_def GetAddresses_matching fun_eq_iff)

lemma receive_groups_frame:
  "kc_config (receive_groups tgs w) = kc_config w \<and> kc_analyzer (receive_groups tgs w) = kc_analyzer w"
  unfolding receive_groups_def
  by (induction tgs arbitrary: w) (simp_all add: receive_group_def UpdateAddresses_def)

text \<open>The cache holds the last group of every source.\<close>

definition last_group :: "string \<Rightarrow> group list \<Rightarrow> group option" where
  "last_group src tgs = find (\<lambda>g. Source g = src) (rev tgs)"

lemma receive_groups_cache:
  "map_of (kc_cache (receive_groups tgs w)) src =
     (case last_group src tgs of None \<Rightarrow> map_of (kc_cache w) src | Some g \<Rightarrow> if Targets g = [] then None else Some g)"
proof (induction tgs rule: rev_induct)
  case Nil
  then show ?case by (simp add: receive_groups_def last_group_def)
next
  case (snoc g tgs)
  then show ?case
    by (auto simp: receive_groups_def last_group_def receive_group_def UpdateAddresses_def AList.update_conv delete_conv)
qed

lemma watch_loop_None: "watch_loop ev i w = None"
proof -
  have "\<And>ev i w y. watch_loop ev i w = Some y \<Longrightarrow> False"
    by (erule watch_loop.raw_induct [rotated]) (auto split: watch_event.splits)
  then show ?thesis by (metis not_None_eq)
qed

section \<open>Properties\<close>

text \<open>
  Static addresses. The addresses the static resolver hands to the connection are the
  configured ones, in order: joining them with commas, building the target and reading its path
  again is the identity on addresses without a comma, when the first does not start with a slash.
\<close>

theorem static_addresses_roundtrip:
  assumes "addrs \<noteq> []" and "\<forall>a \<in> set addrs. CHR '','' \<notin> set a" and "hd addrs \<noteq> []" and "hd (hd addrs) \<noteq> CHR ''/''"
    and "FinderType c = ''static''" and "ServerAddr c = Join (CHR '','') addrs"
  shows "\<exists>t. BuildTarget marshal c = Ok t \<and> analyzeClients (url_path t) = addrs"
proof -
  have "url_path (''static:///'' @ s) = CHR ''/'' # s" for s by (simp add: HasPrefix_def)
  moreover have "TrimLeft (CHR ''/'') (ServerAddr c) = ServerAddr c"
    using Join_empty_or_hd [OF assms(1,3)] assms(4,6) by (intro TrimLeft_other) auto
  ultimately show ?thesis
    using assms by (simp add: BuildTarget_def rs_def static_BuildTarget_def analyzeClients_def Split_Join)
qed

theorem static_addresses_roundtrip_witness:
  "\<exists>t. BuildTarget (\<lambda>_. Ok []) \<lparr>FinderType = ''static'', ServerAddr = ''a:1,b:2'', Kubernetes = \<lparr>APIServer = [], HTTPClient = [],
      Namespaces = [], Kind = [], SelectorLabel = [], SelectorField = [], ExtraPort = 0\<rparr>\<rparr> = Ok t \<and>
    analyzeClients (url_path t) = [''a:1'', ''b:2'']"
  by (rule static_addresses_roundtrip) simp_all


definition test_kube :: kube_env where
  "test_kube = \<lparr>url_Parse = Ok, convertHTTPConfig = Ok, http_Validate = (\<lambda>_. Ok ()), kubernetes_New = (\<lambda>_. Ok ()),
     json_Unmarshal = (\<lambda>_. Panic)\<rparr>"

abbreviation kube_pods :: KubernetesConfig where
  "kube_pods \<equiv> \<lparr>APIServer = [], HTTPClient = [], Namespaces = [''default''], Kind = ''pod'', SelectorLabel = [], SelectorField = [],
     ExtraPort = 11800\<rparr>"

abbreviation oap :: "string \<Rightarrow> string \<Rightarrow> group" where
  "oap src addr \<equiv> \<lparr>Source = src, Targets = [[(''__meta_kubernetes_pod_container_port_number'', ''11800''), (''__address__'', addr)],
     [(''__meta_kubernetes_pod_container_port_number'', ''12800''), (''__address__'', ''other'')]]\<rparr>"

definition kube_start :: KindCache where
  "kube_start = \<lparr>kc_config = kube_pods, kc_cache = [], kc_analyzer = pod_GetAddresses, published = []\<rparr>"

lemma kube_start_new: "NewKindCache test_kube kube_pods = Ok kube_start"
  by (simp add: NewKindCache_def sd_conf_def test_kube_def find_analyzer_def analyzers_def kube_start_def)

lemma port_text: "FormatInt 11800 = ''11800''"
  by (simp add: FormatInt_def digits_of.simps digit_char_def char_of_def bit_iff_odd)


text \<open>
  Removed servers stay. When the discovery reports that a source has no targets any more, it
  is removed from the cache, but the connection is not told: the addresses passed on stay as they
  were until another group with targets arrives or the connection asks to resolve.
\<close>

theorem kube_removed_stale:
  assumes "list_all (\<lambda>g. Targets g = []) gone"
  shows "published (receive_groups gone w) = published w \<and> (\<forall>g \<in> set gone. map_of (kc_cache (receive_groups gone w)) (Source g) = None)"
proof
  show "published (receive_groups gone w) = published w"
    using assms unfolding receive_groups_def
    by (induction gone arbitrary: w) (simp_all add: receive_group_def)
  show "\<forall>g \<in> set gone. map_of (kc_cache (receive_groups gone w)) (Source g) = None"
  proof
    fix g assume "g \<in> set gone"
    then have "last_group (Source g) gone \<noteq> None" by (auto simp: last_group_def find_None_iff)
    moreover have "Targets h = []" if "last_group (Source g) gone = Some h" for h
      using that assms by (auto simp: last_group_def find_Some_iff list_all_length in_set_conv_nth rev_nth)
    ultimately show "map_of (kc_cache (receive_groups gone w)) (Source g) = None"
      by (auto simp: receive_groups_cache split: option.splits)
  qed
qed

theorem kube_removed_stale_witness:
  "last (published (receive_groups [(oap ''p1'' ''a'')\<lparr>Targets := []\<rparr>] (receive_groups [oap ''p1'' ''a''] kube_start))) = [''a''] \<and>
   last (published (kubernetes_ResolveNow (receive_groups [(oap ''p1'' ''a'')\<lparr>Targets := []\<rparr>] (receive_groups [oap ''p1'' ''a''] kube_start)))) = []"
proof -
  have p: "published (receive_groups [oap ''p1'' ''a''] kube_start) = [[''a'']]"
    by (simp add: receive_groups_def receive_group_def UpdateAddresses_def kube_start_def GetAddresses_matching matching_def
        pod_address_def port_text label_value_def)
  from kube_removed_stale [of "[(oap ''p1'' ''a'')\<lparr>Targets := []\<rparr>]" "receive_groups [oap ''p1'' ''a''] kube_start"] p show ?thesis
    by (simp add: receive_groups_def receive_group_def UpdateAddresses_def kube_start_def GetAddresses_matching matching_def
        kubernetes_ResolveNow_def)
qed

text \<open>
  The watching goroutine never ends: \<open>break\<close> inside of \<open>select\<close> does not leave the loop, so
  that no sequence of events makes it return, the end of the context included; from then on it
  runs through the loop without waiting.
\<close>

theorem kube_watch_never_ends: "\<nexists>w'. watch_loop ev i w = Some w'"
  by (simp add: watch_loop_None)

end
