(* ===== verification/Clients.thy ===== *)
theory Clients
  imports Resolvers Sender
begin

text \<open>
  \<open>plugins/client/grpc\<close> and \<open>plugins/client/kafka\<close>: the shared clients, their options, and how the
  senders learn about the state of the connection.

  A listener is named by a number; \<open>notified\<close> holds what was received from the channels of the
  listeners, in order. The files of the TLS configuration, the parsing of certificates and of
  durations, and the creation of the connection by the libraries are given as arguments.
\<close>

section \<open>State of the connection\<close>

datatype connectivity = Idle | Connecting | Ready | TransientFailure | Shutdown

datatype code =
    Canceled | Unknown | InvalidArgument | DeadlineExceeded | NotFound | AlreadyExists | PermissionDenied | ResourceExhausted
  | FailedPrecondition | Aborted | OutOfRange | Unimplemented | Internal | Unavailable | DataLoss | Unauthenticated

text \<open>No error, an error with a status of gRPC, another error.\<close>

datatype call_error = NoError | StatusError code | OtherError

record client =
  cl_status :: ClientStatus
  cl_listeners :: "nat list"
  notified :: "(nat \<times> ClientStatus) list"

definition RegisterListener :: "nat \<Rightarrow> client \<Rightarrow> client" where
  "RegisterListener l c = c\<lparr>cl_listeners := cl_listeners c @ [l]\<rparr>"

definition updateStatus :: "ClientStatus \<Rightarrow> client \<Rightarrow> client" where
  "updateStatus clientStatus c =
     (if cl_status c \<noteq> clientStatus
      then let c1 = c\<lparr>cl_status := clientStatus\<rparr>
           in fold (\<lambda>l c. c\<lparr>notified := notified c @ [(l, cl_status c)]\<rparr>) (cl_listeners c1) c1
      else c)"

text \<open>One tick of \<open>snifferChannelStatus\<close>.\<close>

definition sniffer_tick :: "connectivity \<Rightarrow> client \<Rightarrow> client" where
  "sniffer_tick state c =
     (if state = Shutdown \<or> state = TransientFailure then updateStatus Disconnect c
      else if state = Ready \<or> state = Idle then updateStatus Connected c
      else c)"

definition reportError :: "call_error \<Rightarrow> client \<Rightarrow> client" where
  "reportError err c =
     (case err of
        StatusError errCode \<Rightarrow>
          if errCode \<in> {Unavailable, PermissionDenied, Unauthenticated, ResourceExhausted, Unknown}
          then updateStatus Disconnect c else c
      | _ \<Rightarrow> c)"

text \<open>The client of Kafka: \<open>notify\<close> and one tick of \<open>snifferBrokerStatus\<close>.\<close>

definition notify :: "client \<Rightarrow> client" where
  "notify c = fold (\<lambda>l c. c\<lparr>notified := notified c @ [(l, cl_status c)]\<rparr>) (cl_listeners c) c"

definition broker_tick :: "nat \<Rightarrow> client \<Rightarrow> client" where
  "broker_tick brokers c =
     (if brokers = 0 \<and> cl_status c = Connected then notify (c\<lparr>cl_status := Disconnect\<rparr>)
      else if brokers > 0 \<and> cl_status c = Disconnect then notify (c\<lparr>cl_status := Connected\<rparr>)
      else c)"

section \<open>Options of the connection\<close>

record grpc_config =
  finder :: ServerFinderConfig
  EnableTLS :: bool
  ClientPemPath :: string
  ClientKeyPath :: string
  CaPemPath :: string
  InsecureSkipVerify :: bool
  Authentication :: string
  TimeoutUnary :: string
  TimeoutStream :: string

record tls_env =
  file_size :: "string \<Rightarrow> int outcome"
  ReadFile :: "string \<Rightarrow> string outcome"
  AppendCertsFromPEM :: "string \<Rightarrow> bool"
  LoadX509KeyPair :: "string \<Rightarrow> string \<Rightarrow> string outcome"
  ParseDuration :: "string \<Rightarrow> int outcome"
  NewClient :: "string \<Rightarrow> unit outcome"

definition checkTLSFile :: "tls_env \<Rightarrow> string \<Rightarrow> unit outcome" where
  "checkTLSFile env path =
     out_bind (file_size env path) (\<lambda>n. if n = 0 then Err (Errorf (''the TLS file is illegal: '' @ path)) else Ok ())"

record tls_config =
  tls_InsecureSkipVerify :: bool
  RootCAs :: string
  Certificates :: "string list"

definition configTLS :: "tls_env \<Rightarrow> grpc_config \<Rightarrow> tls_config outcome" where
  "configTLS env c =
     out_bind (checkTLSFile env (CaPemPath c)) (\<lambda>_.
     out_bind (ReadFile env (CaPemPath c)) (\<lambda>caPem.
       if \<not> AppendCertsFromPEM env caPem then Err (Errorf ''failed to append certificates'')
       else let conf = \<lparr>tls_InsecureSkipVerify = InsecureSkipVerify c, RootCAs = caPem, Certificates = []\<rparr> in
         if ClientKeyPath c \<noteq> [] \<and> ClientPemPath c \<noteq> []
         then out_bind (checkTLSFile env (ClientKeyPath c)) (\<lambda>_.
              out_bind (checkTLSFile env (ClientPemPath c)) (\<lambda>_.
              out_bind (LoadX509KeyPair env (ClientPemPath c) (ClientKeyPath c)) (\<lambda>clientPem.
                Ok (conf\<lparr>Certificates := [clientPem]\<rparr>))))
         else Ok conf))"

text \<open>
  The interceptors carry what they close over: the header with the authentication and the timeout.
  The option with the interceptor for unary calls is created and not appended.
\<close>

datatype dial_option =
    WithTransportCredentials "tls_config option"
  | WithStreamInterceptor "string option" int
  | WithUnaryInterceptor "string option" int
  | WithDefaultServiceConfig string

definition loadConfig :: "tls_env \<Rightarrow> grpc_config \<Rightarrow> dial_option list outcome" where
  "loadConfig env c =
     out_bind (if EnableTLS c then out_bind (configTLS env c) (\<lambda>t. Ok [WithTransportCredentials (Some t)])
               else Ok [WithTransportCredentials None]) (\<lambda>options.
     (let authHeader = (if Authentication c \<noteq> [] then Some (Authentication c) else None) in
      case ParseDuration env (TimeoutUnary c) of
        Ok unaryRequestTimeout \<Rightarrow>
          (case ParseDuration env (TimeoutStream c) of
             Ok streamRequestTimeout \<Rightarrow>
               Ok (options @ [WithStreamInterceptor authHeader streamRequestTimeout] @
                   [WithDefaultServiceConfig ''satellite_lb''])
           | _ \<Rightarrow> Err (Errorf ''cannot parse the stream request timeout''))
      | _ \<Rightarrow> Err (Errorf ''cannot parse the unary request timeout'')))"

text \<open>The body of the interceptor of streams. The opening of the stream is given.\<close>

record stream_wrapper =
  sw_stream :: nat
  bidirectionalStream :: bool
  timeoutCancelled :: bool

definition stream_interceptor :: "string option \<Rightarrow> int \<Rightarrow> (string option \<Rightarrow> int \<Rightarrow> call_error + nat) \<Rightarrow> bool \<Rightarrow> client \<Rightarrow> (call_error + stream_wrapper) \<times> client" where
  "stream_interceptor authHeader streamRequestTimeout streamer bidirectional c =
     (case streamer authHeader streamRequestTimeout of
        Inl err \<Rightarrow> (Inl err, reportError err c)
      | Inr st \<Rightarrow> (Inr \<lparr>sw_stream = st, bidirectionalStream = bidirectional, timeoutCancelled = False\<rparr>, c))"

text \<open>After the first message of a stream that is not two way its context is cancelled.\<close>

definition wrapper_RecvMsg :: "(nat \<Rightarrow> msg outcome) \<Rightarrow> (stream_wrapper, msg) go" where
  "wrapper_RecvMsg recv t =
     (recv (sw_stream t), if bidirectionalStream t then t else t\<lparr>timeoutCancelled := True\<rparr>)"

definition grpc_client_Prepare :: "tls_env \<Rightarrow> (KubernetesConfig \<Rightarrow> string outcome) \<Rightarrow> grpc_config \<Rightarrow> client outcome" where
  "grpc_client_Prepare env marshal c =
     (case loadConfig env c of
        Err e \<Rightarrow> Err (Errorf ''cannot init the grpc client'') | Panic \<Rightarrow> Panic | Hang \<Rightarrow> Hang
      | Ok cfg \<Rightarrow>
     (case BuildTarget marshal (finder c) of
        Err e \<Rightarrow> Err (Errorf ''cannot build grpc target'') | Panic \<Rightarrow> Panic | Hang \<Rightarrow> Hang
      | Ok target \<Rightarrow>
     (case NewClient env target of
        Err e \<Rightarrow> Err (Errorf ''cannot connect to grpc server'') | Panic \<Rightarrow> Panic | Hang \<Rightarrow> Hang
      | Ok _ \<Rightarrow> Ok \<lparr>cl_status = Connected, cl_listeners = [], notified = []\<rparr>)))"

section \<open>Configuration of the Kafka client\<close>

record kafka_config =
  Brokers :: string
  Version :: string
  kf_EnableTLS :: bool
  kf_ClientPemPath :: string
  kf_ClientKeyPath :: string
  kf_CaPemPath :: string
  RequiredAcks :: int
  ProducerMaxRetry :: int
  MetaMaxRetry :: int
  RetryBackoff :: int
  MaxMessageBytes :: int
  IdempotentWrites :: bool
  ClientID :: string
  CompressionCodec :: int
  RefreshPeriod :: int
  kf_InsecureSkipVerify :: bool

record sarama_config =
  Return_Successes :: bool
  Return_Errors :: bool
  Idempotent :: bool
  sa_RequiredAcks :: int
  Compression :: int
  Retry_Max :: int
  Metadata_Retry_Max :: int
  Retry_Backoff :: int
  RefreshFrequency :: int
  sa_MaxMessageBytes :: int
  sa_ClientID :: string
  sa_Version :: string
  TLS :: "tls_config option"

definition intToInt8 :: "int \<Rightarrow> int" where
  "intToInt8 v = (if v < - 128 \<or> v > 127 then 0 else v)"

definition intToUint32 :: "int \<Rightarrow> int" where
  "intToUint32 v = (if v < 0 \<or> v > 2 ^ 32 - 1 then 0 else v)"

definition kafka_configTLS :: "tls_env \<Rightarrow> kafka_config \<Rightarrow> tls_config outcome" where
  "kafka_configTLS env c =
     out_bind (checkTLSFile env (kf_CaPemPath c)) (\<lambda>_.
     out_bind (checkTLSFile env (kf_ClientKeyPath c)) (\<lambda>_.
     out_bind (checkTLSFile env (kf_ClientPemPath c)) (\<lambda>_.
     out_bind (ReadFile env (kf_CaPemPath c)) (\<lambda>caPem.
     out_bind (LoadX509KeyPair env (kf_ClientPemPath c) (kf_ClientKeyPath c)) (\<lambda>clientPem.
       Ok \<lparr>tls_InsecureSkipVerify = kf_InsecureSkipVerify c, RootCAs = caPem, Certificates = [clientPem]\<rparr>)))))"

text \<open>The configuration with its defaults and the parsing of versions are those of the library.\<close>

definition kafka_loadConfig :: "tls_env \<Rightarrow> sarama_config \<Rightarrow> (string \<Rightarrow> string outcome) \<Rightarrow> kafka_config \<Rightarrow> sarama_config outcome" where
  "kafka_loadConfig env new parse_version c =
     (let cfg = new\<lparr>Return_Successes := True, Return_Errors := True, Idempotent := IdempotentWrites c,
            sa_RequiredAcks := RequiredAcks c, Compression := intToInt8 (CompressionCodec c)\<rparr>;
          cfg = (if ProducerMaxRetry c > 0 then cfg\<lparr>Retry_Max := ProducerMaxRetry c\<rparr> else cfg);
          cfg = (if MetaMaxRetry c > 0 then cfg\<lparr>Metadata_Retry_Max := MetaMaxRetry c\<rparr> else cfg);
          cfg = (if RetryBackoff c > 0 then cfg\<lparr>Retry_Backoff := 1000000 * RetryBackoff c\<rparr> else cfg);
          cfg = (if RefreshPeriod c > 0 then cfg\<lparr>RefreshFrequency := RefreshPeriod c * 60000000000\<rparr> else cfg);
          cfg = (if MaxMessageBytes c > 0 then cfg\<lparr>sa_MaxMessageBytes := MaxMessageBytes c\<rparr> else cfg);
          cfg = (if ClientID c \<noteq> [] then cfg\<lparr>sa_ClientID := ClientID c\<rparr> else cfg);
          cfg = (if Version c \<noteq> [] then (case parse_version (Version c) of Ok v \<Rightarrow> cfg\<lparr>sa_Version := v\<rparr> | _ \<Rightarrow> cfg) else cfg)
      in if kf_EnableTLS c then out_bind (kafka_configTLS env c) (\<lambda>t. Ok (cfg\<lparr>TLS := Some t\<rparr>))
         else Ok (cfg\<lparr>TLS := None\<rparr>))"

definition kafka_client_Prepare :: "tls_env \<Rightarrow> sarama_config \<Rightarrow> (string \<Rightarrow> string outcome) \<Rightarrow> (string list \<Rightarrow> sarama_config \<Rightarrow> unit outcome) \<Rightarrow> kafka_config \<Rightarrow> client outcome" where
  "kafka_client_Prepare env new parse_version sarama_NewClient c =
     (case kafka_loadConfig env new parse_version c of
        Err e \<Rightarrow> Err (Errorf ''cannot init the kafka producer'') | Panic \<Rightarrow> Panic | Hang \<Rightarrow> Hang
      | Ok cfg \<Rightarrow>
     (case sarama_NewClient (Split (CHR '','') (Brokers c)) cfg of
        Err e \<Rightarrow> Err (Errorf ''cannot init the kafka client'') | Panic \<Rightarrow> Panic | Hang \<Rightarrow> Hang
      | Ok _ \<Rightarrow> Ok \<lparr>cl_status = Connected, cl_listeners = [], notified = []\<rparr>))"

section \<open>Sources of status notifications\<close>

lemma notify_all:
  "fold (\<lambda>l c. c\<lparr>notified := notified c @ [(l, cl_status c)]\<rparr>) ls c = c\<lparr>notified := notified c @ map (\<lambda>l. (l, cl_status c)) ls\<rparr>"
  by (induction ls arbitrary: c) simp_all

definition received :: "nat \<Rightarrow> client \<Rightarrow> ClientStatus list" where
  "received l c = map snd (filter (\<lambda>p. fst p = l) (notified c))"

text \<open>
  What the senders rely on: an event changes neither the listeners nor what they received before,
  and sends the new status to all of them exactly when it changes the status.
\<close>

locale status_source =
  fixes step :: "'e \<Rightarrow> client \<Rightarrow> client"
  assumes step_listeners: "cl_listeners (step e c) = cl_listeners c"
    and step_notifies: "notified (step e c) = notified c @
      (if cl_status (step e c) = cl_status c then [] else map (\<lambda>l. (l, cl_status (step e c))) (cl_listeners c))"
begin

lemma received_step:
  assumes "distinct (cl_listeners c)" and "l \<in> set (cl_listeners c)"
  shows "received l (step e c) = received l c @ (if cl_status (step e c) = cl_status c then [] else [cl_status (step e c)])"
proof -
  have "map snd (filter (\<lambda>p. fst p = l) (map (\<lambda>l. (l, st)) ls)) = [st]" if "distinct ls" "l \<in> set ls" for ls :: "nat list" and st :: ClientStatus
    using that
  proof (induction ls)
    case (Cons a ls)
    then show ?case
      by (cases "a = l") (auto simp: filter_empty_conv)
  qed simp
  with assms show ?thesis by (simp add: received_def step_notifies)
qed

text \<open>The notifications of a listener are the changes of the status.\<close>

lemma received_follows:
  assumes "distinct (cl_listeners c)" and "l \<in> set (cl_listeners c)"
  shows "\<exists>new. received l (fold step es c) = received l c @ new \<and> successively (\<noteq>) (cl_status c # new) \<and>
    cl_status (fold step es c) = last (cl_status c # new)"
  using assms
proof (induction es arbitrary: c)
  case (Cons e es c)
  from Cons.IH [of "step e c"] Cons.prems step_listeners obtain new where
    new: "received l (fold step es (step e c)) = received l (step e c) @ new" "successively (\<noteq>) (cl_status (step e c) # new)"
    "cl_status (fold step es (step e c)) = last (cl_status (step e c) # new)" by metis
  show ?case
  proof (cases "cl_status (step e c) = cl_status c")
    case True
    with new received_step [OF Cons.prems, of e] show ?thesis by (intro exI [of _ new]) simp
  next
    case False
    with new received_step [OF Cons.prems, of e] show ?thesis by (intro exI [of _ "cl_status (step e c) # new"]) auto
  qed
qed simp

lemma blocking_follows:
  assumes "distinct (cl_listeners c)" and "l \<in> set (cl_listeners c)" and "received l c = []"
    and "blocking s \<longleftrightarrow> cl_status c = Disconnect"
  shows "blocking (fold (\<lambda>st s. snd (listen_status st s)) (received l (fold step es c)) s) \<longleftrightarrow> cl_status (fold step es c) = Disconnect"
proof -
  from received_follows [OF assms(1,2), of es] obtain new where
    new: "received l (fold step es c) = new" "cl_status (fold step es c) = last (cl_status c # new)"
    using assms(3) by auto
  have "blocking (fold (\<lambda>st s. snd (listen_status st s)) sts s) \<longleftrightarrow> (if sts = [] then blocking s else last sts = Disconnect)" for sts
  proof (induction sts rule: rev_induct)
    case (snoc st sts)
    then show ?case by (cases st) (simp_all add: listen_status_def)
  qed simp
  with new assms(4) show ?thesis by simp
qed

end

datatype grpc_event = SnifferTick connectivity | CallEnded call_error

fun grpc_event_step :: "grpc_event \<Rightarrow> client \<Rightarrow> client" where
  "grpc_event_step (SnifferTick state) c = sniffer_tick state c"
| "grpc_event_step (CallEnded err) c = reportError err c"

lemma updateStatus_eq:
  "updateStatus st c = (if cl_status c = st then c else c\<lparr>cl_status := st, notified := notified c @ map (\<lambda>l. (l, st)) (cl_listeners c)\<rparr>)"
  by (simp add: updateStatus_def notify_all)

interpretation grpc_status: status_source grpc_event_step
proof
  show "cl_listeners (grpc_event_step e c) = cl_listeners c" for e c
    by (cases e) (auto simp: sniffer_tick_def reportError_def updateStatus_eq split: call_error.splits)
  show "notified (grpc_event_step e c) = notified c @ (if cl_status (grpc_event_step e c) = cl_status c then []
      else map (\<lambda>l. (l, cl_status (grpc_event_step e c))) (cl_listeners c))" for e c
    by (cases e) (auto simp: sniffer_tick_def reportError_def updateStatus_eq split: call_error.splits)
qed

interpretation kafka_status: status_source broker_tick
  by unfold_locales (auto simp: broker_tick_def notify_def notify_all)

section \<open>Updates that run at the same time\<close>

text \<open>
  The ticks of the sniffer and the calls that fail run in different goroutines and share the
  client without a lock. The steps of \<open>updateStatus\<close>: after the comparison the status is written;
  then for every listener the status is read and offered to its channel, which has no buffer; the
  listener takes one of the offers.
\<close>

datatype update_thread = SetStatus ClientStatus | Announce "nat list" | Offer nat "nat list" ClientStatus

inductive client_step :: "client \<times> update_thread list \<Rightarrow> client \<times> update_thread list \<Rightarrow> bool" where
  cs_compare: "cl_status c \<noteq> st \<Longrightarrow> client_step (c, ts) (c, ts @ [SetStatus st])"
| cs_set: "client_step (c, ts @ SetStatus st # us) (c\<lparr>cl_status := st\<rparr>, ts @ Announce (cl_listeners c) # us)"
| cs_offer: "client_step (c, ts @ Announce (l # ls) # us) (c, ts @ Offer l ls (cl_status c) # us)"
| cs_take: "client_step (c, ts @ Offer l ls st # us) (c\<lparr>notified := notified c @ [(l, st)]\<rparr>, ts @ Announce ls # us)"
| cs_done: "client_step (c, ts @ Announce [] # us) (c, ts @ us)"

abbreviation client_steps :: "client \<times> update_thread list \<Rightarrow> client \<times> update_thread list \<Rightarrow> bool" where
  "client_steps \<equiv> client_step\<^sup>*\<^sup>*"

lemmas client_step_alone =
  cs_compare [of _ _ "[]", simplified] cs_set [of _ "[]" _ "[]", simplified] cs_offer [of _ "[]" _ _ "[]", simplified]
  cs_take [of _ "[]" _ _ _ "[]", simplified] cs_done [of _ "[]" "[]", simplified]

lemma two_steps: "client_step x y \<Longrightarrow> client_step y z \<Longrightarrow> client_steps x z"
  by (meson converse_rtranclp_into_rtranclp r_into_rtranclp)

lemma announce_alone: "client_steps (c, [Announce ls]) (c\<lparr>notified := notified c @ map (\<lambda>l. (l, cl_status c)) ls\<rparr>, [])"
proof (induction ls arbitrary: c)
  case Nil
  show ?case using client_step_alone(5) by (simp add: r_into_rtranclp)
next
  case (Cons l ls c)
  have "client_steps (c, [Announce (l # ls)]) (c\<lparr>notified := notified c @ [(l, cl_status c)]\<rparr>, [Announce ls])"
    by (rule two_steps [OF client_step_alone(3,4)])
  with Cons.IH [of "c\<lparr>notified := notified c @ [(l, cl_status c)]\<rparr>"] show ?case by (simp add: rtranclp_trans)
qed

text \<open>Run alone, the steps are \<open>updateStatus\<close>.\<close>

lemma updateStatus_alone: "client_steps (c, []) (updateStatus st c, [])"
proof (cases "cl_status c = st")
  case False
  have "client_steps (c, []) (c\<lparr>cl_status := st\<rparr>, [Announce (cl_listeners c)])"
    by (rule two_steps [OF client_step_alone(1) [OF False] client_step_alone(2)])
  with announce_alone [of "c\<lparr>cl_status := st\<rparr>" "cl_listeners c"] False show ?thesis
    by (simp add: updateStatus_eq rtranclp_trans)
qed (simp add: updateStatus_eq)

end
