(* ===== verification/Client_Properties.thy ===== *)
theory Client_Properties
  imports Clients Module_Properties
begin

text \<open>
  What the clients promise the senders, where the promise is broken by updates that run at the
  same time, and the options of the gRPC client.
\<close>

abbreviation fresh_client :: client where
  "fresh_client \<equiv> \<lparr>cl_status = Connected, cl_listeners = [], notified = []\<rparr>"

text \<open>
  C11. The sender follows its client. A prepared client of gRPC or Kafka, at which senders are
  registered, runs through any sequence of ticks of its sniffer and of calls that end. A sender
  that handles the notifications of its listener is then blocked exactly when the client is
  disconnected, and the notifications are the changes of the status: each differs from the one
  before, the first from the initial status.
\<close>

theorem client_status_followed:
  assumes "distinct ls" and "l \<in> set ls" and "\<not> blocking s" and "c0 = fold RegisterListener ls c"
    and "grpc_client_Prepare env marshal cfg = Ok c \<and> c1 = fold grpc_event_step ges c0 \<or>
      kafka_client_Prepare env new parse sarama kcfg = Ok c \<and> c1 = fold broker_tick ticks c0"
  shows "(blocking (fold (\<lambda>st s. snd (listen_status st s)) (received l c1) s) \<longleftrightarrow> cl_status c1 = Disconnect) \<and>
    successively (\<noteq>) (Connected # received l c1)"
proof -
  have c: "c = fresh_client"
    using assms(5) by (auto simp: grpc_client_Prepare_def kafka_client_Prepare_def split: outcome.splits)
  have "fold RegisterListener xs (fresh_client\<lparr>cl_listeners := ys\<rparr>) = fresh_client\<lparr>cl_listeners := ys @ xs\<rparr>" for xs ys
    by (induction xs arbitrary: ys) (simp_all add: RegisterListener_def)
  from this [of ls "[]"] have c0: "c0 = fresh_client\<lparr>cl_listeners := ls\<rparr>" using assms(4) c by simp
  then have pre: "distinct (cl_listeners c0)" "l \<in> set (cl_listeners c0)" "received l c0 = []" "cl_status c0 = Connected"
    using assms(1,2) by (simp_all add: received_def)
  have b: "blocking s \<longleftrightarrow> cl_status c0 = Disconnect" using assms(3) pre(4) by simp
  from assms(5) show ?thesis
  proof
    assume "grpc_client_Prepare env marshal cfg = Ok c \<and> c1 = fold grpc_event_step ges c0"
    with grpc_status.blocking_follows [OF pre(1-3) b, of ges] grpc_status.received_follows [OF pre(1,2), of ges] pre(3,4)
    show ?thesis by auto
  next
    assume "kafka_client_Prepare env new parse sarama kcfg = Ok c \<and> c1 = fold broker_tick ticks c0"
    with kafka_status.blocking_follows [OF pre(1-3) b, of ticks] kafka_status.received_follows [OF pre(1,2), of ticks] pre(3,4)
    show ?thesis by auto
  qed
qed

definition test_tls :: tls_env where
  "test_tls = \<lparr>file_size = (\<lambda>_. Ok 1), ReadFile = (\<lambda>_. Ok ''ca''), AppendCertsFromPEM = (\<lambda>_. True),
     LoadX509KeyPair = (\<lambda>_ _. Ok ''pem''), ParseDuration = (\<lambda>_. Ok 5), NewClient = (\<lambda>_. Ok ())\<rparr>"

definition test_grpc :: grpc_config where
  "test_grpc = \<lparr>finder = \<lparr>FinderType = ''static'', ServerAddr = ''localhost:11800'', Kubernetes = kube_pods\<rparr>, EnableTLS = False,
     ClientPemPath = [], ClientKeyPath = [], CaPemPath = [], InsecureSkipVerify = True, Authentication = ''token'',
     TimeoutUnary = ''5s'', TimeoutStream = ''20s''\<rparr>"

abbreviation outage :: "grpc_event list" where
  "outage \<equiv> [SnifferTick Ready, CallEnded (StatusError Unavailable), SnifferTick TransientFailure, SnifferTick Connecting]"

lemma test_grpc_prepared: "grpc_client_Prepare test_tls (\<lambda>_. Ok []) test_grpc = Ok fresh_client"
  by (simp add: grpc_client_Prepare_def loadConfig_def test_grpc_def test_tls_def BuildTarget_def rs_def static_BuildTarget_def)

theorem client_status_followed_witness:
  "blocking (fold (\<lambda>st s. snd (listen_status st s)) (received 7 (fold grpc_event_step outage (RegisterListener 7 fresh_client)))
      (rec_sender [recording Logging])) \<and>
    received 7 (fold grpc_event_step outage (RegisterListener 7 fresh_client)) = [Disconnect]"
  using client_status_followed [of "[7]" 7 "rec_sender [recording Logging]" "RegisterListener 7 fresh_client" fresh_client
      test_tls "\<lambda>_. Ok []" test_grpc "fold grpc_event_step outage (RegisterListener 7 fresh_client)" outage] test_grpc_prepared
  by (simp add: rec_sender_def sniffer_tick_def reportError_def updateStatus_eq RegisterListener_def received_def)

text \<open>
  C38. A lost reconnection. When a failing call and a tick of the sniffer update the status at the
  same time, the listener may receive the two notifications in the wrong order: the client is
  connected and no update is running, but the sender was told about the disconnection last and is
  blocked. As the status does not change, no tick of a ready or idle connection tells it
  otherwise.
\<close>

theorem status_race:
  assumes "\<not> blocking s"
  shows "\<exists>c. client_steps (RegisterListener l fresh_client, []) (c, []) \<and> cl_status c = Connected \<and>
    blocking (fold (\<lambda>st s. snd (listen_status st s)) (received l c) s) \<and> received l c = [Connected, Disconnect] \<and>
    sniffer_tick Ready c = c \<and> sniffer_tick Idle c = c"
proof -
  let ?c = "fresh_client\<lparr>cl_listeners := [l]\<rparr>"
  let ?d = "?c\<lparr>cl_status := Disconnect\<rparr>"
  let ?n1 = "?c\<lparr>notified := [(l, Connected)]\<rparr>"
  let ?n2 = "?c\<lparr>notified := [(l, Connected), (l, Disconnect)]\<rparr>"
  have "client_steps (?c, []) (?d, [Offer l [] Disconnect])"
    using cs_compare [of ?c Disconnect "[]"] cs_set [of ?c "[]" Disconnect "[]"] cs_offer [of ?d "[]" l "[]" "[]"]
    by (force intro: converse_rtranclp_into_rtranclp)
  moreover have "client_steps (?d, [Offer l [] Disconnect]) (?c, [Offer l [] Disconnect, Announce [l]])"
    using cs_compare [of ?d Connected "[Offer l [] Disconnect]"] cs_set [of ?d "[Offer l [] Disconnect]" Connected "[]"]
    by (force intro: converse_rtranclp_into_rtranclp)
  moreover have "client_steps (?c, [Offer l [] Disconnect, Announce [l]]) (?n1, [Offer l [] Disconnect])"
    using cs_offer [of ?c "[Offer l [] Disconnect]" l "[]" "[]"] cs_take [of ?c "[Offer l [] Disconnect]" l "[]" Connected "[]"]
      cs_done [of ?n1 "[Offer l [] Disconnect]" "[]"]
    by (force intro: converse_rtranclp_into_rtranclp)
  moreover have "client_steps (?n1, [Offer l [] Disconnect]) (?n2, [])"
    using cs_take [of ?n1 "[]" l "[]" Disconnect "[]"] cs_done [of ?n2 "[]" "[]"]
    by (force intro: converse_rtranclp_into_rtranclp)
  ultimately have "client_steps (?c, []) (?n2, [])" by (meson rtranclp_trans)
  moreover have "received l ?n2 = [Connected, Disconnect]" by (simp add: received_def)
  ultimately show ?thesis
    by (intro exI [of _ ?n2]) (simp add: RegisterListener_def listen_status_def sniffer_tick_def updateStatus_eq)
qed

theorem status_race_witness:
  "\<exists>c. client_steps (RegisterListener 7 fresh_client, []) (c, []) \<and> cl_status c = Connected \<and>
    blocking (fold (\<lambda>st s. snd (listen_status st s)) (received 7 c) (rec_sender [recording Logging]))"
  using status_race [of "rec_sender [recording Logging]" 7] by (auto simp: rec_sender_def)

text \<open>
  Unary calls bypass the client. The options of a gRPC client always hold exactly one
  interceptor of streams, with the configured authentication, and never the interceptor of unary
  calls: the authentication header and the timeout are not applied to them, and their errors are
  not reported.
\<close>

theorem unary_interceptor_missing:
  assumes "loadConfig env c = Ok options"
  shows "(\<exists>t. filter (\<lambda>opt. case opt of WithStreamInterceptor _ _ \<Rightarrow> True | _ \<Rightarrow> False) options =
      [WithStreamInterceptor (if Authentication c = [] then None else Some (Authentication c)) t] \<and> ParseDuration env (TimeoutStream c) = Ok t) \<and>
    filter (\<lambda>opt. case opt of WithUnaryInterceptor _ _ \<Rightarrow> True | _ \<Rightarrow> False) options = []"
proof -
  from assms obtain creds t where "options = [WithTransportCredentials creds] @
      [WithStreamInterceptor (if Authentication c = [] then None else Some (Authentication c)) t, WithDefaultServiceConfig ''satellite_lb'']"
    and "ParseDuration env (TimeoutStream c) = Ok t"
    by (cases "EnableTLS c"; cases "ParseDuration env (TimeoutUnary c)"; cases "ParseDuration env (TimeoutStream c)")
      (auto simp: loadConfig_def out_bind_eq_Ok)
  then show ?thesis by simp
qed

theorem unary_interceptor_missing_witness:
  "\<exists>options. loadConfig test_tls test_grpc = Ok options \<and>
    filter (\<lambda>opt. case opt of WithStreamInterceptor _ _ \<Rightarrow> True | _ \<Rightarrow> False) options = [WithStreamInterceptor (Some ''token'') 5] \<and>
    filter (\<lambda>opt. case opt of WithUnaryInterceptor _ _ \<Rightarrow> True | _ \<Rightarrow> False) options = []"
proof -
  obtain options where o: "loadConfig test_tls test_grpc = Ok options"
    using test_grpc_prepared by (auto simp: grpc_client_Prepare_def split: outcome.splits)
  from unary_interceptor_missing [OF o] o show ?thesis
    by (auto simp: test_grpc_def test_tls_def)
qed

end
