(* ===== verification/Client_Lifecycle.thy ===== *)
theory Client_Lifecycle
  imports Clients Routine_Shutdown Module_Properties
begin

text \<open>
  The rest of the clients of \<open>plugins/client/grpc\<close> and \<open>plugins/client/kafka\<close>: \<open>Start\<close>, the end of the
  goroutine that it starts, and \<open>Close\<close>; and what happens when a listener is gone. The channels of
  the listeners have no buffer, so a notification of a listener that does not receive any more is a
  send that never returns. \<open>listening\<close> says which listeners still receive.
\<close>

section \<open>Start and Close\<close>

record 'k client_run =
  cr_client :: client
  cr_conn :: 'k
  cr_cancelled :: bool
  cr_sniffers :: nat

definition client_Start :: "('k client_run, unit) go" where
  "client_Start x = (Ok (), x\<lparr>cr_sniffers := cr_sniffers x + 1\<rparr>)"

text \<open>The loop of a sniffer: a tick or the end of the context.\<close>

definition sniffer_turn :: "(client, unit) go \<Rightarrow> 'k client_run \<Rightarrow> 'k client_run option" where
  "sniffer_turn tick x =
     (if cr_sniffers x = 0 then None
      else case tick (cr_client x) of (Ok _, c) \<Rightarrow> Some (x\<lparr>cr_client := c\<rparr>) | _ \<Rightarrow> None)"

definition sniffer_stop :: "'k client_run \<Rightarrow> 'k client_run option" where
  "sniffer_stop x = (if cr_cancelled x \<and> 0 < cr_sniffers x then Some (x\<lparr>cr_sniffers := cr_sniffers x - 1\<rparr>) else None)"

text \<open>\<open>close\<close> is \<open>Close\<close> of the connection in the library.\<close>

definition client_Close :: "('k, unit) go \<Rightarrow> ('k client_run, unit) go" where
  "client_Close close x = (case close (cr_conn x) of (r, k) \<Rightarrow> (r, x\<lparr>cr_cancelled := True, cr_conn := k\<rparr>))"

section \<open>Notifications that wait\<close>

fun offer_all :: "(nat \<Rightarrow> bool) \<Rightarrow> nat list \<Rightarrow> (client, unit) go" where
  "offer_all listening [] c = (Ok (), c)"
| "offer_all listening (l # ls) c =
     (if listening l then offer_all listening ls (c\<lparr>notified := notified c @ [(l, cl_status c)]\<rparr>) else (Hang, c))"

definition updateStatus_go :: "(nat \<Rightarrow> bool) \<Rightarrow> ClientStatus \<Rightarrow> (client, unit) go" where
  "updateStatus_go listening clientStatus c =
     (if cl_status c \<noteq> clientStatus then offer_all listening (cl_listeners c) (c\<lparr>cl_status := clientStatus\<rparr>) else (Ok (), c))"

definition reportError_go :: "(nat \<Rightarrow> bool) \<Rightarrow> call_error \<Rightarrow> (client, unit) go" where
  "reportError_go listening err c =
     (case err of
        StatusError errCode \<Rightarrow>
          if errCode \<in> {Unavailable, PermissionDenied, Unauthenticated, ResourceExhausted, Unknown}
          then updateStatus_go listening Disconnect c else (Ok (), c)
      | _ \<Rightarrow> (Ok (), c))"

definition sniffer_tick_go :: "(nat \<Rightarrow> bool) \<Rightarrow> connectivity \<Rightarrow> (client, unit) go" where
  "sniffer_tick_go listening state c =
     (if state = Shutdown \<or> state = TransientFailure then updateStatus_go listening Disconnect c
      else if state = Ready \<or> state = Idle then updateStatus_go listening Connected c
      else (Ok (), c))"

text \<open>The interceptor of streams, with an error that is reported before it returns.\<close>

definition open_stream_go :: "(nat \<Rightarrow> bool) \<Rightarrow> call_error + nat \<Rightarrow> bool \<Rightarrow> (client, call_error + stream_wrapper) go" where
  "open_stream_go listening stream_result bidirectional =
     (case stream_result of
        Inl err \<Rightarrow> go_bind (reportError_go listening err) (\<lambda>_. go_return (Inl err))
      | Inr st \<Rightarrow> go_return (Inr \<lparr>sw_stream = st, bidirectionalStream = bidirectional, timeoutCancelled = False\<rparr>))"

lemma offer_all_listening:
  "list_all listening ls \<Longrightarrow> offer_all listening ls c = (Ok (), c\<lparr>notified := notified c @ map (\<lambda>l. (l, cl_status c)) ls\<rparr>)"
  by (induction ls arbitrary: c) simp_all

lemma offer_all_gone: "l \<in> set ls \<Longrightarrow> \<not> listening l \<Longrightarrow> fst (offer_all listening ls c) = Hang"
  by (induction ls arbitrary: c) auto

lemma go_bind_waits: "fst (m s) = Hang \<Longrightarrow> fst (go_bind m k s) = Hang"
  by (cases "m s") (simp add: go_bind_def)

text \<open>While all listeners receive, these are the updates of \<open>Clients\<close>.\<close>

lemma updateStatus_go_listening:
  assumes "list_all listening (cl_listeners c)"
  shows "updateStatus_go listening st c = (Ok (), updateStatus st c)"
  using assms by (simp add: updateStatus_go_def updateStatus_eq offer_all_listening)

lemma open_stream_listening:
  assumes "list_all listening (cl_listeners c)"
  shows "open_stream_go listening (streamer header t) bidirectional c
    = (case stream_interceptor header t streamer bidirectional c of (r, c') \<Rightarrow> (Ok r, c'))"
proof -
  have "reportError_go listening err c = (Ok (), reportError err c)" for err
    using updateStatus_go_listening [OF assms] by (simp add: reportError_go_def reportError_def split: call_error.splits)
  then show ?thesis by (simp add: open_stream_go_def stream_interceptor_def go_bind_def split: sum.splits)
qed

lemma sniffer_tick_listening:
  "list_all listening (cl_listeners c) \<Longrightarrow> sniffer_tick_go listening state c = (Ok (), sniffer_tick state c)"
  by (simp add: sniffer_tick_go_def sniffer_tick_def updateStatus_go_listening)

text \<open>A stream that cannot be opened, and a listener that is gone: the call does not return.\<close>

lemma open_stream_waits:
  assumes "cl_status c = Connected" and "l \<in> set (cl_listeners c)" and "\<not> listening l"
  shows "fst (open_stream_go listening (Inl (StatusError Unavailable)) bidirectional c) = Hang"
proof -
  have "fst (offer_all listening (cl_listeners c) (c\<lparr>cl_status := Disconnect\<rparr>)) = Hang" using assms(2,3) by (rule offer_all_gone)
  then have "fst (reportError_go listening (StatusError Unavailable) c) = Hang"
    using assms(1) by (simp add: reportError_go_def updateStatus_go_def)
  then show ?thesis by (simp add: open_stream_go_def go_bind_waits)
qed

section \<open>A pipe that stops without a backend\<close>

lemma consume_waits:
  assumes "runningForwarders s = [f]" and "buf_holds b cs" and "events_of cs (ForwardType f) \<noteq> []"
    and "\<And>batch. fst (Forward f batch (world s)) = Hang"
  shows "fst (consume b s) = Hang"
proof -
  have cs: "cs \<noteq> []" using assms(3) by (auto simp: events_of_def)
  obtain w where w: "Forward f (events_of cs (ForwardType f)) (world s) = (Hang, w)" using assms(4) by (metis prod.collapse)
  have "fst (forward_own f cs s) = Hang" using assms(3) w by (simp add: forward_own_def forward_batch_def)
  then have "fst (forward_each (runningForwarders s) cs s) = Hang" using assms(1) by (simp add: go_bind_waits)
  then show ?thesis using consume_run [OF assms(2), of s] cs by (simp add: go_bind_waits)
qed

text \<open>
  A pipe is stopped while the backend is gone and its client has not noticed yet. Once \<open>listen\<close> has
  ended, a \<open>flush\<close> routine that holds a batch neither gets rid of it nor ends: opening the stream fails,
  the failure is reported to the listener that does not receive any more, and that call waits.
\<close>

lemma last_flush_waits:
  assumes "p < length (flusher x)" and "flusher x ! p = FBatch b" and "runningForwarders (rt_send x) = [f]" and "buf_holds b cs"
    and "events_of cs (ForwardType f) \<noteq> []"
    and "\<And>batch. Forward f batch = go_bind (open_stream_go listening (Inl (StatusError Unavailable)) bidirectional) (rest batch)"
    and "cl_status (world (rt_send x)) = Connected" and "l \<in> set (cl_listeners (world (rt_send x)))" and "\<not> listening l"
  shows "flush_consume p x = None \<and> flush_stop p late x = None"
proof -
  have "fst (Forward f batch (world (rt_send x))) = Hang" for batch
    unfolding assms(6) by (rule go_bind_waits) (rule open_stream_waits [where l = l and listening = listening, OF assms(7,8,9)])
  from consume_waits [OF assms(3-5) this] show ?thesis
    using assms(1,2) by (cases "consume b (rt_send x)") (simp add: flush_consume_def flush_stop_def)
qed

definition lost_forwarder :: "client forwarder" where
  "lost_forwarder = \<lparr>fw_Prepare = (\<lambda>w. (Ok (), w)), ForwardType = Logging,
     Forward = (\<lambda>batch. go_bind (open_stream_go (\<lambda>_. False) (Inl (StatusError Unavailable)) False)
        (\<lambda>r. case r of Inl _ \<Rightarrow> (\<lambda>w. (Err (Errorf ''open stream error''), w)) | Inr _ \<Rightarrow> go_return ())),
     SupportedSyncInvoke = False, SyncForward = (\<lambda>d w. (Err (Errorf ''unsupport sync forward''), w))\<rparr>"

definition lost_sender :: "client sender" where
  "lost_sender = \<lparr>s_PipeName = ''p'', MaxBufferSize = 2, MinFlushEvents = 1, runningForwarders = [lost_forwarder],
     runningFallbacker = none_FallBack, gatherer_Ack = (\<lambda>o1 w. (Ok (), w)), buffers = [full_buffer], blocking = False,
     inputsClosed = False, shutdownDone = False, sendCounter = (\<lambda>_. 0), flushLog = [],
     world = \<lparr>cl_status = Connected, cl_listeners = [0], notified = []\<rparr>\<rparr>"

lemma last_flush_waits_example:
  "\<forall>(g :: unit gatherer) late.
     let x = (Boot_routines 1 g lost_sender)\<lparr>ctx_done := True, listen_end := True, flusher := [FBatch full_buffer]\<rparr>
     in flush_consume 0 x = None \<and> flush_stop 0 late x = None"
proof (intro allI)
  fix g :: "unit gatherer" and late
  let ?x = "(Boot_routines 1 g lost_sender)\<lparr>ctx_done := True, listen_end := True, flusher := [FBatch full_buffer]\<rparr>"
  have e: "events_of [ctx_of ev_a, ctx_of ev_b] Logging \<noteq> []" by code_simp
  have "flush_consume 0 ?x = None \<and> flush_stop 0 late ?x = None"
    by (rule last_flush_waits [where f = lost_forwarder and b = full_buffer and l = 0 and listening = "\<lambda>_. False"
          and bidirectional = False
          and rest = "\<lambda>_ r. case r of Inl _ \<Rightarrow> (\<lambda>w. (Err (Errorf ''open stream error''), w)) | Inr _ \<Rightarrow> go_return ()",
          OF _ _ _ full_buffer_holds])
      (use e in \<open>simp_all add: Boot_routines_def lost_sender_def lost_forwarder_def\<close>)
  then show "let x = ?x in flush_consume 0 x = None \<and> flush_stop 0 late x = None" by (simp add: Let_def)
qed

text \<open>
  A shutdown ends in the same situation: its first attempt waits for the listener, but it has set the
  status, so the attempt after the time limit fails without a report. With the fallbacker that does
  nothing the events are lost, and counted neither as sent nor as failed.
\<close>

lemma lost_shutdown_ends:
  "fst (consume_each (buffers lost_sender) lost_sender) = Ok False"
  "(case sender_Shutdown False lost_sender of (r, s) \<Rightarrow> r = Ok () \<and> cl_status (world s) = Disconnect \<and>
      sendCounter s (''p'', ''failure'', Logging) = 0 \<and> sendCounter s (''p'', ''success'', Logging) = 0)"
  by code_simp+

end
