(* ===== verification/Accept_Limiter.thy ===== *)
theory Accept_Limiter
  imports Prelude
begin

text \<open>
  \<open>plugins/server/grpc\<close>: the limit on accepted connections, and the codec. The counter of the
  active connections is a signed 32 bit integer that is changed atomically; the CPU use is a value
  that can be compared.

  The server accepts in its own goroutine while every connection may be closed by another one. The
  steps that are atomic are those of the step relation \<open>limit_step\<close>; the functions run them in
  sequence.
\<close>

section \<open>The limiter\<close>

record 'f AcceptLimiter =
  CPUUtilization :: 'f
  ConnectionCount :: i32
  ActiveConnection :: i32
  CurrentCPU :: 'f

definition NewAcceptLimiter :: "unit outcome \<Rightarrow> 'f \<Rightarrow> i32 \<Rightarrow> 'f :: zero AcceptLimiter outcome" where
  "NewAcceptLimiter cpu_Times utilization conns =
     (case cpu_Times of
        Ok _ \<Rightarrow> Ok \<lparr>CPUUtilization = utilization, ConnectionCount = conns, ActiveConnection = 0, CurrentCPU = 0\<rparr>
      | Panic \<Rightarrow> Panic | Hang \<Rightarrow> Hang
      | Err e \<Rightarrow> Err (Errorf ''could not find cpu usage analyzer''))"

definition cpu_measured :: "'f outcome \<Rightarrow> 'f AcceptLimiter \<Rightarrow> 'f AcceptLimiter" where
  "cpu_measured percent a = (case percent of Ok p \<Rightarrow> a\<lparr>CurrentCPU := p\<rparr> | _ \<Rightarrow> a)"

definition add_active :: "i32 \<Rightarrow> 'f AcceptLimiter \<Rightarrow> i32 \<times> 'f AcceptLimiter" where
  "add_active d a = (ActiveConnection a + d, a\<lparr>ActiveConnection := ActiveConnection a + d\<rparr>)"

definition CouldHandleConnection :: "'f :: ord AcceptLimiter \<Rightarrow> bool \<times> 'f AcceptLimiter" where
  "CouldHandleConnection a =
     (if CurrentCPU a \<ge> CPUUtilization a then (False, a)
      else if ConnectionCount a <=s ActiveConnection a then (False, a)
      else (case add_active 1 a of
              (n, a1) \<Rightarrow> if ConnectionCount a <s n then (False, snd (add_active (- 1) a1)) else (True, a1)))"

definition CloseConnection :: "'f AcceptLimiter \<Rightarrow> 'f AcceptLimiter" where
  "CloseConnection a = snd (add_active (- 1) a)"

section \<open>Connections\<close>

text \<open>
  The connections that were handed to the server, each with the state of its \<open>closeOnce\<close>, and
  the raw connections that were dropped.
\<close>

record 'f ConnectionManager =
  acceptLimiter :: "'f AcceptLimiter"
  wrappers :: "(nat \<times> bool) list"
  dropped :: "nat list"

definition NewConnectionManager :: "unit outcome \<Rightarrow> unit outcome \<Rightarrow> 'f \<Rightarrow> i32 \<Rightarrow> 'f :: zero ConnectionManager outcome" where
  "NewConnectionManager listen cpu_Times utilization conns =
     out_bind listen (\<lambda>_.
     out_bind (NewAcceptLimiter cpu_Times utilization conns) (\<lambda>limiter.
       Ok \<lparr>acceptLimiter = limiter, wrappers = [], dropped = []\<rparr>))"

text \<open>
  \<open>Prepare\<close> of the server: the options of the library's server and the listener. The loading of the
  certificate, the listening and the first measurement of the CPU are given.
\<close>

datatype server_option = Creds string | MaxRecvMsgSize int | MaxConcurrentStreams "32 word"

record 'f server_config =
  TLSCertFile :: string
  TLSKeyFile :: string
  sc_MaxRecvMsgSize :: int
  sc_MaxConcurrentStreams :: "32 word"
  AcceptLimit_CPU :: 'f
  AcceptLimit_Conns :: i32

definition grpc_server_Prepare :: "(string \<Rightarrow> string \<Rightarrow> string outcome) \<Rightarrow> unit outcome \<Rightarrow> unit outcome \<Rightarrow> 'f server_config \<Rightarrow>
    (server_option list \<times> 'f :: zero ConnectionManager) outcome" where
  "grpc_server_Prepare NewServerTLSFromFile listen cpu_Times s =
     out_bind (if TLSCertFile s \<noteq> [] \<and> TLSKeyFile s \<noteq> []
               then out_bind (NewServerTLSFromFile (TLSCertFile s) (TLSKeyFile s)) (\<lambda>c. Ok [Creds c]) else Ok []) (\<lambda>options.
     out_bind (NewConnectionManager listen cpu_Times (AcceptLimit_CPU s) (AcceptLimit_Conns s)) (\<lambda>listener.
       Ok (options @ [MaxRecvMsgSize (sc_MaxRecvMsgSize s), MaxConcurrentStreams (sc_MaxConcurrentStreams s)], listener)))"

text \<open>The result of \<open>Accept\<close> is the position of the new connection.\<close>

definition Accept :: "(go_error + nat) \<Rightarrow> ('f :: ord ConnectionManager, nat) go" where
  "Accept conn c =
     (case conn of
        Inl err \<Rightarrow> (Err err, c)
      | Inr k \<Rightarrow>
          (case CouldHandleConnection (acceptLimiter c) of
             (False, a) \<Rightarrow> (Err (Errorf ''out of limit''), c\<lparr>acceptLimiter := a, dropped := dropped c @ [k]\<rparr>)
           | (True, a) \<Rightarrow> (Ok (length (wrappers c)), c\<lparr>acceptLimiter := a, wrappers := wrappers c @ [(k, False)]\<rparr>)))"

definition CloseNotify :: "nat \<Rightarrow> 'f ConnectionManager \<Rightarrow> 'f ConnectionManager" where
  "CloseNotify i c =
     (if i < length (wrappers c) \<and> \<not> snd (wrappers c ! i)
      then c\<lparr>wrappers := (wrappers c)[i := (fst (wrappers c ! i), True)], acceptLimiter := CloseConnection (acceptLimiter c)\<rparr>
      else c)"

text \<open>\<open>Close\<close> of a connection notifies in any case and returns the result of the raw connection.\<close>

definition wrapper_Close :: "(nat \<Rightarrow> unit outcome) \<Rightarrow> nat \<Rightarrow> ('f ConnectionManager, unit) go" where
  "wrapper_Close raw_close i c = (raw_close (fst (wrappers c ! i)), CloseNotify i c)"

definition open_conns :: "'f ConnectionManager \<Rightarrow> nat" where
  "open_conns c = length (filter (\<lambda>w. \<not> snd w) (wrappers c))"

section \<open>Steps\<close>

text \<open>
  Where a goroutine is in \<open>CouldHandleConnection\<close>: after the check of the CPU, after the check of
  the counter, and after an addition that went over the limit.
\<close>

datatype accept_pc = CpuChecked | CountChecked | Over

inductive limit_step :: "nat \<Rightarrow> 'f :: ord ConnectionManager \<times> (nat \<times> accept_pc) list \<Rightarrow> 'f ConnectionManager \<times> (nat \<times> accept_pc) list \<Rightarrow> bool"
  for k :: nat where
  ls_cpu: "limit_step k (c, ts) (c\<lparr>acceptLimiter := cpu_measured p (acceptLimiter c)\<rparr>, ts)"
| ls_arrive: "length ts < k \<Longrightarrow> \<not> CurrentCPU (acceptLimiter c) \<ge> CPUUtilization (acceptLimiter c) \<Longrightarrow>
    limit_step k (c, ts) (c, (conn, CpuChecked) # ts)"
| ls_refuse: "CurrentCPU (acceptLimiter c) \<ge> CPUUtilization (acceptLimiter c) \<Longrightarrow>
    limit_step k (c, ts) (c\<lparr>dropped := dropped c @ [conn]\<rparr>, ts)"
| ls_count: "\<not> ConnectionCount (acceptLimiter c) <=s ActiveConnection (acceptLimiter c) \<Longrightarrow>
    limit_step k (c, ts @ (conn, CpuChecked) # us) (c, ts @ (conn, CountChecked) # us)"
| ls_full: "ConnectionCount (acceptLimiter c) <=s ActiveConnection (acceptLimiter c) \<Longrightarrow>
    limit_step k (c, ts @ (conn, CpuChecked) # us) (c\<lparr>dropped := dropped c @ [conn]\<rparr>, ts @ us)"
| ls_add: "add_active 1 (acceptLimiter c) = (n, a) \<Longrightarrow> \<not> ConnectionCount (acceptLimiter c) <s n \<Longrightarrow>
    limit_step k (c, ts @ (conn, CountChecked) # us) (c\<lparr>acceptLimiter := a, wrappers := wrappers c @ [(conn, False)]\<rparr>, ts @ us)"
| ls_over: "add_active 1 (acceptLimiter c) = (n, a) \<Longrightarrow> ConnectionCount (acceptLimiter c) <s n \<Longrightarrow>
    limit_step k (c, ts @ (conn, CountChecked) # us) (c\<lparr>acceptLimiter := a\<rparr>, ts @ (conn, Over) # us)"
| ls_undo: "limit_step k (c, ts @ (conn, Over) # us)
    (c\<lparr>acceptLimiter := snd (add_active (- 1) (acceptLimiter c)), dropped := dropped c @ [conn]\<rparr>, ts @ us)"
| ls_close: "limit_step k (c, ts) (CloseNotify i c, ts)"

definition over_count :: "(nat \<times> accept_pc) list \<Rightarrow> nat" where
  "over_count ts = length (filter (\<lambda>t. snd t = Over) ts)"

text \<open>
  The counter is the number of the open connections and of the additions still to be undone; the
  open connections stay within the limit. At most \<open>k\<close> goroutines accept at the same time.
\<close>

definition limit_inv :: "nat \<Rightarrow> 'f ConnectionManager \<times> (nat \<times> accept_pc) list \<Rightarrow> bool" where
  "limit_inv k s \<longleftrightarrow> (case s of (c, ts) \<Rightarrow>
     length ts \<le> k \<and> sint (ActiveConnection (acceptLimiter c)) = int (open_conns c) + int (over_count ts) \<and>
     int (open_conns c) \<le> sint (ConnectionCount (acceptLimiter c)))"

abbreviation maxInt32 :: int where
  "maxInt32 \<equiv> 2 ^ 31 - 1"

lemma sint_step32:
  fixes w :: i32
  shows "sint w < maxInt32 \<Longrightarrow> sint (w + 1) = sint w + 1" and "- (2 ^ 31) < sint w \<Longrightarrow> sint (w - 1) = sint w - 1"
proof -
  have r: "- (2 ^ 31) \<le> sint w" "sint w < 2 ^ 31" using sint_ge [of w] sint_lt [of w] by simp_all
  show "sint (w + 1) = sint w + 1" if "sint w < maxInt32"
    using signed_take_bit_int_eq_self [of 31 "sint w + 1"] that r by (simp add: sint_word_ariths)
  show "sint (w - 1) = sint w - 1" if "- (2 ^ 31) < sint w"
    using signed_take_bit_int_eq_self [of 31 "sint w - 1"] that r by (simp add: sint_word_ariths)
qed

lemma over_count_append: "over_count (ts @ t # us) = over_count (ts @ us) + (if snd t = Over then 1 else 0)"
  by (simp add: over_count_def)

lemma over_count_le: "over_count ts \<le> length ts"
  by (simp add: over_count_def)

lemma CloseNotify_counts:
  assumes "sint (ActiveConnection (acceptLimiter c)) = int (open_conns c) + int n"
  shows "sint (ActiveConnection (acceptLimiter (CloseNotify i c))) = int (open_conns (CloseNotify i c)) + int n \<and>
    open_conns (CloseNotify i c) \<le> open_conns c \<and>
    ConnectionCount (acceptLimiter (CloseNotify i c)) = ConnectionCount (acceptLimiter c)"
proof (cases "i < length (wrappers c) \<and> \<not> snd (wrappers c ! i)")
  case True
  let ?ws = "wrappers c"
  have "?ws = take i ?ws @ ?ws ! i # drop (Suc i) ?ws" using True by (simp add: id_take_nth_drop)
  then have o: "length (filter (\<lambda>w. \<not> snd w) ?ws) = Suc (length (filter (\<lambda>w. \<not> snd w) (take i ?ws @ drop (Suc i) ?ws)))"
    using True by (smt (verit) add_Suc_right filter.simps(2) filter_append length_Cons length_append)
  have u: "filter (\<lambda>w. \<not> snd w) (?ws[i := (fst (?ws ! i), True)]) = filter (\<lambda>w. \<not> snd w) (take i ?ws @ drop (Suc i) ?ws)"
    using True by (simp add: upd_conv_take_nth_drop)
  have "- (2 ^ 31) < sint (ActiveConnection (acceptLimiter c))" using assms by simp
  from sint_step32(2) [OF this] o u assms True show ?thesis
    by (simp add: CloseNotify_def CloseConnection_def add_active_def open_conns_def)
qed (use assms in \<open>auto simp: CloseNotify_def\<close>)

lemma limit_step_config:
  "limit_step k (c, ts) (c', ts') \<Longrightarrow> ConnectionCount (acceptLimiter c') = ConnectionCount (acceptLimiter c)"
  by (erule limit_step.cases)
    (auto simp: add_active_def cpu_measured_def CloseNotify_def CloseConnection_def split: outcome.splits)

lemma limit_step_inv:
  assumes "limit_step k s s'" and "limit_inv k s" and "sint (ConnectionCount (acceptLimiter (fst s))) + int k \<le> maxInt32"
  shows "limit_inv k s'"
  using assms
proof (induction rule: limit_step.induct)
  case (ls_cpu c ts p)
  then show ?case by (auto simp: limit_inv_def open_conns_def cpu_measured_def split: outcome.splits)
next
  case (ls_arrive ts c conn)
  then show ?case by (simp add: limit_inv_def over_count_def)
next
  case (ls_refuse c ts conn)
  then show ?case by (simp add: limit_inv_def open_conns_def)
next
  case (ls_count c ts conn us)
  then show ?case by (simp add: limit_inv_def over_count_append)
next
  case (ls_full c ts conn us)
  then show ?case by (simp add: limit_inv_def over_count_append open_conns_def)
next
  case (ls_add c n a ts conn us)
  let ?A = "ActiveConnection (acceptLimiter c)"
  have A: "sint ?A = int (open_conns c) + int (over_count (ts @ us))" and l: "length (ts @ us) < k"
    using ls_add by (simp_all add: limit_inv_def over_count_append)
  then have "sint ?A < maxInt32" using ls_add(3,4) over_count_le [of "ts @ us"] by (simp add: limit_inv_def)
  with sint_step32(1) have "sint (?A + 1) = sint ?A + 1" by blast
  moreover have "sint (?A + 1) \<le> sint (ConnectionCount (acceptLimiter c))"
    using ls_add(1,2) by (auto simp: add_active_def word_sless_alt not_less)
  ultimately show ?case using A l ls_add(1) by (auto simp: limit_inv_def add_active_def open_conns_def)
next
  case (ls_over c n a ts conn us)
  let ?A = "ActiveConnection (acceptLimiter c)"
  have A: "sint ?A = int (open_conns c) + int (over_count (ts @ us))" and l: "length (ts @ us) < k"
    using ls_over by (simp_all add: limit_inv_def over_count_append)
  then have "sint ?A < maxInt32" using ls_over(3,4) over_count_le [of "ts @ us"] by (simp add: limit_inv_def)
  with sint_step32(1) have "sint (?A + 1) = sint ?A + 1" by blast
  then show ?case using A l ls_over by (auto simp: limit_inv_def add_active_def open_conns_def over_count_append)
next
  case (ls_undo c ts conn us)
  let ?A = "ActiveConnection (acceptLimiter c)"
  have A: "sint ?A = int (open_conns c) + int (over_count (ts @ us)) + 1"
    using ls_undo by (simp add: limit_inv_def over_count_append)
  then have "- (2 ^ 31) < sint ?A" by simp
  from sint_step32(2) [OF this] A ls_undo show ?case by (auto simp: limit_inv_def add_active_def open_conns_def)
next
  case (ls_close c ts i)
  then show ?case using CloseNotify_counts [of c "over_count ts" i] by (simp add: limit_inv_def)
qed

section \<open>The codec\<close>

text \<open>A message of the generated code, raw data that is passed on, or any other value.\<close>

datatype 'm codec_value = ProtoMessage 'm | OriginalData string | OtherValue

definition Marshal :: "('m \<Rightarrow> string outcome) \<Rightarrow> 'm codec_value \<Rightarrow> string outcome" where
  "Marshal proto_Marshal v =
     (case v of
        ProtoMessage vv \<Rightarrow> proto_Marshal vv
      | OriginalData content \<Rightarrow> Ok content
      | OtherValue \<Rightarrow> Err (Errorf ''failed to marshal, want proto.Message or grpc.OriginalData''))"

text \<open>\<open>Unmarshal\<close> fills the value it is given.\<close>

definition Unmarshal :: "(string \<Rightarrow> 'm \<Rightarrow> 'm outcome) \<Rightarrow> string \<Rightarrow> 'm codec_value \<Rightarrow> 'm codec_value outcome" where
  "Unmarshal proto_Unmarshal data v =
     (case v of
        ProtoMessage vv \<Rightarrow> out_bind (proto_Unmarshal data vv) (\<lambda>m. Ok (ProtoMessage m))
      | OriginalData _ \<Rightarrow> Ok (OriginalData data)
      | OtherValue \<Rightarrow> Err (Errorf ''failed to unmarshal, want proto.Message or grpc.OriginalData''))"

section \<open>Properties\<close>

text \<open>
  C16. The limit on connections. However accepting goroutines, closing goroutines and measurements
  of the CPU interleave, the server never holds more open connections than configured, closing a
  connection twice is counted once, and whenever nobody is accepting the counter is exactly the
  number of the open connections: none is leaked by a refused attempt.
\<close>

theorem accept_limit:
  assumes "NewConnectionManager listen cpu_Times utilization conns = Ok c0" and "0 \<le> sint conns" and "sint conns + int k \<le> maxInt32"
    and "(limit_step k)\<^sup>*\<^sup>* (c0, []) (c, ts)"
  shows "int (open_conns c) \<le> sint conns \<and>
    sint (ActiveConnection (acceptLimiter c)) = int (open_conns c) + int (over_count ts) \<and>
    (ts = [] \<longrightarrow> sint (ActiveConnection (acceptLimiter c)) = int (open_conns c))"
proof -
  from assms(1) have a: "ConnectionCount (acceptLimiter c0) = conns" "ActiveConnection (acceptLimiter c0) = 0" "wrappers c0 = []"
    by (auto simp: NewConnectionManager_def NewAcceptLimiter_def out_bind_eq_Ok split: outcome.splits)
  have "limit_inv k (c, ts) \<and> ConnectionCount (acceptLimiter c) = conns"
    using assms(4)
  proof (induction "(c, ts)" arbitrary: c ts rule: rtranclp_induct)
    case base
    with a assms(2) show ?case by (simp add: limit_inv_def open_conns_def over_count_def)
  next
    case (step s c ts)
    obtain c1 ts1 where s: "s = (c1, ts1)" by fastforce
    with step have "limit_inv k (c1, ts1)" "ConnectionCount (acceptLimiter c1) = conns" by auto
    with step(2) s limit_step_inv [of k s "(c, ts)"] limit_step_config [of k c1 ts1 c ts] assms(3) show ?case by simp
  qed
  then show ?thesis by (auto simp: limit_inv_def over_count_def)
qed

lemma CouldHandle_steps:
  assumes "0 < k" and "CouldHandleConnection (acceptLimiter c) = (True, a)"
  shows "(limit_step k)\<^sup>*\<^sup>* (c, []) (c\<lparr>acceptLimiter := a, wrappers := wrappers c @ [(conn, False)]\<rparr>, [])"
proof -
  have cpu: "\<not> CurrentCPU (acceptLimiter c) \<ge> CPUUtilization (acceptLimiter c)"
    and cnt: "\<not> ConnectionCount (acceptLimiter c) <=s ActiveConnection (acceptLimiter c)"
    and add: "add_active 1 (acceptLimiter c) = (ActiveConnection (acceptLimiter c) + 1, a)"
    and le: "\<not> ConnectionCount (acceptLimiter c) <s ActiveConnection (acceptLimiter c) + 1"
    using assms(2) by (auto simp: CouldHandleConnection_def add_active_def split: if_splits)
  from ls_arrive [of "[]" k c conn] ls_count [of c k "[]" conn "[]"] ls_add [OF add le, of k "[]" conn "[]"] assms(1) cpu cnt
  have "limit_step k (c, []) (c, [(conn, CpuChecked)])" "limit_step k (c, [(conn, CpuChecked)]) (c, [(conn, CountChecked)])"
    "limit_step k (c, [(conn, CountChecked)]) (c\<lparr>acceptLimiter := a, wrappers := wrappers c @ [(conn, False)]\<rparr>, [])" by simp_all
  then show ?thesis by (meson converse_rtranclp_into_rtranclp r_into_rtranclp)
qed

definition small_limiter :: "nat AcceptLimiter" where
  "small_limiter = \<lparr>CPUUtilization = 75, ConnectionCount = 1, ActiveConnection = 0, CurrentCPU = 0\<rparr>"

theorem accept_limit_witness:
  "(limit_step 2)\<^sup>*\<^sup>* (\<lparr>acceptLimiter = small_limiter, wrappers = [], dropped = []\<rparr>, [])
     (\<lparr>acceptLimiter = small_limiter\<lparr>ActiveConnection := 1\<rparr>, wrappers = [(5, False)], dropped = []\<rparr>, []) \<and>
   int (open_conns \<lparr>acceptLimiter = small_limiter\<lparr>ActiveConnection := 1\<rparr>, wrappers = [(5, False)], dropped = []\<rparr>) \<le> 1"
proof -
  have "CouldHandleConnection small_limiter = (True, small_limiter\<lparr>ActiveConnection := 1\<rparr>)" by code_simp
  with CouldHandle_steps [of 2 "\<lparr>acceptLimiter = small_limiter, wrappers = [], dropped = []\<rparr>" _ 5]
  have s: "(limit_step 2)\<^sup>*\<^sup>* (\<lparr>acceptLimiter = small_limiter, wrappers = [], dropped = []\<rparr>, [])
     (\<lparr>acceptLimiter = small_limiter\<lparr>ActiveConnection := 1\<rparr>, wrappers = [(5, False)], dropped = []\<rparr>, [])" by simp
  have "NewConnectionManager (Ok ()) (Ok ()) 75 1 = Ok \<lparr>acceptLimiter = small_limiter, wrappers = [], dropped = []\<rparr>"
    by (simp add: NewConnectionManager_def NewAcceptLimiter_def small_limiter_def)
  from accept_limit [OF this _ _ s] s show ?thesis by simp
qed

text \<open>
  Raw data passes through the codec unchanged, in both directions; only a value that is
  neither a message nor raw data is refused.
\<close>

theorem codec_raw_roundtrip:
  "(\<exists>bytes. Marshal proto_Marshal (OriginalData content) = Ok bytes \<and>
      Unmarshal proto_Unmarshal bytes (OriginalData old) = Ok (OriginalData content)) \<and>
   ((\<forall>m. is_Ok (proto_Marshal m)) \<longrightarrow> (is_Ok (Marshal proto_Marshal v) \<longleftrightarrow> v \<noteq> OtherValue))"
  by (cases v) (auto simp: Marshal_def Unmarshal_def)

theorem codec_raw_roundtrip_witness:
  "is_Ok (Marshal (\<lambda>m :: string. Ok m) (ProtoMessage ''m'')) \<and> \<not> is_Ok (Marshal (\<lambda>m :: string. Ok m) OtherValue)"
  using codec_raw_roundtrip [of "\<lambda>m. Ok m" _ "\<lambda>d m. Ok d" _ "ProtoMessage ''m''"]
    codec_raw_roundtrip [of "\<lambda>m. Ok m" _ "\<lambda>d m. Ok d" _ "OtherValue"] by simp

end
