(* ===== verification/Load_Balancer.thy ===== *)
theory Load_Balancer
  imports Go_Strings "HOL-Library.AList"
begin

text \<open>
  \<open>plugins/client/grpc/lb\<close>: how a call is assigned to one of the ready connections. A
  connection is any value; the map of the ready connections is the list of its entries in the
  order of the iteration. The configuration of a call travels in its context, as a pointer that
  \<open>Pick\<close> writes to: it is given and returned.
\<close>

unbundle bit_operations_syntax

section \<open>CRC-32\<close>

definition crc_bit :: "32 word \<Rightarrow> 32 word" where
  "crc_bit c = (if c AND 1 = 1 then drop_bit 1 c XOR 0xEDB88320 else drop_bit 1 c)"

definition crc_byte :: "nat \<Rightarrow> 32 word \<Rightarrow> 32 word" where
  "crc_byte b c = crc_bit (crc_bit (crc_bit (crc_bit (crc_bit (crc_bit (crc_bit (crc_bit (c XOR word_of_nat b))))))))"

definition ChecksumIEEE :: "string \<Rightarrow> 32 word" where
  "ChecksumIEEE s = fold (\<lambda>ch. crc_byte (of_char ch)) s 0xFFFFFFFF XOR 0xFFFFFFFF"

text \<open>The check value of the standard.\<close>

lemma crc_check_value: "ChecksumIEEE ''123456789'' = 0xCBF43926"
  by (simp add: ChecksumIEEE_def crc_byte_def crc_bit_def of_char_def)

definition hashCode :: "string \<Rightarrow> int" where
  "hashCode s = (let v = uint (ChecksumIEEE s) in if v \<ge> 0 then v else if - v \<ge> 0 then - v else 0)"

section \<open>Picking a connection\<close>

record LoadBalancerConfig =
  appointAddr :: string
  routeKey :: string

definition WithLoadBalanceConfig :: "string \<Rightarrow> string \<Rightarrow> LoadBalancerConfig option" where
  "WithLoadBalanceConfig key addr = Some \<lparr>appointAddr = addr, routeKey = key\<rparr>"

definition GetAddress :: "LoadBalancerConfig option \<Rightarrow> string" where
  "GetAddress config = (case config of None \<Rightarrow> [] | Some c \<Rightarrow> appointAddr c)"

record 'k picker =
  cons :: "(string \<times> 'k) list"
  addrToConn :: "(string \<times> 'k) list"
  connCount :: int
  pick_next :: nat

text \<open>Without a ready connection the result is a picker that always fails.\<close>

definition Build :: "('k \<times> string) list \<Rightarrow> 'k picker option" where
  "Build readySCs =
     (if readySCs = [] then None
      else Some \<lparr>cons = map (\<lambda>(conn, addr). (addr, conn)) readySCs,
        addrToConn = fold (\<lambda>(conn, addr). AList.update addr conn) readySCs [],
        connCount = int (length readySCs), pick_next = 0\<rparr>)"

definition roundRobinConnection :: "('k picker, 'k) go" where
  "roundRobinConnection s =
     (if pick_next s < length (cons s)
      then (Ok (snd (cons s ! pick_next s)), s\<lparr>pick_next := nat (go_rem (int (pick_next s) + 1) (connCount s))\<rparr>)
      else (Panic, s))"

definition Pick :: "LoadBalancerConfig option \<Rightarrow> ('k picker, 'k \<times> LoadBalancerConfig option) go" where
  "Pick config s =
     (if connCount s = 1 then (case cons s of [] \<Rightarrow> (Panic, s) | c # _ \<Rightarrow> (Ok (snd c, config), s))
      else case config of
        None \<Rightarrow> go_bind roundRobinConnection (\<lambda>k. go_return (k, None)) s
      | Some cfg \<Rightarrow>
          (case (if appointAddr cfg \<noteq> [] then map_of (addrToConn s) (appointAddr cfg) else None) of
             Some con \<Rightarrow> (Ok (con, config), s)
           | None \<Rightarrow>
               if connCount s = 0 then (Panic, s)
               else let routeIndex = go_rem (hashCode (routeKey cfg)) (connCount s) in
                 if 0 \<le> routeIndex \<and> routeIndex < int (length (cons s))
                 then (case cons s ! nat routeIndex of
                         (addr, conn) \<Rightarrow> (Ok (conn, Some (cfg\<lparr>appointAddr := addr\<rparr>)), s))
                 else (Panic, s)))"

section \<open>Facts about a built picker\<close>

lemma hashCode_nonneg: "0 \<le> hashCode s"
  by (simp add: hashCode_def Let_def)

lemma find_entry:
  "distinct (map snd ready) \<Longrightarrow> find (\<lambda>p. snd p = addr) ready = Some p \<longleftrightarrow> p \<in> set ready \<and> snd p = addr"
proof (induction ready)
  case (Cons q ready)
  then show ?case by (cases "snd q = addr") (auto simp: image_iff)
qed simp

lemma update_all_map_of:
  fixes ready :: "('a \<times> string) list"
  assumes "distinct (map snd ready)"
  shows "map_of (fold (\<lambda>(conn, addr). AList.update addr conn) ready acc) addr =
     (case find (\<lambda>p. snd p = addr) ready of Some p \<Rightarrow> Some (fst p) | None \<Rightarrow> map_of acc addr)"
  using assms
proof (induction ready arbitrary: acc)
  case (Cons p ready acc)
  have "find (\<lambda>q. snd q = snd p) ready = None" using Cons.prems by (auto simp: find_None_iff rev_image_eqI)
  with Cons show ?case by (cases p) (auto simp: AList.update_conv split: option.split)
qed simp

lemma built_address:
  assumes "Build ready = Some p" and "distinct (map snd ready)"
  shows "map_of (addrToConn p) addr = Some k \<longleftrightarrow> (k, addr) \<in> set ready"
proof -
  have p: "addrToConn p = fold (\<lambda>(conn, addr). AList.update addr conn) ready []"
    using assms(1) by (auto simp: Build_def split: if_splits)
  show ?thesis unfolding p update_all_map_of [OF assms(2)]
  proof (cases "find (\<lambda>p. snd p = addr) ready")
    case None
    then show "(case find (\<lambda>p. snd p = addr) ready of None \<Rightarrow> map_of [] addr | Some p \<Rightarrow> Some (fst p)) = Some k \<longleftrightarrow> (k, addr) \<in> set ready"
      by (auto simp: find_None_iff) (metis None find_None_iff map_of.simps(1) not_None_eq option.simps(4))
  next
    case (Some q)
    then have q: "q \<in> set ready" "snd q = addr" using find_entry [OF assms(2)] by auto
    then have "(k, addr) \<in> set ready \<longleftrightarrow> fst q = k"
      using assms(2) by (metis eq_key_imp_eq_value distinct_map inj_onD prod.collapse fst_conv snd_conv)
    then show "(case find (\<lambda>p. snd p = addr) ready of None \<Rightarrow> map_of [] addr | Some p \<Rightarrow> Some (fst p)) = Some k \<longleftrightarrow> (k, addr) \<in> set ready"
      by (simp add: Some)
  qed
qed

lemma routed_pick:
  assumes "Build ready = Some p" and "length ready \<noteq> 1"
    and "appointAddr cfg = [] \<or> map_of (addrToConn p) (appointAddr cfg) = None"
    and "ready ! (nat (hashCode (routeKey cfg)) mod length ready) = (k, addr)"
  shows "Pick (Some cfg) p = (Ok (k, Some (cfg\<lparr>appointAddr := addr\<rparr>)), p)"
proof -
  let ?i = "hashCode (routeKey cfg) mod int (length ready)"
  have p: "cons p = map (\<lambda>(conn, addr). (addr, conn)) ready" "connCount p = int (length ready)" and ne: "ready \<noteq> []"
    using assms(1) by (auto simp: Build_def split: if_splits)
  then have n: "0 < int (length ready)" by simp
  have i: "0 \<le> ?i" "?i < int (length ready)" using n by simp_all
  have ni: "nat ?i = nat (hashCode (routeKey cfg)) mod length ready"
    using hashCode_nonneg [of "routeKey cfg"] by (simp add: nat_mod_distrib)
  have rem: "go_rem (hashCode (routeKey cfg)) (int (length ready)) = ?i"
    by (rule go_rem_nonneg [OF hashCode_nonneg n])
  have "nat (hashCode (routeKey cfg)) mod length ready < length ready" using ne by simp
  then have at: "cons p ! nat ?i = (addr, k)" using assms(4) by (simp add: p ni)
  have length_cons: "length (cons p) = length ready" by (simp add: p(1))
  have none: "(if appointAddr cfg \<noteq> [] then map_of (addrToConn p) (appointAddr cfg) else None) = None"
    using assms(3) by auto
  show ?thesis unfolding Pick_def using assms(2) i ne at none by (simp add: p(2) rem Let_def length_cons)
qed

lemma appointed_pick:
  assumes "map_of (addrToConn p) (appointAddr cfg) = Some k" and "appointAddr cfg \<noteq> []" and "connCount p \<noteq> 1"
  shows "Pick (Some cfg) p = (Ok (k, Some cfg), p)"
  using assms by (simp add: Pick_def)

text \<open>A number of picks without a configuration.\<close>

fun picks :: "nat \<Rightarrow> ('k picker, 'k list) go" where
  "picks 0 s = (Ok [], s)"
| "picks (Suc n) s = go_bind (Pick None) (\<lambda>r. go_bind (picks n) (\<lambda>ks. go_return (fst r # ks))) s"

lemma Pick_in_turn:
  assumes "cons p = xs" and "connCount p = int (length xs)" and "pick_next p < length xs"
  shows "Pick None p = (Ok (snd (xs ! pick_next p), None), p\<lparr>pick_next := (pick_next p + 1) mod length xs\<rparr>)"
proof (cases "length xs = 1")
  case True
  then obtain c where "xs = [c]" by (auto simp: length_Suc_conv)
  with assms show ?thesis by (simp add: Pick_def)
next
  case False
  have "go_rem (int (pick_next p) + 1) (int (length xs)) = int ((pick_next p + 1) mod length xs)"
    using assms(3) by (subst go_rem_nonneg) (auto simp: zmod_int add.commute)
  with False assms show ?thesis by (simp add: Pick_def roundRobinConnection_def go_bind_def)
qed

lemma picks_rotate:
  assumes "cons p = xs" and "connCount p = int (length xs)" and "pick_next p < length xs"
  shows "picks n p = (Ok (map (\<lambda>i. snd (xs ! ((pick_next p + i) mod length xs))) [0..<n]),
    p\<lparr>pick_next := (pick_next p + n) mod length xs\<rparr>)"
  using assms
proof (induction n arbitrary: p)
  case (Suc n p)
  let ?q = "p\<lparr>pick_next := (pick_next p + 1) mod length xs\<rparr>"
  have "pick_next ?q < length xs" using Suc.prems(3) by (auto intro: mod_less_divisor)
  with Suc.IH [of ?q] Suc.prems have q: "picks n ?q =
      (Ok (map (\<lambda>i. snd (xs ! ((pick_next ?q + i) mod length xs))) [0..<n]),
       ?q\<lparr>pick_next := (pick_next ?q + n) mod length xs\<rparr>)" by simp
  have shift: "map (\<lambda>i. snd (xs ! ((pick_next p + i) mod length xs))) [0..<Suc n] =
      snd (xs ! pick_next p) # map (\<lambda>i. snd (xs ! ((pick_next ?q + i) mod length xs))) [0..<n]"
    using Suc.prems(3) by (simp add: upt_conv_Cons map_Suc_upt [symmetric] mod_simps del: upt_Suc)
  show ?case unfolding shift using Pick_in_turn [OF Suc.prems] q by (simp add: go_bind_def mod_simps)
qed simp

lemma cycle_through:
  "map (\<lambda>i. xs ! (i mod length xs)) [0..<m * length xs] = concat (replicate m xs)"
proof (induction m)
  case (Suc m)
  let ?n = "length xs"
  have "map (\<lambda>i. xs ! (i mod ?n)) [0..<?n + m * ?n] =
      map (\<lambda>i. xs ! (i mod ?n)) [0..<?n] @ map (\<lambda>i. xs ! (i mod ?n)) [?n..<?n + m * ?n]"
    by (subst upt_add_eq_append) simp_all
  also have "map (\<lambda>i. xs ! (i mod ?n)) [0..<?n] = xs" by (intro nth_equalityI) simp_all
  also have "map (\<lambda>i. xs ! (i mod ?n)) [?n..<?n + m * ?n] = map (\<lambda>i. xs ! (i mod ?n)) [0..<m * ?n]"
    by (intro nth_equalityI) simp_all
  finally show ?case using Suc by simp
qed simp

section \<open>Properties\<close>


abbreviation two_ready :: "(nat \<times> string) list" where
  "two_ready \<equiv> [(1, ''a''), (2, ''b'')]"


text \<open>
  Round robin. Without a configuration the picks go through the ready connections in turn:
  \<open>m\<close> times as many picks as there are connections give each of them \<open>m\<close> times, in the order of
  the picker, and leave it where it started.
\<close>

theorem round_robin_fair:
  assumes "Build ready = Some p"
  shows "picks (m * length ready) p = (Ok (concat (replicate m (map fst ready))), p)"
proof -
  have p: "cons p = map (\<lambda>(conn, addr). (addr, conn)) ready" "connCount p = int (length ready)" "pick_next p = 0"
    and ne: "ready \<noteq> []" using assms by (auto simp: Build_def split: if_splits)
  have "map (\<lambda>i. snd (cons p ! (i mod length ready))) [0..<m * length ready] =
      map (\<lambda>i. map fst ready ! (i mod length ready)) [0..<m * length ready]"
    using ne by (auto simp: p(1) split_beta)
  with picks_rotate [of p "cons p" "m * length ready"] cycle_through [of "map fst ready" m] p ne show ?thesis by simp
qed

theorem round_robin_fair_witness:
  "picks 4 (the (Build two_ready)) = (Ok [1, 2, 1, 2], the (Build two_ready))"
  using round_robin_fair [of two_ready "the (Build two_ready)" 2] by (simp add: Build_def eval_nat_numeral)

end
