(* ===== verification/Spec2Isabelle.thy ===== *)
theory Spec2Isabelle
  imports Routine_Properties Fetcher_Gatherer Queue_Gauges Command_Line Default_Configs Exporters Receiver_Properties Client_Properties
    Client_Lifecycle Accept_Limiter Load_Balancer
begin

text \<open>
  A verification library for SkyWalking Satellite, a sidecar written in Go that collects telemetry
  data from agents and passes it on to a backend. All paths below are relative to \<open>src/\<close>.

  \<^bold>\<open>The program.\<close> The configuration (\<open>internal/satellite/config\<close>) names shared clients and servers and
  a list of pipes. \<open>internal/satellite/boot\<close> creates the plugins through the registry
  (\<open>internal/pkg/plugin\<close>), prepares them and starts the modules of each pipe. In a pipe a receiver
  (\<open>plugins/receiver\<close>) turns calls of agents into events; the gatherer
  (\<open>internal/satellite/module/gatherer\<close>) puts them into a partitioned queue (\<open>plugins/queue\<close>), takes them
  out of it and hands them through the processor to the sender (\<open>internal/satellite/module/sender\<close>),
  which buffers them and gives each batch to the forwarders (\<open>plugins/forwarder\<close>); a batch that
  fails goes to the fallbacker (\<open>plugins/fallbacker\<close>). Forwarders use the shared client
  (\<open>plugins/client\<close>), which chooses a connection for each call and tells the senders when the backend
  is gone; receivers use the shared server (\<open>plugins/server\<close>). The satellite reports about itself
  through \<open>internal/satellite/telemetry\<close>.

  \<^bold>\<open>How code becomes definitions.\<close> A struct is a record, an enumeration or a \<open>oneof\<close> a datatype, a
  function or method a definition of the same name, with a prefix where names of Go packages
  collide. A call that may fail, panic or never return has the type \<open>go\<close> of \<open>Prelude\<close>: state to
  outcome and state. A goroutine is given by what one turn of its loop does, or, where it waits in
  the middle of a turn, by its program counter; sequences of such turns are lists of actions or step
  relations. Unbuffered channels are rendezvous. Code outside
  of the repository is an argument of the definitions that call it: memory mapped files
  (\<open>mmap_lib\<close>, with the laws \<open>mmap_laws\<close>), the operating system (\<open>os_env\<close>), the FIFO package
  (\<open>fifo_lib\<close>), protobuf marshalling, the backend (\<open>grpc_env\<close>, an arbitrary function of the history
  of calls), the viper library (\<open>fill\<close>), logrus, the Prometheus library (\<open>prom_lib\<close>, with the laws
  \<open>prom_laws\<close>), TLS files and the Kubernetes discovery. \<open>Instances\<close> and the
  properties theories instantiate them by concrete functions.

  \<^bold>\<open>Foundations.\<close> \<open>Prelude\<close>: outcomes, sequencing, weakest preconditions, machine integers.
  \<open>Go_Strings\<close>: the parts of \<open>strings\<close> and \<open>strconv\<close> that are used. \<open>Event\<close>: \<open>event.go\<close> and the events.

  \<^bold>\<open>Queues.\<close>
  \<^item> \<open>Queue_Api\<close>: the interface of \<open>plugins/queue/api\<close> as a method table, and the locale \<open>queue_api\<close>: what
    a queue promises, a FIFO list.
  \<^item> \<open>Mmap_File\<close>, \<open>Metadata\<close>, \<open>Mmap_Queue\<close>: \<open>plugins/queue/mmap\<close> byte by byte: segments that are mapped,
    swapped out and locked, the metadata file, enqueue, dequeue, acknowledge, flush, close and
    initialize. \<open>Mmap_View\<close>, \<open>Mmap_Access\<close>, \<open>Mmap_Rw\<close>, \<open>Mmap_Refine\<close> prove that this is a FIFO queue
    (the interpretation \<open>mq\<close>), \<open>Mmap_Restart\<close> that closing and initializing restores it,
    \<open>Mmap_Swap\<close> when the swapper ends, \<open>Mmap_Steps\<close> that the invariant holds for all interleavings of
    the goroutines. The properties are in \<open>Mmap_Properties\<close>.
  \<^item> \<open>Memory_Queue\<close>: \<open>plugins/queue/memory\<close> and \<open>none\<close>. \<open>Partitioned_Queue\<close>: \<open>plugins/queue/partition\<close> over any
    queue with the interface, interpreted for both. Properties in \<open>Queue_Properties\<close>; \<open>Queue_Gauges\<close> is what
    the telemetry reports about a queue.

  \<^bold>\<open>Modules.\<close> \<open>Batch_Buffer\<close>, \<open>Fallbacker\<close>, \<open>Sender\<close>, \<open>Gatherer\<close> model the parts of a pipe and
  \<open>Pipeline\<close> one pipe whose turns are taken as a whole; the theorem of this theory says that such a
  pipe over memory mapped queues loses and duplicates nothing. Properties of the parts are in
  \<open>Module_Properties\<close>. \<open>Routines\<close> splits the turns: every goroutine of \<open>Boot\<close> of the three modules has a
  program counter, and \<open>act\<close> is one atomic action of a routine, or of two that meet on a channel, the
  cancellation and the end of the routines included. \<open>Routine_Invariant\<close> gives the invariant of
  all interleavings, \<open>Routine_Shutdown\<close> the states from which the pipe stops and those in which it
  never does; the properties are in \<open>Routine_Properties\<close>. There an acknowledgement changes the world
  of the sender only. \<open>Fetcher_Gatherer\<close>: the other gatherer, with its wait group, as a step relation.

  \<^bold>\<open>Forwarders and receivers.\<close> \<open>Grpc_Env\<close>: the connection as a history of calls. \<open>Forwarders\<close> and
  \<open>Envoy_Forwarders\<close>: the nineteen forwarders. \<open>Forwarder_Contract\<close>: what \<open>Forward\<close> promises, as a locale;
  \<open>Reliable_Forwarders\<close> interprets it for eleven forwarders; \<open>Forwarder_Properties\<close> also shows that
  five others do not keep it. \<open>Receivers\<close>, \<open>Envoy_Receivers\<close>: the services. \<open>Receiver_Table\<close>: their
  registration at the servers, and the HTTP server. \<open>Receiver_Properties\<close> shows that what a receiver makes of a stream is what the
  forwarder of the same protocol sends.

  \<^bold>\<open>Configuration and start.\<close> \<open>Env_Override\<close>, \<open>Plugin_Registry\<close>, \<open>Plugin_Catalogue\<close>, \<open>Boot\<close>: the overrides by
  environment variables, the fields that reach the plugins, the plugins that exist, and the start
  with its clean-up; properties in \<open>Config_Properties\<close>. \<open>Startup\<close> puts them together: \<open>Load\<close> and \<open>Start\<close>
  from the file to the running modules, with the types of all plugins that are created. \<open>Logger\<close>:
  \<open>internal/pkg/log\<close>, the set-up and the text of a line. \<open>Command_Line\<close>: \<open>cmd\<close>, the commands \<open>start\<close> and \<open>docs\<close>.

  \<^bold>\<open>What plugins say of themselves.\<close> \<open>Plugin_Table\<close> holds the names, descriptions and default
  configurations of all plugins, \<open>Default_Configs\<close> what they are good for. \<open>Plugin_Docs\<close> and \<open>Docs_Menu\<close>:
  the generator of the documentation (\<open>internal/satellite/tools\<close>), its pages, list and menu.

  \<^bold>\<open>Shared clients and servers.\<close>
  \<^item> \<open>Load_Balancer\<close>: \<open>plugins/client/grpc/lb\<close>; sticky routing and round robin.
  \<^item> \<open>Resolvers\<close>: \<open>plugins/client/grpc/resolvers\<close>; which addresses reach the connection, and when not.
  \<^item> \<open>Clients\<close>: \<open>plugins/client/grpc\<close> and \<open>plugins/client/kafka\<close>. The locale \<open>status_source\<close> states how a
    client notifies its listeners and is interpreted for both; updates that run at the same time
    are the step relation \<open>client_step\<close>. Properties in \<open>Client_Properties\<close>.
  \<^item> \<open>Client_Lifecycle\<close>: \<open>Start\<close> and \<open>Close\<close> of the clients, and notifications whose listener does not receive
    any more: they wait, and so does a \<open>flush\<close> routine of a stopped pipe that meets a lost backend.
  \<^item> \<open>Accept_Limiter\<close>: \<open>plugins/server/grpc\<close>; the atomic steps of the limit on connections as the
    relation \<open>limit_step\<close> with its invariant, on 32 bit integers; the codec.

  \<^bold>\<open>Telemetry.\<close> \<open>Metric_Labels\<close> and \<open>Metric_Service\<close>: \<open>internal/satellite/telemetry/metricservice\<close>, with the
  hashed store of labelled values refined to a map. \<open>Telemetry\<close>: \<open>telemetry.go\<close> and the server \<open>none\<close>;
  the locale \<open>counter_object_laws\<close> is what a user of a counter relies on, interpreted for the metrics
  service; properties in \<open>Telemetry_Properties\<close>. \<open>Prometheus\<close>: the servers \<open>prometheus\<close> and \<open>pprof\<close>; the locale
  \<open>counter_pair\<close> of \<open>Exporters\<close> joins two counters, and says that both exporters report the same.

  \<^bold>\<open>Bounds and loops.\<close> A Go \<open>int\<close> is an \<open>int\<close>; where a sum could leave 64 bits the theorems carry a
  bound (the relation \<open>pending n\<close> of a queue leaves room for \<open>n\<close> more calls). 32 and 64 bit counters
  and hashes that wrap around are words. Loops are structural or have a measure; the loops that
  may not end (the spin lock, \<open>doSwap\<close>, the watching goroutine of the resolver) give \<open>Hang\<close> or are
  partial functions, and that they end, or that they do not, is a theorem.

  \<^bold>\<open>What is not modelled.\<close> Listening on a port, and the HTTP endpoints of the telemetry, are calls of
  the standard library; the command line library is an argument. Interfaces have no code,
  and helpers of the tests are no part of the satellite. Log lines, tickers and timeouts are
  left out; reading the YAML file is viper's. The generated protobuf code and its wire format are
  arguments. Data races on plain memory are modelled only for the status of a client, the limit on
  connections and the buffers of a sender that is shut down; elsewhere a goroutine takes its steps
  one at a time. The shutdown of a sender and the calls on a queue are single steps of \<open>Routines\<close>.
\<close>

section \<open>A pipe with memory mapped queues\<close>

text \<open>
  Nothing is lost in a pipe. A pipe whose partitions are empty memory mapped queues and whose
  sender is just prepared runs through any sequence of steps: events from the receiver, moves
  from a partition through the processor to the sender, ticks of the flush timer, changes of the
  client's status. Every event the queue accepted is then in exactly one partition, and of every
  partition, the events the sender flushed, those in its buffer and those still in the queue are,
  in this order, the events routed there.
\<close>

theorem pipe_mmap_conservation:
  assumes "pq_pending (mq_pending lib os pb) (length evs + n) (runningQueue (gath x0)) (replicate k [])"
    and "sender_Prepare register k s0 = (Ok (), send x0)" and "0 < MaxBufferSize s0" and "flushLog s0 = []"
    and "pipe_run (mmap_ops lib os pb) x0 evs acc x"
  shows "\<exists>ess routed. pq_pending (mq_pending lib os pb) n (runningQueue (gath x)) ess \<and>
    length ess = length (buffers (send x)) \<and> length routed = length ess \<and> mset (concat routed) = mset acc \<and>
    (\<forall>p < length ess. passed_on (send x) p @ ess ! p = routed ! p)"
  using assms by (rule mmap_partitions.pipe_conserves)

end
